(* ===== verification/Prelude.thy ===== *)
theory Prelude
  imports Main "HOL-Library.Char_ord" "HOL-Library.List_Lexorder" "HOL-Library.Sublist" "HOL-Library.Multiset"
begin

text \<open>
  Shared ground of the development: the lemma collections, the fragment of JavaScript
  strings and of SQLite's three-valued logic that the sources use, JSON values, the
  order-preserving de-duplication of \<open>[...new Set(xs)]\<close>, the chunking of bound
  parameters (\<^verbatim>\<open>src/lib/d1-in-list.ts\<close>) and small facts on lists and options.

  Strings are \<open>char list\<close>; a \<open>char\<close> stands for one code unit U+0000 to U+00FF, so
  \<open>utf8_length\<close> counts one byte below U+0080 and two bytes from there on. The order
  on strings is lexicographic on code units: JavaScript's \<open><\<close> on strings and
  SQLite's BINARY collation agree with it on this range.
\<close>

named_theorems rank_simps \<open>facts on capability ranks\<close>
named_theorems sql_simps \<open>evaluation of three-valued SQL conditions\<close>
named_theorems row_simps \<open>selections from tables\<close>

section \<open>JavaScript strings\<close>

definition js_space :: "char \<Rightarrow> bool" where
  "js_space c \<longleftrightarrow> (let n = of_char c :: nat in 9 \<le> n \<and> n \<le> 13 \<or> n = 32 \<or> n = 160)"

definition trim :: "string \<Rightarrow> string" where
  "trim s = rev (dropWhile js_space (rev (dropWhile js_space s)))"

definition ascii_upper :: "char \<Rightarrow> bool" where
  "ascii_upper c \<longleftrightarrow> (let n = of_char c :: nat in 65 \<le> n \<and> n \<le> 90)"

definition lower_char :: "char \<Rightarrow> char" where
  "lower_char c = (if ascii_upper c then char_of (of_char c + 32 :: nat) else c)"

definition lower :: "string \<Rightarrow> string" where
  "lower s = map lower_char s"

fun utf8_length :: "string \<Rightarrow> nat" where
  "utf8_length [] = 0"
| "utf8_length (c # cs) = (if (of_char c :: nat) < 128 then 1 else 2) + utf8_length cs"

text \<open>A JavaScript value of type \<open>string | null | undefined\<close> in a condition.\<close>

definition truthy :: "string option \<Rightarrow> bool" where
  "truthy v \<longleftrightarrow> (case v of None \<Rightarrow> False | Some s \<Rightarrow> s \<noteq> [])"

text \<open>The operator \<open>??\<close>.\<close>

definition nullish :: "'a option \<Rightarrow> 'a option \<Rightarrow> 'a option" where
  "nullish a b = (case a of None \<Rightarrow> b | Some x \<Rightarrow> Some x)"

lemma truthy_simps [simp]: "\<not> truthy None" "truthy (Some s) \<longleftrightarrow> s \<noteq> []"
  by (simp_all add: truthy_def)

lemma truthyE [elim]:
  assumes "truthy v"
  obtains s where "v = Some s" "s \<noteq> []"
  using assms by (cases v) auto

lemma nullish_simps [simp]: "nullish None b = b" "nullish (Some x) b = Some x"
  by (simp_all add: nullish_def)

lemma trim_Nil [simp]: "trim [] = []"
  by (simp add: trim_def)

lemma trim_eq_Nil_iff: "trim s = [] \<longleftrightarrow> (\<forall>c \<in> set s. js_space c)"
proof -
  have "trim s = [] \<longleftrightarrow> (\<forall>c \<in> set (dropWhile js_space s). js_space c)"
    by (simp add: trim_def)
  also have "\<dots> \<longleftrightarrow> (\<forall>c \<in> set s. js_space c)"
    by (metis dropWhile_eq_Nil_conv hd_dropWhile hd_in_set set_dropWhileD)
  finally show ?thesis .
qed

lemma length_utf8_length: "length s \<le> utf8_length s"
  by (induction s) auto

section \<open>JSON values\<close>

text \<open>
  A parsed JSON value. A number is an integer or \<open>JFrac\<close>, any number that is not one. JavaScript prints an integer of
  magnitude \<open>10\<^sup>21\<close> and more in exponent form; such a number stands for the double whose shortest decimal it is. An object is
  the list of its properties, with distinct keys.
\<close>

datatype json =
    JNull
  | JBool bool
  | JNum int
  | JFrac
  | JStr string
  | JArr "json list"
  | JObj "(string \<times> json) list"

fun digits_of :: "nat \<Rightarrow> string" where
  "digits_of n = (if n < 10 then [char_of (48 + n)] else digits_of (n div 10) @ [char_of (48 + n mod 10)])"

declare digits_of.simps [simp del]

definition print_int :: "int \<Rightarrow> string" where
  "print_int i = (if i < 0 then CHR ''-'' # digits_of (nat (- i)) else digits_of (nat i))"

definition print_number :: "int \<Rightarrow> string" where
  "print_number i =
     (if \<bar>i\<bar> < 10 ^ 21 then print_int i
      else
        (let ds = digits_of (nat \<bar>i\<bar>); ms = rev (dropWhile (\<lambda>c. c = CHR ''0'') (rev ds)) in
         (if i < 0 then ''-'' else []) @ take 1 ms @ (if 1 < length ms then ''.'' @ drop 1 ms else []) @ ''e+'' @
           digits_of (length ds - 1)))"

definition hex_digit :: "nat \<Rightarrow> char" where
  "hex_digit n = (if n < 10 then char_of (48 + n) else char_of (87 + n))"

text \<open>Escaping of one code unit in \<open>JSON.stringify\<close>.\<close>

definition json_escape :: "char \<Rightarrow> string" where
  "json_escape c =
     (let n = of_char c :: nat; bs = [char_of (92 :: nat)] in
      if n = 34 then bs @ [c]
      else if n = 92 then bs @ [c]
      else if n = 8 then bs @ ''b''
      else if n = 12 then bs @ ''f''
      else if n = 10 then bs @ ''n''
      else if n = 13 then bs @ ''r''
      else if n = 9 then bs @ ''t''
      else if n < 32 then bs @ ''u00'' @ [hex_digit (n div 16), hex_digit (n mod 16)]
      else [c])"

definition quote :: "string \<Rightarrow> string" where
  "quote s = [char_of (34 :: nat)] @ concat (map json_escape s) @ [char_of (34 :: nat)]"

fun join :: "string \<Rightarrow> string list \<Rightarrow> string" where
  "join sep [] = []"
| "join sep [x] = x"
| "join sep (x # y # ys) = x @ sep @ join sep (y # ys)"

fun stringify :: "json \<Rightarrow> string" where
  "stringify JNull = ''null''"
| "stringify (JBool b) = (if b then ''true'' else ''false'')"
| "stringify (JNum i) = print_number i"
| "stringify JFrac = ''0.5''"
| "stringify (JStr s) = quote s"
| "stringify (JArr xs) = ''['' @ join '','' (map stringify xs) @ '']''"
| "stringify (JObj kvs) = ''{'' @ join '','' (map (\<lambda>(k, v). quote k @ '':'' @ stringify v) kvs) @ ''}''"

abbreviation field :: "(string \<times> json) list \<Rightarrow> string \<Rightarrow> json option" where
  "field obj k \<equiv> map_of obj k"

definition as_string :: "json option \<Rightarrow> string option" where
  "as_string v = (case v of Some (JStr s) \<Rightarrow> Some s | _ \<Rightarrow> None)"

lemma as_string_simps [simp]:
  "as_string None = None" "as_string (Some (JStr s)) = Some s" "as_string (Some JNull) = None"
  by (simp_all add: as_string_def)

definition isNonEmptyString :: "json option \<Rightarrow> bool" where
  "isNonEmptyString v = (case as_string v of None \<Rightarrow> False | Some s \<Rightarrow> trim s \<noteq> [])"

section \<open>Sequencing of steps that may refuse\<close>

fun and_then :: "'e + 'a \<Rightarrow> ('a \<Rightarrow> 'e + 'b) \<Rightarrow> 'e + 'b" where
  "and_then (Inl e) f = Inl e"
| "and_then (Inr x) f = f x"

lemma and_then_Inr_iff: "and_then m f = Inr y \<longleftrightarrow> (\<exists>x. m = Inr x \<and> f x = Inr y)"
  by (cases m) auto

section \<open>De-duplication in first-occurrence order\<close>

fun unique_from :: "'a list \<Rightarrow> 'a list \<Rightarrow> 'a list" where
  "unique_from seen [] = []"
| "unique_from seen (x # xs) =
     (if x \<in> set seen then unique_from seen xs else x # unique_from (x # seen) xs)"

definition unique :: "'a list \<Rightarrow> 'a list" where
  "unique xs = unique_from [] xs"

lemma set_unique_from: "set (unique_from seen xs) = set xs - set seen"
  by (induction seen xs rule: unique_from.induct) auto

lemma distinct_unique_from: "distinct (unique_from seen xs)"
  by (induction seen xs rule: unique_from.induct) (auto simp: set_unique_from)

lemma unique_from_id: "distinct xs \<Longrightarrow> set xs \<inter> set seen = {} \<Longrightarrow> unique_from seen xs = xs"
  by (induction seen xs rule: unique_from.induct) auto

lemma length_unique_from: "length (unique_from seen xs) \<le> length xs"
  by (induction seen xs rule: unique_from.induct) auto

lemma set_unique [simp]: "set (unique xs) = set xs"
  by (simp add: unique_def set_unique_from)

lemma distinct_unique [simp]: "distinct (unique xs)"
  by (simp add: unique_def distinct_unique_from)

lemma unique_id: "distinct xs \<Longrightarrow> unique xs = xs"
  by (simp add: unique_def unique_from_id)

lemma unique_Nil [simp]: "unique [] = []"
  by (simp add: unique_def)

lemma unique_eq_Nil [simp]: "unique xs = [] \<longleftrightarrow> xs = []"
  by (metis set_empty set_unique)

lemma length_unique: "length (unique xs) \<le> length xs"
  by (simp add: unique_def length_unique_from)

section \<open>Three-valued SQL conditions\<close>

text \<open>\<open>None\<close> is SQL's NULL; a \<open>WHERE\<close> keeps a row only when its condition is \<open>Some True\<close>.\<close>

type_synonym sql_bool = "bool option"

fun sql_and :: "sql_bool \<Rightarrow> sql_bool \<Rightarrow> sql_bool" where
  "sql_and (Some False) _ = Some False"
| "sql_and _ (Some False) = Some False"
| "sql_and (Some True) b = b"
| "sql_and None _ = None"

fun sql_or :: "sql_bool \<Rightarrow> sql_bool \<Rightarrow> sql_bool" where
  "sql_or (Some True) _ = Some True"
| "sql_or _ (Some True) = Some True"
| "sql_or (Some False) b = b"
| "sql_or None _ = None"

definition sql_gt :: "int option \<Rightarrow> int option \<Rightarrow> sql_bool" where
  "sql_gt a b = (case (a, b) of (Some x, Some y) \<Rightarrow> Some (y < x) | _ \<Rightarrow> None)"

definition sql_eq :: "'a option \<Rightarrow> 'a option \<Rightarrow> sql_bool" where
  "sql_eq a b = (case (a, b) of (Some x, Some y) \<Rightarrow> Some (x = y) | _ \<Rightarrow> None)"

definition holds :: "sql_bool \<Rightarrow> bool" where
  "holds b \<longleftrightarrow> b = Some True"

lemma holds_and [sql_simps]: "holds (sql_and a b) \<longleftrightarrow> holds a \<and> holds b"
  by (cases "(a, b)" rule: sql_and.cases) (auto simp: holds_def)

lemma holds_or [sql_simps]: "holds (sql_or a b) \<longleftrightarrow> holds a \<or> holds b"
  by (cases "(a, b)" rule: sql_or.cases) (auto simp: holds_def)

lemma holds_Some [sql_simps]: "holds (Some p) \<longleftrightarrow> p"
  by (simp add: holds_def)

lemma holds_gt [sql_simps]: "holds (sql_gt a b) \<longleftrightarrow> (\<exists>x y. a = Some x \<and> b = Some y \<and> y < x)"
  by (auto simp: holds_def sql_gt_def split: option.splits)

lemma holds_eq [sql_simps]: "holds (sql_eq a b) \<longleftrightarrow> (\<exists>x. a = Some x \<and> b = Some x)"
  by (auto simp: holds_def sql_eq_def split: option.splits)

section \<open>Selections\<close>

text \<open>\<open>... LIMIT 1\<close> with \<open>.first()\<close>: the first row in table order that satisfies the condition.\<close>

definition first_row :: "('r \<Rightarrow> bool) \<Rightarrow> 'r list \<Rightarrow> 'r option" where
  "first_row p rows = find p rows"

definition exists_row :: "('r \<Rightarrow> bool) \<Rightarrow> 'r list \<Rightarrow> bool" where
  "exists_row p rows = list_ex p rows"

lemma exists_row_iff [row_simps]: "exists_row p rows \<longleftrightarrow> (\<exists>r \<in> set rows. p r)"
  by (simp add: exists_row_def list_ex_iff)

lemma first_row_Some: "first_row p rows = Some r \<Longrightarrow> r \<in> set rows \<and> p r"
  by (auto simp: first_row_def find_Some_iff)

lemma first_row_None: "first_row p rows = None \<longleftrightarrow> (\<forall>r \<in> set rows. \<not> p r)"
  by (auto simp: first_row_def find_None_iff)

lemma first_row_cong: "(\<And>r. r \<in> set rows \<Longrightarrow> p r = q r) \<Longrightarrow> first_row p rows = first_row q rows"
  unfolding first_row_def by (induction rows) auto

text \<open>Reading by a unique key.\<close>

lemma first_row_key:
  assumes "distinct (map k rows)" "r \<in> set rows"
  shows "first_row (\<lambda>x. k x = k r) rows = Some r"
  using assms unfolding first_row_def by (induction rows) (auto simp: rev_image_eqI)

lemma filter_key:
  assumes "distinct (map k rows)"
  shows "filter (\<lambda>x. k x = v \<and> q x) rows =
    (case first_row (\<lambda>x. k x = v) rows of None \<Rightarrow> [] | Some r \<Rightarrow> if q r then [r] else [])"
  using assms
proof (induction rows)
  case (Cons r rows)
  show ?case
  proof (cases "k r = v")
    case True
    with Cons.prems have "filter (\<lambda>x. k x = v \<and> q x) rows = []"
      by (auto simp: filter_empty_conv rev_image_eqI)
    with True show ?thesis by (simp add: first_row_def)
  next
    case False
    with Cons show ?thesis by (simp add: first_row_def)
  qed
qed (simp add: first_row_def)

lemma first_row_filter:
  "first_row p rows = (case filter p rows of [] \<Rightarrow> None | r # _ \<Rightarrow> Some r)"
  unfolding first_row_def by (induction rows) auto

lemma case_map_filter:
  "(case map f (filter p rows) of [] \<Rightarrow> z | r # _ \<Rightarrow> g r) =
   (case first_row p rows of None \<Rightarrow> z | Some r \<Rightarrow> g (f r))"
  by (simp add: first_row_filter split: list.splits)

section \<open>Chunks of bound parameters\<close>

function chunks :: "nat \<Rightarrow> 'a list \<Rightarrow> 'a list list" where
  "chunks n xs = (if n = 0 \<or> xs = [] then [] else take n xs # chunks n (drop n xs))"
  by pat_completeness auto
termination
  by (relation "measure (\<lambda>(n, xs). length xs)") auto

declare chunks.simps [simp del]

datatype range_error = RangeError

text \<open>\<open>chunkForD1InList(values, size, fixedParams)\<close>, the ceiling of 100 parameters per statement.\<close>

definition chunkForD1InList :: "'a list \<Rightarrow> nat option \<Rightarrow> nat \<Rightarrow> range_error + 'a list list" where
  "chunkForD1InList values chunk_size fixedParams =
     (let effective = (case chunk_size of Some n \<Rightarrow> int n | None \<Rightarrow> min 90 (100 - int fixedParams)) in
      if effective < 1 \<or> effective \<ge> 100 \<or> effective + int fixedParams > 100 then Inl RangeError
      else Inr (chunks (nat effective) values))"

lemma concat_chunks: "0 < n \<Longrightarrow> concat (chunks n xs) = xs"
proof (induction n xs rule: chunks.induct)
  case (1 n xs)
  then show ?case
    by (cases "xs = []") (simp_all add: chunks.simps [of n xs] chunks.simps [of n "[]"])
qed

lemma chunks_length: "c \<in> set (chunks n xs) \<Longrightarrow> c \<noteq> [] \<and> length c \<le> n"
proof (induction n xs rule: chunks.induct)
  case (1 n xs)
  then show ?case
    by (cases "n = 0 \<or> xs = []") (auto simp: chunks.simps [of n xs])
qed

lemma chunkForD1InList_Inr:
  assumes "chunkForD1InList vs sz fixed = Inr cs"
  shows "concat cs = vs" and "c \<in> set cs \<Longrightarrow> c \<noteq> [] \<and> length c + fixed \<le> 100"
proof -
  define e where "e = (case sz of Some n \<Rightarrow> int n | None \<Rightarrow> min 90 (100 - int fixed))"
  have e: "1 \<le> e" "e + int fixed \<le> 100" "cs = chunks (nat e) vs"
    using assms unfolding chunkForD1InList_def Let_def e_def [symmetric]
    by (auto split: if_splits)
  then show "concat cs = vs" by (simp add: concat_chunks)
  show "c \<noteq> [] \<and> length c + fixed \<le> 100" if "c \<in> set cs"
    using chunks_length [of c "nat e" vs] that e by auto
qed

lemma chunkForD1InList_default:
  "fixed \<le> 10 \<Longrightarrow> chunkForD1InList vs None fixed = Inr (chunks 90 vs)"
  by (simp add: chunkForD1InList_def)

text \<open>Selecting one key out of a partition into chunks.\<close>

lemma concat_map_select:
  assumes "distinct (concat cs)" and "i \<in> set (concat cs)"
  shows "concat (map (\<lambda>c. if i \<in> set c then ys else []) cs) = ys"
  using assms
proof (induction cs)
  case (Cons c cs)
  show ?case
  proof (cases "i \<in> set c")
    case True
    with Cons.prems have "concat (map (\<lambda>c. if i \<in> set c then ys else []) cs) = []"
      by auto
    with True show ?thesis by simp
  next
    case False
    with Cons show ?thesis by simp
  qed
qed simp

section \<open>Lists\<close>

lemma foldl_max_ge: "(m::nat) \<le> foldl max m xs"
  by (induction xs arbitrary: m) (auto intro: order_trans [OF max.cobounded1])

lemma foldl_max_le_iff: "foldl max (m::nat) xs \<le> b \<longleftrightarrow> m \<le> b \<and> (\<forall>x \<in> set xs. x \<le> b)"
  by (induction xs arbitrary: m) auto

lemma le_foldl_max_iff: "b \<le> foldl max (m::nat) xs \<longleftrightarrow> b \<le> m \<or> (\<exists>x \<in> set xs. b \<le> x)"
  by (induction xs arbitrary: m) (auto simp: le_max_iff_disj)

lemma foldl_max_split: "foldl max (m::nat) xs = max m (foldl max 0 xs)"
proof (induction xs arbitrary: m)
  case (Cons x xs)
  show ?case using Cons.IH [of "max m x"] Cons.IH [of x] by (simp add: max.assoc)
qed simp

lemma foldl_skip_max:
  "foldl (\<lambda>m x. if p x then m else max m (f x)) (m::nat) xs = foldl max m (map f (filter (\<lambda>x. \<not> p x) xs))"
  by (induction xs arbitrary: m) auto

end
