(* ===== verification/Auth_Types.thy ===== *)
theory Auth_Types
  imports Prelude
begin

text \<open>
  The data of the authority layer: the types of \<^verbatim>\<open>src/types.ts\<close> that capability checks
  read (capabilities, scopes, squads, grants, the request's \<open>AuthContext\<close>), the
  tables they are loaded from, and the attached-seat module
  \<^verbatim>\<open>src/auth/attached-ceiling.ts\<close>. A table is the list of its rows; \<open>auth_env\<close>
  bundles the tables with the clock and the tenant. Two of its fields are parameters
  that stand for code outside this development: \<open>julianday\<close>, SQLite's reading of a
  timestamp text (\<open>None\<close> where it returns NULL), and \<open>hasElevatedAction\<close>, the
  time-boxed elevation check of \<^verbatim>\<open>src/auth/elevation.ts\<close>.
\<close>

section \<open>Capabilities, scopes and grants\<close>

datatype capability = Owner | Admin | Lead | Member | Observer

datatype role = Role_owner | Role_admin | Role_member

datatype scope_type = Org | Department | Squad

datatype org_kind = Work | Home

record squad_scope =
  sq_id :: string
  sq_department_id :: string
  sq_kind :: org_kind

record capability_grant =
  g_member_id :: string
  g_scope_type :: scope_type
  g_scope_id :: "string option"
  g_capability :: capability

record capability_row = capability_grant +
  g_expires_at :: "string option"

record channel_grant_row =
  ccg_member_id :: string
  ccg_squad_id :: string
  ccg_capability :: capability

record member_row =
  m_id :: string
  m_email :: "string option"
  m_tenant :: string
  m_active :: bool

record user_row =
  u_email :: "string option"
  u_role :: role

record login_identity_row =
  li_tenant :: string
  li_member_id :: string
  li_revoked_at :: "string option"
  li_verified_email :: "string option"

section \<open>The request's authority\<close>

datatype attach_ceiling = Ceil_member | Ceil_lead | Ceil_full

record attached_seat =
  at_attachmentId :: string
  at_admissionId :: string
  at_agentId :: string
  at_seatAgentId :: string
  at_ceiling :: attach_ceiling

record seat_binding =
  sb_seatId :: string
  sb_grantTokenId :: string
  sb_humanMemberId :: string
  sb_attached :: "attached_seat option"

record auth_context =
  userId :: string
  auth_role :: role
  memberId :: "string option"
  capabilities :: "capability_grant list option"
  latentCapabilities :: "capability_grant list option"
  boundAgentId :: "string option"
  webSessionIdHash :: "string option"
  webSessionMemberId :: "string option"
  seatBinding :: "seat_binding option"

record auth_env =
  t_capabilities :: "capability_row list"
  t_channel_grants :: "channel_grant_row list"
  t_squads :: "squad_scope list"
  t_members :: "member_row list"
  t_users :: "user_row list"
  t_identities :: "login_identity_row list"
  now_sql :: string
  TENANT_SLUG :: string
  julianday :: "string \<Rightarrow> int option"
  hasElevatedAction :: "auth_context \<Rightarrow> string \<Rightarrow> string \<Rightarrow> bool"

text \<open>The key constraints the schema declares: \<open>squads.id\<close> and \<open>members.id\<close> are primary keys.\<close>

definition wf_env :: "auth_env \<Rightarrow> bool" where
  "wf_env env \<longleftrightarrow> distinct (map sq_id (t_squads env)) \<and> distinct (map m_id (t_members env))"

section \<open>The attached seat\<close>

record attached_authority =
  aa_attachmentId :: string
  aa_humanMemberId :: string
  aa_agentId :: string
  aa_ceiling :: attach_ceiling

definition isAttachCeiling :: "string \<Rightarrow> bool" where
  "isAttachCeiling v \<longleftrightarrow> v \<in> set [''member'', ''lead'', ''full'']"

fun ceilingCapability :: "attach_ceiling \<Rightarrow> capability option" where
  "ceilingCapability Ceil_member = Some Member"
| "ceilingCapability Ceil_lead = Some Lead"
| "ceilingCapability Ceil_full = None"

definition attachedAuthority :: "auth_context \<Rightarrow> attached_authority option" where
  "attachedAuthority auth =
     (case seatBinding auth of
        None \<Rightarrow> None
      | Some b \<Rightarrow>
          (case sb_attached b of
             None \<Rightarrow> None
           | Some a \<Rightarrow> Some \<lparr>aa_attachmentId = at_attachmentId a, aa_humanMemberId = sb_humanMemberId b,
                aa_agentId = at_agentId a, aa_ceiling = at_ceiling a\<rparr>))"

record attachment_attribution =
  att_attachmentId :: string
  att_consentingMemberId :: string

definition attachmentAttribution :: "auth_context \<Rightarrow> attachment_attribution option" where
  "attachmentAttribution auth =
     map_option (\<lambda>a. \<lparr>att_attachmentId = aa_attachmentId a, att_consentingMemberId = aa_humanMemberId a\<rparr>)
       (attachedAuthority auth)"

record verdict_attribution = attachment_attribution +
  va_seatId :: string
  va_grantTokenId :: string

definition verdictAttribution :: "auth_context \<Rightarrow> verdict_attribution option" where
  "verdictAttribution auth =
     (case (attachedAuthority auth, seatBinding auth) of
        (Some a, Some b) \<Rightarrow> Some \<lparr>att_attachmentId = aa_attachmentId a,
           att_consentingMemberId = aa_humanMemberId a, va_seatId = sb_seatId b,
           va_grantTokenId = sb_grantTokenId b\<rparr>
      | _ \<Rightarrow> None)"

definition isAttachedSudoAction :: "string \<Rightarrow> bool" where
  "isAttachedSudoAction action \<longleftrightarrow> action \<in> set [''action:org_structure'']"

text \<open>The two attributions are derived from the same binding and name the same human.\<close>

lemma verdictAttribution_extends:
  "map_option attachment_attribution.truncate (verdictAttribution auth) = attachmentAttribution auth"
  by (auto simp: verdictAttribution_def attachmentAttribution_def attachedAuthority_def
      attachment_attribution.defs split: option.splits)

end
