(* ===== verification/Capability.thy ===== *)
theory Capability
  imports Auth_Types
begin

text \<open>
  The capability core, \<^verbatim>\<open>src/auth/capability.ts\<close>: the rank ladder, the loading of
  live grants, the scope-inheritance check with its exclusion of private home squads, the
  middleware decision, the rank of an actor and of a target, the target ceiling in its
  single and bulk form, and the SQL fragments that mirror the checks inside a write.
\<close>

section \<open>The rank ladder\<close>

fun capabilityRank :: "capability \<Rightarrow> nat" where
  "capabilityRank Observer = 1"
| "capabilityRank Member = 2"
| "capabilityRank Lead = 3"
| "capabilityRank Admin = 4"
| "capabilityRank Owner = 5"

definition meets :: "capability \<Rightarrow> capability \<Rightarrow> bool" where
  "meets have_cap min_cap \<longleftrightarrow> capabilityRank have_cap \<ge> capabilityRank min_cap"

fun legacyRoleRank :: "role \<Rightarrow> nat" where
  "legacyRoleRank Role_owner = capabilityRank Owner"
| "legacyRoleRank Role_admin = capabilityRank Admin"
| "legacyRoleRank Role_member = 0"

definition legacyRoleSatisfies :: "role \<Rightarrow> capability \<Rightarrow> bool" where
  "legacyRoleSatisfies r min_cap \<longleftrightarrow> legacyRoleRank r \<ge> capabilityRank min_cap"

text \<open>\<open>RANK_SQL_CASE(column)\<close> applied to a role column: the capability ladder read off the
  role's name.\<close>

fun rankSqlCaseOfRole :: "role \<Rightarrow> nat" where
  "rankSqlCaseOfRole Role_owner = capabilityRank Owner"
| "rankSqlCaseOfRole Role_admin = capabilityRank Admin"
| "rankSqlCaseOfRole Role_member = capabilityRank Member"

section \<open>Loading grants\<close>

definition CAPABILITY_CLOCK_FLOOR :: string where
  "CAPABILITY_CLOCK_FLOOR = ''2026-01-01''"

definition CAPABILITY_LIVE_PREDICATE :: "auth_env \<Rightarrow> string option \<Rightarrow> sql_bool" where
  "CAPABILITY_LIVE_PREDICATE env expires_at =
     (let jd = julianday env in
      sql_or (Some (expires_at = None))
        (sql_and (sql_gt (jd (now_sql env)) (jd CAPABILITY_CLOCK_FLOOR))
                 (sql_gt (Option.bind expires_at jd) (jd (now_sql env)))))"

definition CAPABILITY_LAPSED_PREDICATE :: "auth_env \<Rightarrow> string option \<Rightarrow> sql_bool" where
  "CAPABILITY_LAPSED_PREDICATE env expires_at =
     sql_and (Some (expires_at \<noteq> None))
       (Some (case CAPABILITY_LIVE_PREDICATE env expires_at of None \<Rightarrow> True | Some b \<Rightarrow> \<not> b))"

definition loadSquadScope :: "auth_env \<Rightarrow> string \<Rightarrow> squad_scope option" where
  "loadSquadScope env squadId = first_row (\<lambda>s. sq_id s = squadId) (t_squads env)"

definition grant_of_row :: "capability_row \<Rightarrow> capability_grant" where
  "grant_of_row r = capability_grant.truncate r"

definition grant_of_channel :: "channel_grant_row \<Rightarrow> capability_grant" where
  "grant_of_channel c = \<lparr>g_member_id = ccg_member_id c, g_scope_type = Squad,
     g_scope_id = Some (ccg_squad_id c), g_capability = ccg_capability c\<rparr>"

text \<open>The two arms of the query, for the members a \<open>WHERE\<close> condition selects.\<close>

definition capability_arm :: "auth_env \<Rightarrow> (string \<Rightarrow> bool) \<Rightarrow> capability_grant list" where
  "capability_arm env sel =
     map grant_of_row
       (filter (\<lambda>r. sel (g_member_id r) \<and> holds (CAPABILITY_LIVE_PREDICATE env (g_expires_at r)))
          (t_capabilities env))"

definition channel_arm :: "auth_env \<Rightarrow> (string \<Rightarrow> bool) \<Rightarrow> capability_grant list" where
  "channel_arm env sel =
     concat (map (\<lambda>c. map (\<lambda>s. grant_of_channel c)
         (filter (\<lambda>s. sq_id s = ccg_squad_id c \<and> sel (ccg_member_id c) \<and> sq_kind s \<noteq> Home) (t_squads env)))
       (t_channel_grants env))"

definition resolveCapabilities :: "auth_env \<Rightarrow> string \<Rightarrow> capability_grant list" where
  "resolveCapabilities env member =
     capability_arm env (\<lambda>m. m = member) @ channel_arm env (\<lambda>m. m = member)"

definition push_grant ::
  "(string \<rightharpoonup> capability_grant list) \<Rightarrow> capability_grant \<Rightarrow> (string \<rightharpoonup> capability_grant list)" where
  "push_grant out g =
     (case out (g_member_id g) of None \<Rightarrow> out | Some gs \<Rightarrow> out(g_member_id g \<mapsto> gs @ [g]))"

definition resolveCapabilitiesForMembers ::
  "auth_env \<Rightarrow> string list \<Rightarrow> (string \<rightharpoonup> capability_grant list)" where
  "resolveCapabilitiesForMembers env memberIds =
     (let distinct_ids = unique memberIds;
          out = (\<lambda>m. if m \<in> set distinct_ids then Some [] else None);
          chunk_list = (case chunkForD1InList distinct_ids None 1 of Inl _ \<Rightarrow> [] | Inr cs \<Rightarrow> cs);
          results = map (\<lambda>chunk. capability_arm env (\<lambda>m. m \<in> set chunk) @
                                 channel_arm env (\<lambda>m. m \<in> set chunk)) chunk_list
      in foldl push_grant out (concat results))"

section \<open>The pure check\<close>

datatype capability_plane = Org_plane | Department_plane | Role_plane

definition planeCoversScope :: "capability_plane \<Rightarrow> squad_scope \<Rightarrow> bool" where
  "planeCoversScope plane scope \<longleftrightarrow> sq_kind scope \<noteq> Home"

datatype capability_target = Org_target | Department_target string | Squad_target squad_scope

fun hasCapability :: "capability_grant list \<Rightarrow> capability_target \<Rightarrow> capability \<Rightarrow> bool" where
  "hasCapability grants (Squad_target scope) min_cap =
     list_ex (\<lambda>g.
         g_scope_type g = Squad \<and> g_scope_id g = Some (sq_id scope) \<and> meets (g_capability g) min_cap
       \<or> g_scope_type g = Org \<and> meets (g_capability g) min_cap \<and> planeCoversScope Org_plane scope
       \<or> g_scope_type g = Department \<and> g_scope_id g = Some (sq_department_id scope)
           \<and> meets (g_capability g) min_cap \<and> planeCoversScope Department_plane scope) grants"
| "hasCapability grants Org_target min_cap =
     list_ex (\<lambda>g.
         g_scope_type g = Org \<and> meets (g_capability g) min_cap
       \<or> g_scope_type g = Org \<and> g_scope_id g = None \<and> meets (g_capability g) min_cap) grants"
| "hasCapability grants (Department_target d) min_cap =
     list_ex (\<lambda>g.
         g_scope_type g = Org \<and> meets (g_capability g) min_cap
       \<or> g_scope_type g = Department \<and> g_scope_id g = Some d \<and> meets (g_capability g) min_cap) grants"

definition hasCapabilityOnDynamicScope ::
  "auth_env \<Rightarrow> capability_grant list \<Rightarrow> scope_type \<Rightarrow> string option \<Rightarrow> capability \<Rightarrow> bool" where
  "hasCapabilityOnDynamicScope env grants scopeType scopeId min_cap =
     (case scopeType of
        Org \<Rightarrow> hasCapability grants Org_target min_cap
      | Department \<Rightarrow>
          (case scopeId of
             None \<Rightarrow> False
           | Some d \<Rightarrow> if d = [] then False else hasCapability grants (Department_target d) min_cap)
      | Squad \<Rightarrow>
          (case scopeId of
             None \<Rightarrow> False
           | Some sid \<Rightarrow>
               if sid = [] then False
               else (case loadSquadScope env sid of
                       None \<Rightarrow> False
                     | Some scope \<Rightarrow> hasCapability grants (Squad_target scope) min_cap)))"

definition isOrgAdmin :: "auth_context option \<Rightarrow> bool" where
  "isOrgAdmin auth =
     (case auth of
        None \<Rightarrow> False
      | Some a \<Rightarrow>
          if auth_role a = Role_owner \<or> auth_role a = Role_admin then True
          else (case capabilities a of
                  None \<Rightarrow> False
                | Some gs \<Rightarrow> hasCapability gs Org_target Admin))"

definition displayRole :: "auth_context \<Rightarrow> role" where
  "displayRole a =
     (if auth_role a = Role_owner then Role_owner
      else if (case capabilities a of None \<Rightarrow> False | Some gs \<Rightarrow> hasCapability gs Org_target Owner)
        then Role_owner
      else if isOrgAdmin (Some a) then Role_admin
      else auth_role a)"

definition sessionMemberId :: "auth_context \<Rightarrow> string option" where
  "sessionMemberId a = nullish (memberId a) (webSessionMemberId a)"

definition holdsCapabilityFloor :: "auth_context \<Rightarrow> capability \<Rightarrow> bool" where
  "holdsCapabilityFloor a min_cap =
     (case capabilities a of
        None \<Rightarrow> legacyRoleSatisfies (auth_role a) min_cap
      | Some gs \<Rightarrow> list_ex (\<lambda>g. meets (g_capability g) min_cap) gs)"

definition hasWorkspaceAdmin :: "auth_context \<Rightarrow> bool" where
  "hasWorkspaceAdmin a =
     (case capabilities a of
        None \<Rightarrow> auth_role a = Role_owner \<or> auth_role a = Role_admin
      | Some gs \<Rightarrow> hasCapability gs Org_target Admin)"

section \<open>Squad checks on both authority planes\<close>

datatype squad_ref = By_id string | By_scope squad_scope

definition resolveSquadScopeArg :: "auth_env \<Rightarrow> squad_ref \<Rightarrow> squad_scope option" where
  "resolveSquadScopeArg env ref =
     (case ref of By_id i \<Rightarrow> loadSquadScope env i | By_scope s \<Rightarrow> Some s)"

definition canOnSquad :: "auth_env \<Rightarrow> capability_grant list \<Rightarrow> squad_ref \<Rightarrow> capability \<Rightarrow> bool" where
  "canOnSquad env grants ref min_cap =
     (case resolveSquadScopeArg env ref of
        None \<Rightarrow> False
      | Some scope \<Rightarrow> hasCapability grants (Squad_target scope) min_cap)"

definition canOnSquadAuth ::
  "auth_env \<Rightarrow> auth_context option \<Rightarrow> squad_ref \<Rightarrow> capability \<Rightarrow> bool" where
  "canOnSquadAuth env auth ref min_cap =
     (case resolveSquadScopeArg env ref of
        None \<Rightarrow> False
      | Some scope \<Rightarrow>
          if (case auth of None \<Rightarrow> False
              | Some a \<Rightarrow> legacyRoleSatisfies (auth_role a) min_cap \<and> planeCoversScope Role_plane scope)
            then True
          else if canOnSquad env (case auth of None \<Rightarrow> [] | Some a \<Rightarrow>
                 (case capabilities a of None \<Rightarrow> [] | Some gs \<Rightarrow> gs)) (By_scope scope) min_cap
            then True
          else if sq_kind scope = Home \<and>
                 (case auth of None \<Rightarrow> False
                  | Some a \<Rightarrow> \<not> truthy (boundAgentId a) \<and> truthy (webSessionMemberId a) \<and>
                      canOnSquad env (resolveCapabilities env (the (webSessionMemberId a))) (By_scope scope) min_cap)
            then True
          else if sq_kind scope = Home \<and>
                 (case auth of None \<Rightarrow> False
                  | Some a \<Rightarrow> truthy (boundAgentId a) \<and>
                      hasElevatedAction env a ''action:home_access'' (sq_id scope))
            then True
          else False)"

section \<open>The middleware decision\<close>

datatype gate_outcome = Next | Unauthenticated_401 | Forbidden_403 capability

definition requireCapability ::
  "auth_env \<Rightarrow> auth_context option \<Rightarrow> scope_type \<times> string option \<Rightarrow> capability \<Rightarrow> gate_outcome" where
  "requireCapability env auth target min_cap =
     (case auth of
        None \<Rightarrow> Unauthenticated_401
      | Some a \<Rightarrow>
          if fst target = Org \<and> capabilities a = None then
            (if legacyRoleSatisfies (auth_role a) min_cap then Next else Forbidden_403 min_cap)
          else if \<not> truthy (memberId a) then
            (if fst target = Org \<and> legacyRoleSatisfies (auth_role a) min_cap then Next
             else Forbidden_403 min_cap)
          else
            (let grants = (case capabilities a of
                             Some gs \<Rightarrow> gs
                           | None \<Rightarrow> resolveCapabilities env (the (memberId a)))
             in if hasCapabilityOnDynamicScope env grants (fst target) (snd target) min_cap then Next
                else Forbidden_403 min_cap))"

definition requireOrgCapability :: "auth_env \<Rightarrow> auth_context option \<Rightarrow> capability \<Rightarrow> gate_outcome" where
  "requireOrgCapability env auth min_cap = requireCapability env auth (Org, None) min_cap"

section \<open>Ranks of actors and targets\<close>

definition RANKS_DESC :: "capability list" where
  "RANKS_DESC = [Owner, Admin, Lead, Member, Observer]"

text \<open>The loop \<open>for (const cap of RANKS_DESC) if (resolves) { max = Math.max(max, RANK[cap]); break }\<close>.\<close>

definition raise_to_highest :: "(capability \<Rightarrow> bool) \<Rightarrow> nat \<Rightarrow> nat" where
  "raise_to_highest resolves m =
     (case find resolves RANKS_DESC of None \<Rightarrow> m | Some cap \<Rightarrow> max m (capabilityRank cap))"

definition actorRankOnScopeFor ::
  "auth_env \<Rightarrow> auth_context \<Rightarrow> scope_type \<Rightarrow> string option \<Rightarrow> nat" where
  "actorRankOnScopeFor env auth scopeType scopeId =
     (let looked_up = scopeType = Squad \<and> truthy scopeId;
          squadScope = (if looked_up then resolveSquadScopeArg env (By_id (the scopeId)) else None);
          unknownSquadRow = (looked_up \<and> squadScope = None);
          roleCovers = (if unknownSquadRow then False
                        else case squadScope of Some s \<Rightarrow> planeCoversScope Role_plane s | None \<Rightarrow> True);
          role_floor = (if roleCovers then legacyRoleRank (auth_role auth) else 0)
      in if truthy (memberId auth) \<and> \<not> unknownSquadRow then
           (let grants = (case capabilities auth of
                            Some gs \<Rightarrow> gs | None \<Rightarrow> resolveCapabilities env (the (memberId auth)))
            in raise_to_highest
                 (\<lambda>cap. case squadScope of
                          Some s \<Rightarrow> hasCapability grants (Squad_target s) cap
                        | None \<Rightarrow> hasCapabilityOnDynamicScope env grants scopeType scopeId cap)
                 role_floor)
         else role_floor)"

definition targetLegacyRoleRank :: "auth_env \<Rightarrow> string \<Rightarrow> nat" where
  "targetLegacyRoleRank env target =
     (case first_row (\<lambda>m. m_id m = target) (t_members env) of
        None \<Rightarrow> 0
      | Some m \<Rightarrow>
          (case map_option lower (m_email m) of
             None \<Rightarrow> 0
           | Some e \<Rightarrow>
               if e = [] then 0
               else (case first_row (\<lambda>u. map_option lower (u_email u) = Some e) (t_users env) of
                       None \<Rightarrow> 0
                     | Some u \<Rightarrow> legacyRoleRank (u_role u))))"

definition humanVerifiedLegacyRoleRank :: "auth_env \<Rightarrow> string \<Rightarrow> nat" where
  "humanVerifiedLegacyRoleRank env member =
     (case first_row (\<lambda>m. m_id m = member \<and> m_tenant m = TENANT_SLUG env \<and> m_active m) (t_members env) of
        None \<Rightarrow> 0
      | Some _ \<Rightarrow>
          (let rows = concat (map (\<lambda>li. map u_role
                 (filter (\<lambda>u. holds (sql_eq (map_option lower (u_email u))
                                            (map_option lower (li_verified_email li))))
                    (t_users env)))
               (filter (\<lambda>li. li_tenant li = TENANT_SLUG env \<and> li_member_id li = member
                   \<and> li_revoked_at li = None \<and> li_verified_email li \<noteq> None) (t_identities env)))
           in foldl max 0 (map legacyRoleRank rows)))"

definition humanVerifiedLegacyRole :: "auth_env \<Rightarrow> string \<Rightarrow> role" where
  "humanVerifiedLegacyRole env member =
     (let rank = humanVerifiedLegacyRoleRank env member in
      if rank \<ge> legacyRoleRank Role_owner then Role_owner
      else if rank \<ge> legacyRoleRank Role_admin then Role_admin
      else Role_member)"

text \<open>The accumulation loop of \<open>targetMaxRankAcrossScopes\<close>: a grant on a home squad is skipped.\<close>

definition skip_home :: "(string \<Rightarrow> bool) \<Rightarrow> capability_grant \<Rightarrow> bool" where
  "skip_home is_home g \<longleftrightarrow>
     g_scope_type g = Squad \<and> truthy (g_scope_id g) \<and> is_home (the (g_scope_id g))"

definition targetMaxRankAcrossScopes :: "auth_env \<Rightarrow> string \<Rightarrow> nat" where
  "targetMaxRankAcrossScopes env target =
     (let grants = resolveCapabilities env target;
          is_home = (\<lambda>sid. case loadSquadScope env sid of None \<Rightarrow> False | Some s \<Rightarrow> sq_kind s = Home);
          m = foldl (\<lambda>m g. if skip_home is_home g then m else max m (capabilityRank (g_capability g)))
                0 grants
      in max m (targetLegacyRoleRank env target))"

definition exceedsTargetRankCeilingGivenRanks ::
  "string option \<Rightarrow> nat \<Rightarrow> string \<Rightarrow> nat \<Rightarrow> bool" where
  "exceedsTargetRankCeilingGivenRanks actorMemberId actorRank target targetRank =
     (if truthy actorMemberId \<and> actorMemberId = Some target then False else targetRank > actorRank)"

definition exceedsTargetRankCeiling :: "auth_env \<Rightarrow> auth_context \<Rightarrow> string \<Rightarrow> bool" where
  "exceedsTargetRankCeiling env auth target =
     exceedsTargetRankCeilingGivenRanks (memberId auth) (actorRankOnScopeFor env auth Org None)
       target (targetMaxRankAcrossScopes env target)"

definition currentMemberRankOnScope :: "auth_env \<Rightarrow> string \<Rightarrow> scope_type \<Rightarrow> string option \<Rightarrow> nat" where
  "currentMemberRankOnScope env member scopeType scopeId =
     (let grants = resolveCapabilities env member;
          roleRank = targetLegacyRoleRank env member
      in case scopeType of
           Squad \<Rightarrow>
             (if \<not> truthy scopeId then 0
              else case loadSquadScope env (the scopeId) of
                     None \<Rightarrow> 0
                   | Some scope \<Rightarrow>
                       raise_to_highest (\<lambda>cap. hasCapability grants (Squad_target scope) cap)
                         (if planeCoversScope Role_plane scope then roleRank else 0))
         | Department \<Rightarrow>
             (if \<not> truthy scopeId then 0
              else raise_to_highest (\<lambda>cap. hasCapability grants (Department_target (the scopeId)) cap) roleRank)
         | Org \<Rightarrow> raise_to_highest (\<lambda>cap. hasCapability grants Org_target cap) roleRank)"

section \<open>SQL mirrors\<close>

text \<open>\<open>legacyRoleBridgeSql\<close>: the pairs of a member and the users whose lowered e-mail is the
  member's; \<open>requireEmail\<close> adds the non-null, non-empty condition.\<close>

definition legacyRoleBridgeSql :: "auth_env \<Rightarrow> string \<Rightarrow> bool \<Rightarrow> role list" where
  "legacyRoleBridgeSql env member requireEmail =
     concat (map (\<lambda>m. map u_role
         (filter (\<lambda>u. holds (sql_eq (map_option lower (u_email u)) (map_option lower (m_email m))))
            (t_users env)))
       (filter (\<lambda>m. m_id m = member \<and> (requireEmail \<longrightarrow> m_email m \<noteq> None \<and> m_email m \<noteq> Some []))
          (t_members env)))"

definition legacyRoleRankSql :: "auth_env \<Rightarrow> string \<Rightarrow> bool \<Rightarrow> nat" where
  "legacyRoleRankSql env member requireEmail =
     (case legacyRoleBridgeSql env member requireEmail of [] \<Rightarrow> 0 | r # _ \<Rightarrow> legacyRoleRank r)"

definition legacyRoleAboveSql :: "auth_env \<Rightarrow> string \<Rightarrow> nat \<Rightarrow> bool" where
  "legacyRoleAboveSql env member rank =
     list_ex (\<lambda>r. rankSqlCaseOfRole r > rank) (legacyRoleBridgeSql env member False)"

definition live_grant_at_least ::
  "auth_env \<Rightarrow> string \<Rightarrow> scope_type \<Rightarrow> (string option \<Rightarrow> bool) \<Rightarrow> nat \<Rightarrow> bool" where
  "live_grant_at_least env member scopeType scopeCond requiredRank =
     exists_row (\<lambda>c. g_member_id c = member \<and> g_scope_type c = scopeType \<and> scopeCond (g_scope_id c)
         \<and> holds (CAPABILITY_LIVE_PREDICATE env (g_expires_at c))
         \<and> capabilityRank (g_capability c) \<ge> requiredRank)
       (t_capabilities env)"

definition currentMemberRankAtLeastSql ::
  "auth_env \<Rightarrow> scope_type \<Rightarrow> string \<Rightarrow> string option \<Rightarrow> nat \<Rightarrow> bool" where
  "currentMemberRankAtLeastSql env scopeType inviter scopeId requiredRank =
     (let roleRankAtLeast = legacyRoleRankSql env inviter False \<ge> requiredRank;
          orgGrantAtLeast = live_grant_at_least env inviter Org (\<lambda>_. True) requiredRank
      in case scopeType of
           Org \<Rightarrow> orgGrantAtLeast \<or> roleRankAtLeast
         | Department \<Rightarrow>
             orgGrantAtLeast
           \<or> live_grant_at_least env inviter Department (\<lambda>s. holds (sql_eq s scopeId)) requiredRank
           \<or> roleRankAtLeast
         | Squad \<Rightarrow>
             exists_row (\<lambda>s. holds (sql_eq (Some (sq_id s)) scopeId)) (t_squads env)
           \<and> (live_grant_at_least env inviter Squad (\<lambda>s. holds (sql_eq s scopeId)) requiredRank
             \<or> exists_row (\<lambda>c. ccg_member_id c = inviter \<and> holds (sql_eq (Some (ccg_squad_id c)) scopeId)
                   \<and> exists_row (\<lambda>s. sq_id s = ccg_squad_id c \<and> sq_kind s \<noteq> Home) (t_squads env)
                   \<and> capabilityRank (ccg_capability c) \<ge> requiredRank) (t_channel_grants env)
             \<or> (case first_row (\<lambda>s. holds (sql_eq (Some (sq_id s)) scopeId)) (t_squads env) of
                  None \<Rightarrow> False
                | Some sq \<Rightarrow> sq_kind sq \<noteq> Home \<and>
                    (orgGrantAtLeast
                    \<or> exists_row (\<lambda>s. holds (sql_eq (Some (sq_id s)) scopeId)
                        \<and> live_grant_at_least env inviter Department
                             (\<lambda>d. d = Some (sq_department_id s)) requiredRank) (t_squads env)
                    \<or> roleRankAtLeast))))"

definition exceedsTargetRankCeilingForMembers ::
  "auth_env \<Rightarrow> auth_context \<Rightarrow> string list \<Rightarrow> string list" where
  "exceedsTargetRankCeilingForMembers env auth targets =
     (let ids = unique targets in
      if ids = [] then []
      else
        (let actorRank = actorRankOnScopeFor env auth Org None;
             grantsByMember = resolveCapabilitiesForMembers env ids;
             grants_of = (\<lambda>i. case grantsByMember i of None \<Rightarrow> [] | Some gs \<Rightarrow> gs);
             squadIds = unique (concat (map (\<lambda>i. map (\<lambda>g. the (g_scope_id g))
                 (filter (\<lambda>g. g_scope_type g = Squad \<and> truthy (g_scope_id g)) (grants_of i))) ids));
             chunked = (\<lambda>xs. case chunkForD1InList xs None 0 of Inl _ \<Rightarrow> [] | Inr cs \<Rightarrow> cs);
             homeSquads = concat (map (\<lambda>chunk. map sq_id
                 (filter (\<lambda>s. sq_kind s = Home \<and> sq_id s \<in> set chunk) (t_squads env))) (chunked squadIds));
             roleRankByMember = map_of (concat (map (map (\<lambda>i. (i, legacyRoleRankSql env i True))) (chunked ids)));
             rank_of = (\<lambda>i. foldl (\<lambda>m g. if skip_home (\<lambda>sid. sid \<in> set homeSquads) g then m
                                         else max m (capabilityRank (g_capability g)))
                          (case roleRankByMember i of None \<Rightarrow> 0 | Some r \<Rightarrow> r) (grants_of i))
         in filter (\<lambda>i. exceedsTargetRankCeilingGivenRanks (memberId auth) actorRank i (rank_of i)) ids))"

section \<open>Facts on the ladder\<close>

lemma meets_iff [rank_simps]: "meets a b \<longleftrightarrow> capabilityRank b \<le> capabilityRank a"
  by (simp add: meets_def)

lemma capabilityRank_bounds: "1 \<le> capabilityRank c \<and> capabilityRank c \<le> 5"
  by (cases c) auto

lemma ex_capability: "(\<exists>c. P c) \<longleftrightarrow> P Owner \<or> P Admin \<or> P Lead \<or> P Member \<or> P Observer"
  by (metis capability.exhaust)

lemma raise_to_highest_ge:
  "r \<le> raise_to_highest p m \<longleftrightarrow> r \<le> m \<or> (\<exists>c. p c \<and> r \<le> capabilityRank c)"
  unfolding raise_to_highest_def RANKS_DESC_def ex_capability
  by (auto simp: le_max_iff_disj)

section \<open>What a grant covers\<close>

text \<open>The abstract contract of a check over a list of grants: some grant covers the target
  and its capability meets the minimum.\<close>

locale grant_check =
  fixes check :: "'g list \<Rightarrow> 't \<Rightarrow> capability \<Rightarrow> bool"
    and covers :: "'g \<Rightarrow> 't \<Rightarrow> bool"
    and cap_of :: "'g \<Rightarrow> capability"
  assumes check_iff: "check gs t c \<longleftrightarrow> (\<exists>g \<in> set gs. covers g t \<and> meets (cap_of g) c)"
begin

lemma check_lower:
  assumes "check gs t c" and "capabilityRank d \<le> capabilityRank c"
  shows "check gs t d"
  using assms unfolding check_iff by (auto simp: rank_simps intro: order_trans)

lemma check_subset: "check gs t c \<Longrightarrow> set gs \<subseteq> set hs \<Longrightarrow> check hs t c"
  by (auto simp: check_iff)

lemma check_append: "check (gs @ hs) t c \<longleftrightarrow> check gs t c \<or> check hs t c"
  by (auto simp: check_iff)

lemma check_Nil: "\<not> check [] t c"
  by (simp add: check_iff)

lemma raise_check_ge:
  "r \<le> raise_to_highest (check gs t) m \<longleftrightarrow>
     r \<le> m \<or> (\<exists>g \<in> set gs. covers g t \<and> r \<le> capabilityRank (cap_of g))"
proof -
  have "(\<exists>c. check gs t c \<and> r \<le> capabilityRank c) \<longleftrightarrow>
      (\<exists>g \<in> set gs. covers g t \<and> r \<le> capabilityRank (cap_of g))"
    unfolding check_iff meets_iff by (meson order_refl order_trans)
  then show ?thesis by (simp add: raise_to_highest_ge)
qed

end

text \<open>Which scopes a grant reaches: an exact squad grant reaches its squad; organisation and
  department grants reach downwards, never into a home squad; nothing reaches upwards.\<close>

fun covers :: "capability_grant \<Rightarrow> capability_target \<Rightarrow> bool" where
  "covers g Org_target \<longleftrightarrow> g_scope_type g = Org"
| "covers g (Department_target d) \<longleftrightarrow>
     g_scope_type g = Org \<or> g_scope_type g = Department \<and> g_scope_id g = Some d"
| "covers g (Squad_target s) \<longleftrightarrow>
     g_scope_type g = Squad \<and> g_scope_id g = Some (sq_id s)
   \<or> sq_kind s \<noteq> Home \<and> (g_scope_type g = Org
       \<or> g_scope_type g = Department \<and> g_scope_id g = Some (sq_department_id s))"

interpretation has: grant_check hasCapability covers g_capability
proof
  fix gs t c
  show "hasCapability gs t c \<longleftrightarrow> (\<exists>g \<in> set gs. covers g t \<and> meets (g_capability g) c)"
    by (cases t) (auto simp: list_ex_iff planeCoversScope_def)
qed

interpretation capability_floor: grant_check
  "\<lambda>gs (u::unit) c. list_ex (\<lambda>g. meets (g_capability g) c) gs" "\<lambda>g u. True" g_capability
  by unfold_locales (auto simp: list_ex_iff)

lemma holdsCapabilityFloor_if_has:
  assumes "capabilities a = Some gs" and "hasCapability gs t c"
  shows "holdsCapabilityFloor a c"
  using assms by (auto simp: holdsCapabilityFloor_def has.check_iff list_ex_iff)

section \<open>Facts on loaded grants\<close>

lemma CAPABILITY_LIVE_iff [sql_simps]:
  "holds (CAPABILITY_LIVE_PREDICATE env e) \<longleftrightarrow>
     e = None \<or> (\<exists>t n f x. e = Some t \<and> julianday env (now_sql env) = Some n \<and>
        julianday env CAPABILITY_CLOCK_FLOOR = Some f \<and> f < n \<and> julianday env t = Some x \<and> n < x)"
  by (cases e) (auto simp: CAPABILITY_LIVE_PREDICATE_def Let_def sql_simps)

lemma set_capability_arm:
  "g \<in> set (capability_arm env sel) \<longleftrightarrow>
     (\<exists>r \<in> set (t_capabilities env). sel (g_member_id r) \<and>
        holds (CAPABILITY_LIVE_PREDICATE env (g_expires_at r)) \<and> g = grant_of_row r)"
  by (auto simp: capability_arm_def)

lemma set_channel_arm:
  "g \<in> set (channel_arm env sel) \<longleftrightarrow>
     (\<exists>c \<in> set (t_channel_grants env). \<exists>s \<in> set (t_squads env). sq_id s = ccg_squad_id c \<and>
        sel (ccg_member_id c) \<and> sq_kind s \<noteq> Home \<and> g = grant_of_channel c)"
  by (auto simp: channel_arm_def)

lemma bex_capability_arm [row_simps]:
  "(\<exists>g \<in> set (capability_arm env sel). P g) \<longleftrightarrow>
     (\<exists>r \<in> set (t_capabilities env). sel (g_member_id r) \<and>
        holds (CAPABILITY_LIVE_PREDICATE env (g_expires_at r)) \<and> P (grant_of_row r))"
  unfolding Bex_def set_capability_arm by blast

lemma bex_channel_arm [row_simps]:
  "(\<exists>g \<in> set (channel_arm env sel). P g) \<longleftrightarrow>
     (\<exists>c \<in> set (t_channel_grants env). (\<exists>s \<in> set (t_squads env). sq_id s = ccg_squad_id c \<and>
        sq_kind s \<noteq> Home) \<and> sel (ccg_member_id c) \<and> P (grant_of_channel c))"
  unfolding Bex_def set_channel_arm by blast

lemma grant_of_row_simps [simp]:
  "g_member_id (grant_of_row r) = g_member_id r" "g_scope_type (grant_of_row r) = g_scope_type r"
  "g_scope_id (grant_of_row r) = g_scope_id r" "g_capability (grant_of_row r) = g_capability r"
  by (simp_all add: grant_of_row_def capability_grant.defs)

lemma grant_of_channel_simps [simp]:
  "g_member_id (grant_of_channel c) = ccg_member_id c" "g_scope_type (grant_of_channel c) = Squad"
  "g_scope_id (grant_of_channel c) = Some (ccg_squad_id c)"
  "g_capability (grant_of_channel c) = ccg_capability c"
  by (simp_all add: grant_of_channel_def)

lemma filter_capability_arm:
  "filter (\<lambda>g. g_member_id g = i) (capability_arm env (\<lambda>m. m \<in> set chunk)) =
     (if i \<in> set chunk then capability_arm env (\<lambda>m. m = i) else [])"
  by (auto simp: capability_arm_def filter_map filter_filter comp_def filter_empty_conv
      intro!: arg_cong [of _ _ "map _"] filter_cong)

lemma filter_channel_arm:
  "filter (\<lambda>g. g_member_id g = i) (channel_arm env (\<lambda>m. m \<in> set chunk)) =
     (if i \<in> set chunk then channel_arm env (\<lambda>m. m = i) else [])"
  unfolding channel_arm_def filter_concat map_map comp_def filter_map
  by (auto simp: filter_empty_conv
      intro!: arg_cong [of _ _ concat] map_cong arg_cong [of _ _ "map _"] filter_cong)

lemma push_grant_apply:
  "push_grant out g i = (if g_member_id g = i then map_option (\<lambda>xs. xs @ [g]) (out i) else out i)"
  by (auto simp: push_grant_def split: option.splits)

lemma foldl_push_grant:
  "foldl push_grant out gs i =
     map_option (\<lambda>xs. xs @ filter (\<lambda>g. g_member_id g = i) gs) (out i)"
  by (induction gs arbitrary: out)
    (simp_all add: option.map_ident push_grant_apply option.map_comp comp_def)

lemma resolveCapabilitiesForMembers_eq:
  "resolveCapabilitiesForMembers env ids i =
     (if i \<in> set ids then Some (resolveCapabilities env i) else None)"
proof -
  let ?cs = "chunks 90 (unique ids)"
  have "concat (map (\<lambda>c. filter (\<lambda>g. g_member_id g = i)
          (capability_arm env (\<lambda>m. m \<in> set c) @ channel_arm env (\<lambda>m. m \<in> set c))) ?cs)
      = concat (map (\<lambda>c. if i \<in> set c then resolveCapabilities env i else []) ?cs)"
    by (intro arg_cong [of _ _ concat] map_cong)
      (auto simp: filter_capability_arm filter_channel_arm resolveCapabilities_def)
  moreover have "i \<in> set ids \<Longrightarrow>
      concat (map (\<lambda>c. if i \<in> set c then resolveCapabilities env i else []) ?cs) = resolveCapabilities env i"
    by (rule concat_map_select) (simp_all add: concat_chunks)
  ultimately show ?thesis
    by (auto simp: resolveCapabilitiesForMembers_def Let_def chunkForD1InList_default
        foldl_push_grant filter_concat comp_def)
qed

lemma set_resolveCapabilities:
  "g \<in> set (resolveCapabilities env m) \<longleftrightarrow>
     (\<exists>r \<in> set (t_capabilities env). g_member_id r = m \<and>
        holds (CAPABILITY_LIVE_PREDICATE env (g_expires_at r)) \<and> g = grant_of_row r)
   \<or> (\<exists>c \<in> set (t_channel_grants env). \<exists>s \<in> set (t_squads env). sq_id s = ccg_squad_id c \<and>
        ccg_member_id c = m \<and> sq_kind s \<noteq> Home \<and> g = grant_of_channel c)"
  by (simp add: resolveCapabilities_def set_capability_arm set_channel_arm)

lemma loadSquadScope_Some:
  "loadSquadScope env i = Some s \<Longrightarrow> s \<in> set (t_squads env) \<and> sq_id s = i"
  unfolding loadSquadScope_def by (drule first_row_Some) simp

lemma loadSquadScope_key:
  "wf_env env \<Longrightarrow> s \<in> set (t_squads env) \<Longrightarrow> sq_id s = i \<Longrightarrow> loadSquadScope env i = Some s"
  unfolding loadSquadScope_def wf_env_def using first_row_key [of sq_id "t_squads env" s] by simp

section \<open>The legacy role plane\<close>

lemma lower_Nil [simp]: "lower s = [] \<longleftrightarrow> s = []" "lower [] = []"
  by (auto simp: lower_def)

lemma legacyRoleBridgeSql_eq:
  assumes "wf_env env"
  shows "legacyRoleBridgeSql env i req =
    (case first_row (\<lambda>m. m_id m = i) (t_members env) of
       None \<Rightarrow> []
     | Some m \<Rightarrow>
         (case m_email m of
            None \<Rightarrow> []
          | Some e \<Rightarrow> if req \<and> e = [] then []
              else map u_role (filter (\<lambda>u. map_option lower (u_email u) = Some (lower e)) (t_users env))))"
proof -
  have key: "filter (\<lambda>m. m_id m = i \<and> q m) (t_members env) =
      (case first_row (\<lambda>m. m_id m = i) (t_members env) of None \<Rightarrow> [] | Some r \<Rightarrow> if q r then [r] else [])"
    for q using assms unfolding wf_env_def by (intro filter_key) simp
  have "holds (sql_eq a (Some e)) \<longleftrightarrow> a = Some e" for a and e :: string
    by (auto simp: sql_simps)
  then show ?thesis
    by (auto simp: legacyRoleBridgeSql_def key holds_eq split: option.splits)
qed

lemma legacyRoleRankSql_eq:
  assumes "wf_env env" and "req \<or> (\<forall>m \<in> set (t_members env). m_email m \<noteq> Some [])"
  shows "legacyRoleRankSql env i req = targetLegacyRoleRank env i"
  using assms
  by (auto simp: legacyRoleRankSql_def legacyRoleBridgeSql_eq targetLegacyRoleRank_def
      case_map_filter dest: first_row_Some split: option.splits)

section \<open>The SQL mirror of a member's rank\<close>

lemma channel_arm_scope: "g \<in> set (channel_arm env sel) \<Longrightarrow> g_scope_type g = Squad"
  by (auto simp: set_channel_arm)

text \<open>Grants at least at a rank, arm by arm.\<close>

lemma bex_resolveCapabilities:
  "(\<exists>g \<in> set (resolveCapabilities env i). P g) \<longleftrightarrow>
     (\<exists>g \<in> set (capability_arm env (\<lambda>m. m = i)). P g) \<or> (\<exists>g \<in> set (channel_arm env (\<lambda>m. m = i)). P g)"
  unfolding resolveCapabilities_def set_append by blast

lemma live_grant_iff:
  "live_grant_at_least env i ty cond r \<longleftrightarrow>
     (\<exists>g \<in> set (capability_arm env (\<lambda>m. m = i)).
        g_scope_type g = ty \<and> cond (g_scope_id g) \<and> r \<le> capabilityRank (g_capability g))"
  unfolding live_grant_at_least_def exists_row_iff bex_capability_arm grant_of_row_simps by blast

lemma channel_grant_iff:
  "exists_row (\<lambda>c. ccg_member_id c = i \<and> ccg_squad_id c = x
      \<and> exists_row (\<lambda>s. sq_id s = ccg_squad_id c \<and> sq_kind s \<noteq> Home) (t_squads env)
      \<and> r \<le> capabilityRank (ccg_capability c)) (t_channel_grants env) \<longleftrightarrow>
   (\<exists>g \<in> set (channel_arm env (\<lambda>m. m = i)).
      g_scope_id g = Some x \<and> r \<le> capabilityRank (g_capability g))"
  unfolding exists_row_iff bex_channel_arm grant_of_channel_simps by blast

lemma resolve_covers:
  "(\<exists>g \<in> set (resolveCapabilities env i). covers g Org_target \<and> Q g) \<longleftrightarrow>
     (\<exists>g \<in> set (capability_arm env (\<lambda>m. m = i)). g_scope_type g = Org \<and> Q g)"
  "(\<exists>g \<in> set (resolveCapabilities env i). covers g (Department_target d) \<and> Q g) \<longleftrightarrow>
     (\<exists>g \<in> set (capability_arm env (\<lambda>m. m = i)). g_scope_type g = Org \<and> Q g)
   \<or> (\<exists>g \<in> set (capability_arm env (\<lambda>m. m = i)). g_scope_type g = Department \<and> g_scope_id g = Some d \<and> Q g)"
  "(\<exists>g \<in> set (resolveCapabilities env i). covers g (Squad_target s) \<and> Q g) \<longleftrightarrow>
     (\<exists>g \<in> set (capability_arm env (\<lambda>m. m = i)). g_scope_type g = Squad \<and> g_scope_id g = Some (sq_id s) \<and> Q g)
   \<or> (\<exists>g \<in> set (channel_arm env (\<lambda>m. m = i)). g_scope_id g = Some (sq_id s) \<and> Q g)
   \<or> sq_kind s \<noteq> Home \<and>
      ((\<exists>g \<in> set (capability_arm env (\<lambda>m. m = i)). g_scope_type g = Org \<and> Q g)
      \<or> (\<exists>g \<in> set (capability_arm env (\<lambda>m. m = i)). g_scope_type g = Department \<and>
            g_scope_id g = Some (sq_department_id s) \<and> Q g))"
  unfolding bex_resolveCapabilities by (auto dest: channel_arm_scope)

lemma sql_eq_Some [sql_simps]: "holds (sql_eq a (Some x)) \<longleftrightarrow> a = Some x"
  by (auto simp: holds_eq)

lemma rank_mirror_org:
  assumes "wf_env env" and "\<forall>m \<in> set (t_members env). m_email m \<noteq> Some []"
  shows "currentMemberRankAtLeastSql env Org i sid r \<longleftrightarrow> r \<le> currentMemberRankOnScope env i Org sid"
  using assms
  by (simp add: currentMemberRankAtLeastSql_def currentMemberRankOnScope_def
      has.raise_check_ge legacyRoleRankSql_eq live_grant_iff resolve_covers disj_commute
      del: covers.simps)

lemma rank_mirror_department:
  assumes "wf_env env" and "\<forall>m \<in> set (t_members env). m_email m \<noteq> Some []" and "truthy sid"
  shows "currentMemberRankAtLeastSql env Department i sid r \<longleftrightarrow>
    r \<le> currentMemberRankOnScope env i Department sid"
proof -
  from \<open>truthy sid\<close> obtain x where x: "sid = Some x" "x \<noteq> []" by auto
  show ?thesis
    using assms(1,2) x
    by (simp add: currentMemberRankAtLeastSql_def currentMemberRankOnScope_def sql_eq_Some
        has.raise_check_ge legacyRoleRankSql_eq live_grant_iff resolve_covers disj_ac
        del: covers.simps)
qed

lemma rank_mirror_squad:
  assumes wf: "wf_env env" and em: "\<forall>m \<in> set (t_members env). m_email m \<noteq> Some []"
    and "truthy sid" and "1 \<le> r"
  shows "currentMemberRankAtLeastSql env Squad i sid r \<longleftrightarrow>
    r \<le> currentMemberRankOnScope env i Squad sid"
proof -
  from \<open>truthy sid\<close> obtain x where x: "sid = Some x" "x \<noteq> []" by auto
  show ?thesis
  proof (cases "loadSquadScope env x")
    case None
    then have "\<forall>s \<in> set (t_squads env). sq_id s \<noteq> x"
      by (simp add: loadSquadScope_def first_row_None)
    with None x \<open>1 \<le> r\<close> show ?thesis
      by (auto simp: currentMemberRankAtLeastSql_def currentMemberRankOnScope_def Let_def
          sql_eq_Some exists_row_iff)
  next
    case (Some s)
    then have s: "s \<in> set (t_squads env)" "sq_id s = x" by (auto dest: loadSquadScope_Some)
    have uniq: "t \<in> set (t_squads env) \<Longrightarrow> sq_id t = x \<Longrightarrow> t = s" for t
      using loadSquadScope_key [OF wf, of t x] Some by simp
    have first: "first_row (\<lambda>t. sq_id t = x) (t_squads env) = Some s"
      using Some by (simp add: loadSquadScope_def)
    let ?dept = "\<lambda>d. live_grant_at_least env i Department (\<lambda>e. e = Some d) r"
    have dept: "exists_row (\<lambda>t. sq_id t = x \<and> ?dept (sq_department_id t)) (t_squads env)
        \<longleftrightarrow> ?dept (sq_department_id s)"
      unfolding exists_row_iff using s uniq by blast
    have ex: "exists_row (\<lambda>t. sq_id t = x) (t_squads env)"
      using s by (auto simp: exists_row_iff)
    have js: "r \<le> currentMemberRankOnScope env i Squad sid \<longleftrightarrow>
        r \<le> (if sq_kind s \<noteq> Home then targetLegacyRoleRank env i else 0)
      \<or> (\<exists>g \<in> set (resolveCapabilities env i). covers g (Squad_target s) \<and>
           r \<le> capabilityRank (g_capability g))"
      using x Some by (simp add: currentMemberRankOnScope_def Let_def has.raise_check_ge planeCoversScope_def
          del: covers.simps)
    have sql: "currentMemberRankAtLeastSql env Squad i sid r \<longleftrightarrow>
        (\<exists>g \<in> set (capability_arm env (\<lambda>m. m = i)). g_scope_type g = Squad \<and> g_scope_id g = Some x \<and>
           r \<le> capabilityRank (g_capability g))
      \<or> (\<exists>g \<in> set (channel_arm env (\<lambda>m. m = i)). g_scope_id g = Some x \<and>
           r \<le> capabilityRank (g_capability g))
      \<or> sq_kind s \<noteq> Home \<and>
         (live_grant_at_least env i Org (\<lambda>_. True) r
         \<or> ?dept (sq_department_id s)
         \<or> r \<le> targetLegacyRoleRank env i)"
      using wf em x(1)
      by (simp add: currentMemberRankAtLeastSql_def sql_eq_Some first dept ex channel_grant_iff
          live_grant_iff [of env i Squad] legacyRoleRankSql_eq)
    show ?thesis
      unfolding js sql resolve_covers live_grant_iff
      using s(2) \<open>1 \<le> r\<close> by (cases "sq_kind s = Home") auto
  qed
qed

section \<open>The target ceiling\<close>

lemma map_of_pairs: "map_of (map (\<lambda>i. (i, f i)) xs) i = (if i \<in> set xs then Some (f i) else None)"
  by (induction xs) auto

lemma concat_map_map: "concat (map (map f) xss) = map f (concat xss)"
  by (induction xss) auto

lemma home_squads_iff:
  assumes "wf_env env" and "sid \<in> set squadIds"
  shows "sid \<in> set (concat (map (\<lambda>chunk. map sq_id
      (filter (\<lambda>s. sq_kind s = Home \<and> sq_id s \<in> set chunk) (t_squads env))) (chunks 90 squadIds)))
    \<longleftrightarrow> (case loadSquadScope env sid of None \<Rightarrow> False | Some s \<Rightarrow> sq_kind s = Home)" (is "?L \<longleftrightarrow> _")
proof -
  have L: "?L \<longleftrightarrow> (\<exists>c \<in> set (chunks 90 squadIds). \<exists>t \<in> set (t_squads env).
      sq_kind t = Home \<and> sq_id t \<in> set c \<and> sq_id t = sid)" by auto
  have "sid \<in> set (concat (chunks 90 squadIds))" using assms(2) by (simp add: concat_chunks)
  then obtain c where c: "c \<in> set (chunks 90 squadIds)" "sid \<in> set c" by auto
  show ?thesis
  proof (cases "loadSquadScope env sid")
    case None
    then have "\<forall>s \<in> set (t_squads env). sq_id s \<noteq> sid"
      by (simp add: loadSquadScope_def first_row_None)
    with None show ?thesis unfolding L by auto
  next
    case (Some s)
    then have s: "s \<in> set (t_squads env)" "sq_id s = sid" by (auto dest: loadSquadScope_Some)
    have "t \<in> set (t_squads env) \<Longrightarrow> sq_id t = sid \<Longrightarrow> t = s" for t
      using loadSquadScope_key [OF assms(1), of t sid] Some by simp
    then have "?L \<longleftrightarrow> sq_kind s = Home" unfolding L using s c by blast
    with Some show ?thesis by simp
  qed
qed

lemma skip_home_cong:
  assumes "\<And>sid. g_scope_type g = Squad \<Longrightarrow> g_scope_id g = Some sid \<Longrightarrow> sid \<noteq> [] \<Longrightarrow> p sid = q sid"
  shows "skip_home p g = skip_home q g"
  using assms by (auto simp: skip_home_def)

lemma exceedsTargetRankCeilingForMembers_eq:
  assumes wf: "wf_env env"
  shows "exceedsTargetRankCeilingForMembers env auth targets =
    filter (exceedsTargetRankCeiling env auth) (unique targets)"
proof -
  define ids where "ids = unique targets"
  define squadIds where "squadIds = unique (concat (map (\<lambda>i. map (\<lambda>g. the (g_scope_id g))
      (filter (\<lambda>g. g_scope_type g = Squad \<and> truthy (g_scope_id g)) (resolveCapabilities env i))) ids))"
  define homes where "homes = set (concat (map (\<lambda>chunk. map sq_id
      (filter (\<lambda>s. sq_kind s = Home \<and> sq_id s \<in> set chunk) (t_squads env))) (chunks 90 squadIds)))"
  let ?home = "\<lambda>sid. case loadSquadScope env sid of None \<Rightarrow> False | Some s \<Rightarrow> sq_kind s = Home"
  let ?rank = "\<lambda>i. foldl (\<lambda>m g. if skip_home (\<lambda>sid. sid \<in> homes) g then m
      else max m (capabilityRank (g_capability g))) (legacyRoleRankSql env i True) (resolveCapabilities env i)"
  have "?rank i = targetMaxRankAcrossScopes env i" if i: "i \<in> set ids" for i
  proof -
    have "skip_home (\<lambda>sid. sid \<in> homes) g = skip_home ?home g" if "g \<in> set (resolveCapabilities env i)" for g
    proof (rule skip_home_cong)
      fix sid
      assume "g_scope_type g = Squad" "g_scope_id g = Some sid" "sid \<noteq> []"
      with that i have "sid \<in> set squadIds" unfolding squadIds_def by force
      then show "sid \<in> homes = ?home sid" unfolding homes_def by (rule home_squads_iff [OF wf])
    qed
    then have "filter (\<lambda>g. \<not> skip_home (\<lambda>sid. sid \<in> homes) g) (resolveCapabilities env i) =
        filter (\<lambda>g. \<not> skip_home ?home g) (resolveCapabilities env i)" by (simp cong: filter_cong)
    then show ?thesis
      unfolding targetMaxRankAcrossScopes_def Let_def foldl_skip_max
      by (simp add: legacyRoleRankSql_eq [OF wf] foldl_max_split [of "targetLegacyRoleRank env i"] max.commute)
  qed
  then have "filter (\<lambda>i. exceedsTargetRankCeilingGivenRanks (memberId auth)
      (actorRankOnScopeFor env auth Org None) i (?rank i)) ids =
    filter (exceedsTargetRankCeiling env auth) ids"
    by (intro filter_cong) (simp_all add: exceedsTargetRankCeiling_def)
  moreover have "exceedsTargetRankCeilingForMembers env auth targets =
      filter (\<lambda>i. exceedsTargetRankCeilingGivenRanks (memberId auth)
        (actorRankOnScopeFor env auth Org None) i (?rank i)) ids"
    unfolding exceedsTargetRankCeilingForMembers_def Let_def ids_def [symmetric]
    by (auto simp: resolveCapabilitiesForMembers_eq chunkForD1InList_default concat_map_map
        concat_chunks map_of_pairs squadIds_def homes_def cong: filter_cong map_cong)
  ultimately show ?thesis by (simp add: ids_def)
qed

section \<open>A sample pot\<close>

definition sample_env :: auth_env where
  "sample_env = \<lparr>
     t_capabilities = [
       \<lparr>g_member_id = ''bob'', g_scope_type = Org, g_scope_id = None, g_capability = Admin, g_expires_at = None\<rparr>,
       \<lparr>g_member_id = ''carol'', g_scope_type = Squad, g_scope_id = Some ''h1'', g_capability = Admin, g_expires_at = None\<rparr>,
       \<lparr>g_member_id = ''dan'', g_scope_type = Department, g_scope_id = Some ''d1'', g_capability = Lead,
         g_expires_at = Some ''2026-12-01''\<rparr>,
       \<lparr>g_member_id = ''eve'', g_scope_type = Squad, g_scope_id = Some ''s1'', g_capability = Owner,
         g_expires_at = Some ''2026-06-01''\<rparr>],
     t_channel_grants = [\<lparr>ccg_member_id = ''eve'', ccg_squad_id = ''s1'', ccg_capability = Member\<rparr>],
     t_squads = [\<lparr>sq_id = ''s1'', sq_department_id = ''d1'', sq_kind = Work\<rparr>,
                 \<lparr>sq_id = ''h1'', sq_department_id = ''d1'', sq_kind = Home\<rparr>],
     t_members = [\<lparr>m_id = ''alice'', m_email = Some ''Alice@pot'', m_tenant = ''t'', m_active = True\<rparr>,
                  \<lparr>m_id = ''bob'', m_email = Some ''bob@pot'', m_tenant = ''t'', m_active = True\<rparr>],
     t_users = [\<lparr>u_email = Some ''alice@pot'', u_role = Role_owner\<rparr>,
                \<lparr>u_email = Some ''bob@pot'', u_role = Role_member\<rparr>],
     t_identities = [],
     now_sql = ''2026-11-01'', TENANT_SLUG = ''t'',
     julianday = map_of [(''2026-01-01'', 0), (''2026-06-01'', 5), (''2026-11-01'', 10), (''2026-12-01'', 11)],
     hasElevatedAction = (\<lambda>_ _ _. False)\<rparr>"

definition bob_auth :: auth_context where
  "bob_auth = \<lparr>userId = ''u-bob'', auth_role = Role_member, memberId = Some ''bob'',
     capabilities = Some [\<lparr>g_member_id = ''bob'', g_scope_type = Org, g_scope_id = None, g_capability = Admin\<rparr>],
     latentCapabilities = None, boundAgentId = None, webSessionIdHash = None,
     webSessionMemberId = None, seatBinding = None\<rparr>"

lemma sample_wf: "wf_env sample_env" "\<forall>m \<in> set (t_members sample_env). m_email m \<noteq> Some []"
  by (simp_all add: wf_env_def sample_env_def)

section \<open>Properties\<close>

text \<open>C1: a private home squad is reached only by an exact squad-scope grant on it (the caller's
  own ambient grant, or the web-session member's stored grant when no agent is bound) or by a
  time-boxed elevation of a bound agent; no organisation grant, department grant or legacy
  owner/admin role gives any standing there.\<close>
theorem home_squad_isolated:
  assumes "sq_kind s = Home"
  shows "canOnSquadAuth env (Some a) (By_scope s) c \<longleftrightarrow>
    (\<exists>gs. capabilities a = Some gs \<and> (\<exists>g \<in> set gs. g_scope_type g = Squad \<and>
        g_scope_id g = Some (sq_id s) \<and> meets (g_capability g) c))
  \<or> (\<exists>m. \<not> truthy (boundAgentId a) \<and> webSessionMemberId a = Some m \<and> m \<noteq> [] \<and>
      (\<exists>g \<in> set (resolveCapabilities env m). g_scope_type g = Squad \<and>
        g_scope_id g = Some (sq_id s) \<and> meets (g_capability g) c))
  \<or> truthy (boundAgentId a) \<and> hasElevatedAction env a ''action:home_access'' (sq_id s)"
  using assms
  by (cases "capabilities a"; cases "webSessionMemberId a")
    (auto simp: canOnSquadAuth_def canOnSquad_def resolveSquadScopeArg_def planeCoversScope_def
      has.check_iff simp del: hasCapability.simps)

theorem home_squad_isolated_witness:
  "sq_kind \<lparr>sq_id = ''h1'', sq_department_id = ''d1'', sq_kind = Home\<rparr> = Home \<and>
   \<not> canOnSquadAuth sample_env (Some bob_auth) (By_scope \<lparr>sq_id = ''h1'', sq_department_id = ''d1'', sq_kind = Home\<rparr>) Observer"
  using home_squad_isolated [of "\<lparr>sq_id = ''h1'', sq_department_id = ''d1'', sq_kind = Home\<rparr>" sample_env bob_auth Observer]
  by (simp add: bob_auth_def)

text \<open>The middleware decision on the organisation scope, on every branch: without an
  authenticated principal it answers 401; with one it passes exactly when the principal has a
  loaded list of grants and a member identity and one of the grants is an organisation grant
  meeting the minimum, or the legacy role meets it and there is no grant list or no member
  identity; in every other case it answers 403 naming the minimum. In particular grants on
  squads and departments never pass an organisation check.\<close>
theorem requireOrgCapability_decision:
  "requireOrgCapability env auth c =
    (case auth of
       None \<Rightarrow> Unauthenticated_401
     | Some a \<Rightarrow>
         if (\<exists>gs. capabilities a = Some gs \<and> truthy (memberId a) \<and>
               (\<exists>g \<in> set gs. g_scope_type g = Org \<and> capabilityRank c \<le> capabilityRank (g_capability g)))
           \<or> (capabilities a = None \<or> \<not> truthy (memberId a)) \<and> capabilityRank c \<le> legacyRoleRank (auth_role a)
         then Next else Forbidden_403 c)"
  by (auto simp: requireOrgCapability_def requireCapability_def hasCapabilityOnDynamicScope_def
      has.check_iff legacyRoleSatisfies_def rank_simps Let_def
      simp del: hasCapability.simps split: option.splits)

theorem requireOrgCapability_decision_witness:
  "requireOrgCapability sample_env (Some bob_auth) Admin = Next \<and>
   requireOrgCapability sample_env (Some bob_auth) Owner = Forbidden_403 Owner"
  using requireOrgCapability_decision [of sample_env "Some bob_auth"] by (simp add: bob_auth_def)

text \<open>The bulk loader returns, for every requested member, exactly the list the per-member
  query returns, in the same order, and nothing for a member that was not requested, whatever
  the number of members and however they split into statements of at most 100 parameters.\<close>
theorem bulk_grants_equal_single:
  "resolveCapabilitiesForMembers env ids =
     (\<lambda>i. if i \<in> set ids then Some (resolveCapabilities env i) else None)"
  by (rule ext) (rule resolveCapabilitiesForMembers_eq)

text \<open>C2: the SQL fragment embedded in the invite-redeeming write decides exactly what the
  JavaScript pre-check decides, on all three scope types: the fragment holds for a required
  rank iff the member's current rank on that scope is at least it. The hypotheses are the
  schema's primary keys, that no member row carries an empty e-mail text, a non-empty scope id
  on department and squad scopes, and a rank of the ladder.\<close>
theorem rank_sql_mirror:
  assumes "wf_env env" and "\<forall>m \<in> set (t_members env). m_email m \<noteq> Some []"
    and "ty = Org \<or> truthy sid" and "1 \<le> r"
  shows "currentMemberRankAtLeastSql env ty i sid r \<longleftrightarrow> r \<le> currentMemberRankOnScope env i ty sid"
  using assms rank_mirror_org rank_mirror_department rank_mirror_squad by (cases ty) auto

theorem rank_sql_mirror_witness:
  "currentMemberRankAtLeastSql sample_env Squad ''dan'' (Some ''s1'') 3 \<and>
   \<not> currentMemberRankAtLeastSql sample_env Squad ''dan'' (Some ''h1'') 1"
proof -
  have t: "truthy (Some ''s1'')" "truthy (Some ''h1'')" by simp_all
  have "3 \<le> currentMemberRankOnScope sample_env ''dan'' Squad (Some ''s1'')"
    and "\<not> 1 \<le> currentMemberRankOnScope sample_env ''dan'' Squad (Some ''h1'')"
    by code_simp+
  then show ?thesis
    using rank_sql_mirror [OF sample_wf, of Squad "Some ''s1''" 3 "''dan''"]
      rank_sql_mirror [OF sample_wf, of Squad "Some ''h1''" 1 "''dan''"] t by simp
qed

text \<open>the bulk ceiling check used by list surfaces returns exactly the requested members
  (each once) whom the single check refuses.\<close>
theorem bulk_ceiling_equals_single:
  assumes "wf_env env"
  shows "exceedsTargetRankCeilingForMembers env auth targets =
    filter (exceedsTargetRankCeiling env auth) (unique targets)"
  using assms by (rule exceedsTargetRankCeilingForMembers_eq)

theorem bulk_ceiling_equals_single_witness:
  "exceedsTargetRankCeilingForMembers sample_env bob_auth [''alice'', ''carol'', ''alice''] = [''alice'']"
proof -
  have "filter (exceedsTargetRankCeiling sample_env bob_auth) (unique [''alice'', ''carol'', ''alice'']) = [''alice'']"
    by code_simp
  then show ?thesis using bulk_ceiling_equals_single [OF sample_wf(1)] by simp
qed

lemma skip_home_loaded:
  assumes "skip_home (\<lambda>sid. case loadSquadScope env sid of None \<Rightarrow> False | Some s \<Rightarrow> sq_kind s = Home) g"
  shows "g_scope_type g = Squad \<and>
    (\<exists>s. g_scope_id g = Some (sq_id s) \<and> loadSquadScope env (sq_id s) = Some s \<and> sq_kind s = Home)"
  using assms loadSquadScope_Some
  by (cases "g_scope_id g") (fastforce simp: skip_home_def split: option.splits)+

lemma actorRank_org:
  "1 \<le> r \<Longrightarrow> r \<le> actorRankOnScopeFor env auth Org None \<longleftrightarrow>
     r \<le> legacyRoleRank (auth_role auth) \<or> (truthy (memberId auth) \<and>
       (\<exists>h \<in> set (case capabilities auth of Some gs \<Rightarrow> gs | None \<Rightarrow> resolveCapabilities env (the (memberId auth))).
          g_scope_type h = Org \<and> r \<le> capabilityRank (g_capability h)))"
  by (cases "truthy (memberId auth)")
    (simp_all add: actorRankOnScopeFor_def hasCapabilityOnDynamicScope_def has.raise_check_ge Let_def
      del: hasCapability.simps)

text \<open>C3: an action on another member that the ceiling lets through is dominated plane by plane:
  every live grant the target holds outside a home squad, and the target's legacy role, ranks at
  most the actor's legacy role or one of the actor's own organisation grants. A high grant the
  actor holds on some squad or department never counts.\<close>
theorem ceiling_dominates_target:
  assumes "\<not> exceedsTargetRankCeiling env auth t" and "memberId auth \<noteq> Some t"
    and "r \<in> {targetLegacyRoleRank env t} \<union> (\<lambda>g. capabilityRank (g_capability g)) `
      {g \<in> set (resolveCapabilities env t). \<not> (g_scope_type g = Squad \<and>
         (\<exists>s. g_scope_id g = Some (sq_id s) \<and> loadSquadScope env (sq_id s) = Some s \<and> sq_kind s = Home))}"
  shows "r \<le> legacyRoleRank (auth_role auth) \<or>
    (\<exists>h \<in> set (case capabilities auth of Some gs \<Rightarrow> gs | None \<Rightarrow> resolveCapabilities env (the (memberId auth))).
       g_scope_type h = Org \<and> r \<le> capabilityRank (g_capability h))"
proof (cases "r = 0")
  case False
  let ?home = "\<lambda>sid. case loadSquadScope env sid of None \<Rightarrow> False | Some s \<Rightarrow> sq_kind s = Home"
  have dominated: "targetMaxRankAcrossScopes env t \<le> actorRankOnScopeFor env auth Org None"
    using assms(1,2) by (auto simp: exceedsTargetRankCeiling_def exceedsTargetRankCeilingGivenRanks_def
        split: if_splits)
  have "r \<le> targetMaxRankAcrossScopes env t"
  proof -
    have "r = targetLegacyRoleRank env t \<or> (\<exists>g \<in> set (resolveCapabilities env t).
        \<not> skip_home ?home g \<and> r = capabilityRank (g_capability g))"
      using assms(3) skip_home_loaded [of env] by blast
    then show ?thesis
      by (auto simp: targetMaxRankAcrossScopes_def foldl_skip_max le_max_iff_disj le_foldl_max_iff)
  qed
  with dominated have "r \<le> actorRankOnScopeFor env auth Org None" by simp
  with False show ?thesis using actorRank_org [of r env auth] by auto
qed simp

theorem ceiling_dominates_target_witness:
  "\<not> exceedsTargetRankCeiling sample_env bob_auth ''dan'' \<and>
   capabilityRank Lead \<le> capabilityRank Admin"
proof -
  let ?dan = "\<lparr>g_member_id = ''dan'', g_scope_type = Department, g_scope_id = Some ''d1'', g_capability = Lead\<rparr>"
  have ok: "\<not> exceedsTargetRankCeiling sample_env bob_auth ''dan''"
    and other: "memberId bob_auth \<noteq> Some ''dan''"
    and g: "?dan \<in> set (resolveCapabilities sample_env ''dan'')" by code_simp+
  have "3 \<in> {targetLegacyRoleRank sample_env ''dan''} \<union> (\<lambda>g. capabilityRank (g_capability g)) `
      {g \<in> set (resolveCapabilities sample_env ''dan''). \<not> (g_scope_type g = Squad \<and>
         (\<exists>s. g_scope_id g = Some (sq_id s) \<and> loadSquadScope sample_env (sq_id s) = Some s \<and> sq_kind s = Home))}"
    using g by (auto simp: image_iff intro!: bexI [of _ ?dan])
  from ceiling_dominates_target [OF ok other this] ok show ?thesis
    by (simp add: bob_auth_def)
qed

text \<open>A grant row is either live or lapsed, never both and never neither, even where a
  timestamp cannot be read; a row without horizon is live, and a row with one is live only
  while the clock is readable, past the fixed floor and before the horizon.\<close>
theorem live_xor_lapsed:
  "(holds (CAPABILITY_LAPSED_PREDICATE env e) \<longleftrightarrow> \<not> holds (CAPABILITY_LIVE_PREDICATE env e)) \<and>
   (holds (CAPABILITY_LIVE_PREDICATE env e) \<longleftrightarrow>
      e = None \<or> (\<exists>t n f x. e = Some t \<and> julianday env (now_sql env) = Some n \<and>
        julianday env CAPABILITY_CLOCK_FLOOR = Some f \<and> f < n \<and> julianday env t = Some x \<and> n < x))"
proof -
  have "holds (CAPABILITY_LAPSED_PREDICATE env e) \<longleftrightarrow> \<not> holds (CAPABILITY_LIVE_PREDICATE env e)"
    by (cases e) (auto simp: CAPABILITY_LAPSED_PREDICATE_def holds_def CAPABILITY_LIVE_PREDICATE_def
        Let_def split: option.splits)
  then show ?thesis by (simp add: CAPABILITY_LIVE_iff)
qed

text \<open>The EXISTS-shaped role ceiling and the scalar role rank, built on the same bridge,
  agree on a member bridged to one account unless that account is a plain member and the
  compared rank is 0 or 1: there the EXISTS form reads the role's name on the capability ladder
  (rank 2) where the scalar form reads 0.\<close>
theorem role_above_agrees_unless_member:
  assumes "legacyRoleBridgeSql env i False = [ro]"
  shows "(legacyRoleAboveSql env i r \<longleftrightarrow> r < legacyRoleRankSql env i False) \<longleftrightarrow> ro \<noteq> Role_member \<or> 2 \<le> r"
  using assms by (cases ro) (auto simp: legacyRoleAboveSql_def legacyRoleRankSql_def)

theorem role_above_agrees_unless_member_witness:
  "legacyRoleBridgeSql sample_env ''bob'' False = [Role_member] \<and>
   legacyRoleAboveSql sample_env ''bob'' 1 \<and> legacyRoleRankSql sample_env ''bob'' False = 0"
proof -
  have b: "legacyRoleBridgeSql sample_env ''bob'' False = [Role_member]"
    and z: "legacyRoleRankSql sample_env ''bob'' False = 0" by code_simp+
  show ?thesis using role_above_agrees_unless_member [OF b, of 1] b z by simp
qed

end
