(* ===== verification/Visibility.thy ===== *)
theory Visibility
  imports Capability
begin

text \<open>
  Which squads and which tasks a caller may read: the keyset-paginated squad resolvers of
  \<^verbatim>\<open>src/projects/readable-squads.ts\<close> and the task-visibility chokepoint
  \<^verbatim>\<open>src/tasks/visibility.ts\<close>. A paginated query is the list of ids its \<open>WHERE\<close>
  selects; one page is the sorted ids above the cursor, cut at the page size; the loop with its
  stall error is \<open>keyset_loop\<close>, proved to terminate.
\<close>

section \<open>Keyset pagination\<close>

datatype page_error = Readable_squad_pagination_stalled | All_squad_pagination_stalled

definition keyset_page :: "nat \<Rightarrow> string list \<Rightarrow> string \<Rightarrow> string list" where
  "keyset_page limit rows lastId = take limit (sort (filter (\<lambda>i. lastId < i) rows))"

lemma set_keyset_page: "i \<in> set (keyset_page limit rows lastId) \<Longrightarrow> i \<in> set rows \<and> lastId < i"
  unfolding keyset_page_def by (drule in_set_takeD) auto

function keyset_loop ::
  "nat \<Rightarrow> page_error \<Rightarrow> string list \<Rightarrow> string \<Rightarrow> string list \<Rightarrow> page_error + string list" where
  "keyset_loop limit err rows lastId resolved =
     (let page = keyset_page limit rows lastId in
      if length page < limit then Inr (resolved @ page)
      else if page = [] \<or> last page = [] \<or> last page \<le> lastId then Inl err
      else keyset_loop limit err rows (last page) (resolved @ page))"
  by pat_completeness auto

termination
proof (relation "measure (\<lambda>(limit, err, rows, lastId, resolved). length (filter (\<lambda>i. lastId < i) rows))",
    goal_cases)
  case (2 limit err rows lastId resolved page)
  then have l: "last page \<in> set rows" "lastId < last page"
    using set_keyset_page [of "last page" limit rows lastId] by auto
  then have "length (filter (\<lambda>i. last page < i) (filter (\<lambda>i. lastId < i) rows)) < length (filter (\<lambda>i. lastId < i) rows)"
    by (intro length_filter_less [of "last page"]) auto
  moreover have "filter (\<lambda>i. last page < i) (filter (\<lambda>i. lastId < i) rows) = filter (\<lambda>i. last page < i) rows"
    using l(2) by (auto intro!: filter_cong)
  ultimately show ?case by simp
qed simp

declare keyset_loop.simps [simp del]

definition READABLE_SQUAD_PAGE_SIZE :: nat where
  "READABLE_SQUAD_PAGE_SIZE = 500"

definition resolveReadableSquadIds ::
  "auth_env \<Rightarrow> string list \<Rightarrow> string list \<Rightarrow> page_error + string list" where
  "resolveReadableSquadIds env squadIds departmentIds =
     keyset_loop READABLE_SQUAD_PAGE_SIZE Readable_squad_pagination_stalled
       (map sq_id (filter (\<lambda>s. sq_id s \<in> set (unique squadIds)
           \<or> sq_department_id s \<in> set (unique departmentIds) \<and> sq_kind s \<noteq> Home) (t_squads env)))
       [] []"

definition resolveAllSquadIds :: "auth_env \<Rightarrow> bool \<Rightarrow> page_error + string list" where
  "resolveAllSquadIds env excludeHome =
     keyset_loop READABLE_SQUAD_PAGE_SIZE All_squad_pagination_stalled
       (map sq_id (filter (\<lambda>s. excludeHome \<longrightarrow> sq_kind s \<noteq> Home) (t_squads env))) [] []"

definition resolveGrantedSquadIds ::
  "auth_env \<Rightarrow> capability_grant list \<Rightarrow> capability \<Rightarrow> page_error + string list" where
  "resolveGrantedSquadIds env grants minimum =
     (if hasCapability grants Org_target minimum then resolveAllSquadIds env True
      else
        (let kept = filter (\<lambda>g. truthy (g_scope_id g) \<and>
               \<not> capabilityRank (g_capability g) < capabilityRank minimum) grants;
             squadIds = map (\<lambda>g. the (g_scope_id g)) (filter (\<lambda>g. g_scope_type g = Squad) kept);
             departmentIds = map (\<lambda>g. the (g_scope_id g)) (filter (\<lambda>g. g_scope_type g = Department) kept)
         in if squadIds = [] \<and> departmentIds = [] then Inr []
            else resolveReadableSquadIds env squadIds departmentIds))"

definition resolveAccessibleSquadIds ::
  "auth_env \<Rightarrow> auth_context \<Rightarrow> capability \<Rightarrow> page_error + string list option" where
  "resolveAccessibleSquadIds env auth minimum =
     (if isOrgAdmin (Some auth) then Inr None
      else if \<not> truthy (memberId auth) then Inr (Some [])
      else
        (let grants = (case capabilities auth of
                         Some gs \<Rightarrow> gs | None \<Rightarrow> resolveCapabilities env (the (memberId auth)))
         in if hasCapability grants Org_target minimum then Inr None
            else map_sum id Some (resolveGrantedSquadIds env grants minimum)))"

section \<open>Task visibility\<close>

definition TASK_READ_MINIMUM :: capability where
  "TASK_READ_MINIMUM = Member"

definition rolePlaneActive :: "auth_context \<Rightarrow> bool" where
  "rolePlaneActive auth \<longleftrightarrow>
     capabilities auth = None \<and> (auth_role auth = Role_owner \<or> auth_role auth = Role_admin)"

definition ambientGrants :: "auth_env \<Rightarrow> auth_context \<Rightarrow> capability_grant list" where
  "ambientGrants env auth =
     (case capabilities auth of
        Some gs \<Rightarrow> gs
      | None \<Rightarrow> if truthy (memberId auth) then resolveCapabilities env (the (memberId auth)) else [])"

definition exactSquadGrantIds :: "capability_grant list \<Rightarrow> string list" where
  "exactSquadGrantIds grants =
     map (\<lambda>g. the (g_scope_id g))
       (filter (\<lambda>g. \<not> (g_scope_type g \<noteq> Squad \<or> \<not> truthy (g_scope_id g)) \<and>
           capabilityRank (g_capability g) \<ge> capabilityRank TASK_READ_MINIMUM) grants)"

definition homeSquadIdsAmong :: "auth_env \<Rightarrow> string list \<Rightarrow> string list" where
  "homeSquadIdsAmong env ids =
     (if ids = [] then []
      else map sq_id (filter (\<lambda>s. sq_kind s = Home \<and> sq_id s \<in> set ids) (t_squads env)))"

definition resolveVisibleTaskScope :: "auth_env \<Rightarrow> auth_context \<Rightarrow> page_error + string list" where
  "resolveVisibleTaskScope env auth =
     (let grants = ambientGrants env auth;
          exact = exactSquadGrantIds grants;
          inherited =
            (if rolePlaneActive auth then resolveAllSquadIds env True
             else map_sum id (\<lambda>inh.
                 let candidates = filter (\<lambda>i. i \<notin> set exact) inh;
                     homes = homeSquadIdsAmong env candidates
                 in filter (\<lambda>i. i \<notin> set homes) inh)
               (resolveGrantedSquadIds env grants TASK_READ_MINIMUM))
      in map_sum id (\<lambda>inh. unique (inh @ exact)) inherited)"

definition canReadSquadTasks :: "auth_env \<Rightarrow> auth_context \<Rightarrow> string \<Rightarrow> bool" where
  "canReadSquadTasks env auth squadId =
     (case loadSquadScope env squadId of
        None \<Rightarrow> False
      | Some scope \<Rightarrow>
          if rolePlaneActive auth \<and> planeCoversScope Role_plane scope then True
          else hasCapability (ambientGrants env auth) (Squad_target scope) TASK_READ_MINIMUM)"

text \<open>The rows a task listing reads: \<open>tasks\<close> with the archive side table.\<close>

record task_ref =
  tr_id :: string
  tr_squad_id :: string

definition canReadTask ::
  "auth_env \<Rightarrow> string list \<Rightarrow> auth_context \<Rightarrow> task_ref \<Rightarrow> bool \<Rightarrow> bool" where
  "canReadTask env archived auth task includeArchived =
     (if \<not> includeArchived \<and> tr_id task \<in> set archived then False
      else canReadSquadTasks env auth (tr_squad_id task))"

text \<open>The \<open>WHERE\<close> clause of a listing, as the condition it puts on a row.\<close>

definition visibleTaskClause :: "string list \<Rightarrow> string list \<Rightarrow> task_ref \<Rightarrow> bool" where
  "visibleTaskClause squadIds archived task =
     (if squadIds = [] then False
      else tr_squad_id task \<in> set squadIds \<and> tr_id task \<notin> set archived)"

definition hasProjectEdgeBypass :: "auth_env \<Rightarrow> auth_context \<Rightarrow> bool" where
  "hasProjectEdgeBypass env auth \<longleftrightarrow>
     rolePlaneActive auth \<or> hasCapability (ambientGrants env auth) Org_target Admin"

definition canReadProjectForTasks ::
  "auth_env \<Rightarrow> string list \<Rightarrow> (string \<times> string) list \<Rightarrow> auth_context \<Rightarrow> string \<Rightarrow> string list \<Rightarrow> bool" where
  "canReadProjectForTasks env projects project_squad_access auth projectId candidateSquadIds =
     (if hasProjectEdgeBypass env auth then projectId \<in> set projects
      else if candidateSquadIds = [] then False
      else list_ex (\<lambda>(p, s). p = projectId \<and> s \<in> set candidateSquadIds) project_squad_access)"

section \<open>Pagination is complete\<close>

lemma sorted_filter_above:
  fixes xs :: "'a::linorder list"
  assumes "sorted_wrt (<) xs" and "0 < n" and "n \<le> length xs"
  shows "filter (\<lambda>i. xs ! (n - 1) < i) xs = drop n xs"
proof -
  have "filter (\<lambda>i. xs ! (n - 1) < i) (take n xs) = []"
  proof -
    have "\<not> xs ! (n - 1) < y" if "y \<in> set (take n xs)" for y
    proof -
      from that obtain k where "k < n" "y = xs ! k" using assms(3) by (auto simp: in_set_conv_nth)
      then show ?thesis
        using assms by (cases "k = n - 1") (auto simp: sorted_wrt_iff_nth_less not_less intro!: less_imp_le)
    qed
    then show ?thesis by (simp add: filter_empty_conv)
  qed
  moreover have "filter (\<lambda>i. xs ! (n - 1) < i) (drop n xs) = drop n xs"
  proof (rule filter_True, rule ballI)
    fix y assume "y \<in> set (drop n xs)"
    then obtain k where "k < length (drop n xs)" "y = drop n xs ! k"
      by (metis in_set_conv_nth)
    then have "n + k < length xs" "y = xs ! (n + k)" using assms(3) by auto
    then show "xs ! (n - 1) < y" using assms by (auto simp: sorted_wrt_iff_nth_less)
  qed
  ultimately show ?thesis by (metis append_Nil append_take_drop_id filter_append)
qed

lemma keyset_loop_complete:
  assumes "0 < limit" and "distinct rows"
  shows "keyset_loop limit err rows lastId acc = Inr (acc @ sort (filter (\<lambda>i. lastId < i) rows))"
  using assms
proof (induction limit err rows lastId acc rule: keyset_loop.induct)
  case (1 limit err rows lastId acc)
  define S where "S = sort (filter (\<lambda>i. lastId < i) rows)"
  have S: "sorted_wrt (<) S" "set S = {i \<in> set rows. lastId < i}"
    using "1.prems" by (auto simp: S_def strict_sorted_iff)
  have page: "keyset_page limit rows lastId = take limit S" by (simp add: keyset_page_def S_def)
  show ?case
  proof (cases "length S < limit")
    case True
    then show ?thesis
      by (simp add: keyset_loop.simps [of limit err rows lastId] page S_def)
  next
    case False
    define x where "x = last (take limit S)"
    have ne: "take limit S \<noteq> []" using False "1.prems" by auto
    then have "x \<in> set (take limit S)" unfolding x_def by (rule last_in_set)
    then have x: "x = S ! (limit - 1)" "x \<in> set S"
      using False ne "1.prems" by (auto simp: x_def last_conv_nth min_def dest: in_set_takeD)
    then have "lastId < x" using S(2) by auto
    then have "x \<noteq> []" by auto
    have "sort (filter (\<lambda>i. x < i) rows) = filter (\<lambda>i. x < i) S"
      using \<open>lastId < x\<close> unfolding S_def filter_sort [symmetric]
      by (auto intro!: arg_cong [of _ _ sort] filter_cong)
    also have "\<dots> = drop limit S"
      unfolding x(1) using S(1) False "1.prems" by (intro sorted_filter_above) auto
    finally have rest: "sort (filter (\<lambda>i. x < i) rows) = drop limit S" .
    have guards: "\<not> length (take limit S) < limit" "take limit S \<noteq> []"
      using False "1.prems" by auto
    have "keyset_loop limit err rows lastId acc = keyset_loop limit err rows x (acc @ take limit S)"
      unfolding keyset_loop.simps [of limit err rows lastId] page Let_def x_def [symmetric]
      using guards \<open>x \<noteq> []\<close> \<open>lastId < x\<close> by (simp only: if_False not_le [symmetric] simp_thms)
    also have "\<dots> = Inr ((acc @ take limit S) @ drop limit S)"
      using "1.IH" [of "take limit S"] guards \<open>x \<noteq> []\<close> \<open>lastId < x\<close> "1.prems"
      by (simp add: page x_def [symmetric] rest)
    finally show ?thesis by (simp add: S_def)
  qed
qed

section \<open>The two readers agree\<close>

definition wf_squads :: "auth_env \<Rightarrow> bool" where
  "wf_squads env \<longleftrightarrow> wf_env env \<and>
     list_all (\<lambda>s. sq_id s \<noteq> [] \<and> sq_department_id s \<noteq> []) (t_squads env)"

lemma Nil_less_iff: "[] < (xs :: string) \<longleftrightarrow> xs \<noteq> []"
  by (cases xs) auto

lemma keyset_ids:
  assumes "wf_squads env"
  shows "keyset_loop READABLE_SQUAD_PAGE_SIZE err (map sq_id (filter p (t_squads env))) [] [] =
    Inr (sort (map sq_id (filter p (t_squads env))))"
proof -
  have "distinct (map sq_id (filter p (t_squads env)))"
    using assms by (simp add: wf_squads_def wf_env_def distinct_map_filter)
  moreover have "filter (\<lambda>i. [] < i) (map sq_id (filter p (t_squads env))) = map sq_id (filter p (t_squads env))"
    using assms by (auto simp: filter_id_conv wf_squads_def list_all_iff Nil_less_iff)
  ultimately show ?thesis
    by (simp add: keyset_loop_complete READABLE_SQUAD_PAGE_SIZE_def)
qed

lemma resolveAllSquadIds_eq:
  "wf_squads env \<Longrightarrow> resolveAllSquadIds env h =
     Inr (sort (map sq_id (filter (\<lambda>s. h \<longrightarrow> sq_kind s \<noteq> Home) (t_squads env))))"
  unfolding resolveAllSquadIds_def by (rule keyset_ids)

lemma resolveReadableSquadIds_eq:
  "wf_squads env \<Longrightarrow> resolveReadableSquadIds env sids dids =
     Inr (sort (map sq_id (filter (\<lambda>s. sq_id s \<in> set sids
       \<or> sq_department_id s \<in> set dids \<and> sq_kind s \<noteq> Home) (t_squads env))))"
  unfolding resolveReadableSquadIds_def set_unique by (rule keyset_ids)

lemma same_squad:
  "wf_squads env \<Longrightarrow> s \<in> set (t_squads env) \<Longrightarrow> t \<in> set (t_squads env) \<Longrightarrow> sq_id s = sq_id t \<Longrightarrow> s = t"
  using loadSquadScope_key [of env s "sq_id t"] loadSquadScope_key [of env t "sq_id t"]
  unfolding wf_squads_def by (metis option.inject)

lemma sq_id_selected:
  assumes "wf_squads env" and "s \<in> set (t_squads env)"
  shows "sq_id s \<in> sq_id ` {t \<in> set (t_squads env). p t} \<longleftrightarrow> p s"
proof
  assume "sq_id s \<in> sq_id ` {t \<in> set (t_squads env). p t}"
  then obtain t where t: "t \<in> set (t_squads env)" "p t" "sq_id s = sq_id t" by auto
  with same_squad [OF assms t(1,3)] show "p s" by simp
qed (use assms in auto)

lemma exactSquadGrantIds_iff:
  "i \<in> set (exactSquadGrantIds gs) \<longleftrightarrow> i \<noteq> [] \<and>
     (\<exists>g \<in> set gs. g_scope_type g = Squad \<and> g_scope_id g = Some i \<and> meets (g_capability g) TASK_READ_MINIMUM)"
  by (auto simp: exactSquadGrantIds_def rank_simps image_iff intro!: bexI)

text \<open>What the granted-squads resolver returns for an existing squad.\<close>

lemma resolveGrantedSquadIds_member:
  assumes wf: "wf_squads env"
  obtains ids where "resolveGrantedSquadIds env gs m = Inr ids"
    and "\<And>s. s \<in> set (t_squads env) \<Longrightarrow> sq_kind s \<noteq> Home \<Longrightarrow>
        sq_id s \<in> set ids \<longleftrightarrow> hasCapability gs (Squad_target s) m"
proof (cases "hasCapability gs Org_target m")
  case True
  show thesis
  proof (rule that)
    show "resolveGrantedSquadIds env gs m =
        Inr (sort (map sq_id (filter (\<lambda>s. sq_kind s \<noteq> Home) (t_squads env))))"
      using True by (simp add: resolveGrantedSquadIds_def resolveAllSquadIds_eq [OF wf])
    show "sq_id s \<in> set (sort (map sq_id (filter (\<lambda>s. sq_kind s \<noteq> Home) (t_squads env)))) \<longleftrightarrow>
        hasCapability gs (Squad_target s) m" if "s \<in> set (t_squads env)" "sq_kind s \<noteq> Home" for s
      using True that by (auto simp: has.check_iff simp del: hasCapability.simps)
  qed
next
  case False
  define kept where "kept = filter (\<lambda>g. truthy (g_scope_id g) \<and>
      \<not> capabilityRank (g_capability g) < capabilityRank m) gs"
  define sids where "sids = map (\<lambda>g. the (g_scope_id g)) (filter (\<lambda>g. g_scope_type g = Squad) kept)"
  define dids where "dids = map (\<lambda>g. the (g_scope_id g)) (filter (\<lambda>g. g_scope_type g = Department) kept)"
  define sel where "sel s \<longleftrightarrow> sq_id s \<in> set sids \<or> sq_department_id s \<in> set dids \<and> sq_kind s \<noteq> Home"
    for s :: squad_scope
  have eq: "resolveGrantedSquadIds env gs m = Inr (sort (map sq_id (filter sel (t_squads env))))"
  proof (cases "sids = [] \<and> dids = []")
    case True
    then have "filter sel (t_squads env) = []" by (simp add: sel_def)
    with True False show ?thesis
      unfolding resolveGrantedSquadIds_def Let_def kept_def [symmetric] sids_def [symmetric]
        dids_def [symmetric] by simp
  next
    case none: False
    with False show ?thesis
      unfolding resolveGrantedSquadIds_def Let_def kept_def [symmetric] sids_def [symmetric]
        dids_def [symmetric] resolveReadableSquadIds_eq [OF wf] sel_def by simp
  qed
  have ids: "x \<in> set sids \<longleftrightarrow> x \<noteq> [] \<and> (\<exists>g \<in> set gs. g_scope_type g = Squad \<and> g_scope_id g = Some x \<and> meets (g_capability g) m)"
    "x \<in> set dids \<longleftrightarrow> x \<noteq> [] \<and> (\<exists>g \<in> set gs. g_scope_type g = Department \<and> g_scope_id g = Some x \<and> meets (g_capability g) m)"
    for x
    unfolding sids_def dids_def kept_def by (auto simp: rank_simps image_iff not_less intro!: bexI)
  show thesis
  proof (rule that [OF eq], goal_cases)
    case (1 s)
    with wf have "sq_id s \<noteq> []" "sq_department_id s \<noteq> []" by (auto simp: wf_squads_def list_all_iff)
    with 1 False show ?case
      using sq_id_selected [OF wf 1(1), of sel]
      by (auto simp: sel_def ids has.check_iff simp del: hasCapability.simps)
  qed
qed

lemma set_homeSquadIdsAmong:
  "set (homeSquadIdsAmong env ids) = sq_id ` {s \<in> set (t_squads env). sq_kind s = Home \<and> sq_id s \<in> set ids}"
  by (auto simp: homeSquadIdsAmong_def)

lemma visible_scope_ids:
  assumes wf: "wf_squads env"
  obtains ids where "resolveVisibleTaskScope env auth = Inr ids"
    and "\<And>s. s \<in> set (t_squads env) \<Longrightarrow> sq_id s \<in> set ids \<longleftrightarrow> canReadSquadTasks env auth (sq_id s)"
proof -
  let ?gs = "ambientGrants env auth"
  have load: "loadSquadScope env (sq_id s) = Some s" if "s \<in> set (t_squads env)" for s
    using that wf by (simp add: wf_squads_def loadSquadScope_key)
  have ne: "sq_id s \<noteq> []" if "s \<in> set (t_squads env)" for s
    using that wf by (auto simp: wf_squads_def list_all_iff)
  have exact: "hasCapability ?gs (Squad_target s) TASK_READ_MINIMUM \<longleftrightarrow> sq_id s \<in> set (exactSquadGrantIds ?gs)"
    if "s \<in> set (t_squads env)" "sq_kind s = Home" for s
    using that ne by (auto simp: has.check_iff exactSquadGrantIds_iff simp del: hasCapability.simps)
  have sub: "hasCapability ?gs (Squad_target s) TASK_READ_MINIMUM"
    if "sq_id s \<in> set (exactSquadGrantIds ?gs)" for s
    using that by (auto simp: has.check_iff exactSquadGrantIds_iff simp del: hasCapability.simps)
  show thesis
  proof (cases "rolePlaneActive auth")
    case True
    show thesis
    proof (rule that)
      show "resolveVisibleTaskScope env auth = Inr (unique (sort (map sq_id
          (filter (\<lambda>s. sq_kind s \<noteq> Home) (t_squads env))) @ exactSquadGrantIds ?gs))" (is "_ = Inr ?ids")
        using True by (simp add: resolveVisibleTaskScope_def resolveAllSquadIds_eq [OF wf])
      show "sq_id s \<in> set ?ids \<longleftrightarrow> canReadSquadTasks env auth (sq_id s)" if "s \<in> set (t_squads env)" for s
        using True exact [OF that] load [OF that] sq_id_selected [OF wf that, of "\<lambda>s. sq_kind s \<noteq> Home"]
        by (cases "sq_kind s = Home") (auto simp: canReadSquadTasks_def planeCoversScope_def)
    qed
  next
    case False
    obtain inh where inh: "resolveGrantedSquadIds env ?gs TASK_READ_MINIMUM = Inr inh"
      "\<And>s. s \<in> set (t_squads env) \<Longrightarrow> sq_kind s \<noteq> Home \<Longrightarrow>
          sq_id s \<in> set inh \<longleftrightarrow> hasCapability ?gs (Squad_target s) TASK_READ_MINIMUM"
      using resolveGrantedSquadIds_member [OF wf, of ?gs TASK_READ_MINIMUM] by blast
    let ?homes = "homeSquadIdsAmong env (filter (\<lambda>i. i \<notin> set (exactSquadGrantIds ?gs)) inh)"
    have homes: "sq_id s \<in> set ?homes \<longleftrightarrow>
        sq_kind s = Home \<and> sq_id s \<in> set inh \<and> sq_id s \<notin> set (exactSquadGrantIds ?gs)"
      if "s \<in> set (t_squads env)" for s
      using sq_id_selected [OF wf that, of "\<lambda>t. sq_kind t = Home \<and> sq_id t \<in> set (filter (\<lambda>i. i \<notin> set (exactSquadGrantIds ?gs)) inh)"]
      unfolding set_homeSquadIdsAmong by simp
    show thesis
    proof (rule that)
      show "resolveVisibleTaskScope env auth =
          Inr (unique (filter (\<lambda>i. i \<notin> set ?homes) inh @ exactSquadGrantIds ?gs))" (is "_ = Inr ?ids")
        using False inh(1) by (simp add: resolveVisibleTaskScope_def Let_def)
      show "sq_id s \<in> set ?ids \<longleftrightarrow> canReadSquadTasks env auth (sq_id s)" if "s \<in> set (t_squads env)" for s
        using False inh(2) [OF that] exact [OF that] sub [of s] load [OF that] homes [OF that]
        by (cases "sq_kind s = Home") (auto simp: canReadSquadTasks_def simp del: hasCapability.simps)
    qed
  qed
qed

section \<open>Properties\<close>

text \<open>C5: Keyset pagination over the squads never stalls and loses or repeats nothing: on a table
  with non-empty primary keys, the readable-squads resolver returns exactly the ids its
  condition selects, each once and in ascending order, whatever the number of pages.\<close>
theorem readable_squads_complete:
  assumes "wf_squads env"
  shows "\<exists>ids. resolveReadableSquadIds env sids dids = Inr ids \<and> sorted ids \<and> distinct ids \<and>
    set ids = sq_id ` {s \<in> set (t_squads env). sq_id s \<in> set sids
       \<or> sq_department_id s \<in> set dids \<and> sq_kind s \<noteq> Home}"
  using resolveReadableSquadIds_eq [OF assms, of sids dids] assms
  by (auto simp: wf_squads_def wf_env_def distinct_map_filter)

theorem readable_squads_complete_witness:
  "\<exists>ids. resolveReadableSquadIds sample_env [''s1''] [''d1''] = Inr ids \<and> sorted ids \<and> distinct ids"
proof -
  have "wf_squads sample_env" by code_simp
  from readable_squads_complete [OF this, of "[''s1'']" "[''d1'']"] show ?thesis by blast
qed

text \<open>C4: The two readers of task visibility agree: the squad scope a listing filters by always
  exists, and an existing squad is in it if and only if the caller may read a single task of
  that squad, so that listing and point lookup can never diverge, home squads included.\<close>
theorem visible_scope_matches_point_read:
  assumes "wf_squads env"
  shows "\<exists>ids. resolveVisibleTaskScope env auth = Inr ids \<and>
    (\<forall>s \<in> set (t_squads env). sq_id s \<in> set ids \<longleftrightarrow> canReadSquadTasks env auth (sq_id s))"
proof -
  obtain ids where "resolveVisibleTaskScope env auth = Inr ids"
    and "\<And>s. s \<in> set (t_squads env) \<Longrightarrow> sq_id s \<in> set ids \<longleftrightarrow> canReadSquadTasks env auth (sq_id s)"
    using visible_scope_ids [OF assms, of auth] by blast
  then show ?thesis by (intro exI [of _ ids]) simp
qed

theorem visible_scope_matches_point_read_witness:
  "\<exists>ids. resolveVisibleTaskScope sample_env bob_auth = Inr ids \<and>
    (\<forall>s \<in> set (t_squads sample_env). sq_id s \<in> set ids \<longleftrightarrow> canReadSquadTasks sample_env bob_auth (sq_id s))"
proof -
  have "wf_squads sample_env" by code_simp
  from visible_scope_matches_point_read [OF this] show ?thesis .
qed

end
