(* ===== verification/Gates.thy ===== *)
theory Gates
  imports Capability
begin

text \<open>
  Gate authority: the canonical lanes (\<^verbatim>\<open>src/gates/lanes.ts\<close>), the gate principal of
  a request (\<^verbatim>\<open>src/gates/principal.ts\<close>), the grant store with its liveness checks
  (\<^verbatim>\<open>src/gates/grants.ts\<close>), the surface check of \<^verbatim>\<open>src/auth/capability.ts\<close>, the
  own-lane test (\<^verbatim>\<open>src/gates/own-lane.ts\<close>) and the dyad default
  (\<^verbatim>\<open>src/gates/dyad.ts\<close>). \<open>gate_db\<close> holds the tables; a fresh row id and the
  timestamp of a write are arguments.
\<close>

section \<open>Lanes\<close>

definition GATE_ATHENA :: string where "GATE_ATHENA = ''gate:athena''"
definition GATE_KASRA_CORE :: string where "GATE_KASRA_CORE = ''gate:kasra-core''"
definition GATE_AGENT_SELF_COMPLETION :: string where
  "GATE_AGENT_SELF_COMPLETION = ''gate:agent-self-completion''"
definition GATE_ROUTINES :: string where "GATE_ROUTINES = ''gate:routines''"
definition GATE_OFFICE :: string where "GATE_OFFICE = ''gate:office''"
definition GATE_SELF_PREFIX :: string where "GATE_SELF_PREFIX = ''gate:self-''"

record council_gate_lane =
  cl_lane :: string
  cl_agentSlug :: string

definition COUNCIL_GATE_LANES :: "council_gate_lane list" where
  "COUNCIL_GATE_LANES =
     [\<lparr>cl_lane = GATE_ATHENA, cl_agentSlug = ''athena''\<rparr>,
      \<lparr>cl_lane = GATE_KASRA_CORE, cl_agentSlug = ''kasra''\<rparr>]"

definition councilGateLaneFor :: "string \<Rightarrow> string option" where
  "councilGateLaneFor slug = map_option cl_lane (find (\<lambda>e. cl_agentSlug e = slug) COUNCIL_GATE_LANES)"

definition isSubsystemReservedLane :: "string \<Rightarrow> bool" where
  "isSubsystemReservedLane capability =
     (let c = lower (trim capability) in
      c = GATE_OFFICE \<or> c = GATE_ROUTINES \<or> c = GATE_AGENT_SELF_COMPLETION \<or> prefix GATE_SELF_PREFIX c)"

definition isReservedForHumansOrSubsystems :: "string \<Rightarrow> bool" where
  "isReservedForHumansOrSubsystems capability \<longleftrightarrow>
     lower (trim capability) = ''gate:hadi'' \<or> isSubsystemReservedLane capability"

section \<open>Principals and tables\<close>

datatype gate_principal_type = P_member | P_agent

record gate_principal =
  gp_type :: gate_principal_type
  gp_id :: string

record gate_grant_row =
  gg_id :: string
  gg_capability :: string
  gg_principal_type :: gate_principal_type
  gg_principal_id :: string
  gg_granted_by :: string
  gg_created_at :: string

datatype agent_status = Agent_active | Agent_paused | Agent_inactive

datatype member_status = Member_active | Member_suspended

record agent_row =
  ag_id :: string
  ag_slug :: string
  ag_squad_id :: string
  ag_status :: agent_status

record dyad_row =
  dy_squad_id :: string
  dyad_agent_a :: "string option"
  dyad_agent_b :: "string option"

record gate_db =
  gate_grants :: "gate_grant_row list"
  db_agents :: "agent_row list"
  db_members :: "(string \<times> member_status) list"
  db_dyads :: "dyad_row list"

definition grant_key :: "gate_grant_row \<Rightarrow> string \<times> gate_principal_type \<times> string" where
  "grant_key g = (gg_capability g, gg_principal_type g, gg_principal_id g)"

text \<open>The keys of migration 0008 and of the roster tables, and the pair triggers of migration 0246.\<close>

definition wf_gates :: "gate_db \<Rightarrow> bool" where
  "wf_gates db \<longleftrightarrow> distinct (map gg_id (gate_grants db)) \<and> distinct (map grant_key (gate_grants db)) \<and>
     distinct (map ag_id (db_agents db)) \<and> distinct (map fst (db_members db)) \<and>
     distinct (map dy_squad_id (db_dyads db)) \<and>
     list_all (\<lambda>d. (dyad_agent_a d = None) = (dyad_agent_b d = None) \<and>
        (dyad_agent_a d = None \<or> dyad_agent_a d \<noteq> dyad_agent_b d)) (db_dyads db)"

definition resolveGatePrincipal :: "auth_context \<Rightarrow> gate_principal option" where
  "resolveGatePrincipal auth =
     (if attachedAuthority auth \<noteq> None then None
      else if truthy (boundAgentId auth) then Some \<lparr>gp_type = P_agent, gp_id = the (boundAgentId auth)\<rparr>
      else if truthy (memberId auth) then Some \<lparr>gp_type = P_member, gp_id = the (memberId auth)\<rparr>
      else if userId auth \<noteq> [] then Some \<lparr>gp_type = P_agent, gp_id = userId auth\<rparr>
      else None)"

section \<open>The grant store\<close>

datatype gate_grant_validation_error = Invalid_capability | Invalid_principal_type | Invalid_principal_id

definition ascii_alnum :: "char \<Rightarrow> bool" where
  "ascii_alnum c \<longleftrightarrow> (let n = of_char c :: nat in
     48 \<le> n \<and> n \<le> 57 \<or> 65 \<le> n \<and> n \<le> 90 \<or> 97 \<le> n \<and> n \<le> 122)"

text \<open>\<open>/^gate:[a-zA-Z0-9][a-zA-Z0-9:_-]{0,120}$/\<close>\<close>

definition GATE_CAPABILITY_RE :: "string \<Rightarrow> bool" where
  "GATE_CAPABILITY_RE s \<longleftrightarrow>
     prefix ''gate:'' s \<and>
     (case drop 5 s of
        [] \<Rightarrow> False
      | c # cs \<Rightarrow> ascii_alnum c \<and> length cs \<le> 120 \<and>
          list_all (\<lambda>d. ascii_alnum d \<or> d \<in> set '':_-'') cs)"

text \<open>An argument of type \<open>unknown\<close> that the parser only asks to be a string: \<open>None\<close> is any
  other value.\<close>

definition parseGateGrantArgs ::
  "string option \<Rightarrow> string option \<Rightarrow> string option \<Rightarrow>
     gate_grant_validation_error + (string \<times> gate_principal_type \<times> string)" where
  "parseGateGrantArgs capability principal_type principal_id =
     (case capability of
        None \<Rightarrow> Inl Invalid_capability
      | Some cap \<Rightarrow>
          if \<not> GATE_CAPABILITY_RE (trim cap) then Inl Invalid_capability
          else if principal_type \<noteq> Some ''member'' \<and> principal_type \<noteq> Some ''agent'' then Inl Invalid_principal_type
          else (case principal_id of
                  None \<Rightarrow> Inl Invalid_principal_id
                | Some pid \<Rightarrow>
                    if trim pid = [] then Inl Invalid_principal_id
                    else Inr (trim cap, if principal_type = Some ''agent'' then P_agent else P_member, trim pid)))"

record gate_grant_input =
  gi_capability :: string
  gi_principalType :: gate_principal_type
  gi_principalId :: string
  gi_grantedBy :: string

definition row_of_input :: "string \<Rightarrow> string \<Rightarrow> gate_grant_input \<Rightarrow> gate_grant_row" where
  "row_of_input new_id now i = \<lparr>gg_id = new_id, gg_capability = gi_capability i,
     gg_principal_type = gi_principalType i, gg_principal_id = gi_principalId i,
     gg_granted_by = gi_grantedBy i, gg_created_at = now\<rparr>"

text \<open>\<open>INSERT OR IGNORE\<close>: nothing is written when the primary key or the unique triple exists.
  The second component is the number of rows written.\<close>

definition insert_or_ignore :: "gate_grant_row \<Rightarrow> gate_grant_row list \<Rightarrow> gate_grant_row list \<times> nat" where
  "insert_or_ignore r rows =
     (if exists_row (\<lambda>g. gg_id g = gg_id r \<or> grant_key g = grant_key r) rows then (rows, 0)
      else (rows @ [r], 1))"

definition grantGateCapability ::
  "gate_db \<Rightarrow> string \<Rightarrow> string \<Rightarrow> gate_grant_input \<Rightarrow> gate_db \<times> gate_grant_row" where
  "grantGateCapability db new_id now i =
     (db\<lparr>gate_grants := fst (insert_or_ignore (row_of_input new_id now i) (gate_grants db))\<rparr>,
      row_of_input new_id now i)"

definition held_by_member :: "gate_grant_row list \<Rightarrow> string \<Rightarrow> bool" where
  "held_by_member rows cap =
     exists_row (\<lambda>g. lower (gg_capability g) = lower cap \<and> gg_principal_type g = P_member) rows"

datatype guarded_grant_error = Gate_held_by_member

definition grantGateCapabilityUnlessHeldByMember ::
  "gate_db \<Rightarrow> string \<Rightarrow> string \<Rightarrow> gate_grant_input \<Rightarrow> gate_db \<times> (guarded_grant_error + gate_grant_row)" where
  "grantGateCapabilityUnlessHeldByMember db new_id now i =
     (let r = row_of_input new_id now i;
          (rows, changes) = (if \<not> held_by_member (gate_grants db) (gi_capability i)
                             then insert_or_ignore r (gate_grants db) else (gate_grants db, 0));
          db' = db\<lparr>gate_grants := rows\<rparr>
      in if changes = 0 \<and> held_by_member (gate_grants db') (gi_capability i)
         then (db', Inl Gate_held_by_member) else (db', Inr r))"

text \<open>\<open>ORDER BY created_at DESC LIMIT 500\<close>; SQLite keeps scan order among equal keys.\<close>

definition listGateCapabilities ::
  "gate_db \<Rightarrow> string option \<Rightarrow> gate_principal_type option \<Rightarrow> string option \<Rightarrow> gate_grant_row list" where
  "listGateCapabilities db cap ptype pid =
     take 500 (rev (sort_key gg_created_at (rev
       (filter (\<lambda>g. (cap = None \<or> Some (gg_capability g) = cap) \<and>
                    (ptype = None \<or> Some (gg_principal_type g) = ptype) \<and>
                    (pid = None \<or> Some (gg_principal_id g) = pid)) (gate_grants db)))))"

definition revokeGateCapability ::
  "gate_db \<Rightarrow> string \<Rightarrow> gate_principal_type \<Rightarrow> string \<Rightarrow> gate_db" where
  "revokeGateCapability db cap ptype pid =
     db\<lparr>gate_grants := filter (\<lambda>g. \<not> (gg_capability g = cap \<and> gg_principal_type g = ptype \<and>
          gg_principal_id g = pid)) (gate_grants db)\<rparr>"

definition agentStatus :: "gate_db \<Rightarrow> string \<Rightarrow> agent_status option" where
  "agentStatus db i = map_option ag_status (first_row (\<lambda>a. ag_id a = i) (db_agents db))"

definition memberStatus :: "gate_db \<Rightarrow> string \<Rightarrow> member_status option" where
  "memberStatus db i = map_option snd (first_row (\<lambda>m. fst m = i) (db_members db))"

definition hasActiveGateGrant :: "gate_db \<Rightarrow> string \<Rightarrow> gate_principal_type \<Rightarrow> string \<Rightarrow> bool" where
  "hasActiveGateGrant db cap ptype pid =
     (case ptype of
        P_agent \<Rightarrow> exists_row (\<lambda>g. exists_row (\<lambda>a. ag_id a = gg_principal_id g \<and> gg_capability g = cap \<and>
            gg_principal_type g = P_agent \<and> gg_principal_id g = pid \<and> ag_status a = Agent_active)
            (db_agents db)) (gate_grants db)
      | P_member \<Rightarrow> exists_row (\<lambda>g. exists_row (\<lambda>m. fst m = gg_principal_id g \<and> gg_capability g = cap \<and>
            gg_principal_type g = P_member \<and> gg_principal_id g = pid \<and> snd m = Member_active)
            (db_members db)) (gate_grants db))"

record gate_owner_common =
  go_capability :: string
  active_holders :: "gate_principal list"
  inactive_holders :: "gate_principal list"
  grant_count :: nat

datatype gate_owner_resolution =
    Resolved gate_owner_common gate_principal
  | Ambiguous gate_owner_common
  | No_live_holder gate_owner_common

definition principal_of :: "gate_grant_row \<Rightarrow> gate_principal" where
  "principal_of g = \<lparr>gp_type = gg_principal_type g, gp_id = gg_principal_id g\<rparr>"

text \<open>The two \<open>LEFT JOIN\<close>s read the status of the principal behind a grant.\<close>

definition holder_active :: "gate_db \<Rightarrow> gate_grant_row \<Rightarrow> bool" where
  "holder_active db g =
     (case gg_principal_type g of
        P_agent \<Rightarrow> agentStatus db (gg_principal_id g) = Some Agent_active
      | P_member \<Rightarrow> memberStatus db (gg_principal_id g) = Some Member_active)"

text \<open>\<open>ORDER BY principal_type ASC, principal_id ASC\<close>: \<open>'agent'\<close> sorts before \<open>'member'\<close>.\<close>

fun ptype_text :: "gate_principal_type \<Rightarrow> string" where
  "ptype_text P_agent = ''agent''"
| "ptype_text P_member = ''member''"

definition resolveSoleGateOwnerAgent :: "gate_db \<Rightarrow> string \<Rightarrow> gate_owner_resolution" where
  "resolveSoleGateOwnerAgent db gateOwner =
     (let rows = sort_key (\<lambda>g. ptype_text (gg_principal_type g)) (sort_key gg_principal_id
            (filter (\<lambda>g. gg_capability g = gateOwner) (gate_grants db)));
          act = map principal_of (filter (holder_active db) rows);
          inact = map principal_of (filter (\<lambda>g. \<not> holder_active db g) rows);
          common = \<lparr>go_capability = gateOwner, active_holders = act, inactive_holders = inact,
                    grant_count = length rows\<rparr>
      in case act of
           [p] \<Rightarrow> Resolved common p
         | [] \<Rightarrow> No_live_holder common
         | _ \<Rightarrow> Ambiguous common)"

section \<open>Surface capabilities\<close>

definition hasSurfaceCap :: "gate_db \<Rightarrow> auth_context \<Rightarrow> string \<Rightarrow> bool" where
  "hasSurfaceCap db auth surface =
     (if attachedAuthority auth \<noteq> None then False
      else if isOrgAdmin (Some auth) then True
      else (case resolveGatePrincipal auth of
              None \<Rightarrow> False
            | Some p \<Rightarrow> hasActiveGateGrant db surface (gp_type p) (gp_id p)))"

datatype surface_outcome = Surface_next | Surface_401 | Surface_403 string

definition requireSurfaceCap :: "gate_db \<Rightarrow> string \<Rightarrow> auth_context option \<Rightarrow> surface_outcome" where
  "requireSurfaceCap db surface auth =
     (case auth of
        None \<Rightarrow> Surface_401
      | Some a \<Rightarrow> if \<not> hasSurfaceCap db a surface then Surface_403 surface else Surface_next)"

section \<open>Own lanes and the dyad default\<close>

definition creatorHoldsLane :: "gate_db \<Rightarrow> auth_context \<Rightarrow> string \<Rightarrow> bool" where
  "creatorHoldsLane db auth lane =
     (let name = (if prefix ''gate:'' lane then drop 5 lane else lane);
          as_agent = (case boundAgentId auth of
             None \<Rightarrow> False
           | Some a \<Rightarrow>
               if a = [] then False
               else if hasActiveGateGrant db lane P_agent a then True
               else name = a \<or>
                 (case first_row (\<lambda>r. ag_id r = a) (db_agents db) of
                    None \<Rightarrow> False
                  | Some r \<Rightarrow> ag_slug r \<noteq> [] \<and> name = ag_slug r))
      in if as_agent then True
         else truthy (memberId auth) \<and> hasActiveGateGrant db lane P_member (the (memberId auth)))"

datatype dyad_hint =
    Not_pair_member | Pair_not_intact | Peer_is_assignee string | Peer_gate_unusable string
  | Peer_holds_no_grant string | Not_held_exclusively string

datatype dyad_gate_default = Dyad_gate string | Dyad_hint dyad_hint

definition dyad_intact :: "string \<Rightarrow> agent_row option \<Rightarrow> bool" where
  "dyad_intact squadId r =
     (case r of None \<Rightarrow> False | Some a \<Rightarrow> ag_status a = Agent_active \<and> ag_squad_id a = squadId)"

definition resolveDyadGateDefault ::
  "gate_db \<Rightarrow> string \<Rightarrow> string option \<Rightarrow> string option \<Rightarrow> dyad_gate_default option" where
  "resolveDyadGateDefault db squadId creatorAgentId assigneeAgentId =
     (case first_row (\<lambda>d. dy_squad_id d = squadId) (db_dyads db) of
        None \<Rightarrow> None
      | Some squad \<Rightarrow>
          (case (dyad_agent_a squad, dyad_agent_b squad) of
             (Some aId, Some bId) \<Rightarrow>
               (if creatorAgentId = None \<or> creatorAgentId \<noteq> Some aId \<and> creatorAgentId \<noteq> Some bId
                then Some (Dyad_hint Not_pair_member)
                else
                  (let peerId = (if creatorAgentId = Some aId then bId else aId);
                       found = filter (\<lambda>r. ag_id r = aId \<or> ag_id r = bId) (db_agents db);
                       peer = find (\<lambda>r. ag_id r = peerId) found;
                       creator = find (\<lambda>r. Some (ag_id r) = creatorAgentId) found
                   in if \<not> dyad_intact squadId peer \<or> \<not> dyad_intact squadId creator
                      then Some (Dyad_hint Pair_not_intact)
                      else
                        (let p = the peer; cap = ''gate:'' @ ag_slug p in
                         if assigneeAgentId \<noteq> None \<and> assigneeAgentId = Some (ag_id p)
                         then Some (Dyad_hint (Peer_is_assignee (ag_slug p)))
                         else if \<not> GATE_CAPABILITY_RE cap \<or> isReservedForHumansOrSubsystems cap
                         then Some (Dyad_hint (Peer_gate_unusable cap))
                         else (case resolveSoleGateOwnerAgent db cap of
                                 Resolved _ h \<Rightarrow>
                                   (if gp_type h = P_agent \<and> gp_id h = ag_id p then Some (Dyad_gate cap)
                                    else Some (Dyad_hint (Not_held_exclusively cap)))
                               | No_live_holder _ \<Rightarrow> Some (Dyad_hint (Peer_holds_no_grant cap))
                               | Ambiguous _ \<Rightarrow> Some (Dyad_hint (Not_held_exclusively cap))))))
           | _ \<Rightarrow> None))"

section \<open>Liveness\<close>

lemma first_row_key_iff:
  assumes "distinct (map k rows)"
  shows "first_row (\<lambda>r. k r = i) rows = Some x \<longleftrightarrow> x \<in> set rows \<and> k x = i"
  using first_row_key [OF assms, of x] first_row_Some [of "\<lambda>r. k r = i" rows x] by auto

lemma agentStatus_active_iff:
  assumes "distinct (map ag_id (db_agents db))"
  shows "agentStatus db i = Some s \<longleftrightarrow> (\<exists>a \<in> set (db_agents db). ag_id a = i \<and> ag_status a = s)"
  unfolding agentStatus_def map_option_eq_Some first_row_key_iff [OF assms] by auto

lemma memberStatus_active_iff:
  assumes "distinct (map fst (db_members db))"
  shows "memberStatus db i = Some s \<longleftrightarrow> (\<exists>m \<in> set (db_members db). fst m = i \<and> snd m = s)"
  unfolding memberStatus_def map_option_eq_Some first_row_key_iff [OF assms] by (auto intro!: bexI)

definition principal_active :: "gate_db \<Rightarrow> gate_principal_type \<Rightarrow> string \<Rightarrow> bool" where
  "principal_active db t i =
     (case t of P_agent \<Rightarrow> exists_row (\<lambda>a. ag_id a = i \<and> ag_status a = Agent_active) (db_agents db)
      | P_member \<Rightarrow> exists_row (\<lambda>m. fst m = i \<and> snd m = Member_active) (db_members db))"

definition has_grant_row :: "gate_db \<Rightarrow> string \<times> gate_principal_type \<times> string \<Rightarrow> bool" where
  "has_grant_row db k \<longleftrightarrow> k \<in> set (map grant_key (gate_grants db))"

lemma hasActiveGateGrant_iff:
  "hasActiveGateGrant db cap t i \<longleftrightarrow> has_grant_row db (cap, t, i) \<and> principal_active db t i"
  by (cases t) (fastforce simp: hasActiveGateGrant_def has_grant_row_def principal_active_def row_simps
      grant_key_def image_iff)+

lemma holder_active_iff:
  assumes "wf_gates db"
  shows "holder_active db g \<longleftrightarrow> principal_active db (gg_principal_type g) (gg_principal_id g)"
  using assms by (auto simp: wf_gates_def holder_active_def principal_active_def agentStatus_active_iff
      memberStatus_active_iff row_simps split: gate_principal_type.splits)

text \<open>The sorted grant rows of one lane.\<close>

definition lane_rows :: "gate_db \<Rightarrow> string \<Rightarrow> gate_grant_row list" where
  "lane_rows db lane = sort_key (\<lambda>g. ptype_text (gg_principal_type g)) (sort_key gg_principal_id
     (filter (\<lambda>g. gg_capability g = lane) (gate_grants db)))"

definition live_holders :: "gate_db \<Rightarrow> string \<Rightarrow> gate_principal list" where
  "live_holders db lane = map principal_of (filter (holder_active db) (lane_rows db lane))"

lemma mset_lane_rows: "mset (lane_rows db lane) = mset (filter (\<lambda>g. gg_capability g = lane) (gate_grants db))"
  by (simp add: lane_rows_def)

lemma set_lane_rows: "set (lane_rows db lane) = {g \<in> set (gate_grants db). gg_capability g = lane}"
  by (simp add: lane_rows_def)

lemma live_holders_iff:
  assumes "wf_gates db"
  shows "p \<in> set (live_holders db lane) \<longleftrightarrow> hasActiveGateGrant db lane (gp_type p) (gp_id p)"
  by (cases p) (auto simp: live_holders_def set_lane_rows principal_of_def holder_active_iff [OF assms]
      hasActiveGateGrant_iff has_grant_row_def grant_key_def image_iff)

lemma distinct_live_holders:
  assumes "wf_gates db"
  shows "distinct (live_holders db lane)"
proof -
  have "distinct (gate_grants db)" "inj_on grant_key (set (gate_grants db))"
    using assms by (auto simp: wf_gates_def distinct_map)
  then have "distinct (lane_rows db lane)" by (simp add: lane_rows_def)
  moreover have "inj_on principal_of (set (lane_rows db lane))"
    using \<open>inj_on grant_key _\<close> by (auto simp: inj_on_def set_lane_rows principal_of_def grant_key_def)
  ultimately show ?thesis
    unfolding live_holders_def by (simp add: distinct_map inj_on_def)
qed

lemma resolveSoleGateOwnerAgent_Resolved:
  "resolveSoleGateOwnerAgent db lane = Resolved c p \<Longrightarrow> live_holders db lane = [p]"
  by (auto simp: resolveSoleGateOwnerAgent_def Let_def live_holders_def lane_rows_def split: list.splits)

lemma live_holders_single:
  assumes "wf_gates db" "live_holders db lane = [p]"
  shows "hasActiveGateGrant db lane t i \<longleftrightarrow> t = gp_type p \<and> i = gp_id p"
  using live_holders_iff [OF assms(1), of "\<lparr>gp_type = t, gp_id = i\<rparr>" lane] assms(2)
  by (cases p) auto

section \<open>A permission store\<close>

text \<open>
  What the callers of the grant store rely on: an operation either grants or withdraws one key
  and leaves every other key as it was. The history of a key then decides it: the last operation
  on it wins.
\<close>

locale permission_store =
  fixes granted :: "'s \<Rightarrow> 'k \<Rightarrow> bool"
    and admissible :: "'s \<Rightarrow> 'op \<Rightarrow> bool"
    and step :: "'op \<Rightarrow> 's \<Rightarrow> 's"
    and key :: "'op \<Rightarrow> 'k"
    and adds :: "'op \<Rightarrow> bool"
  assumes granted_step:
    "admissible s op \<Longrightarrow> granted (step op s) k \<longleftrightarrow> (if k = key op then adds op else granted s k)"
begin

primrec admissible_run :: "'s \<Rightarrow> 'op list \<Rightarrow> bool" where
  "admissible_run s [] \<longleftrightarrow> True"
| "admissible_run s (op # ops) \<longleftrightarrow> admissible s op \<and> admissible_run (step op s) ops"

lemma last_operation_wins:
  "admissible_run s ops \<Longrightarrow> granted (fold step ops s) k \<longleftrightarrow>
     (case filter (\<lambda>op. key op = k) (rev ops) of [] \<Rightarrow> granted s k | op # _ \<Rightarrow> adds op)"
proof (induction ops arbitrary: s)
  case (Cons op ops)
  then have "granted (fold step ops (step op s)) k \<longleftrightarrow>
     (case filter (\<lambda>op. key op = k) (rev ops) of [] \<Rightarrow> granted (step op s) k | op # _ \<Rightarrow> adds op)"
    by simp
  with Cons.prems show ?case by (auto simp: granted_step split: list.splits)
qed simp

lemma untouched_key:
  "admissible_run s ops \<Longrightarrow> k \<notin> key ` set ops \<Longrightarrow> granted (fold step ops s) k = granted s k"
  by (auto simp: last_operation_wins filter_empty_conv split: list.splits)
    (metis (mono_tags, lifting) filter_eq_Cons_iff image_eqI in_set_conv_decomp set_rev)+

end

datatype gate_op = Grant_op string string gate_grant_input | Revoke_op string gate_principal_type string

fun apply_gate_op :: "gate_op \<Rightarrow> gate_db \<Rightarrow> gate_db" where
  "apply_gate_op (Grant_op new_id now i) db = fst (grantGateCapability db new_id now i)"
| "apply_gate_op (Revoke_op cap t pid) db = revokeGateCapability db cap t pid"

fun gate_op_key :: "gate_op \<Rightarrow> string \<times> gate_principal_type \<times> string" where
  "gate_op_key (Grant_op _ _ i) = (gi_capability i, gi_principalType i, gi_principalId i)"
| "gate_op_key (Revoke_op cap t pid) = (cap, t, pid)"

fun gate_op_adds :: "gate_op \<Rightarrow> bool" where
  "gate_op_adds (Grant_op _ _ _) = True"
| "gate_op_adds (Revoke_op _ _ _) = False"

text \<open>A grant carries a row id no other row has (\<open>crypto.randomUUID\<close>).\<close>

fun gate_op_fresh :: "gate_db \<Rightarrow> gate_op \<Rightarrow> bool" where
  "gate_op_fresh db (Grant_op new_id _ _) \<longleftrightarrow> new_id \<notin> set (map gg_id (gate_grants db))"
| "gate_op_fresh db (Revoke_op _ _ _) \<longleftrightarrow> True"

lemma has_grant_row_insert:
  assumes "gg_id r \<notin> set (map gg_id (gate_grants db))"
  shows "has_grant_row (db\<lparr>gate_grants := fst (insert_or_ignore r (gate_grants db))\<rparr>) k \<longleftrightarrow>
    has_grant_row db k \<or> k = grant_key r"
proof (cases "exists_row (\<lambda>g. gg_id g = gg_id r \<or> grant_key g = grant_key r) (gate_grants db)")
  case True
  with assms have "grant_key r \<in> set (map grant_key (gate_grants db))"
    unfolding exists_row_iff by (metis image_eqI list.set_map)
  with True show ?thesis by (auto simp: has_grant_row_def insert_or_ignore_def)
next
  case False
  then show ?thesis by (auto simp: has_grant_row_def insert_or_ignore_def)
qed

lemma has_grant_row_revoke:
  "has_grant_row (revokeGateCapability db cap t i) k \<longleftrightarrow> has_grant_row db k \<and> k \<noteq> (cap, t, i)"
  by (auto simp: has_grant_row_def revokeGateCapability_def grant_key_def image_iff)

lemma grant_key_row_of_input [simp]:
  "grant_key (row_of_input new_id now i) = (gi_capability i, gi_principalType i, gi_principalId i)"
  "gg_id (row_of_input new_id now i) = new_id"
  by (simp_all add: grant_key_def row_of_input_def)

interpretation grants: permission_store has_grant_row gate_op_fresh apply_gate_op gate_op_key gate_op_adds
proof (unfold_locales, goal_cases)
  case (1 db op k)
  then show ?case
    by (cases op) (auto simp: grantGateCapability_def has_grant_row_insert has_grant_row_revoke)
qed

lemma apply_gate_op_roster [simp]:
  "db_agents (apply_gate_op op db) = db_agents db" "db_members (apply_gate_op op db) = db_members db"
  "db_dyads (apply_gate_op op db) = db_dyads db"
  by (cases op; simp add: grantGateCapability_def revokeGateCapability_def)+

lemma fold_gate_op_roster [simp]:
  "db_agents (fold apply_gate_op ops db) = db_agents db"
  "db_members (fold apply_gate_op ops db) = db_members db"
  by (induction ops arbitrary: db) auto

lemma principal_active_ops [simp]:
  "principal_active (fold apply_gate_op ops db) t i = principal_active db t i"
  by (cases t) (simp_all add: principal_active_def)

lemma apply_gate_op_wf:
  assumes "wf_gates db"
  shows "wf_gates (apply_gate_op op db)"
  using assms
  by (cases op) (auto simp: wf_gates_def grantGateCapability_def insert_or_ignore_def row_simps
      revokeGateCapability_def distinct_map_filter image_iff, (metis)?)

lemma held_by_member_keys:
  "held_by_member (gate_grants db) cap \<longleftrightarrow>
     (\<exists>c i. has_grant_row db (c, P_member, i) \<and> lower c = lower cap)"
  unfolding held_by_member_def exists_row_iff has_grant_row_def grant_key_def set_map image_iff
  by (metis prod.inject)

section \<open>The dyad default\<close>

lemma find_among_pair:
  "find (\<lambda>r. ag_id r = x) (filter (\<lambda>r. ag_id r = a \<or> ag_id r = b) rows) =
     (if x = a \<or> x = b then first_row (\<lambda>r. ag_id r = x) rows else None)"
  unfolding first_row_def by (induction rows) auto

text \<open>What every condition on the way to a default gives.\<close>

lemma dyad_gate_conditions:
  assumes "resolveDyadGateDefault db squadId (Some c) asg = Some (Dyad_gate cap)"
  obtains d a b peerId p common h where
    "first_row (\<lambda>d. dy_squad_id d = squadId) (db_dyads db) = Some d"
    "dyad_agent_a d = Some a" "dyad_agent_b d = Some b" "c = a \<and> peerId = b \<or> c = b \<and> peerId = a"
    "first_row (\<lambda>r. ag_id r = peerId) (db_agents db) = Some p"
    "dyad_intact squadId (Some p)" "asg \<noteq> Some (ag_id p)" "cap = ''gate:'' @ ag_slug p"
    "GATE_CAPABILITY_RE cap" "\<not> isReservedForHumansOrSubsystems cap"
    "resolveSoleGateOwnerAgent db cap = Resolved common h" "gp_type h = P_agent" "gp_id h = ag_id p"
proof -
  obtain d where d: "first_row (\<lambda>d. dy_squad_id d = squadId) (db_dyads db) = Some d"
    using assms by (auto simp: resolveDyadGateDefault_def split: option.splits)
  obtain a b where ab: "dyad_agent_a d = Some a" "dyad_agent_b d = Some b"
    using assms d by (auto simp: resolveDyadGateDefault_def split: option.splits)
  define peerId where "peerId = (if c = a then b else a)"
  have c: "c = a \<or> c = b"
    using assms d ab by (auto simp: resolveDyadGateDefault_def split: if_splits)
  obtain p where p: "first_row (\<lambda>r. ag_id r = peerId) (db_agents db) = Some p" "dyad_intact squadId (Some p)"
    using assms d ab c
    by (auto simp: resolveDyadGateDefault_def find_among_pair peerId_def Let_def dyad_intact_def
        split: if_splits option.splits)
  then have rest: "asg \<noteq> Some (ag_id p)" "cap = ''gate:'' @ ag_slug p" "GATE_CAPABILITY_RE cap"
      "\<not> isReservedForHumansOrSubsystems cap"
      "\<exists>common h. resolveSoleGateOwnerAgent db cap = Resolved common h \<and> gp_type h = P_agent \<and> gp_id h = ag_id p"
    using assms d ab c
    by (auto simp: resolveDyadGateDefault_def find_among_pair peerId_def Let_def
        split: if_splits gate_owner_resolution.splits)
  then show thesis
    using that [OF d ab _ p] c unfolding peerId_def by (metis)
qed

section \<open>Properties\<close>

definition sample_gates :: gate_db where
  "sample_gates = \<lparr>gate_grants =
      [\<lparr>gg_id = ''1'', gg_capability = ''gate:bee'', gg_principal_type = P_agent, gg_principal_id = ''b'',
         gg_granted_by = ''root'', gg_created_at = ''t1''\<rparr>,
       \<lparr>gg_id = ''2'', gg_capability = ''gate:ops'', gg_principal_type = P_member, gg_principal_id = ''m'',
         gg_granted_by = ''root'', gg_created_at = ''t2''\<rparr>],
     db_agents = [\<lparr>ag_id = ''a'', ag_slug = ''ay'', ag_squad_id = ''s'', ag_status = Agent_active\<rparr>,
                  \<lparr>ag_id = ''b'', ag_slug = ''bee'', ag_squad_id = ''s'', ag_status = Agent_active\<rparr>],
     db_members = [(''m'', Member_active)],
     db_dyads = [\<lparr>dy_squad_id = ''s'', dyad_agent_a = Some ''a'', dyad_agent_b = Some ''b''\<rparr>]\<rparr>"

text \<open>A dyad default always names the gate of the creator's pinned peer, another agent that is
  active in the squad and is not the assignee; the gate is neither the human gate nor a
  subsystem lane, and the peer is the only principal, agent or member, whose grant on it is
  live, so the review it asks for cannot be given by the creator or by anyone else.\<close>
theorem dyad_default_is_independent_peer:
  assumes "wf_gates db"
    and "resolveDyadGateDefault db squadId (Some c) asg = Some (Dyad_gate cap)"
  shows "\<exists>p \<in> set (db_agents db). cap = ''gate:'' @ ag_slug p \<and> ag_id p \<noteq> c \<and> asg \<noteq> Some (ag_id p) \<and>
    ag_status p = Agent_active \<and> ag_squad_id p = squadId \<and> \<not> isReservedForHumansOrSubsystems cap \<and>
    (\<forall>t i. hasActiveGateGrant db cap t i \<longleftrightarrow> t = P_agent \<and> i = ag_id p)"
  using assms(2)
proof (rule dyad_gate_conditions)
  fix d a b peerId p common h
  assume d: "first_row (\<lambda>d. dy_squad_id d = squadId) (db_dyads db) = Some d"
    and ab: "dyad_agent_a d = Some a" "dyad_agent_b d = Some b"
    and c: "c = a \<and> peerId = b \<or> c = b \<and> peerId = a"
    and p: "first_row (\<lambda>r. ag_id r = peerId) (db_agents db) = Some p" "dyad_intact squadId (Some p)"
    and rest: "asg \<noteq> Some (ag_id p)" "cap = ''gate:'' @ ag_slug p" "\<not> isReservedForHumansOrSubsystems cap"
    and h: "resolveSoleGateOwnerAgent db cap = Resolved common h" "gp_type h = P_agent" "gp_id h = ag_id p"
  have "a \<noteq> b"
    using first_row_Some [OF d] assms(1) ab by (auto simp: wf_gates_def list_all_iff)
  moreover have "p \<in> set (db_agents db)" "ag_id p = peerId" using first_row_Some [OF p(1)] by auto
  moreover have "hasActiveGateGrant db cap t i \<longleftrightarrow> t = P_agent \<and> i = ag_id p" for t i
    using live_holders_single [OF assms(1) resolveSoleGateOwnerAgent_Resolved [OF h(1)]] h(2,3) by simp
  ultimately show ?thesis
    using c p(2) rest by (intro bexI [of _ p]) (auto simp: dyad_intact_def)
qed

theorem dyad_default_is_independent_peer_witness:
  "wf_gates sample_gates \<and> resolveDyadGateDefault sample_gates ''s'' (Some ''a'') (Some ''a'') = Some (Dyad_gate ''gate:bee'') \<and>
   (\<exists>p \<in> set (db_agents sample_gates). ''gate:bee'' = ''gate:'' @ ag_slug p \<and> ag_id p \<noteq> ''a'' \<and>
    (\<forall>t i. hasActiveGateGrant sample_gates ''gate:bee'' t i \<longleftrightarrow> t = P_agent \<and> i = ag_id p))"
proof -
  have h: "wf_gates sample_gates"
    "resolveDyadGateDefault sample_gates ''s'' (Some ''a'') (Some ''a'') = Some (Dyad_gate ''gate:bee'')"
    by code_simp+
  from dyad_default_is_independent_peer [OF h] h show ?thesis by blast
qed

text \<open>The read side and the write side of gate liveness agree: the live holders the owner
  resolution lists for a lane are exactly the principals for whom the verdict check
  \<open>hasActiveGateGrant\<close> succeeds, each once, and it resolves to a principal exactly when that
  principal is the only one.\<close>
theorem gate_owner_resolution_agrees:
  assumes "wf_gates db"
  shows "(\<exists>common. resolveSoleGateOwnerAgent db lane = Resolved common p) \<longleftrightarrow>
    (\<forall>t i. hasActiveGateGrant db lane t i \<longleftrightarrow> t = gp_type p \<and> i = gp_id p)"
proof
  assume "\<exists>common. resolveSoleGateOwnerAgent db lane = Resolved common p"
  then show "\<forall>t i. hasActiveGateGrant db lane t i \<longleftrightarrow> t = gp_type p \<and> i = gp_id p"
    using live_holders_single [OF assms resolveSoleGateOwnerAgent_Resolved] by blast
next
  assume only: "\<forall>t i. hasActiveGateGrant db lane t i \<longleftrightarrow> t = gp_type p \<and> i = gp_id p"
  then have "set (live_holders db lane) = {p}"
    by (auto simp: live_holders_iff [OF assms] intro: gate_principal.equality)
  with distinct_live_holders [OF assms, of lane] have "live_holders db lane = [p]"
    by (metis distinct.simps(2) insertCI list.exhaust list.set_cases set_ConsD singletonD
        empty_iff empty_set list.set_intros(1) list.simps(15))
  then show "\<exists>common. resolveSoleGateOwnerAgent db lane = Resolved common p"
    by (simp add: resolveSoleGateOwnerAgent_def Let_def live_holders_def lane_rows_def)
qed

theorem gate_owner_resolution_agrees_witness:
  "wf_gates sample_gates \<and> (\<exists>common. resolveSoleGateOwnerAgent sample_gates ''gate:bee'' = Resolved common \<lparr>gp_type = P_agent, gp_id = ''b''\<rparr>) \<and>
   (\<forall>t i. hasActiveGateGrant sample_gates ''gate:bee'' t i \<longleftrightarrow> t = P_agent \<and> i = ''b'')"
proof -
  let ?p = "\<lparr>gp_type = P_agent, gp_id = ''b''\<rparr>"
  have wf: "wf_gates sample_gates" by code_simp
  have "\<exists>common. resolveSoleGateOwnerAgent sample_gates ''gate:bee'' = Resolved common ?p"
    by (rule exI [of _ "\<lparr>go_capability = ''gate:bee'', active_holders = [?p], inactive_holders = [], grant_count = 1\<rparr>"])
      code_simp
  with wf gate_owner_resolution_agrees [OF wf, of "''gate:bee''" ?p] show ?thesis by simp
qed

text \<open>C6: Over any sequence of grants (with fresh row ids) and revocations, a principal may use a
  gate afterwards exactly when it is active and the last operation on its (lane, principal)
  key was a grant, or no operation touched the key and it held the grant before.\<close>
theorem gate_history_decides:
  assumes "grants.admissible_run db ops"
  shows "hasActiveGateGrant (fold apply_gate_op ops db) cap t i \<longleftrightarrow>
    (case filter (\<lambda>op. gate_op_key op = (cap, t, i)) (rev ops) of
       [] \<Rightarrow> hasActiveGateGrant db cap t i
     | op # _ \<Rightarrow> gate_op_adds op \<and> principal_active db t i)"
  using grants.last_operation_wins [OF assms, of "(cap, t, i)"]
  by (simp add: hasActiveGateGrant_iff split: list.splits)

theorem gate_history_decides_witness:
  "hasActiveGateGrant (fold apply_gate_op
      [Grant_op ''9'' ''t9'' \<lparr>gi_capability = ''gate:x'', gi_principalType = P_agent, gi_principalId = ''a'', gi_grantedBy = ''r''\<rparr>,
       Revoke_op ''gate:bee'' P_agent ''b''] sample_gates) ''gate:x'' P_agent ''a''"
proof -
  let ?g = "Grant_op ''9'' ''t9'' \<lparr>gi_capability = ''gate:x'', gi_principalType = P_agent, gi_principalId = ''a'', gi_grantedBy = ''r''\<rparr>"
  let ?ops = "[?g, Revoke_op ''gate:bee'' P_agent ''b'']"
  have "grants.admissible_run sample_gates ?ops" by (simp add: sample_gates_def)
  moreover have "principal_active sample_gates P_agent ''a''" by code_simp
  ultimately show ?thesis using gate_history_decides [of sample_gates ?ops "''gate:x''" P_agent "''a''"] by simp
qed

text \<open>Owner-sudo's guarded grant, on every branch: with a member holding the lane (in any letter
  case) it refuses and the store is unchanged, an identical earlier agent grant included;
  with none it succeeds, the grant is in the store afterwards, every other key is as before and
  no member holder of the lane appears unless the grant itself is to a member.\<close>
theorem guarded_grant_respects_members:
  assumes "new_id \<notin> set (map gg_id (gate_grants db))"
  shows "if held_by_member (gate_grants db) (gi_capability i)
    then grantGateCapabilityUnlessHeldByMember db new_id now i = (db, Inl Gate_held_by_member)
    else \<exists>db'. grantGateCapabilityUnlessHeldByMember db new_id now i = (db', Inr (row_of_input new_id now i)) \<and>
      (\<forall>k. has_grant_row db' k \<longleftrightarrow>
        has_grant_row db k \<or> k = (gi_capability i, gi_principalType i, gi_principalId i)) \<and>
      (held_by_member (gate_grants db') (gi_capability i) \<longleftrightarrow> gi_principalType i = P_member)"
proof (cases "held_by_member (gate_grants db) (gi_capability i)")
  case True
  then show ?thesis by (simp add: grantGateCapabilityUnlessHeldByMember_def)
next
  case False
  let ?r = "row_of_input new_id now i"
  let ?db = "db\<lparr>gate_grants := fst (insert_or_ignore ?r (gate_grants db))\<rparr>"
  have keys: "has_grant_row ?db k \<longleftrightarrow> has_grant_row db k \<or> k = (gi_capability i, gi_principalType i, gi_principalId i)" for k
    using has_grant_row_insert [of ?r db k] assms by simp
  have held: "held_by_member (gate_grants ?db) (gi_capability i) \<longleftrightarrow> gi_principalType i = P_member"
    unfolding held_by_member_keys keys using False [unfolded held_by_member_keys] by (metis prod.inject)
  have "snd (insert_or_ignore ?r (gate_grants db)) = 0 \<Longrightarrow> gate_grants ?db = gate_grants db"
    by (auto simp: insert_or_ignore_def split: if_splits)
  then have "grantGateCapabilityUnlessHeldByMember db new_id now i = (?db, Inr ?r)"
    using False by (auto simp: grantGateCapabilityUnlessHeldByMember_def Let_def split: prod.splits)
  with False keys held show ?thesis by auto
qed

theorem guarded_grant_respects_members_witness:
  "\<exists>db'. grantGateCapabilityUnlessHeldByMember sample_gates ''9'' ''t''
      \<lparr>gi_capability = ''gate:OPS'', gi_principalType = P_agent, gi_principalId = ''a'', gi_grantedBy = ''r''\<rparr> = (db', Inl Gate_held_by_member)"
proof -
  let ?i = "\<lparr>gi_capability = ''gate:OPS'', gi_principalType = P_agent, gi_principalId = ''a'', gi_grantedBy = ''r''\<rparr>"
  have "''9'' \<notin> set (map gg_id (gate_grants sample_gates))" by code_simp
  moreover have "held_by_member (gate_grants sample_gates) (gi_capability ?i)" by code_simp
  ultimately show ?thesis using guarded_grant_respects_members [of "''9''" sample_gates ?i "''t''"] by simp
qed

end
