(* ===== verification/Security_Bar.thy ===== *)
theory Security_Bar
  imports Capability
begin

text \<open>
  The Security Bar: the rule registry (\<^verbatim>\<open>src/policy/registry.ts\<close>), level resolution and
  the audited relaxation (\<^verbatim>\<open>src/policy/bar.ts\<close>) and the guarded level changes
  (\<^verbatim>\<open>src/policy/admin.ts\<close>), with the web-session check they call
  (\<^verbatim>\<open>src/secure-moments/enrol-mint.ts\<close>, \<^verbatim>\<open>src/access/identity.ts\<close>).

  Instants are integers in milliseconds; \<open>julianday\<close> of the authority layer reads a stored
  text as such an instant. A table that may fail to be read is an \<open>option\<close>. Fresh ids are
  arguments of the operations.
\<close>

section \<open>The registry\<close>

datatype policy_level = Onboarding | Operating | Under_attack

fun LEVEL_RANK :: "policy_level \<Rightarrow> nat" where
  "LEVEL_RANK Onboarding = 0"
| "LEVEL_RANK Operating = 1"
| "LEVEL_RANK Under_attack = 2"

definition POLICY_LEVELS :: "(string \<times> policy_level) list" where
  "POLICY_LEVELS = [(''onboarding'', Onboarding), (''operating'', Operating), (''under_attack'', Under_attack)]"

text \<open>A text read as a level: \<open>isPolicyLevel\<close> narrows a value to the type.\<close>

definition parse_level :: "string \<Rightarrow> policy_level option" where
  "parse_level s = map_of POLICY_LEVELS s"

definition isPolicyLevel :: "string \<Rightarrow> bool" where
  "isPolicyLevel s \<longleftrightarrow> s \<in> fst ` set POLICY_LEVELS"

datatype policy_value = Relaxed | Strict

definition STRICT :: "policy_level \<Rightarrow> policy_value" where
  "STRICT l = Strict"

definition ONBOARDING_ONLY :: "policy_level \<Rightarrow> policy_value" where
  "ONBOARDING_ONLY l = (case l of Onboarding \<Rightarrow> Relaxed | Operating \<Rightarrow> Strict | Under_attack \<Rightarrow> Strict)"

record policy_rule =
  rule_id :: string
  rule_floor :: bool
  rule_values :: "policy_level \<Rightarrow> policy_value"

definition floor_rule :: "string \<Rightarrow> policy_rule" where
  "floor_rule i = \<lparr>rule_id = i, rule_floor = True, rule_values = STRICT\<rparr>"

definition POLICY_RULES :: "policy_rule list" where
  "POLICY_RULES =
     [floor_rule ''telemetry.board-latency.window-bounds'',
      floor_rule ''telemetry.board-latency.unavailable'',
      floor_rule ''approval.bot.processing-failed'',
      floor_rule ''sudo.owner.claim-release-failed'',
      floor_rule ''approval.identity.not-live'',
      \<lparr>rule_id = ''task.create.gate-owner-creator-is-assignee'', rule_floor = False, rule_values = ONBOARDING_ONLY\<rparr>,
      \<lparr>rule_id = ''task.intake.p1-linkage'', rule_floor = False, rule_values = ONBOARDING_ONLY\<rparr>,
      \<lparr>rule_id = ''task.create.assignee-agent-resolvable.cross-squad'', rule_floor = True, rule_values = STRICT\<rparr>,
      \<lparr>rule_id = ''task.create.assignee-agent-resolvable.inactive'', rule_floor = True, rule_values = STRICT\<rparr>,
      \<lparr>rule_id = ''task.create.assignee-member-resolvable'', rule_floor = True, rule_values = STRICT\<rparr>,
      \<lparr>rule_id = ''task.update.transition-matrix'', rule_floor = False, rule_values = ONBOARDING_ONLY\<rparr>,
      \<lparr>rule_id = ''task.update.artifact-shape-gate'', rule_floor = False, rule_values = ONBOARDING_ONLY\<rparr>,
      floor_rule ''task.create.gate-owner-own-lane'',
      floor_rule ''task.assign.cross-tenant'',
      floor_rule ''task.assign.agent-not-visible'',
      floor_rule ''task.assign.invalid-assignee'',
      floor_rule ''task.update.external-assign-admin'',
      floor_rule ''task.update.gate-owner-assignee'',
      floor_rule ''task.update.assignee-cannot-mutate-own'',
      floor_rule ''members.telegram-unbind.binding-changed'',
      floor_rule ''task.update.reassign-in-flight-dispatch'',
      floor_rule ''task.update.assignee-frozen-in-review'',
      floor_rule ''task.create.single-assignee'',
      floor_rule ''task.status.review-exit-via-verdict'',
      floor_rule ''task.status.gated-no-direct-done'',
      floor_rule ''task.status.done-terminal'',
      floor_rule ''task.update.gate-required-for-review'',
      floor_rule ''task.update.assignee-self-close'',
      floor_rule ''task.evidence.approval-binding'',
      floor_rule ''task.artifact.placeholder-evidence'',
      floor_rule ''board.webhook.handler-success'',
      floor_rule ''tenant.isolation'',
      floor_rule ''authz.admission'',
      floor_rule ''identity.step-up-sensitive'',
      floor_rule ''abuse.rate-limits'',
      floor_rule ''review.independent-gate'',
      floor_rule ''bar.owner-only-write'',
      floor_rule ''bar.lowering-step-up'',
      floor_rule ''bar.fail-closed'',
      \<lparr>rule_id = ''verdict.owner-self-approve'', rule_floor = False, rule_values = STRICT\<rparr>,
      \<lparr>rule_id = ''thread.attach-existing-agent'', rule_floor = False, rule_values = STRICT\<rparr>,
      floor_rule ''inbox.attached-seat.exact-target'',
      floor_rule ''seat.approval-move.owner-confirmed'',
      floor_rule ''seat.connection-check.attached-only'']"

definition getRule :: "string \<Rightarrow> policy_rule option" where
  "getRule i = find (\<lambda>r. rule_id r = i) POLICY_RULES"

section \<open>State\<close>

datatype policy_scope_kind = Scope_tenant | Scope_department | Scope_squad | Scope_project | Scope_agent

record policy_scope =
  ps_department :: "string option"
  ps_squad :: "string option"
  ps_project :: "string option"
  ps_agent :: "string option"

definition no_scope :: policy_scope where
  "no_scope = \<lparr>ps_department = None, ps_squad = None, ps_project = None, ps_agent = None\<rparr>"

record bar_row =
  br_kind :: policy_scope_kind
  br_id :: string
  br_level :: string
  br_version :: nat

datatype request_status = Request_pending | Request_applied | Request_cancelled

record lower_request =
  lr_id :: string
  lr_from_level :: policy_level
  lr_target_level :: policy_level
  lr_requested_by :: string
  lr_requested_at :: int
  lr_effective_after :: int
  lr_needs_second_owner :: bool
  lr_status :: request_status

datatype event_kind = Would_block | Relaxed_applied | Level_change | Lower_requested | Lower_refused

record policy_event =
  pe_id :: string
  pe_kind :: event_kind
  pe_rule :: "string option"
  pe_level :: "policy_level option"
  pe_actor :: string

record owner_cap_row = capability_row +
  oc_id :: string
  oc_created_at :: string

record grant_event_row =
  ge_grant_id :: string
  ge_granted :: bool
  ge_at :: string
  ge_previous_capability :: "capability option"

record web_session_row =
  ws_id_hash :: string
  ws_member_id :: string
  ws_revoked :: bool
  ws_recent_reauth_at :: "int option"

text \<open>\<open>st_rows\<close> is \<open>None\<close> when reading \<open>security_bar_state\<close> throws; \<open>events_writable\<close> says
  whether an insert into \<open>policy_events\<close> succeeds. \<open>bound_members\<close> are the members welded to an
  agent, \<open>archived_members\<close> those with an archive mark.\<close>

record bar_env =
  b_auth :: auth_env
  b_caps :: "owner_cap_row list"
  b_grant_events :: "grant_event_row list"
  archived_members :: "string list"
  bound_members :: "string list"
  b_sessions :: "web_session_row list"
  st_rows :: "bar_row list option"
  lower_requests :: "lower_request list"
  policy_events :: "policy_event list"
  events_writable :: bool

section \<open>Resolving the level\<close>

definition MISSING_LEVEL :: policy_level where "MISSING_LEVEL = Operating"
definition FAIL_CLOSED_LEVEL :: policy_level where "FAIL_CLOSED_LEVEL = Under_attack"
definition BAR_REAUTH_WINDOW_MS :: int where "BAR_REAUTH_WINDOW_MS = 5 * 60 * 1000"
definition LOWER_DELAY_MS :: int where "LOWER_DELAY_MS = 24 * 60 * 60 * 1000"

definition NEAR_TO_FAR :: "(policy_scope_kind \<times> (policy_scope \<Rightarrow> string option)) list" where
  "NEAR_TO_FAR = [(Scope_agent, ps_agent), (Scope_project, ps_project), (Scope_squad, ps_squad),
     (Scope_department, ps_department)]"

definition stricter :: "policy_level \<Rightarrow> policy_level \<Rightarrow> policy_level" where
  "stricter a b = (if LEVEL_RANK a \<ge> LEVEL_RANK b then a else b)"

datatype level_source = From_row | From_missing | From_malformed | From_read_failed

record resolved_level =
  rl_level :: policy_level
  rl_source :: level_source
  rl_version :: "nat option"

definition version_or_null :: "nat \<Rightarrow> nat option" where
  "version_or_null v = (if v = 0 then None else Some v)"

definition scope_probes :: "policy_scope \<Rightarrow> (policy_scope_kind \<times> string) list" where
  "scope_probes scope = concat (map (\<lambda>(k, get). case get scope of
      Some i \<Rightarrow> if i \<noteq> [] then [(k, i)] else [] | None \<Rightarrow> []) NEAR_TO_FAR)"

definition find_bar_row :: "bar_row list \<Rightarrow> policy_scope_kind \<Rightarrow> string \<Rightarrow> bar_row option" where
  "find_bar_row rows k i = find (\<lambda>r. br_kind r = k \<and> br_id r = i) rows"

definition tenant_level :: "bar_row option \<Rightarrow> resolved_level" where
  "tenant_level r =
     (case r of
        None \<Rightarrow> \<lparr>rl_level = MISSING_LEVEL, rl_source = From_missing, rl_version = None\<rparr>
      | Some t \<Rightarrow>
          (case parse_level (br_level t) of
             None \<Rightarrow> \<lparr>rl_level = FAIL_CLOSED_LEVEL, rl_source = From_malformed, rl_version = None\<rparr>
           | Some l \<Rightarrow> \<lparr>rl_level = l, rl_source = From_row, rl_version = version_or_null (br_version t)\<rparr>))"

fun nearest_level ::
  "bar_row list \<Rightarrow> resolved_level \<Rightarrow> (policy_scope_kind \<times> string) list \<Rightarrow> resolved_level" where
  "nearest_level rows tenant [] = tenant"
| "nearest_level rows tenant ((k, i) # ps) =
     (case find_bar_row rows k i of
        None \<Rightarrow> nearest_level rows tenant ps
      | Some r \<Rightarrow>
          (let parsed = parse_level (br_level r);
               nearer = (case parsed of Some l \<Rightarrow> l | None \<Rightarrow> FAIL_CLOSED_LEVEL)
           in \<lparr>rl_level = stricter nearer (rl_level tenant),
               rl_source = (if parsed \<noteq> None then From_row else From_malformed),
               rl_version = version_or_null (br_version r)\<rparr>))"

definition resolveLevel :: "bar_env \<Rightarrow> policy_scope \<Rightarrow> resolved_level" where
  "resolveLevel env scope =
     (let tenant_id = TENANT_SLUG (b_auth env);
          probes = (Scope_tenant, tenant_id) # scope_probes scope
      in case st_rows env of
           None \<Rightarrow> \<lparr>rl_level = FAIL_CLOSED_LEVEL, rl_source = From_read_failed, rl_version = None\<rparr>
         | Some table \<Rightarrow>
             (let rows = filter (\<lambda>r. (br_kind r, br_id r) \<in> set probes) table
              in nearest_level rows (tenant_level (find_bar_row rows Scope_tenant tenant_id)) (tl probes)))"

record policy_decision =
  pd_rule :: string
  pd_level :: policy_level
  pd_value :: policy_value
  pd_floor :: bool
  pd_relaxed :: bool

definition decide :: "string \<Rightarrow> policy_level \<Rightarrow> policy_decision" where
  "decide i level =
     (case getRule i of
        None \<Rightarrow> \<lparr>pd_rule = i, pd_level = level, pd_value = Strict, pd_floor = False, pd_relaxed = False\<rparr>
      | Some rule \<Rightarrow>
          if rule_floor rule
          then \<lparr>pd_rule = i, pd_level = level, pd_value = Strict, pd_floor = True, pd_relaxed = False\<rparr>
          else (let v = rule_values rule level in
                \<lparr>pd_rule = i, pd_level = level, pd_value = v, pd_floor = False, pd_relaxed = (v = Relaxed)\<rparr>))"

definition policy :: "bar_env \<Rightarrow> policy_scope \<Rightarrow> string \<Rightarrow> policy_decision" where
  "policy env scope i = decide i (rl_level (resolveLevel env scope))"

section \<open>The audited relaxation\<close>

definition safe_char :: "char \<Rightarrow> bool" where
  "safe_char c \<longleftrightarrow> (let n = of_char c :: nat in
     65 \<le> n \<and> n \<le> 90 \<or> 97 \<le> n \<and> n \<le> 122 \<or> 48 \<le> n \<and> n \<le> 57) \<or> c \<in> set ''_.:@-/ ''"

definition clip :: "string \<Rightarrow> nat \<Rightarrow> string" where
  "clip s n = take n (map (\<lambda>c. if safe_char c then c else CHR ''_'') s)"

definition actorOf :: "auth_context \<Rightarrow> string" where
  "actorOf auth =
     (if truthy (boundAgentId auth) then ''agent:'' @ the (boundAgentId auth)
      else ''member:'' @ (case memberId auth of Some m \<Rightarrow> m | None \<Rightarrow> userId auth))"

definition or_unknown :: "string \<Rightarrow> string" where
  "or_unknown s = (if s = [] then ''unknown'' else s)"

definition append_event :: "policy_event \<Rightarrow> bar_env \<Rightarrow> bar_env" where
  "append_event ev env = env\<lparr>policy_events := policy_events env @ [ev]\<rparr>"

definition relaxes :: "bar_env \<Rightarrow> string \<Rightarrow> string \<Rightarrow> string \<Rightarrow> policy_scope \<Rightarrow> bar_env \<times> bool" where
  "relaxes env new_id ruleId actor scope =
     (let d = policy env scope ruleId in
      if \<not> pd_relaxed d then (env, False)
      else if \<not> events_writable env then (env, False)
      else (append_event \<lparr>pe_id = new_id,
              pe_kind = (if pd_level d = Onboarding then Would_block else Relaxed_applied),
              pe_rule = Some ruleId, pe_level = Some (pd_level d), pe_actor = or_unknown (clip actor 200)\<rparr> env,
            True))"

definition getPendingLower :: "bar_env \<Rightarrow> lower_request option" where
  "getPendingLower env = first_row (\<lambda>r. lr_status r = Request_pending) (lower_requests env)"

record bar_view =
  bv_level :: policy_level
  bv_source :: level_source
  bv_version :: "nat option"
  bv_pending :: "lower_request option"

definition barView :: "bar_env \<Rightarrow> bar_view" where
  "barView env = (let r = resolveLevel env no_scope in
     \<lparr>bv_level = rl_level r, bv_source = rl_source r, bv_version = rl_version r, bv_pending = getPendingLower env\<rparr>)"

section \<open>Who may change the level\<close>

definition memberIsActiveHuman :: "bar_env \<Rightarrow> string \<Rightarrow> bool" where
  "memberIsActiveHuman env i =
     exists_row (\<lambda>m. m_id m = i \<and> m_tenant m = TENANT_SLUG (b_auth env) \<and> m_active m \<and>
        i \<notin> set (archived_members env) \<and> i \<notin> set (bound_members env)) (t_members (b_auth env))"

datatype session_refusal = Not_a_web_session | Member_ineligible | Reauth_required

text \<open>\<open>checkWebSession\<close> without the \<open>fresh\<close> option, as the bar calls it.\<close>

definition checkWebSession :: "bar_env \<Rightarrow> auth_context \<Rightarrow> session_refusal + web_session_row" where
  "checkWebSession env auth =
     (if \<not> truthy (webSessionIdHash auth) \<or> \<not> truthy (webSessionMemberId auth) \<or> \<not> truthy (memberId auth)
         \<or> webSessionMemberId auth \<noteq> memberId auth then Inl Not_a_web_session
      else if \<not> memberIsActiveHuman env (the (memberId auth)) then Inl Member_ineligible
      else (case first_row (\<lambda>s. Some (ws_id_hash s) = webSessionIdHash auth) (b_sessions env) of
              None \<Rightarrow> Inl Not_a_web_session
            | Some s \<Rightarrow>
                if ws_revoked s \<or> Some (ws_member_id s) \<noteq> memberId auth then Inl Not_a_web_session
                else Inr s))"

definition authIsOwner :: "bar_env \<Rightarrow> auth_context \<Rightarrow> bool" where
  "authIsOwner env auth =
     (if truthy (boundAgentId auth) then False
      else if auth_role auth = Role_owner then True
      else if \<not> truthy (memberId auth) then False
      else hasCapability (case capabilities auth of
             Some gs \<Rightarrow> gs | None \<Rightarrow> resolveCapabilities (b_auth env) (the (memberId auth))) Org_target Owner)"

definition strongReauth :: "bar_env \<Rightarrow> auth_context \<Rightarrow> int \<Rightarrow> bool" where
  "strongReauth env auth nowMs =
     (case checkWebSession env auth of
        Inl _ \<Rightarrow> False
      | Inr s \<Rightarrow>
          (case ws_recent_reauth_at s of
             None \<Rightarrow> False
           | Some at \<Rightarrow> nowMs - at \<ge> 0 \<and> nowMs - at \<le> BAR_REAUTH_WINDOW_MS))"

definition live_owner_row :: "bar_env \<Rightarrow> owner_cap_row \<Rightarrow> bool" where
  "live_owner_row env c \<longleftrightarrow> g_scope_type c = Org \<and> g_scope_id c = None \<and> g_capability c = Owner \<and>
     holds (CAPABILITY_LIVE_PREDICATE (b_auth env) (g_expires_at c))"

definition otherOwnerCount :: "bar_env \<Rightarrow> string \<Rightarrow> nat" where
  "otherOwnerCount env exceptMemberId =
     length (filter (memberIsActiveHuman env)
       (unique (map g_member_id (filter (\<lambda>c. live_owner_row env c \<and> g_member_id c \<noteq> exceptMemberId) (b_caps env)))))"

definition ownerBeforeRequest :: "bar_env \<Rightarrow> string \<Rightarrow> int \<Rightarrow> bool" where
  "ownerBeforeRequest env i requestedAt =
     (let jd = julianday (b_auth env) in
      if \<not> memberIsActiveHuman env i then False
      else exists_row (\<lambda>c. g_member_id c = i \<and> live_owner_row env c \<and>
          holds (sql_gt (Some requestedAt) (jd (oc_created_at c))) \<and>
          \<not> exists_row (\<lambda>e. ge_grant_id e = oc_id c \<and> ge_granted e \<and>
              \<not> holds (sql_gt (Some requestedAt) (jd (ge_at e))) \<and> jd (ge_at e) \<noteq> None \<and>
              ge_previous_capability e \<noteq> Some Owner) (b_grant_events env)) (b_caps env))"

section \<open>Level changes\<close>

datatype change_refusal =
    Owner_required | Invalid_level | Reauth_needed | Not_a_lowering | Not_a_raise | No_pending_request
  | Second_owner_required | Delay_not_elapsed int | State_unreadable | Conflict

record change_ok =
  ok_level :: policy_level
  ok_version :: nat
  ok_applied :: bool
  ok_pending :: "lower_request option"

definition logRefusal :: "bar_env \<Rightarrow> string \<Rightarrow> policy_level option \<Rightarrow> string \<Rightarrow> bar_env" where
  "logRefusal env new_id level actor =
     (if events_writable env
      then append_event \<lparr>pe_id = new_id, pe_kind = Lower_refused, pe_rule = None, pe_level = level,
             pe_actor = clip actor 200\<rparr> env
      else env)"

fun level_text :: "policy_level \<Rightarrow> string" where
  "level_text Onboarding = ''onboarding''"
| "level_text Operating = ''operating''"
| "level_text Under_attack = ''under_attack''"

text \<open>The compare-and-set of the tenant row: the new table and the number of rows written.\<close>

definition upsert_level ::
  "string \<Rightarrow> policy_level \<Rightarrow> nat option \<Rightarrow> bool \<Rightarrow> bar_row list \<Rightarrow> bar_row list \<times> nat" where
  "upsert_level tenant_id target version guard rows =
     (let is_tenant = (\<lambda>r. br_kind r = Scope_tenant \<and> br_id r = tenant_id) in
      case version of
        None \<Rightarrow>
          if \<not> exists_row is_tenant rows \<and> guard
          then (rows @ [\<lparr>br_kind = Scope_tenant, br_id = tenant_id, br_level = level_text target, br_version = 1\<rparr>], 1)
          else (rows, 0)
      | Some v \<Rightarrow>
          let hit = (\<lambda>r. is_tenant r \<and> br_version r = v \<and> guard) in
          (map (\<lambda>r. if hit r then r\<lparr>br_level := level_text target, br_version := br_version r + 1\<rparr> else r) rows,
           length (filter hit rows)))"

text \<open>One batch of three statements; the audit row is written when exactly one row changed, and the
  pending request is resolved only when the audit row exists. The batch is modelled as committed.\<close>

definition writeTenantLevel ::
  "bar_env \<Rightarrow> string \<Rightarrow> policy_level \<Rightarrow> resolved_level \<Rightarrow> string \<Rightarrow> string option \<Rightarrow> bar_env \<times> nat option" where
  "writeTenantLevel env eventId target current actor pendingId =
     (let nextVersion = (case rl_version current of None \<Rightarrow> 0 | Some v \<Rightarrow> v) + 1;
          guard = (pendingId = None \<or> exists_row (\<lambda>r. Some (lr_id r) = pendingId \<and>
                      lr_status r = Request_pending) (lower_requests env));
          (rows, changes) = upsert_level (TENANT_SLUG (b_auth env)) target (rl_version current) guard
                              (case st_rows env of None \<Rightarrow> [] | Some rs \<Rightarrow> rs);
          audited = (changes = 1);
          env1 = env\<lparr>st_rows := Some rows\<rparr>;
          env2 = (if audited then append_event \<lparr>pe_id = eventId, pe_kind = Level_change, pe_rule = None,
                    pe_level = Some target, pe_actor = clip actor 200\<rparr> env1 else env1);
          env3 = (if audited then env2\<lparr>lower_requests := map (\<lambda>r.
                    if lr_status r = Request_pending \<and> (pendingId = None \<or> Some (lr_id r) = pendingId)
                    then r\<lparr>lr_status := (if pendingId \<noteq> None then Request_applied else Request_cancelled)\<rparr> else r)
                    (lower_requests env2)\<rparr> else env2)
      in (env3, if changes \<noteq> 0 then Some nextVersion else None))"

definition raiseLevel ::
  "bar_env \<Rightarrow> string \<Rightarrow> auth_context \<Rightarrow> string \<Rightarrow> bar_env \<times> (change_refusal + change_ok)" where
  "raiseLevel env new_id auth target =
     (if \<not> authIsOwner env auth then (env, Inl Owner_required)
      else (case parse_level target of
              None \<Rightarrow> (env, Inl Invalid_level)
            | Some t \<Rightarrow>
                let current = resolveLevel env no_scope in
                if rl_source current = From_read_failed then (env, Inl State_unreadable)
                else if LEVEL_RANK t \<le> LEVEL_RANK (rl_level current) \<and> rl_source current \<noteq> From_malformed
                then (env, Inl Not_a_raise)
                else (case writeTenantLevel env new_id t current (actorOf auth) None of
                        (env', None) \<Rightarrow> (env', Inl Conflict)
                      | (env', Some v) \<Rightarrow> (env', Inr \<lparr>ok_level = t, ok_version = v, ok_applied = True, ok_pending = None\<rparr>))))"

definition requestLower ::
  "bar_env \<Rightarrow> string \<Rightarrow> auth_context \<Rightarrow> string \<Rightarrow> int \<Rightarrow> bar_env \<times> (change_refusal + change_ok)" where
  "requestLower env new_id auth target nowMs =
     (let actor = actorOf auth in
      if \<not> authIsOwner env auth then (env, Inl Owner_required)
      else (case parse_level target of
              None \<Rightarrow> (env, Inl Invalid_level)
            | Some t \<Rightarrow>
                if \<not> strongReauth env auth nowMs then (logRefusal env new_id (Some t) actor, Inl Reauth_needed)
                else
                  let current = resolveLevel env no_scope in
                  if rl_source current = From_read_failed then (env, Inl State_unreadable)
                  else if LEVEL_RANK t \<ge> LEVEL_RANK (rl_level current) then (env, Inl Not_a_lowering)
                  else
                    let needsSecond = (otherOwnerCount env (the (memberId auth)) > 0);
                        req = \<lparr>lr_id = new_id, lr_from_level = rl_level current, lr_target_level = t,
                          lr_requested_by = clip actor 200, lr_requested_at = nowMs,
                          lr_effective_after = nowMs + (if needsSecond then 0 else LOWER_DELAY_MS),
                          lr_needs_second_owner = needsSecond, lr_status = Request_pending\<rparr>;
                        cancelled = map (\<lambda>r. if lr_status r = Request_pending
                          then r\<lparr>lr_status := Request_cancelled\<rparr> else r) (lower_requests env);
                        env' = append_event \<lparr>pe_id = new_id, pe_kind = Lower_requested, pe_rule = None,
                          pe_level = Some t, pe_actor = clip actor 200\<rparr> (env\<lparr>lower_requests := cancelled @ [req]\<rparr>)
                    in (env', Inr \<lparr>ok_level = rl_level current,
                          ok_version = (case rl_version current of None \<Rightarrow> 0 | Some v \<Rightarrow> v),
                          ok_applied = False, ok_pending = Some (req\<lparr>lr_requested_by := actor\<rparr>)\<rparr>)))"

definition confirmLower ::
  "bar_env \<Rightarrow> string \<Rightarrow> auth_context \<Rightarrow> int \<Rightarrow> bar_env \<times> (change_refusal + change_ok)" where
  "confirmLower env new_id auth nowMs =
     (let actor = actorOf auth in
      if \<not> authIsOwner env auth then (env, Inl Owner_required)
      else if \<not> strongReauth env auth nowMs then (logRefusal env new_id None actor, Inl Reauth_needed)
      else (case getPendingLower env of
              None \<Rightarrow> (env, Inl No_pending_request)
            | Some p \<Rightarrow>
                let member = the (memberId auth);
                    secondExists = (otherOwnerCount env member > 0);
                    needsPeer = (lr_needs_second_owner p \<or> secondExists)
                in if needsPeer \<and> (lr_requested_by p = actor \<or> \<not> ownerBeforeRequest env member (lr_requested_at p))
                   then (logRefusal env new_id (Some (lr_target_level p)) actor, Inl Second_owner_required)
                   else if \<not> needsPeer \<and> nowMs < lr_effective_after p
                   then (logRefusal env new_id (Some (lr_target_level p)) actor, Inl (Delay_not_elapsed (lr_effective_after p)))
                   else
                     let current = resolveLevel env no_scope in
                     if rl_source current = From_read_failed then (env, Inl State_unreadable)
                     else if LEVEL_RANK (lr_target_level p) \<ge> LEVEL_RANK (rl_level current) then (env, Inl Not_a_lowering)
                     else (case writeTenantLevel env new_id (lr_target_level p) current actor (Some (lr_id p)) of
                             (env', None) \<Rightarrow> (env', Inl Conflict)
                           | (env', Some v) \<Rightarrow> (env', Inr \<lparr>ok_level = lr_target_level p, ok_version = v,
                               ok_applied = True, ok_pending = None\<rparr>))))"

section \<open>The bar as a state machine\<close>

text \<open>
  An act is one of the operations by any caller at any instant, or a change of the surrounding
  tables (members, grants, sessions), which the bar does not control.
\<close>

datatype bar_act =
    Act_raise auth_context string
  | Act_request auth_context string int
  | Act_confirm auth_context int
  | Act_relax string string policy_scope
  | Act_roster

inductive bar_step :: "bar_env \<Rightarrow> bar_act \<Rightarrow> bar_env \<Rightarrow> bool" where
  step_raise: "bar_step e (Act_raise a t) (fst (raiseLevel e i a t))"
| step_request: "bar_step e (Act_request a t now) (fst (requestLower e i a t now))"
| step_confirm: "bar_step e (Act_confirm a now) (fst (confirmLower e i a now))"
| step_relax: "bar_step e (Act_relax rule actor scope) (fst (relaxes e i rule actor scope))"
| step_roster: "TENANT_SLUG A = TENANT_SLUG (b_auth e) \<Longrightarrow>
    bar_step e Act_roster (e\<lparr>b_auth := A, b_caps := C, b_grant_events := G, archived_members := M,
      bound_members := B, b_sessions := S, events_writable := w\<rparr>)"

inductive_cases bar_stepE: "bar_step e act e'"

definition barLevel :: "bar_env \<Rightarrow> policy_level" where
  "barLevel e = rl_level (resolveLevel e no_scope)"

definition bar_key :: "bar_row \<Rightarrow> policy_scope_kind \<times> string" where
  "bar_key r = (br_kind r, br_id r)"

text \<open>A pot starts with a readable table with its primary key and no request.\<close>

definition bar_init :: "bar_env \<Rightarrow> bool" where
  "bar_init e \<longleftrightarrow> (case st_rows e of None \<Rightarrow> False
     | Some rows \<Rightarrow> distinct (map bar_key rows)) \<and> lower_requests e = []"

inductive bar_reachable :: "bar_env \<Rightarrow> bool" where
  reach_init: "bar_init e \<Longrightarrow> bar_reachable e"
| reach_step: "bar_reachable e \<Longrightarrow> bar_step e act e' \<Longrightarrow> bar_reachable e'"

definition request_ok :: "lower_request \<Rightarrow> bool" where
  "request_ok r \<longleftrightarrow> lr_effective_after r = lr_requested_at r + (if lr_needs_second_owner r then 0 else LOWER_DELAY_MS) \<and>
     LEVEL_RANK (lr_target_level r) < LEVEL_RANK (lr_from_level r)"

definition bar_inv :: "bar_env \<Rightarrow> bool" where
  "bar_inv e \<longleftrightarrow> (\<exists>rows. st_rows e = Some rows \<and> distinct (map bar_key rows)) \<and>
     (\<forall>r \<in> set (lower_requests e). request_ok r) \<and>
     length (filter (\<lambda>r. lr_status r = Request_pending) (lower_requests e)) \<le> 1"

subsection \<open>Reading the level\<close>

lemma parse_level_text [simp]: "parse_level (level_text l) = Some l"
  by (cases l) (simp_all add: parse_level_def POLICY_LEVELS_def)

lemma scope_probes_none [simp]: "scope_probes no_scope = []"
  by (simp add: scope_probes_def NEAR_TO_FAR_def no_scope_def)

lemma find_filter_weaker:
  "(\<And>x. p x \<Longrightarrow> q x) \<Longrightarrow> find p (filter q xs) = find p xs"
  by (induction xs) auto

lemma resolveLevel_tenant:
  "st_rows e = Some rows \<Longrightarrow>
   resolveLevel e no_scope = tenant_level (find_bar_row rows Scope_tenant (TENANT_SLUG (b_auth e)))"
  unfolding resolveLevel_def Let_def find_bar_row_def by (simp add: find_filter_weaker)

lemma stricter_rank: "LEVEL_RANK b \<le> LEVEL_RANK (stricter a b)"
  by (simp add: stricter_def)

lemma nearest_level_stricter:
  "LEVEL_RANK (rl_level tenant) \<le> LEVEL_RANK (rl_level (nearest_level rows tenant ps))"
  by (induction rows tenant ps rule: nearest_level.induct)
    (auto simp: stricter_rank Let_def split: option.splits)

lemma resolveLevel_nearer_stricter:
  "LEVEL_RANK (rl_level (resolveLevel e no_scope)) \<le> LEVEL_RANK (rl_level (resolveLevel e scope))"
proof (cases "st_rows e")
  case None
  then show ?thesis by (simp add: resolveLevel_def Let_def)
next
  case (Some rows)
  let ?q = "\<lambda>r. (br_kind r, br_id r) \<in> set ((Scope_tenant, TENANT_SLUG (b_auth e)) # scope_probes scope)"
  have "find_bar_row (filter ?q rows) Scope_tenant (TENANT_SLUG (b_auth e)) =
        find_bar_row rows Scope_tenant (TENANT_SLUG (b_auth e))"
    unfolding find_bar_row_def by (rule find_filter_weaker) auto
  with Some nearest_level_stricter show ?thesis
    unfolding resolveLevel_tenant [OF Some] by (simp add: resolveLevel_def Let_def)
qed

subsection \<open>The compare-and-set\<close>

lemma bar_key_make [simp]:
  "bar_key \<lparr>br_kind = k, br_id = i, br_level = l, br_version = v\<rparr> = (k, i)"
  by (simp add: bar_key_def)

lemma find_bar_row_key: "find_bar_row rows k i = first_row (\<lambda>r. bar_key r = (k, i)) rows"
  by (simp add: find_bar_row_def first_row_def bar_key_def)

lemma find_bar_row_unique:
  "distinct (map bar_key rows) \<Longrightarrow> r \<in> set rows \<Longrightarrow> bar_key r = (k, i) \<Longrightarrow> find_bar_row rows k i = Some r"
  using first_row_key [of bar_key rows r] by (simp add: find_bar_row_key)

lemma find_bar_row_Some:
  "find_bar_row rows k i = Some r \<Longrightarrow> r \<in> set rows \<and> br_kind r = k \<and> br_id r = i"
  by (auto simp: find_bar_row_def find_Some_iff)

definition set_level :: "(bar_row \<Rightarrow> bool) \<Rightarrow> policy_level \<Rightarrow> bar_row \<Rightarrow> bar_row" where
  "set_level hit l r = (if hit r then r\<lparr>br_level := level_text l, br_version := br_version r + 1\<rparr> else r)"

lemma bar_key_set_level [simp]: "bar_key (set_level hit l r) = bar_key r"
  by (simp add: set_level_def bar_key_def)

lemma upsert_level_cases:
  "upsert_level t l v g rows =
     (case v of
        None \<Rightarrow> if (Scope_tenant, t) \<notin> bar_key ` set rows \<and> g
          then (rows @ [\<lparr>br_kind = Scope_tenant, br_id = t, br_level = level_text l, br_version = 1\<rparr>], 1) else (rows, 0)
      | Some n \<Rightarrow> (let hit = (\<lambda>r. bar_key r = (Scope_tenant, t) \<and> br_version r = n \<and> g) in
          (map (set_level hit l) rows, length (filter hit rows))))"
proof (cases v)
  case None
  have "exists_row (\<lambda>r. br_kind r = Scope_tenant \<and> br_id r = t) rows \<longleftrightarrow> (Scope_tenant, t) \<in> bar_key ` set rows"
    unfolding exists_row_iff bar_key_def image_iff by (metis prod.inject)
  with None show ?thesis by (simp add: upsert_level_def Let_def)
next
  case (Some n)
  have "bar_key r = (Scope_tenant, t) \<and> br_version r = n \<and> g \<longleftrightarrow>
      (br_kind r = Scope_tenant \<and> br_id r = t) \<and> br_version r = n \<and> g" for r
    by (simp add: bar_key_def)
  with Some show ?thesis unfolding upsert_level_def Let_def set_level_def [abs_def] by simp
qed

lemma upsert_level_distinct:
  assumes "distinct (map bar_key rows)"
  shows "distinct (map bar_key (fst (upsert_level t l v g rows)))"
  using assms by (auto simp: upsert_level_cases Let_def o_def
      split: option.splits)

lemma upsert_level_unchanged:
  "snd (upsert_level t l v g rows) = 0 \<Longrightarrow> fst (upsert_level t l v g rows) = rows"
  by (auto simp: upsert_level_cases Let_def filter_empty_conv set_level_def intro!: map_idI
      split: option.splits if_splits)

lemma upsert_level_written:
  assumes "distinct (map bar_key rows)" and "snd (upsert_level t l v g rows) \<noteq> 0"
  shows "g \<and> snd (upsert_level t l v g rows) = 1 \<and>
    (\<exists>r. find_bar_row (fst (upsert_level t l v g rows)) Scope_tenant t = Some r \<and> br_level r = level_text l \<and>
       br_version r = (case v of None \<Rightarrow> 0 | Some n \<Rightarrow> n) + 1)"
proof (cases v)
  case None
  let ?r = "\<lparr>br_kind = Scope_tenant, br_id = t, br_level = level_text l, br_version = 1\<rparr>"
  from None assms(2) have fresh: "(Scope_tenant, t) \<notin> bar_key ` set rows" and g: g
    by (auto simp: upsert_level_cases split: if_splits)
  then have "find_bar_row (rows @ [?r]) Scope_tenant t = Some ?r"
    using assms(1) by (intro find_bar_row_unique) auto
  with None fresh g show ?thesis by (simp add: upsert_level_cases)
next
  case (Some n)
  define hit where "hit = (\<lambda>r. bar_key r = (Scope_tenant, t) \<and> br_version r = n \<and> g)"
  have u: "upsert_level t l v g rows = (map (set_level hit l) rows, length (filter hit rows))"
    by (simp add: upsert_level_cases Some hit_def Let_def)
  with assms(2) obtain r where r: "r \<in> set rows" "hit r"
    by (auto simp: filter_empty_conv)
  then have first: "first_row (\<lambda>x. bar_key x = (Scope_tenant, t)) rows = Some r"
    using first_row_key [OF assms(1) r(1)] by (simp add: hit_def)
  have "filter hit rows = [r]"
    using filter_key [OF assms(1), of "(Scope_tenant, t)" "\<lambda>x. br_version x = n \<and> g"] first r(2)
    by (simp add: hit_def)
  moreover have "find_bar_row (map (set_level hit l) rows) Scope_tenant t = Some (set_level hit l r)"
    using assms(1) r by (intro find_bar_row_unique) (auto simp: o_def hit_def)
  ultimately show ?thesis
    using r(2) u Some by (simp add: set_level_def hit_def)
qed

subsection \<open>Level writes\<close>

lemma writeTenantLevel_frame [simp]:
  "b_auth (fst (writeTenantLevel e i t c a p)) = b_auth e"
  by (simp add: writeTenantLevel_def Let_def append_event_def split: prod.splits)

text \<open>A refused write leaves everything as it was.\<close>

lemma writeTenantLevel_None:
  assumes "st_rows e = Some rows" and "writeTenantLevel e i t c a p = (e', None)"
  shows "e' = e"
proof -
  define g where "g = (p = None \<or> exists_row (\<lambda>r. Some (lr_id r) = p \<and> lr_status r = Request_pending) (lower_requests e))"
  obtain rows' n where u: "upsert_level (TENANT_SLUG (b_auth e)) t (rl_version c) g rows = (rows', n)"
    by (cases "upsert_level (TENANT_SLUG (b_auth e)) t (rl_version c) g rows")
  have "n = 0" "e' = e\<lparr>st_rows := Some rows'\<rparr>"
    using assms u by (auto simp: writeTenantLevel_def Let_def g_def [symmetric] split: if_splits)
  with upsert_level_unchanged [of "TENANT_SLUG (b_auth e)" t "rl_version c" g rows] u assms(1)
  show ?thesis by simp
qed

lemma writeTenantLevel_Some:
  assumes rows: "st_rows e = Some rows" "distinct (map bar_key rows)"
    and w: "writeTenantLevel e i t c a p = (e', Some v)"
  shows "barLevel e' = t \<and> v = (case rl_version c of None \<Rightarrow> 0 | Some n \<Rightarrow> n) + 1 \<and>
    (\<exists>rows'. st_rows e' = Some rows' \<and> distinct (map bar_key rows')) \<and>
    policy_events e' = policy_events e @ [\<lparr>pe_id = i, pe_kind = Level_change, pe_rule = None,
      pe_level = Some t, pe_actor = clip a 200\<rparr>] \<and>
    lower_requests e' = map (\<lambda>r. if lr_status r = Request_pending \<and> (p = None \<or> Some (lr_id r) = p)
      then r\<lparr>lr_status := (if p \<noteq> None then Request_applied else Request_cancelled)\<rparr> else r) (lower_requests e)"
proof -
  define g where "g = (p = None \<or> exists_row (\<lambda>r. Some (lr_id r) = p \<and> lr_status r = Request_pending) (lower_requests e))"
  let ?u = "upsert_level (TENANT_SLUG (b_auth e)) t (rl_version c) g rows"
  have n: "snd ?u \<noteq> 0" and v: "v = (case rl_version c of None \<Rightarrow> 0 | Some n \<Rightarrow> n) + 1"
    using w rows(1) by (auto simp: writeTenantLevel_def Let_def g_def [symmetric] split: if_splits prod.splits)
  note wr = upsert_level_written [OF rows(2) n]
  then have "snd ?u = 1" by blast
  then have e': "e' = e\<lparr>st_rows := Some (fst ?u),
      policy_events := policy_events e @ [\<lparr>pe_id = i, pe_kind = Level_change, pe_rule = None,
        pe_level = Some t, pe_actor = clip a 200\<rparr>],
      lower_requests := map (\<lambda>r. if lr_status r = Request_pending \<and> (p = None \<or> Some (lr_id r) = p)
        then r\<lparr>lr_status := (if p \<noteq> None then Request_applied else Request_cancelled)\<rparr> else r) (lower_requests e)\<rparr>"
    using w rows(1) unfolding writeTenantLevel_def Let_def g_def [symmetric] append_event_def
    by (cases ?u) simp
  have "barLevel e' = t"
    using wr by (auto simp: barLevel_def resolveLevel_tenant tenant_level_def e')
  moreover have "distinct (map bar_key (fst ?u))" by (rule upsert_level_distinct [OF rows(2)])
  ultimately show ?thesis unfolding v by (simp add: e')
qed

lemma barLevel_frame:
  "st_rows e' = st_rows e \<Longrightarrow> TENANT_SLUG (b_auth e') = TENANT_SLUG (b_auth e) \<Longrightarrow> barLevel e' = barLevel e"
  by (simp add: barLevel_def resolveLevel_def Let_def)

lemma malformed_write_refused:
  assumes "st_rows e = Some rows" and "rl_source (resolveLevel e no_scope) = From_malformed"
  shows "writeTenantLevel e i t (resolveLevel e no_scope) a p = (e, None)"
proof -
  obtain r where r: "find_bar_row rows Scope_tenant (TENANT_SLUG (b_auth e)) = Some r"
      "rl_version (resolveLevel e no_scope) = None"
    using assms by (auto simp: resolveLevel_tenant tenant_level_def split: option.splits)
  then have "(Scope_tenant, TENANT_SLUG (b_auth e)) \<in> bar_key ` set rows"
    using find_bar_row_Some by (force simp: bar_key_def)
  then have "snd (writeTenantLevel e i t (resolveLevel e no_scope) a p) = None"
    using r(2) assms(1) by (simp add: writeTenantLevel_def Let_def upsert_level_cases)
  then show ?thesis using writeTenantLevel_None [OF assms(1)] by (metis prod.collapse)
qed

lemma pending_after_resolve:
  "length (filter (\<lambda>r. lr_status r = Request_pending) (map (\<lambda>r. if lr_status r = Request_pending \<and> q r
      then r\<lparr>lr_status := s\<rparr> else r) rs)) \<le> length (filter (\<lambda>r. lr_status r = Request_pending) rs)"
  if "s \<noteq> Request_pending"
  using that by (induction rs) auto

lemma request_ok_status [simp]: "request_ok (r\<lparr>lr_status := s\<rparr>) = request_ok r"
  by (simp add: request_ok_def)

lemma bar_inv_write:
  assumes inv: "bar_inv e" and w: "writeTenantLevel e i t c a p = (e', Some v)"
  shows "bar_inv e' \<and> barLevel e' = t"
proof -
  obtain rows where rows: "st_rows e = Some rows" "distinct (map bar_key rows)"
    using inv by (auto simp: bar_inv_def)
  note wr = writeTenantLevel_Some [OF rows w]
  have "\<forall>r \<in> set (lower_requests e'). request_ok r"
    using inv wr by (auto simp: bar_inv_def)
  moreover have "length (filter (\<lambda>r. lr_status r = Request_pending) (lower_requests e')) \<le> 1"
  proof -
    have "lower_requests e' = map (\<lambda>r. if lr_status r = Request_pending \<and> (p = None \<or> Some (lr_id r) = p)
      then r\<lparr>lr_status := (if p \<noteq> None then Request_applied else Request_cancelled)\<rparr> else r) (lower_requests e)"
      using wr by blast
    then show ?thesis
      using inv by (simp only: bar_inv_def) (rule order_trans [OF pending_after_resolve], auto)
  qed
  ultimately show ?thesis using wr by (simp add: bar_inv_def)
qed

lemma bar_inv_write_refused:
  "bar_inv e \<Longrightarrow> writeTenantLevel e i t c a p = (e', None) \<Longrightarrow> e' = e"
  by (auto simp: bar_inv_def dest: writeTenantLevel_None)

lemma bar_inv_append [simp]: "bar_inv (append_event ev e) = bar_inv e"
  by (simp add: bar_inv_def append_event_def)

lemma barLevel_append [simp]: "barLevel (append_event ev e) = barLevel e"
  by (rule barLevel_frame) (simp_all add: append_event_def)

lemma bar_inv_log [simp]: "bar_inv (logRefusal e i l a) = bar_inv e" "barLevel (logRefusal e i l a) = barLevel e"
  by (simp_all add: logRefusal_def)

lemma raise_keeps:
  assumes inv: "bar_inv e" and r: "raiseLevel e i a t = (e', res)"
  shows "bar_inv e' \<and> LEVEL_RANK (barLevel e) \<le> LEVEL_RANK (barLevel e')"
proof (cases "e' = e")
  case False
  obtain rows where rows: "st_rows e = Some rows" using inv by (auto simp: bar_inv_def)
  let ?c = "resolveLevel e no_scope"
  obtain l v where w: "writeTenantLevel e i l ?c (actorOf a) None = (e', Some v)"
      and rank: "\<not> (LEVEL_RANK l \<le> LEVEL_RANK (rl_level ?c) \<and> rl_source ?c \<noteq> From_malformed)"
    using r False bar_inv_write_refused [OF inv]
    by (auto simp: raiseLevel_def Let_def split: if_splits option.splits prod.splits)
  with malformed_write_refused [OF rows] False have "LEVEL_RANK (rl_level ?c) < LEVEL_RANK l" by fastforce
  with bar_inv_write [OF inv w] show ?thesis by (simp add: barLevel_def)
qed (use inv in simp)

lemma barLevel_requests [simp]: "barLevel (e\<lparr>lower_requests := rs\<rparr>) = barLevel e"
  by (rule barLevel_frame) simp_all

lemma cancel_all_pending:
  "filter (\<lambda>r. lr_status r = Request_pending) (map (\<lambda>r. if lr_status r = Request_pending
     then r\<lparr>lr_status := Request_cancelled\<rparr> else r) rs) = []"
  by (induction rs) auto

lemma bar_inv_new_request:
  assumes "bar_inv e" and "request_ok q"
  shows "bar_inv (e\<lparr>lower_requests := map (\<lambda>r. if lr_status r = Request_pending
      then r\<lparr>lr_status := Request_cancelled\<rparr> else r) (lower_requests e) @ [q]\<rparr>)"
  using assms by (auto simp: bar_inv_def cancel_all_pending simp del: filter_map)

lemma request_keeps:
  assumes "bar_inv e" and "requestLower e i a t now = (e', res)"
  shows "bar_inv e' \<and> barLevel e' = barLevel e"
  using assms
  by (auto simp: requestLower_def Let_def bar_inv_new_request request_ok_def simp del: map_append
      split: if_splits option.splits)

text \<open>The conditions under which a confirmation writes.\<close>

definition confirm_authorised :: "bar_env \<Rightarrow> auth_context \<Rightarrow> int \<Rightarrow> lower_request \<Rightarrow> bool" where
  "confirm_authorised e a now p \<longleftrightarrow> authIsOwner e a \<and> strongReauth e a now \<and> getPendingLower e = Some p \<and>
     (if lr_needs_second_owner p \<or> otherOwnerCount e (the (memberId a)) > 0
      then lr_requested_by p \<noteq> actorOf a \<and> ownerBeforeRequest e (the (memberId a)) (lr_requested_at p)
      else lr_effective_after p \<le> now)"

lemma confirm_keeps:
  assumes inv: "bar_inv e" and r: "confirmLower e i a now = (e', res)"
  shows "bar_inv e' \<and> (barLevel e' = barLevel e \<or>
    (\<exists>p. confirm_authorised e a now p \<and> barLevel e' = lr_target_level p))"
proof (cases "\<exists>p v. confirm_authorised e a now p \<and>
    writeTenantLevel e i (lr_target_level p) (resolveLevel e no_scope) (actorOf a) (Some (lr_id p)) = (e', Some v)")
  case True
  then show ?thesis using bar_inv_write [OF inv] by blast
next
  case False
  have "e' = e \<or> (\<exists>l. e' = logRefusal e i l (actorOf a))"
    using r False bar_inv_write_refused [OF inv]
    by (auto simp: confirmLower_def Let_def confirm_authorised_def not_less split: if_splits option.splits prod.splits)
  then show ?thesis using inv by auto
qed

lemma relax_keeps: "bar_inv (fst (relaxes e i rule actor scope)) = bar_inv e"
    "barLevel (fst (relaxes e i rule actor scope)) = barLevel e"
  by (simp_all add: relaxes_def Let_def)

lemma bar_inv_roster:
  "bar_inv (e\<lparr>b_auth := A, b_caps := C, b_grant_events := G, archived_members := M,
      bound_members := B, b_sessions := S, events_writable := w\<rparr>) = bar_inv e"
  by (simp add: bar_inv_def)

lemma bar_step_inv:
  assumes "bar_step e act e'" and "bar_inv e"
  shows "bar_inv e'"
  using assms
proof cases
  case (step_raise a t i)
  with raise_keeps [OF assms(2), of i a t] show ?thesis by (metis prod.collapse)
next
  case (step_request a t now i)
  with request_keeps [OF assms(2)] show ?thesis by (metis prod.collapse)
next
  case (step_confirm a now i)
  with confirm_keeps [OF assms(2)] show ?thesis by (metis prod.collapse)
qed (use assms(2) in \<open>auto simp: relax_keeps bar_inv_roster\<close>)

lemma bar_reachable_inv: "bar_reachable e \<Longrightarrow> bar_inv e"
proof (induction rule: bar_reachable.induct)
  case (reach_init e)
  then show ?case by (auto simp: bar_init_def bar_inv_def split: option.splits)
qed (blast intro: bar_step_inv)

lemma writeTenantLevel_unconditional:
  assumes "st_rows e = Some rows" and "snd (upsert_level (TENANT_SLUG (b_auth e)) t (rl_version c) True rows) \<noteq> 0"
  shows "\<exists>e' v. writeTenantLevel e i t c a None = (e', Some v)"
  using assms by (cases "upsert_level (TENANT_SLUG (b_auth e)) t (rl_version c) True rows")
    (simp add: writeTenantLevel_def Let_def)

lemma getRule_in: "getRule i = Some r \<Longrightarrow> r \<in> set POLICY_RULES \<and> rule_id r = i"
  by (auto simp: getRule_def find_Some_iff)

lemma relaxable_rules:
  "\<forall>r \<in> set POLICY_RULES. rule_floor r \<or> rule_values r = STRICT \<or> rule_values r = ONBOARDING_ONLY \<and>
     rule_id r \<in> {''task.create.gate-owner-creator-is-assignee'', ''task.intake.p1-linkage'',
       ''task.update.transition-matrix'', ''task.update.artifact-shape-gate''}"
  by (simp add: POLICY_RULES_def floor_rule_def)

lemma decide_relaxed:
  assumes "pd_relaxed (decide i l)"
  shows "l = Onboarding \<and> i \<in> {''task.create.gate-owner-creator-is-assignee'', ''task.intake.p1-linkage'',
       ''task.update.transition-matrix'', ''task.update.artifact-shape-gate''}"
proof -
  obtain r where r: "getRule i = Some r" "\<not> rule_floor r" "rule_values r l = Relaxed"
    using assms by (auto simp: decide_def Let_def split: option.splits if_splits)
  then have "rule_values r \<noteq> STRICT" by (auto simp: STRICT_def)
  with relaxable_rules getRule_in [OF r(1)] r
  have "rule_values r = ONBOARDING_ONLY" "rule_id r = i"
    "rule_id r \<in> {''task.create.gate-owner-creator-is-assignee'', ''task.intake.p1-linkage'',
       ''task.update.transition-matrix'', ''task.update.artifact-shape-gate''}" by blast+
  with r show ?thesis by (cases l) (simp_all add: ONBOARDING_ONLY_def)
qed

lemma onboarding_explicit:
  assumes "rl_level (resolveLevel e scope) = Onboarding"
  shows "\<exists>rows r. st_rows e = Some rows \<and> r \<in> set rows \<and> bar_key r = (Scope_tenant, TENANT_SLUG (b_auth e)) \<and>
    parse_level (br_level r) = Some Onboarding"
proof -
  have "LEVEL_RANK (rl_level (resolveLevel e no_scope)) \<le> 0"
    using resolveLevel_nearer_stricter [of e scope] assms by simp
  then have tenant: "rl_level (resolveLevel e no_scope) = Onboarding"
    by (cases "rl_level (resolveLevel e no_scope)") simp_all
  then obtain rows where rows: "st_rows e = Some rows"
    by (cases "st_rows e") (simp_all add: resolveLevel_def Let_def FAIL_CLOSED_LEVEL_def)
  obtain r where r: "find_bar_row rows Scope_tenant (TENANT_SLUG (b_auth e)) = Some r"
      "parse_level (br_level r) = Some Onboarding"
    using tenant unfolding resolveLevel_tenant [OF rows]
    by (auto simp: tenant_level_def MISSING_LEVEL_def FAIL_CLOSED_LEVEL_def split: option.splits)
  then show ?thesis using rows find_bar_row_Some [OF r(1)] by (auto simp: bar_key_def)
qed

section \<open>Properties\<close>

definition sample_bar :: bar_env where
  "sample_bar = \<lparr>b_auth = sample_env, b_caps = [], b_grant_events = [], archived_members = [], bound_members = [],
     b_sessions = [\<lparr>ws_id_hash = ''h'', ws_member_id = ''alice'', ws_revoked = False, ws_recent_reauth_at = Some 100000000\<rparr>],
     st_rows = Some [\<lparr>br_kind = Scope_tenant, br_id = ''t'', br_level = ''operating'', br_version = 3\<rparr>],
     lower_requests = [], policy_events = [], events_writable = True\<rparr>"

definition alice_auth :: auth_context where
  "alice_auth = \<lparr>userId = ''u-alice'', auth_role = Role_owner, memberId = Some ''alice'', capabilities = None,
     latentCapabilities = None, boundAgentId = None, webSessionIdHash = Some ''h'',
     webSessionMemberId = Some ''alice'', seatBinding = None\<rparr>"

text \<open>C7: In every state the bar can reach, under any sequence of raises, lowering requests,
  confirmations and relaxations by any callers and any changes to members, grants and sessions,
  the only act that lowers the tenant level is a confirmation by a freshly re-authenticated owner
  of an earlier pending request for exactly that level; and either the confirmer is not the
  recorded requester and was already an owner when the request was made, or no other active
  human owner exists and at least 24 hours have passed since the request.\<close>
theorem lowering_needs_two_acts:
  assumes "bar_reachable e" and "bar_step e act e'" and "LEVEL_RANK (barLevel e') < LEVEL_RANK (barLevel e)"
  shows "\<exists>a now p. act = Act_confirm a now \<and> authIsOwner e a \<and> strongReauth e a now \<and>
    getPendingLower e = Some p \<and> barLevel e' = lr_target_level p \<and>
    (lr_requested_by p \<noteq> actorOf a \<and> ownerBeforeRequest e (the (memberId a)) (lr_requested_at p)
     \<or> otherOwnerCount e (the (memberId a)) = 0 \<and> lr_requested_at p + LOWER_DELAY_MS \<le> now)"
  using assms(2)
proof cases
  case (step_confirm a now i)
  have inv: "bar_inv e" by (rule bar_reachable_inv [OF assms(1)])
  obtain p where p: "confirm_authorised e a now p" "barLevel e' = lr_target_level p"
    using confirm_keeps [OF inv, of i a now e'] step_confirm assms(3) by (metis less_irrefl prod.collapse)
  then have "p \<in> set (lower_requests e)" "request_ok p"
    using inv first_row_Some [of "\<lambda>r. lr_status r = Request_pending" "lower_requests e" p]
    by (auto simp: confirm_authorised_def getPendingLower_def bar_inv_def)
  with p step_confirm(1) show ?thesis
    by (auto simp: confirm_authorised_def request_ok_def split: if_splits)
next
  case (step_raise a t i)
  with raise_keeps [OF bar_reachable_inv [OF assms(1)], of i a t] assms(3) show ?thesis
    by (metis not_le prod.collapse)
next
  case (step_request a t now i)
  with request_keeps [OF bar_reachable_inv [OF assms(1)], of i a t now] assms(3) show ?thesis
    by (metis less_irrefl prod.collapse)
next
  case (step_relax rule actor scope i)
  with assms(3) show ?thesis by (simp add: relax_keeps)
next
  case (step_roster A C G M B S w)
  then have "barLevel e' = barLevel e" by (intro barLevel_frame) auto
  with assms(3) show ?thesis by simp
qed

theorem lowering_needs_two_acts_witness:
  "\<exists>e act e'. bar_reachable e \<and> bar_step e act e' \<and> LEVEL_RANK (barLevel e') < LEVEL_RANK (barLevel e) \<and>
    (\<exists>a now. act = Act_confirm a now)"
proof -
  let ?e = "fst (requestLower sample_bar ''r1'' alice_auth ''onboarding'' 100000000)"
  let ?f = "?e\<lparr>b_sessions := [\<lparr>ws_id_hash = ''h'', ws_member_id = ''alice'', ws_revoked = False,
      ws_recent_reauth_at = Some 186400000\<rparr>]\<rparr>"
  let ?act = "Act_confirm alice_auth 186400000"
  let ?g = "fst (confirmLower ?f ''c1'' alice_auth 186400000)"
  have "bar_init sample_bar" by code_simp
  then have "bar_reachable sample_bar" by (rule reach_init)
  then have "bar_reachable ?e" by (rule reach_step [OF _ step_request])
  moreover have "bar_step ?e Act_roster (?e\<lparr>b_auth := b_auth ?e, b_caps := b_caps ?e,
      b_grant_events := b_grant_events ?e, archived_members := archived_members ?e, bound_members := bound_members ?e,
      b_sessions := [\<lparr>ws_id_hash = ''h'', ws_member_id = ''alice'', ws_revoked = False, ws_recent_reauth_at = Some 186400000\<rparr>],
      events_writable := events_writable ?e\<rparr>)"
    by (rule step_roster) simp
  ultimately have r: "bar_reachable ?f" by (auto dest: reach_step)
  have s: "bar_step ?f ?act ?g" by (rule step_confirm)
  have l: "LEVEL_RANK (barLevel ?g) < LEVEL_RANK (barLevel ?f)" by code_simp
  from lowering_needs_two_acts [OF r s l] r s l show ?thesis by blast
qed

text \<open>C8: A rule is relaxed only for one of four registered friction rules, only in a pot whose own
  tenant row explicitly says onboarding (a missing row, a malformed row, a failed read or a nearer
  scope never relax anything), and only together with exactly one audit record of that use;
  in every other case the state is untouched.\<close>
theorem relaxation_explicit_and_audited:
  "case relaxes e i rule actor scope of
     (e', False) \<Rightarrow> e' = e
   | (e', True) \<Rightarrow> rule \<in> {''task.create.gate-owner-creator-is-assignee'', ''task.intake.p1-linkage'',
         ''task.update.transition-matrix'', ''task.update.artifact-shape-gate''} \<and>
       (\<exists>rows r. st_rows e = Some rows \<and> r \<in> set rows \<and> bar_key r = (Scope_tenant, TENANT_SLUG (b_auth e)) \<and>
          parse_level (br_level r) = Some Onboarding) \<and>
       e' = append_event \<lparr>pe_id = i, pe_kind = Would_block, pe_rule = Some rule, pe_level = Some Onboarding,
         pe_actor = or_unknown (clip actor 200)\<rparr> e"
proof (cases "pd_relaxed (policy e scope rule) \<and> events_writable e")
  case True
  then have relaxed: "pd_relaxed (decide rule (rl_level (resolveLevel e scope)))" by (simp add: policy_def)
  note d = decide_relaxed [OF this]
  have "pd_level (policy e scope rule) = Onboarding"
    using relaxed d by (auto simp: policy_def decide_def Let_def split: option.splits if_splits)
  with True d onboarding_explicit [of e scope] show ?thesis
    by (simp add: relaxes_def Let_def)
next
  case False
  then show ?thesis by (auto simp: relaxes_def Let_def)
qed

text \<open>Raising needs no second act: when the state is readable and the tenant row, if any, is
  well formed, an owner's raise to a stricter level takes effect at once, increments the version,
  writes one audit record and cancels every pending lowering.\<close>
theorem raise_takes_effect:
  assumes "bar_reachable e" and "authIsOwner e a" and "parse_level t = Some l"
    and "LEVEL_RANK (barLevel e) < LEVEL_RANK l"
    and "rl_source (resolveLevel e no_scope) = From_row \<longrightarrow> rl_version (resolveLevel e no_scope) \<noteq> None"
  shows "\<exists>e' v. raiseLevel e i a t = (e', Inr \<lparr>ok_level = l, ok_version = v, ok_applied = True, ok_pending = None\<rparr>) \<and>
    barLevel e' = l \<and> v = (case rl_version (resolveLevel e no_scope) of None \<Rightarrow> 0 | Some n \<Rightarrow> n) + 1 \<and>
    getPendingLower e' = None \<and> length (policy_events e') = length (policy_events e) + 1"
proof -
  let ?c = "resolveLevel e no_scope"
  obtain rows where rows: "st_rows e = Some rows" "distinct (map bar_key rows)"
    using bar_reachable_inv [OF assms(1)] by (auto simp: bar_inv_def)
  let ?t = "TENANT_SLUG (b_auth e)"
  have c: "?c = tenant_level (find_bar_row rows Scope_tenant ?t)" by (rule resolveLevel_tenant [OF rows(1)])
  have src: "rl_source ?c \<noteq> From_malformed" "rl_source ?c \<noteq> From_read_failed"
    using assms(4) by (cases l; auto simp: c tenant_level_def barLevel_def FAIL_CLOSED_LEVEL_def split: option.splits)+
  have "snd (upsert_level ?t l (rl_version ?c) True rows) \<noteq> 0"
  proof (cases "find_bar_row rows Scope_tenant ?t")
    case None
    then have "(Scope_tenant, ?t) \<notin> bar_key ` set rows"
      by (fastforce simp: find_bar_row_key first_row_None)
    with None show ?thesis by (simp add: c tenant_level_def upsert_level_cases)
  next
    case (Some r)
    with src assms(5) have "rl_version ?c = Some (br_version r)"
      by (auto simp: c tenant_level_def version_or_null_def split: option.splits if_splits)
    with find_bar_row_Some [OF Some] show ?thesis
      by (auto simp: upsert_level_cases Let_def bar_key_def filter_empty_conv)
  qed
  then obtain e' v where w: "writeTenantLevel e i l ?c (actorOf a) None = (e', Some v)"
    using writeTenantLevel_unconditional [OF rows(1)] by blast
  have "raiseLevel e i a t = (e', Inr \<lparr>ok_level = l, ok_version = v, ok_applied = True, ok_pending = None\<rparr>)"
    using assms(2-4) src w by (simp add: raiseLevel_def Let_def barLevel_def)
  moreover have "getPendingLower e' = None"
    using writeTenantLevel_Some [OF rows w] by (auto simp: getPendingLower_def first_row_None)
  ultimately show ?thesis using writeTenantLevel_Some [OF rows w] by auto
qed

theorem raise_takes_effect_witness:
  "bar_reachable sample_bar \<and> (\<exists>e' v. raiseLevel sample_bar ''x'' alice_auth ''under_attack'' =
      (e', Inr \<lparr>ok_level = Under_attack, ok_version = v, ok_applied = True, ok_pending = None\<rparr>) \<and> barLevel e' = Under_attack)"
proof -
  have "bar_init sample_bar" by code_simp
  then have r: "bar_reachable sample_bar" by (rule reach_init)
  have h: "authIsOwner sample_bar alice_auth" "parse_level ''under_attack'' = Some Under_attack"
    "LEVEL_RANK (barLevel sample_bar) < LEVEL_RANK Under_attack"
    "rl_source (resolveLevel sample_bar no_scope) = From_row \<longrightarrow> rl_version (resolveLevel sample_bar no_scope) \<noteq> None"
    by code_simp+
  from raise_takes_effect [OF r h] r show ?thesis by blast
qed

text \<open>A malformed tenant row cannot be repaired through the bar: although the raise check lets
  it through, the write inserts only where no tenant row exists, so every raise by an owner to a
  valid level answers with a conflict and changes nothing.\<close>
theorem malformed_row_blocks_raise:
  assumes "st_rows e = Some rows" and "rl_source (resolveLevel e no_scope) = From_malformed"
    and "authIsOwner e a" and "isPolicyLevel t"
  shows "raiseLevel e i a t = (e, Inl Conflict)"
proof -
  obtain l where "parse_level t = Some l"
    using assms(4) by (auto simp: isPolicyLevel_def parse_level_def POLICY_LEVELS_def split: if_splits)
  with assms show ?thesis
    by (simp add: raiseLevel_def Let_def malformed_write_refused [OF assms(1,2)])
qed

theorem malformed_row_blocks_raise_witness:
  "raiseLevel (sample_bar\<lparr>st_rows := Some [\<lparr>br_kind = Scope_tenant, br_id = ''t'', br_level = ''bogus'', br_version = 3\<rparr>]\<rparr>)
     ''x'' alice_auth ''under_attack'' =
   (sample_bar\<lparr>st_rows := Some [\<lparr>br_kind = Scope_tenant, br_id = ''t'', br_level = ''bogus'', br_version = 3\<rparr>]\<rparr>, Inl Conflict)"
  by (rule malformed_row_blocks_raise [where rows = "[\<lparr>br_kind = Scope_tenant, br_id = ''t'', br_level = ''bogus'', br_version = 3\<rparr>]"])
    (simp, code_simp, code_simp, code_simp)

end
