(* ===== verification/Task_Rules.thy ===== *)
theory Task_Rules
  imports Gates Security_Bar
begin

text \<open>
  The rules of a task's life: the row (\<^verbatim>\<open>src/types.ts\<close>), the transition matrix and the
  no-self-close predicates, the completion and intake contracts
  (\<^verbatim>\<open>src/tasks/service.ts\<close>), the assignee resolvers (\<^verbatim>\<open>src/tasks/assignee.ts\<close>),
  provenance (\<^verbatim>\<open>src/tasks/provenance.ts\<close>) and the ranking of task lists
  (\<^verbatim>\<open>src/tasks/ranking.ts\<close>).
\<close>

section \<open>Task rows\<close>

datatype task_status = Open | In_progress | Blocked | Done | Review | Approved | Rejected

datatype task_priority = P0 | P1 | P2 | P3

record task =
  t_id :: string
  t_squad_id :: string
  t_project_id :: "string option"
  t_priority :: "task_priority option"
  t_parent_task_id :: "string option"
  t_title :: string
  t_body :: string
  t_status :: task_status
  t_assignee_agent_id :: "string option"
  t_assignee_member_id :: "string option"
  t_result :: "string option"
  t_completed_at :: "string option"
  t_gate_owner :: "string option"
  t_done_when :: string
  t_source_pot :: "string option"
  t_external_source :: "string option"
  t_created_at :: string
  t_updated_at :: string

definition ALL_TASK_STATUSES :: "(string \<times> task_status) list" where
  "ALL_TASK_STATUSES = [(''open'', Open), (''in_progress'', In_progress), (''blocked'', Blocked), (''done'', Done),
     (''review'', Review), (''approved'', Approved), (''rejected'', Rejected)]"

definition isTaskStatus :: "json option \<Rightarrow> bool" where
  "isTaskStatus v = (case as_string v of None \<Rightarrow> False | Some s \<Rightarrow> s \<in> fst ` set ALL_TASK_STATUSES)"

definition isValidGateOwnerForm :: "string \<Rightarrow> bool" where
  "isValidGateOwnerForm v = GATE_CAPABILITY_RE v"

section \<open>Transitions\<close>

fun TRANSITIONS :: "task_status \<Rightarrow> task_status list" where
  "TRANSITIONS Open = [In_progress]"
| "TRANSITIONS In_progress = [Review, Blocked, Done]"
| "TRANSITIONS Review = [Approved, Rejected]"
| "TRANSITIONS Approved = [Done]"
| "TRANSITIONS Rejected = [In_progress, Done]"
| "TRANSITIONS Blocked = [In_progress]"
| "TRANSITIONS Done = []"

datatype transition_error = Invalid_transition task_status task_status | Transition_reason_required task_status task_status

definition checkTransition :: "task_status \<Rightarrow> task_status \<Rightarrow> transition_error option" where
  "checkTransition src dst = (if dst \<in> set (TRANSITIONS src) then None else Some (Invalid_transition src dst))"

definition checkTransitionWithBar ::
  "bar_env \<Rightarrow> string \<Rightarrow> task_status \<Rightarrow> task_status \<Rightarrow> string \<Rightarrow> json option \<Rightarrow> bar_env \<times> transition_error option" where
  "checkTransitionWithBar env new_id src dst actor reason =
     (case checkTransition src dst of
        None \<Rightarrow> (env, None)
      | Some err \<Rightarrow>
          if src \<noteq> Open \<or> dst \<noteq> Blocked then (env, Some err)
          else if \<not> pd_relaxed (policy env no_scope ''task.update.transition-matrix'') then (env, Some err)
          else if (case as_string reason of None \<Rightarrow> True | Some r \<Rightarrow> length (trim r) < 3)
            then (env, Some (Transition_reason_required src dst))
          else (case relaxes env new_id ''task.update.transition-matrix'' actor no_scope of
                  (env', True) \<Rightarrow> (env', None)
                | (env', False) \<Rightarrow> (env', Some err)))"

definition patchToDoneBypassesGate :: "task_status \<Rightarrow> string option \<Rightarrow> task_status \<Rightarrow> bool" where
  "patchToDoneBypassesGate existingStatus gateOwner targetStatus =
     (if targetStatus \<noteq> Done then False
      else if \<not> truthy gateOwner then False
      else existingStatus \<noteq> Approved \<and> existingStatus \<noteq> Rejected)"

definition ASSIGNEE_UNVERIFIED_DONE_SOURCES :: "task_status list" where
  "ASSIGNEE_UNVERIFIED_DONE_SOURCES = [In_progress, Rejected]"

definition ASSIGNEE_STEERABLE_TOWARD_DONE :: "task_status list" where
  "ASSIGNEE_STEERABLE_TOWARD_DONE = [Open, In_progress, Blocked, Review, Rejected]"

definition assigneeSelfClose ::
  "string option \<Rightarrow> task_status \<Rightarrow> string option \<Rightarrow> task_status \<Rightarrow> bool" where
  "assigneeSelfClose actorAgentId fromStatus assigneeAgentId toStatus =
     (if toStatus \<noteq> Done then False
      else if fromStatus \<notin> set ASSIGNEE_UNVERIFIED_DONE_SOURCES then False
      else if \<not> truthy actorAgentId \<or> \<not> truthy assigneeAgentId then False
      else actorAgentId = assigneeAgentId)"

definition assigneeCannotMutateOwnAssignment ::
  "string option \<Rightarrow> task_status \<Rightarrow> string option \<Rightarrow> bool" where
  "assigneeCannotMutateOwnAssignment actorAgentId fromStatus assigneeAgentId =
     (if fromStatus \<notin> set ASSIGNEE_STEERABLE_TOWARD_DONE then False
      else if \<not> truthy actorAgentId \<or> \<not> truthy assigneeAgentId then False
      else actorAgentId = assigneeAgentId)"

definition stampTaskUpdate :: "task \<Rightarrow> task_status \<Rightarrow> string \<Rightarrow> task" where
  "stampTaskUpdate t previousStatus now =
     (let t1 = t\<lparr>t_updated_at := now\<rparr> in
      if previousStatus \<noteq> Done \<and> t_status t1 = Done then t1\<lparr>t_completed_at := Some now\<rparr> else t1)"

definition assigneeColumnsDiffer :: "task \<Rightarrow> task \<Rightarrow> bool" where
  "assigneeColumnsDiffer existing next \<longleftrightarrow>
     t_assignee_agent_id existing \<noteq> t_assignee_agent_id next \<or>
     t_assignee_member_id existing \<noteq> t_assignee_member_id next"

definition assigneeChangesInReview :: "task \<Rightarrow> task \<Rightarrow> bool" where
  "assigneeChangesInReview existing next \<longleftrightarrow> t_status existing = Review \<and> assigneeColumnsDiffer existing next"

definition officeUpdateGuarded :: "task \<Rightarrow> bool" where
  "officeUpdateGuarded existing \<longleftrightarrow> t_gate_owner existing = Some ''gate:office'' \<and> t_status existing = Approved"

definition isExternallySourced :: "task \<Rightarrow> bool" where
  "isExternallySourced t \<longleftrightarrow> t_source_pot t \<noteq> None \<or> t_external_source t \<noteq> None"

definition assigneeChangesOwnGate :: "auth_context \<Rightarrow> task \<Rightarrow> task \<Rightarrow> bool" where
  "assigneeChangesOwnGate auth existing next =
     (if t_gate_owner next = t_gate_owner existing then False
      else truthy (boundAgentId auth) \<and>
             (t_assignee_agent_id existing = boundAgentId auth \<or> t_assignee_agent_id next = boundAgentId auth)
         \<or> truthy (memberId auth) \<and>
             (t_assignee_member_id existing = memberId auth \<or> t_assignee_member_id next = memberId auth))"

section \<open>Completion and intake contracts\<close>

definition isDoneWhenValid :: "json option \<Rightarrow> bool" where
  "isDoneWhenValid v = (case as_string v of None \<Rightarrow> False | Some s \<Rightarrow> length (trim s) > 0)"

text \<open>\<open>replace(/\s+/g, ' ')\<close>: each run of white space becomes one space.\<close>

fun squeeze :: "string \<Rightarrow> string" where
  "squeeze [] = []"
| "squeeze [c] = (if js_space c then '' '' else [c])"
| "squeeze (c # d # cs) =
     (if js_space c then (if js_space d then squeeze (d # cs) else CHR '' '' # squeeze (d # cs))
      else c # squeeze (d # cs))"

text \<open>The two further sentinels of the source contain an em dash, which is outside the modelled
  character range, so that no modelled string equals them.\<close>

definition PLACEHOLDER_SENTINELS :: "string list" where
  "PLACEHOLDER_SENTINELS = [''(backfill required)'', ''(set via task update)'']"

definition isPlaceholderDoneWhen :: "string \<Rightarrow> bool" where
  "isPlaceholderDoneWhen v \<longleftrightarrow>
     squeeze (lower (trim v)) \<in> set PLACEHOLDER_SENTINELS \<or> trim v \<in> set PLACEHOLDER_SENTINELS"

datatype done_when_error = Done_when_placeholder

definition assertCompletableDoneWhen :: "string \<Rightarrow> done_when_error option" where
  "assertCompletableDoneWhen doneWhen =
     (if \<not> isDoneWhenValid (Some (JStr doneWhen)) then Some Done_when_placeholder
      else if isPlaceholderDoneWhen doneWhen then Some Done_when_placeholder
      else None)"

datatype intake_error =
    Done_when_required | Done_when_placeholder_rejected | Done_when_insufficient
  | P0_justification_required | P1_linkage_required

text \<open>The escape hatch \<open>/\[owner:\s*@?[\w.-]+,\s*ttl:\s*\d+[dwmyh](?:,\s*re-review)?\]/i\<close>,
  tried at every position. Each repetition is followed by a character outside its class, so that
  the greedy match is the only one.\<close>

definition word_char :: "char \<Rightarrow> bool" where
  "word_char c \<longleftrightarrow> ascii_alnum c \<or> c = CHR ''_''"

definition digit_char :: "char \<Rightarrow> bool" where
  "digit_char c \<longleftrightarrow> (let n = of_char c :: nat in 48 \<le> n \<and> n \<le> 57)"

definition eat :: "string \<Rightarrow> string \<Rightarrow> string option" where
  "eat p s = (if prefix p (lower s) then Some (drop (length p) s) else None)"

definition eat_some :: "(char \<Rightarrow> bool) \<Rightarrow> string \<Rightarrow> string option" where
  "eat_some p s = (if takeWhile p s = [] then None else Some (dropWhile p s))"

definition hatch_end :: "string \<Rightarrow> bool" where
  "hatch_end s \<longleftrightarrow> prefix '']'' s \<or>
     (case eat '','' s of None \<Rightarrow> False
      | Some r \<Rightarrow> (case eat ''re-review'' (dropWhile js_space r) of None \<Rightarrow> False | Some r' \<Rightarrow> prefix '']'' r'))"

definition hatch_at :: "string \<Rightarrow> bool" where
  "hatch_at s =
     (case Option.bind (eat ''[owner:'' s) (\<lambda>r.
        let r1 = dropWhile js_space r; r2 = (case r1 of c # cs \<Rightarrow> if c = CHR ''@'' then cs else r1 | [] \<Rightarrow> []) in
        Option.bind (eat_some (\<lambda>c. word_char c \<or> c = CHR ''.'' \<or> c = CHR ''-'') r2) (\<lambda>r3.
        Option.bind (eat '','' r3) (\<lambda>r4.
        Option.bind (eat ''ttl:'' (dropWhile js_space r4)) (\<lambda>r5.
        Option.bind (eat_some digit_char (dropWhile js_space r5)) (\<lambda>r6.
          case r6 of c # cs \<Rightarrow> if lower_char c \<in> set ''dwmyh'' then Some cs else None | [] \<Rightarrow> None))))) of
        None \<Rightarrow> False
      | Some rest \<Rightarrow> hatch_end rest)"

definition hasEscapeHatch :: "string \<Rightarrow> bool" where
  "hasEscapeHatch body \<longleftrightarrow> list_ex hatch_at (suffixes body)"

definition assertValidIntakeContract :: "task \<Rightarrow> bool \<Rightarrow> bool \<Rightarrow> intake_error option" where
  "assertValidIntakeContract t allowDeferredPredicate relaxP1Linkage =
     (let trimmedDoneWhen = trim (t_done_when t);
          isSentinel = isPlaceholderDoneWhen trimmedDoneWhen
      in if \<not> isDoneWhenValid (Some (JStr (t_done_when t))) then Some Done_when_required
         else if isSentinel \<and> \<not> allowDeferredPredicate then Some Done_when_placeholder_rejected
         else if \<not> isSentinel \<and> \<not> allowDeferredPredicate \<and> length trimmedDoneWhen < 5
           then Some Done_when_insufficient
         else if t_priority t = Some P0 \<and> length (trim (t_body t)) < 20 then Some P0_justification_required
         else if t_priority t = Some P1 \<and> \<not> relaxP1Linkage \<and>
           \<not> (isNonEmptyString (map_option JStr (t_project_id t)) \<or> isNonEmptyString (map_option JStr (t_parent_task_id t))) \<and>
           \<not> hasEscapeHatch (t_body t) then Some P1_linkage_required
         else None)"

definition evaluateTaskIntakeContract :: "task \<Rightarrow> bool \<Rightarrow> intake_error option" where
  "evaluateTaskIntakeContract t allowDeferredPredicate = assertValidIntakeContract t allowDeferredPredicate False"

definition assertIntakeWithBar ::
  "bar_env \<Rightarrow> string \<Rightarrow> task \<Rightarrow> bool \<Rightarrow> string \<Rightarrow> bar_env \<times> intake_error option" where
  "assertIntakeWithBar env new_id t allowDeferredPredicate actor =
     (case assertValidIntakeContract t allowDeferredPredicate False of
        None \<Rightarrow> (env, None)
      | Some err \<Rightarrow>
          if err \<noteq> P1_linkage_required then (env, Some err)
          else (case relaxes env new_id ''task.intake.p1-linkage'' actor no_scope of
                  (env', False) \<Rightarrow> (env', Some err)
                | (env', True) \<Rightarrow> (env', assertValidIntakeContract t allowDeferredPredicate True)))"

section \<open>Assignees\<close>

datatype assignee_error = Invalid_assignee | Assignee_not_in_squad

text \<open>\<open>agentMember\<close> stands for \<open>resolveActiveAgentMember\<close> of \<^verbatim>\<open>src/members/service.ts\<close>:
  \<open>None\<close> for an unminted or ambiguous agent. \<open>caller\<close> is the optional bar context.\<close>

definition resolveTaskAssignee ::
  "bar_env \<Rightarrow> gate_db \<Rightarrow> (string \<Rightarrow> string option) \<Rightarrow> string \<Rightarrow> json option \<Rightarrow> string \<Rightarrow> auth_context option
     \<Rightarrow> bar_env \<times> (assignee_error + string option)" where
  "resolveTaskAssignee env db agentMember new_id raw squadId caller =
     (if raw = None \<or> raw = Some JNull then (env, Inr None)
      else (case as_string raw of
        None \<Rightarrow> (env, Inl Invalid_assignee)
      | Some r \<Rightarrow>
          if r = [] then (env, Inl Invalid_assignee)
          else (case first_row (\<lambda>a. ag_id a = r) (db_agents db) of
            None \<Rightarrow> (env, Inl Invalid_assignee)
          | Some agent \<Rightarrow>
              let visible = (case caller of None \<Rightarrow> True | Some auth \<Rightarrow> ag_squad_id agent = squadId \<or>
                    canOnSquadAuth (b_auth env) (Some auth) (By_id (ag_squad_id agent)) Member);
                  (env1, refused) =
                    (if ag_status agent = Agent_active then (env, False)
                     else (case caller of
                       None \<Rightarrow> (env, True)
                     | Some auth \<Rightarrow>
                         if \<not> visible then (env, True)
                         else (case relaxes env new_id ''task.create.assignee-agent-resolvable.inactive'' (actorOf auth) no_scope of
                                 (e, ok) \<Rightarrow> (e, \<not> ok))))
              in if refused then (env1, Inl Assignee_not_in_squad)
                 else if ag_squad_id agent = squadId then (env1, Inr (Some (ag_id agent)))
                 else (case agentMember (ag_id agent) of
                   None \<Rightarrow> (env1, Inl Assignee_not_in_squad)
                 | Some member \<Rightarrow>
                     (case loadSquadScope (b_auth env) squadId of
                        None \<Rightarrow> (env1, Inl Assignee_not_in_squad)
                      | Some scope \<Rightarrow>
                          if hasCapability (resolveCapabilities (b_auth env) member) (Squad_target scope) Member
                          then (env1, Inr (Some (ag_id agent)))
                          else (case caller of
                            None \<Rightarrow> (env1, Inl Assignee_not_in_squad)
                          | Some auth \<Rightarrow>
                              if \<not> visible then (env1, Inl Assignee_not_in_squad)
                              else (case relaxes env1 new_id ''task.create.assignee-agent-resolvable.cross-squad'' (actorOf auth) no_scope of
                                      (e, True) \<Rightarrow> (e, Inr (Some (ag_id agent)))
                                    | (e, False) \<Rightarrow> (e, Inl Assignee_not_in_squad))))))))"

definition resolveTaskAssigneeMember ::
  "bar_env \<Rightarrow> gate_db \<Rightarrow> string \<Rightarrow> json option \<Rightarrow> string \<Rightarrow> auth_context option
     \<Rightarrow> bar_env \<times> (assignee_error + string option)" where
  "resolveTaskAssigneeMember env db new_id raw squadId caller =
     (if raw = None \<or> raw = Some JNull then (env, Inr None)
      else (case as_string raw of
        None \<Rightarrow> (env, Inl Invalid_assignee)
      | Some r \<Rightarrow>
          if r = [] then (env, Inl Invalid_assignee)
          else (case first_row (\<lambda>m. fst m = r) (db_members db) of
            None \<Rightarrow> (env, Inl Invalid_assignee)
          | Some m \<Rightarrow>
              if snd m \<noteq> Member_active then (env, Inl Assignee_not_in_squad)
              else (case loadSquadScope (b_auth env) squadId of
                None \<Rightarrow> (env, Inl Assignee_not_in_squad)
              | Some scope \<Rightarrow>
                  if hasCapability (resolveCapabilities (b_auth env) (fst m)) (Squad_target scope) Member
                  then (env, Inr (Some (fst m)))
                  else (case caller of
                    None \<Rightarrow> (env, Inl Assignee_not_in_squad)
                  | Some auth \<Rightarrow>
                      (case relaxes env new_id ''task.create.assignee-member-resolvable'' (actorOf auth) no_scope of
                         (e, True) \<Rightarrow> (e, Inr (Some (fst m)))
                       | (e, False) \<Rightarrow> (e, Inl Assignee_not_in_squad)))))))"

section \<open>Ranking\<close>

datatype agent_runtime_state = Live | Stale | Offline | Unattached

record ranked_task = task +
  stale_assignee :: bool

definition ACTIONABLE_STATUSES :: "task_status list" where
  "ACTIONABLE_STATUSES = [In_progress, Open, Blocked]"

fun index_of :: "'a \<Rightarrow> 'a list \<Rightarrow> nat option" where
  "index_of x [] = None"
| "index_of x (y # ys) = (if x = y then Some 0 else map_option Suc (index_of x ys))"

definition STATUS_BAND :: "task_status \<Rightarrow> nat option" where
  "STATUS_BAND s = index_of s ACTIONABLE_STATUSES"

definition excludeFromRanking :: "task_status \<Rightarrow> bool" where
  "excludeFromRanking s \<longleftrightarrow> STATUS_BAND s = None"

fun PRIORITY_RANK :: "task_priority option \<Rightarrow> nat" where
  "PRIORITY_RANK (Some P0) = 0"
| "PRIORITY_RANK (Some P1) = 1"
| "PRIORITY_RANK (Some P2) = 2"
| "PRIORITY_RANK (Some P3) = 3"
| "PRIORITY_RANK None = 4"

text \<open>The comparator of \<open>ranked.sort\<close>, as the key it compares; \<open>Array.prototype.sort\<close> is stable.\<close>

definition rank_le :: "ranked_task \<Rightarrow> ranked_task \<Rightarrow> bool" where
  "rank_le a b =
     (let ba = the (STATUS_BAND (t_status a)); bb = the (STATUS_BAND (t_status b)) in
      if ba \<noteq> bb then ba < bb
      else if PRIORITY_RANK (t_priority a) \<noteq> PRIORITY_RANK (t_priority b)
        then PRIORITY_RANK (t_priority a) < PRIORITY_RANK (t_priority b)
      else if t_created_at a \<noteq> t_created_at b then t_created_at a < t_created_at b
      else if t_id a \<noteq> t_id b then t_id a < t_id b
      else True)"

fun insert_by :: "('a \<Rightarrow> 'a \<Rightarrow> bool) \<Rightarrow> 'a \<Rightarrow> 'a list \<Rightarrow> 'a list" where
  "insert_by le x [] = [x]"
| "insert_by le x (y # ys) = (if le x y then x # y # ys else y # insert_by le x ys)"

definition sort_by :: "('a \<Rightarrow> 'a \<Rightarrow> bool) \<Rightarrow> 'a list \<Rightarrow> 'a list" where
  "sort_by le xs = foldr (insert_by le) xs []"

definition withStaleFlag :: "(string \<rightharpoonup> agent_runtime_state) \<Rightarrow> task \<Rightarrow> ranked_task" where
  "withStaleFlag agentStates t = task.extend t \<lparr>stale_assignee =
     (case t_assignee_agent_id t of None \<Rightarrow> False | Some a \<Rightarrow> agentStates a \<noteq> Some Live)\<rparr>"

definition rankTasks :: "task list \<Rightarrow> (string \<rightharpoonup> agent_runtime_state) \<Rightarrow> ranked_task list" where
  "rankTasks tasks agentStates =
     (let flagged = map (withStaleFlag agentStates) tasks;
          ranked = filter (\<lambda>t. \<not> excludeFromRanking (t_status t)) flagged;
          passthrough = filter (\<lambda>t. excludeFromRanking (t_status t)) flagged
      in sort_by rank_le ranked @ passthrough)"

subsection \<open>Sorting with a comparator\<close>

text \<open>What \<open>Array.prototype.sort\<close> asks of a comparator: a total preorder.\<close>

locale comparator =
  fixes le :: "'a \<Rightarrow> 'a \<Rightarrow> bool"
  assumes le_total: "le a b \<or> le b a"
    and le_trans: "le a b \<Longrightarrow> le b c \<Longrightarrow> le a c"
begin

lemma insert_by_mset: "mset (insert_by le x xs) = add_mset x (mset xs)"
  by (induction xs) auto

lemma sort_by_mset: "mset (sort_by le xs) = mset xs"
  by (induction xs) (simp_all add: sort_by_def insert_by_mset)

lemma insert_by_set: "set (insert_by le x xs) = insert x (set xs)"
  using insert_by_mset [of x xs] by (metis set_mset_mset set_mset_add_mset_insert)

lemma insert_by_sorted: "sorted_wrt le xs \<Longrightarrow> sorted_wrt le (insert_by le x xs)"
proof (induction xs)
  case (Cons y ys)
  then show ?case
    using le_trans [of x y] le_total [of x y] by (auto simp: insert_by_set)
qed simp

lemma sort_by_sorted: "sorted_wrt le (sort_by le xs)"
  by (induction xs) (simp_all add: sort_by_def insert_by_sorted)

lemma insert_by_filter:
  "sorted_wrt le xs \<Longrightarrow> filter (\<lambda>y. le x y \<and> le y x) (insert_by le z xs) =
     filter (\<lambda>y. le x y \<and> le y x) (z # xs)"
  by (induction xs) (auto dest: le_trans)

text \<open>Elements the comparator does not separate keep their order.\<close>

lemma sort_by_stable: "filter (\<lambda>y. le x y \<and> le y x) (sort_by le xs) = filter (\<lambda>y. le x y \<and> le y x) xs"
proof (induction xs)
  case (Cons z zs)
  then show ?case using insert_by_filter [OF sort_by_sorted [of zs], of x z] by (simp add: sort_by_def)
qed (simp add: sort_by_def)

text \<open>Where the comparator separates all elements, the result depends on the elements alone.\<close>

lemma sorted_unique:
  "sorted_wrt le xs \<Longrightarrow> sorted_wrt le ys \<Longrightarrow> mset xs = mset ys \<Longrightarrow>
   (\<And>a b. a \<in> set xs \<Longrightarrow> b \<in> set xs \<Longrightarrow> le a b \<Longrightarrow> le b a \<Longrightarrow> a = b) \<Longrightarrow> xs = ys"
proof (induction xs arbitrary: ys)
  case (Cons x xs)
  then obtain y zs where ys: "ys = y # zs" by (cases ys) auto
  have x: "x \<in> set ys" and y: "y \<in> set (x # xs)" using mset_eq_setD [OF Cons.prems(3)] ys by auto
  have "x = y"
  proof (cases "x = y")
    case False
    with x y have "x \<in> set zs" "y \<in> set xs" by (auto simp: ys)
    then have "le y x" "le x y" using Cons.prems(1,2) by (auto simp: ys)
    then show ?thesis using Cons.prems(4) y by auto
  qed
  then show ?case using Cons by (auto simp: ys)
qed simp

end

definition rank_key :: "ranked_task \<Rightarrow> nat list \<times> string list" where
  "rank_key t = ([the (STATUS_BAND (t_status t)), PRIORITY_RANK (t_priority t)], [t_created_at t, t_id t])"

lemma rank_le_key:
  "rank_le a b \<longleftrightarrow> fst (rank_key a) < fst (rank_key b) \<or>
     fst (rank_key a) = fst (rank_key b) \<and> snd (rank_key a) \<le> snd (rank_key b)"
  by (auto simp: rank_le_def rank_key_def Let_def)

interpretation ranking: comparator rank_le
proof
  fix a b c :: ranked_task
  show "rank_le a b \<or> rank_le b a" 
    using linorder_less_linear [of "fst (rank_key a)" "fst (rank_key b)"] linear [of "snd (rank_key a)" "snd (rank_key b)"]
    unfolding rank_le_key by (elim disjE) simp_all
  show "rank_le a b \<Longrightarrow> rank_le b c \<Longrightarrow> rank_le a c"
    using less_trans [of "fst (rank_key a)" "fst (rank_key b)" "fst (rank_key c)"]
      order_trans [of "snd (rank_key a)" "snd (rank_key b)" "snd (rank_key c)"]
    unfolding rank_le_key by (elim disjE conjE) simp_all
qed

lemma withStaleFlag_keeps [simp]:
  "t_status (withStaleFlag st t) = t_status t" "t_id (withStaleFlag st t) = t_id t"
  "task.truncate (withStaleFlag st t) = t"
  by (simp_all add: withStaleFlag_def task.defs)

lemma rank_le_antisym: "rank_le a b \<Longrightarrow> rank_le b a \<Longrightarrow> t_id a = t_id b"
  by (auto simp: rank_le_def Let_def split: if_splits)

lemma while_partition:
  assumes "\<forall>x\<in>set xs. p x" "\<forall>y\<in>set ys. \<not> p y"
  shows "takeWhile p (xs @ ys) = xs" "dropWhile p (xs @ ys) = ys"
proof -
  have "takeWhile p ys = []" "dropWhile p ys = ys" using assms(2) by (cases ys; simp)+
  moreover have "takeWhile p (xs @ ys) = xs @ takeWhile p ys" "dropWhile p (xs @ ys) = dropWhile p ys"
    using assms(1) by (induction xs) simp_all
  ultimately show "takeWhile p (xs @ ys) = xs" "dropWhile p (xs @ ys) = ys" by simp_all
qed

lemma rankTasks_parts:
  "takeWhile (\<lambda>t. \<not> excludeFromRanking (t_status t)) (rankTasks ts st) =
     sort_by rank_le (filter (\<lambda>t. \<not> excludeFromRanking (t_status t)) (map (withStaleFlag st) ts))"
  "dropWhile (\<lambda>t. \<not> excludeFromRanking (t_status t)) (rankTasks ts st) =
     map (withStaleFlag st) (filter (\<lambda>t. excludeFromRanking (t_status t)) ts)"
proof -
  let ?p = "\<lambda>t. \<not> excludeFromRanking (t_status (t :: ranked_task))"
  let ?s = "sort_by rank_le (filter ?p (map (withStaleFlag st) ts))"
  have s: "\<forall>t\<in>set ?s. ?p t"
    using mset_eq_setD [OF ranking.sort_by_mset [of "filter ?p (map (withStaleFlag st) ts)"]] by auto
  have r: "rankTasks ts st = ?s @ map (withStaleFlag st) (filter (\<lambda>t. excludeFromRanking (t_status t)) ts)"
    by (simp add: rankTasks_def Let_def filter_map comp_def)
  have out: "\<forall>t\<in>set (map (withStaleFlag st) (filter (\<lambda>t. excludeFromRanking (t_status t)) ts)). \<not> ?p t" by simp
  show "takeWhile ?p (rankTasks ts st) = ?s"
    "dropWhile ?p (rankTasks ts st) = map (withStaleFlag st) (filter (\<lambda>t. excludeFromRanking (t_status t)) ts)"
    unfolding r by (rule while_partition [OF s out])+
qed

text \<open>The order the ranking is to produce, written without its tables: how soon a status is worked and how urgent a priority is.\<close>

fun work_band :: "task_status \<Rightarrow> nat" where
  "work_band In_progress = 0"
| "work_band Open = 1"
| "work_band Blocked = 2"
| "work_band _ = 3"

fun urgency :: "task_priority option \<Rightarrow> nat" where
  "urgency (Some P0) = 0"
| "urgency (Some P1) = 1"
| "urgency (Some P2) = 2"
| "urgency (Some P3) = 3"
| "urgency None = 4"

lemma rank_bands:
  "t_status t \<in> {In_progress, Open, Blocked} \<Longrightarrow> the (STATUS_BAND (t_status t)) = work_band (t_status t)"
  "PRIORITY_RANK p = urgency p"
  by (auto simp: STATUS_BAND_def ACTIONABLE_STATUSES_def) (cases p rule: urgency.cases; simp)

text \<open>C31: Ranking a task list drops and duplicates nothing: the result is the flagged input, reordered.
  It starts with the workable tasks. Of these, work in progress comes before open tasks and those before blocked ones; within a
  status P0 comes first, then P1, P2, P3 and the tasks without a priority; within a priority the older task, by \<open>created_at\<close>, comes first;
  and of equally old ones that with the smaller id. The other tasks follow in their original order; a task is flagged stale exactly
  when it is assigned to an agent that is not live.\<close>
theorem rankTasks_sorts:
  "mset (rankTasks ts st) = mset (map (withStaleFlag st) ts) \<and>
   sorted_wrt
     (\<lambda>a b. work_band (t_status a) < work_band (t_status b) \<or> work_band (t_status a) = work_band (t_status b) \<and>
       (urgency (t_priority a) < urgency (t_priority b) \<or> urgency (t_priority a) = urgency (t_priority b) \<and>
         (t_created_at a < t_created_at b \<or> t_created_at a = t_created_at b \<and> t_id a \<le> t_id b)))
     (takeWhile (\<lambda>t. t_status t \<in> {In_progress, Open, Blocked}) (rankTasks ts st)) \<and>
   map task.truncate (dropWhile (\<lambda>t. t_status t \<in> {In_progress, Open, Blocked}) (rankTasks ts st)) =
     filter (\<lambda>t. t_status t \<notin> {In_progress, Open, Blocked}) ts \<and>
   (stale_assignee (withStaleFlag st t) \<longleftrightarrow> (\<exists>a. t_assignee_agent_id t = Some a \<and> st a \<noteq> Some Live))"
proof -
  let ?work = "\<lambda>t :: ranked_task. t_status t \<in> {In_progress, Open, Blocked}"
  have ex: "excludeFromRanking s \<longleftrightarrow> s \<notin> {In_progress, Open, Blocked}" for s
    by (cases s) (simp_all add: excludeFromRanking_def STATUS_BAND_def ACTIONABLE_STATUSES_def)
  have "mset (rankTasks ts st) = mset (map (withStaleFlag st) ts)"
    using multiset_partition [of "mset (map (withStaleFlag st) ts)" "\<lambda>t. \<not> excludeFromRanking (t_status t)"]
    by (simp add: rankTasks_def Let_def ranking.sort_by_mset)
  moreover have "stale_assignee (withStaleFlag st t) \<longleftrightarrow> (\<exists>a. t_assignee_agent_id t = Some a \<and> st a \<noteq> Some Live)"
    by (auto simp: withStaleFlag_def task.defs split: option.split)
  moreover have "sorted_wrt rank_le (takeWhile ?work (rankTasks ts st))"
    using rankTasks_parts(1) [of ts st] ranking.sort_by_sorted by (simp add: ex)
  then have "sorted_wrt
     (\<lambda>a b. work_band (t_status a) < work_band (t_status b) \<or> work_band (t_status a) = work_band (t_status b) \<and>
       (urgency (t_priority a) < urgency (t_priority b) \<or> urgency (t_priority a) = urgency (t_priority b) \<and>
         (t_created_at a < t_created_at b \<or> t_created_at a = t_created_at b \<and> t_id a \<le> t_id b)))
     (takeWhile ?work (rankTasks ts st))"
  proof (rule sorted_wrt_mono_rel [rotated])
    fix a b assume "a \<in> set (takeWhile ?work (rankTasks ts st))" "b \<in> set (takeWhile ?work (rankTasks ts st))" and le: "rank_le a b"
    then have "?work a" "?work b" using set_takeWhileD [of _ ?work] by blast+
    from le show "work_band (t_status a) < work_band (t_status b) \<or> work_band (t_status a) = work_band (t_status b) \<and>
       (urgency (t_priority a) < urgency (t_priority b) \<or> urgency (t_priority a) = urgency (t_priority b) \<and>
         (t_created_at a < t_created_at b \<or> t_created_at a = t_created_at b \<and> t_id a \<le> t_id b))"
      unfolding rank_le_def Let_def rank_bands(1) [OF \<open>?work a\<close>] rank_bands(1) [OF \<open>?work b\<close>] rank_bands(2)
      by (auto split: if_splits)
  qed
  ultimately show ?thesis using rankTasks_parts(2) [of ts st] by (simp add: ex comp_def)
qed

text \<open>The order of the ranked part is reproducible: two lists with the same tasks under distinct
  ids, in whatever order the reads returned them, give the same ranked prefix.\<close>
theorem rankTasks_deterministic:
  assumes "mset ts = mset ts'" "distinct (map t_id ts)"
  shows "takeWhile (\<lambda>t. \<not> excludeFromRanking (t_status t)) (rankTasks ts st) =
         takeWhile (\<lambda>t. \<not> excludeFromRanking (t_status t)) (rankTasks ts' st)"
  unfolding rankTasks_parts
proof (rule ranking.sorted_unique)
  let ?f = "\<lambda>ts. filter (\<lambda>t. \<not> excludeFromRanking (t_status t)) (map (withStaleFlag st) ts)"
  show "mset (sort_by rank_le (?f ts)) = mset (sort_by rank_le (?f ts'))"
    using assms(1) by (simp add: ranking.sort_by_mset)
  fix a b assume ab: "a \<in> set (sort_by rank_le (?f ts))" "b \<in> set (sort_by rank_le (?f ts))" "rank_le a b" "rank_le b a"
  have "set (sort_by rank_le (?f ts)) = set (?f ts)" using ranking.sort_by_mset mset_eq_setD by blast
  with ab obtain x y where x: "x \<in> set ts" "a = withStaleFlag st x" and y: "y \<in> set ts" "b = withStaleFlag st y" by auto
  have "t_id x = t_id y" using rank_le_antisym [OF ab(3,4)] x y by simp
  then have "x = y" using assms(2) x(1) y(1) inj_onD [of t_id "set ts" x y] by (simp add: distinct_map)
  then show "a = b" using x y by simp
qed (rule ranking.sort_by_sorted)+

definition sample_task :: task where
  "sample_task = \<lparr>t_id = ''t1'', t_squad_id = ''s1'', t_project_id = None, t_priority = None, t_parent_task_id = None,
     t_title = ''title'', t_body = ''body'', t_status = In_progress, t_assignee_agent_id = Some ''a'',
     t_assignee_member_id = None, t_result = None, t_completed_at = None, t_gate_owner = None,
     t_done_when = ''tests pass'', t_source_pot = None, t_external_source = None, t_created_at = ''2026-01-01'',
     t_updated_at = ''2026-01-02''\<rparr>"

theorem rankTasks_deterministic_witness:
  "takeWhile (\<lambda>t. \<not> excludeFromRanking (t_status t)) (rankTasks [sample_task, sample_task\<lparr>t_id := ''t0''\<rparr>] (\<lambda>_. None)) =
   takeWhile (\<lambda>t. \<not> excludeFromRanking (t_status t)) (rankTasks [sample_task\<lparr>t_id := ''t0''\<rparr>, sample_task] (\<lambda>_. None))"
  by (rule rankTasks_deterministic) (simp_all add: sample_task_def)

end
