(* ===== verification/Task_Update.thy ===== *)
theory Task_Update
  imports Task_Rules
begin

text \<open>
  Writing a task (\<^verbatim>\<open>src/tasks/service.ts\<close>): project attribution, the guarded update with its
  optimistic concurrency and its diagnosis, the reversal of a verdict in its three steps, and the
  completion of an approved task from its gate.

  \<open>task_db\<close> holds the tables; \<open>d_abort\<close> is the verdict of the schema's triggers on a row and
  its replacement.
\<close>

section \<open>Tables\<close>

datatype verdict_value = V_approved | V_rejected

record task_verdict =
  tv_id :: string
  tv_task_id :: string
  tv_verdict :: verdict_value
  tv_decided_by :: string
  tv_decided_at :: string
  tv_reversed_at :: "string option"

record office_freeze =
  of_task_id :: string
  of_verdict_id :: "string option"
  of_claimed :: bool
  of_has_outcome :: bool
  of_voided :: bool

record verdict_reversal =
  vr_id :: string
  vr_task_id :: string
  vr_from_status :: task_status
  vr_reason :: string
  vr_actor_id :: string
  vr_actor_is_agent :: bool

datatype access_level = Access_read | Access_write | Access_admin

datatype update_conflict =
    Resubmit_cap_needs_human | Task_update_conflict | Task_archived | Task_project_locked
  | Detach_locked_result_present | Office_publish_unresolved | Assignee_frozen_in_review
  | Assignee_change_with_reversal

record task_db =
  d_tasks :: "task list"
  d_archived :: "string list"
  d_verdicts :: "task_verdict list"
  d_freezes :: "office_freeze list"
  d_reversals :: "verdict_reversal list"
  d_projects :: "(string \<times> bool) list"
  d_project_access :: "(string \<times> string \<times> access_level) list"
  d_abort :: "task \<Rightarrow> task \<Rightarrow> update_conflict option"

definition isTaskArchived :: "task_db \<Rightarrow> string \<Rightarrow> bool" where
  "isTaskArchived db i \<longleftrightarrow> i \<in> set (d_archived db)"

definition officePublishUnresolvedSql :: "task_db \<Rightarrow> string \<Rightarrow> bool" where
  "officePublishUnresolvedSql db i =
     exists_row (\<lambda>f. of_task_id f = i \<and> of_claimed f \<and> \<not> of_has_outcome f) (d_freezes db)"

definition officeTaskContentLocked :: "task_db \<Rightarrow> string \<Rightarrow> bool" where
  "officeTaskContentLocked db i = exists_row (\<lambda>f. of_task_id f = i \<and> \<not> of_voided f) (d_freezes db)"

text \<open>\<open>ORDER BY decided_at DESC, id DESC LIMIT 1\<close>\<close>

definition findLatestVerdict :: "task_db \<Rightarrow> string \<Rightarrow> task_verdict option" where
  "findLatestVerdict db i =
     (case rev (sort_key tv_decided_at (sort_key tv_id (filter (\<lambda>v. tv_task_id v = i) (d_verdicts db)))) of
        [] \<Rightarrow> None | v # _ \<Rightarrow> Some v)"

section \<open>Project attribution\<close>

datatype task_project_error =
    Invalid_project_id | Project_not_found | Archived_project | Project_access_forbidden | Detach_locked

definition validateTaskProjectAttribution ::
  "task_db \<Rightarrow> string option \<Rightarrow> string \<Rightarrow> (string option \<times> string option) option \<Rightarrow> task_project_error option" where
  "validateTaskProjectAttribution db projectId squadId detaching =
     (case projectId of
        None \<Rightarrow>
          (case detaching of
             Some (pid, res) \<Rightarrow> if pid \<noteq> None \<and> isNonEmptyString (map_option JStr res) then Some Detach_locked else None
           | None \<Rightarrow> None)
      | Some p \<Rightarrow>
          if trim p = [] then Some Invalid_project_id
          else (case map_of (d_projects db) p of
                  None \<Rightarrow> Some Project_not_found
                | Some archived \<Rightarrow>
                    if archived then Some Archived_project
                    else (case map_of (map (\<lambda>(q, s, l). ((q, s), l)) (d_project_access db)) (p, squadId) of
                            Some Access_write \<Rightarrow> None
                          | Some Access_admin \<Rightarrow> None
                          | _ \<Rightarrow> Some Project_access_forbidden)))"

section \<open>The guarded update\<close>

definition update_matches :: "task_db \<Rightarrow> task \<Rightarrow> task \<Rightarrow> task \<Rightarrow> bool" where
  "update_matches db existing next r \<longleftrightarrow>
     t_id r = t_id next \<and> t_updated_at r = t_updated_at existing \<and> t_project_id r = t_project_id existing \<and>
     (officeUpdateGuarded existing \<longrightarrow> \<not> officePublishUnresolvedSql db (t_id r)) \<and>
     \<not> isTaskArchived db (t_id r) \<and>
     (t_status r \<noteq> Review \<or> t_assignee_agent_id r = t_assignee_agent_id next \<and>
        t_assignee_member_id r = t_assignee_member_id next)"

definition updated_row :: "task \<Rightarrow> task \<Rightarrow> task" where
  "updated_row next r =
     r\<lparr>t_title := t_title next, t_body := t_body next, t_done_when := t_done_when next, t_status := t_status next,
       t_priority := t_priority next, t_parent_task_id := t_parent_task_id next,
       t_assignee_agent_id := t_assignee_agent_id next, t_assignee_member_id := t_assignee_member_id next,
       t_gate_owner := t_gate_owner next, t_project_id := t_project_id next,
       t_completed_at := t_completed_at next, t_updated_at := t_updated_at next,
       t_result := (if t_status next = In_progress \<and> t_status r = Rejected then None else t_result r)\<rparr>"

datatype write_outcome = Written task_db | Aborted update_conflict | No_row

definition buildTaskUpdateStatement :: "task_db \<Rightarrow> task \<Rightarrow> task \<Rightarrow> write_outcome" where
  "buildTaskUpdateStatement db existing next =
     (case filter (update_matches db existing next) (d_tasks db) of
        [] \<Rightarrow> No_row
      | hits \<Rightarrow>
          (case List.map_filter (\<lambda>r. d_abort db r (updated_row next r)) hits of
             c # _ \<Rightarrow> Aborted c
           | [] \<Rightarrow> Written (db\<lparr>d_tasks := map (\<lambda>r. if update_matches db existing next r then updated_row next r else r)
                      (d_tasks db)\<rparr>)))"

definition throwTaskUpdateConflict :: "task_db \<Rightarrow> task \<Rightarrow> update_conflict" where
  "throwTaskUpdateConflict db existing =
     (if isTaskArchived db (t_id existing) then Task_archived
      else if officeUpdateGuarded existing \<and> officePublishUnresolvedSql db (t_id existing) then Office_publish_unresolved
      else Task_update_conflict)"

datatype update_error = Update_intake intake_error | Update_conflict update_conflict

definition severity_touched :: "task \<Rightarrow> task \<Rightarrow> bool" where
  "severity_touched existing next \<longleftrightarrow>
     (t_priority existing \<noteq> t_priority next \<or> t_body existing \<noteq> t_body next \<or>
      t_project_id existing \<noteq> t_project_id next \<or> t_parent_task_id existing \<noteq> t_parent_task_id next) \<and>
     (t_priority next = Some P0 \<or> t_priority next = Some P1)"

definition persistTaskUpdate ::
  "bar_env \<Rightarrow> task_db \<Rightarrow> string \<Rightarrow> task \<Rightarrow> task \<Rightarrow> bar_env \<times> task_db \<times> (update_error + task)" where
  "persistTaskUpdate env db new_id existing next =
     (let (env1, intake) = (if severity_touched existing next
                            then assertIntakeWithBar env new_id next True ''system:task-update'' else (env, None))
      in case intake of
           Some err \<Rightarrow> (env1, db, Inl (Update_intake err))
         | None \<Rightarrow>
             if assigneeChangesInReview existing next then (env1, db, Inl (Update_conflict Assignee_frozen_in_review))
             else
               (let next' = (if t_status existing = Rejected \<and> t_status next = In_progress
                             then next\<lparr>t_result := None\<rparr> else next)
                in case buildTaskUpdateStatement db existing next' of
                     Aborted c \<Rightarrow> (env1, db, Inl (Update_conflict c))
                   | No_row \<Rightarrow> (env1, db, Inl (Update_conflict (throwTaskUpdateConflict db existing)))
                   | Written db' \<Rightarrow> (env1, db', Inr next')))"

section \<open>Verdict reversal\<close>

datatype reversal_kind = Reversal_fresh | Reversal_retry_completion | Reversal_none

definition detectVerdictReversalRequest :: "task_db \<Rightarrow> task \<Rightarrow> task_status \<Rightarrow> reversal_kind" where
  "detectVerdictReversalRequest db t bodyStatus =
     (if bodyStatus \<noteq> Review then Reversal_none
      else if t_status t = Approved \<or> t_status t = Rejected then Reversal_fresh
      else if t_status t \<noteq> Review then Reversal_none
      else (case findLatestVerdict db (t_id t) of
              None \<Rightarrow> Reversal_none
            | Some v \<Rightarrow> if tv_reversed_at v = None then Reversal_none else Reversal_retry_completion))"

definition stamp_reversed :: "task_db \<Rightarrow> string \<Rightarrow> string \<Rightarrow> string \<Rightarrow> bool \<Rightarrow> task_db \<times> nat" where
  "stamp_reversed db vid tid reversedAt guard =
     (let hit = (\<lambda>v. tv_id v = vid \<and> tv_task_id v = tid \<and> tv_reversed_at v = None \<and>
                  map_option tv_id (findLatestVerdict db tid) = Some vid \<and> guard)
      in (db\<lparr>d_verdicts := map (\<lambda>v. if hit v then v\<lparr>tv_reversed_at := Some reversedAt\<rparr> else v) (d_verdicts db)\<rparr>,
          length (filter hit (d_verdicts db))))"

definition markVerdictReversed :: "task_db \<Rightarrow> string \<Rightarrow> string \<Rightarrow> string \<Rightarrow> task_db \<times> bool" where
  "markVerdictReversed db vid tid reversedAt =
     (case stamp_reversed db vid tid reversedAt True of (db', n) \<Rightarrow> (db', n = 1))"

datatype reversal_outcome =
    Reversed task
  | Refused_no_verdict
  | Refused_archived
  | Refused_office_unresolved
  | Threw update_error

record reversal_input =
  ri_existing :: task
  ri_next :: task
  ri_reason :: string
  ri_actorId :: string
  ri_actor_is_agent :: bool

definition latest_reversed :: "task_db \<Rightarrow> string \<Rightarrow> string \<Rightarrow> bool" where
  "latest_reversed db vid tid =
     exists_row (\<lambda>v. tv_id v = vid \<and> tv_task_id v = tid \<and> tv_reversed_at v \<noteq> None \<and>
        map_option tv_id (findLatestVerdict db tid) = Some vid) (d_verdicts db)"

text \<open>Step 1, closing the gate: the stamped tables, or the outcome that ends the reversal.\<close>

definition reversal_stamp :: "task_db \<Rightarrow> reversal_input \<Rightarrow> task_verdict \<Rightarrow> reversal_outcome + task_db" where
  "reversal_stamp db inp verdict =
     (let ex = ri_existing inp; at = t_updated_at (ri_next inp) in
      if t_gate_owner ex = Some ''gate:office'' then
        (let (db', n) = stamp_reversed db (tv_id verdict) (t_id ex) at (\<not> officePublishUnresolvedSql db (t_id ex)) in
         if n \<noteq> 0 then Inr db'
         else if officePublishUnresolvedSql db (t_id ex) then Inl Refused_office_unresolved
         else if tv_reversed_at verdict = None then Inl (Threw (Update_conflict Task_update_conflict))
         else Inr db)
      else
        (let (db', ok) = markVerdictReversed db (tv_id verdict) (t_id ex) at in
         if \<not> ok \<and> tv_reversed_at verdict = None then Inl (Threw (Update_conflict Task_update_conflict)) else Inr db'))"

text \<open>Step 1b, voiding the frozen payload bound to the verdict.\<close>

definition reversal_void :: "task_db \<Rightarrow> reversal_input \<Rightarrow> task_verdict \<Rightarrow> task_db" where
  "reversal_void db inp verdict =
     (if t_gate_owner (ri_existing inp) = Some ''gate:office'' \<and>
         latest_reversed db (tv_id verdict) (t_id (ri_existing inp))
      then db\<lparr>d_freezes := map (\<lambda>f. if of_task_id f = t_id (ri_existing inp) \<and> of_verdict_id f = Some (tv_id verdict)
             then f\<lparr>of_voided := True\<rparr> else f) (d_freezes db)\<rparr>
      else db)"

text \<open>Step 3, the audit receipt with its deterministic id; a second insert of the same id is the
  unique violation that the code takes for \<open>already recorded\<close>.\<close>

definition reversal_receipt :: "task_db \<Rightarrow> reversal_input \<Rightarrow> task_verdict \<Rightarrow> task_db option" where
  "reversal_receipt db inp verdict =
     (let rid = ''reversal:'' @ tv_id verdict in
      if \<not> latest_reversed db (tv_id verdict) (t_id (ri_existing inp)) then None
      else if exists_row (\<lambda>r. vr_id r = rid) (d_reversals db) then Some db
      else Some (db\<lparr>d_reversals := d_reversals db @ [\<lparr>vr_id = rid, vr_task_id = t_id (ri_existing inp),
             vr_from_status = t_status (ri_existing inp), vr_reason = ri_reason inp, vr_actor_id = ri_actorId inp,
             vr_actor_is_agent = ri_actor_is_agent inp\<rparr>]\<rparr>))"

definition reverseTaskVerdict ::
  "bar_env \<Rightarrow> task_db \<Rightarrow> string \<Rightarrow> reversal_input \<Rightarrow> bar_env \<times> task_db \<times> reversal_outcome" where
  "reverseTaskVerdict env db new_id inp =
     (let ex = ri_existing inp; nx = ri_next inp in
      if t_status ex \<noteq> Review \<and> assigneeColumnsDiffer ex nx
      then (env, db, Threw (Update_conflict Assignee_change_with_reversal))
      else if isTaskArchived db (t_id ex) then (env, db, Refused_archived)
      else (case findLatestVerdict db (t_id ex) of
              None \<Rightarrow> (env, db, Refused_no_verdict)
            | Some verdict \<Rightarrow>
                (case reversal_stamp db inp verdict of
                   Inl out \<Rightarrow> (env, db, out)
                 | Inr db1 \<Rightarrow>
                     (let db2 = reversal_void db1 inp verdict;
                          (env3, db3, landed) =
                            (if t_status ex = Review then (env, db2, Inr ex)
                             else (let (env', intake) = (if severity_touched ex nx
                                         then assertIntakeWithBar env new_id nx True ''system:task-update'' else (env, None))
                                   in case intake of
                                        Some err \<Rightarrow> (env', db2, Inl (Update_intake err))
                                      | None \<Rightarrow>
                                          (case buildTaskUpdateStatement db2 ex nx of
                                             Aborted c \<Rightarrow> (env', db2, Inl (Update_conflict c))
                                           | No_row \<Rightarrow> (env', db2, Inl (Update_conflict (throwTaskUpdateConflict db2 ex)))
                                           | Written db' \<Rightarrow> (env', db', Inr nx))))
                      in case landed of
                           Inl err \<Rightarrow> (env3, db3, Threw err)
                         | Inr t \<Rightarrow>
                             (case reversal_receipt db3 inp verdict of
                                None \<Rightarrow> (env3, db3, Threw (Update_conflict Task_update_conflict))
                              | Some db4 \<Rightarrow> (env3, db4, Reversed t))))))"

datatype gate_done = Gate_done | Gate_none | Gate_office_unresolved

definition markApprovedTaskDoneFromGate :: "task_db \<Rightarrow> string \<Rightarrow> string \<Rightarrow> string \<Rightarrow> task_db \<times> gate_done" where
  "markApprovedTaskDoneFromGate db i receiptResult now =
     (let guarded = (case first_row (\<lambda>t. t_id t = i) (d_tasks db) of
                       None \<Rightarrow> False | Some t \<Rightarrow> t_gate_owner t = Some ''gate:office'');
          hit = (\<lambda>t. t_id t = i \<and> t_status t = Approved \<and> (guarded \<longrightarrow> \<not> officePublishUnresolvedSql db (t_id t)) \<and>
                   \<not> isTaskArchived db (t_id t))
      in if filter hit (d_tasks db) \<noteq> []
         then (db\<lparr>d_tasks := map (\<lambda>t. if hit t then t\<lparr>t_status := Done, t_result := Some receiptResult,
                 t_completed_at := Some now, t_updated_at := now\<rparr> else t) (d_tasks db)\<rparr>, Gate_done)
         else if guarded \<and> officePublishUnresolvedSql db i then (db, Gate_office_unresolved)
         else (db, Gate_none))"

end
