(* ===== verification/Task_Patch.thy ===== *)
theory Task_Patch
  imports Task_Update
begin

text \<open>
  The handler \<open>PATCH /api/tasks/:id\<close> of \<^verbatim>\<open>src/tasks/index.ts\<close>, stage by stage in the
  order of the code, and what it guarantees: no field of the body can forge a verdict, bypass a
  gate, or let an agent close its own task.
\<close>

section \<open>Authority on a squad\<close>

definition legacyOwnerAdmin :: "auth_context \<Rightarrow> bool" where
  "legacyOwnerAdmin auth \<longleftrightarrow> auth_role auth = Role_owner \<or> auth_role auth = Role_admin"

definition squadScopeFacts :: "auth_env \<Rightarrow> string \<Rightarrow> (string \<times> org_kind) option" where
  "squadScopeFacts env squadId =
     map_option (\<lambda>s. (sq_department_id s, sq_kind s)) (first_row (\<lambda>s. sq_id s = squadId) (t_squads env))"

definition canActOnSquad :: "auth_env \<Rightarrow> auth_context \<Rightarrow> string \<Rightarrow> capability \<Rightarrow> bool" where
  "canActOnSquad env auth squadId min_cap =
     (case squadScopeFacts env squadId of
        None \<Rightarrow> False
      | Some (dep, kind) \<Rightarrow>
          let scope = \<lparr>sq_id = squadId, sq_department_id = dep, sq_kind = kind\<rparr> in
          if legacyOwnerAdmin auth \<and> planeCoversScope Role_plane scope then True
          else if \<not> truthy (memberId auth) then False
          else hasCapability (case capabilities auth of
                 Some gs \<Rightarrow> gs | None \<Rightarrow> resolveCapabilities env (the (memberId auth))) (Squad_target scope) min_cap)"

section \<open>The request\<close>

text \<open>A body is the list of the JSON object's properties; an absent property is \<open>undefined\<close>.\<close>

type_synonym patch_body = "(string \<times> json) list"

datatype patch_error =
    Task_not_found_404 | Forbidden_member_403 | Office_payload_frozen_409 | Invalid_title_400 | Invalid_body_400
  | Invalid_done_when_400 | Invalid_status_400 | Reversal_forbidden_403 | Reversal_reason_required_400
  | Transition_400 transition_error | Gate_required_for_review_409 | Gate_open_409 | Assignee_cannot_self_close_409
  | Done_when_placeholder_409 | Artifact_verification_failed_409 | Invalid_priority_400 | Task_single_assignee_400
  | Forbidden_admin_403 | Assignee_cannot_mutate_own_assignment_409 | Assignee_400 assignee_error
  | Assignee_frozen_409 | Gate_owner_locked_409 task_status | Gate_owner_immutable_403 | Invalid_gate_owner_400
  | Gate_owner_reserved_403 | Gate_owner_assignee_requires_lead_403 | Invalid_project_id_400
  | Project_error task_project_error | Intake_400 intake_error | Task_held_409 | Update_409 update_conflict
  | Reversal_409 reversal_outcome

datatype patch_effect =
    Release_hold string | Enqueue_wake string string | Mirror_update task bool | Emit_task_updated task
  | Ring_doorbell string | Freeze_office task

record patch_env =
  px_bar :: bar_env
  px_gates :: gate_db
  px_db :: task_db
  px_agentMember :: "string \<Rightarrow> string option"
  px_verifyEvidence :: "bar_env \<Rightarrow> string option \<Rightarrow> bar_env \<times> bool"
  px_holdRefuses :: "auth_context \<Rightarrow> task \<Rightarrow> bool"
  px_canReleaseHold :: "auth_context \<Rightarrow> string \<Rightarrow> bool"
  px_liftsHold :: "string \<Rightarrow> bool"

definition PATCH_ALLOWED_STATUSES :: "string list" where
  "PATCH_ALLOWED_STATUSES = [''open'', ''in_progress'', ''blocked'', ''done'', ''review'']"

definition isPatchableStatus :: "json option \<Rightarrow> bool" where
  "isPatchableStatus v = (case as_string v of None \<Rightarrow> False | Some s \<Rightarrow> s \<in> set PATCH_ALLOWED_STATUSES)"

definition status_of :: "json option \<Rightarrow> task_status option" where
  "status_of v = (if isPatchableStatus v then map_of ALL_TASK_STATUSES (the (as_string v)) else None)"

section \<open>Stages\<close>

definition patchText :: "patch_body \<Rightarrow> task \<Rightarrow> patch_error + task" where
  "patchText body t =
     and_then (case field body ''title'' of
        Some v \<Rightarrow> if isNonEmptyString (Some v) then Inr (t\<lparr>t_title := trim (the (as_string (Some v)))\<rparr>) else Inl Invalid_title_400
      | None \<Rightarrow> Inr t) (\<lambda>t.
     and_then (case field body ''body'' of
        Some v \<Rightarrow> (case as_string (Some v) of Some b \<Rightarrow> Inr (t\<lparr>t_body := b\<rparr>) | None \<Rightarrow> Inl Invalid_body_400)
      | None \<Rightarrow> Inr t) (\<lambda>t.
     case field body ''done_when'' of
        Some v \<Rightarrow> if isDoneWhenValid (Some v) then Inr (t\<lparr>t_done_when := trim (the (as_string (Some v)))\<rparr>)
                  else Inl Invalid_done_when_400
      | None \<Rightarrow> Inr t))"

definition reversal_reason :: "patch_body \<Rightarrow> string" where
  "reversal_reason body =
     (case as_string (field body ''reversal_reason'') of
        Some r \<Rightarrow> trim r
      | None \<Rightarrow> (case as_string (field body ''verdict_reversal_reason'') of
          Some r \<Rightarrow> trim r
        | None \<Rightarrow> (case as_string (field body ''reason'') of Some r \<Rightarrow> trim r | None \<Rightarrow> [])))"

definition effectiveGateOwner :: "patch_body \<Rightarrow> task \<Rightarrow> string option" where
  "effectiveGateOwner body existing =
     (case field body ''gate_owner'' of
        None \<Rightarrow> t_gate_owner existing
      | Some v \<Rightarrow> if isNonEmptyString (Some v) then Some (trim (the (as_string (Some v)))) else None)"

text \<open>The reversal request or the transition matrix: the body text after the move and the reason
  when the request reverses a verdict.\<close>

definition patchMove ::
  "patch_env \<Rightarrow> string \<Rightarrow> auth_context \<Rightarrow> patch_body \<Rightarrow> task \<Rightarrow> task \<Rightarrow> task_status
     \<Rightarrow> bar_env \<times> (patch_error + task \<times> string option)" where
  "patchMove px new_id auth body existing next st =
     (if detectVerdictReversalRequest (px_db px) existing st \<noteq> Reversal_none then
        (if \<not> legacyOwnerAdmin auth then (px_bar px, Inl Reversal_forbidden_403)
         else if reversal_reason body = [] then (px_bar px, Inl Reversal_reason_required_400)
         else (px_bar px, Inr (next, Some (reversal_reason body))))
      else
        (case checkTransitionWithBar (px_bar px) new_id (t_status existing) st (actorOf auth) (field body ''reason'') of
           (env', Some err) \<Rightarrow> (env', Inl (Transition_400 err))
         | (env', None) \<Rightarrow>
             (env', Inr (case as_string (field body ''reason'') of
                Some r \<Rightarrow>
                  if t_status existing = Open \<and> st = Blocked
                  then (next\<lparr>t_body := (if t_body next \<noteq> [] then t_body next @ [char_of (10::nat), char_of (10::nat)] @ trim r else trim r)\<rparr>, None)
                  else (next, None)
              | None \<Rightarrow> (next, None)))))"

definition patchStatus ::
  "patch_env \<Rightarrow> string \<Rightarrow> auth_context \<Rightarrow> patch_body \<Rightarrow> task \<Rightarrow> task \<Rightarrow> bar_env \<times> (patch_error + task \<times> string option)" where
  "patchStatus px new_id auth body existing next =
     (case field body ''status'' of
        None \<Rightarrow> (px_bar px, Inr (next, None))
      | Some v \<Rightarrow>
          (case status_of (Some v) of
             None \<Rightarrow> (px_bar px, Inl Invalid_status_400)
           | Some st \<Rightarrow>
               (case patchMove px new_id auth body existing next st of
                  (env', Inl e) \<Rightarrow> (env', Inl e)
                | (env', Inr (next', rev_reason)) \<Rightarrow>
                    let gate = effectiveGateOwner body existing in
                    if st = Review \<and> \<not> truthy gate then (env', Inl Gate_required_for_review_409)
                    else if patchToDoneBypassesGate (t_status existing) (t_gate_owner existing) st then (env', Inl Gate_open_409)
                    else if assigneeSelfClose (boundAgentId auth) (t_status existing) (t_assignee_agent_id existing) st
                      then (env', Inl Assignee_cannot_self_close_409)
                    else if st = Done \<and> assertCompletableDoneWhen (t_done_when existing) \<noteq> None
                      then (env', Inl Done_when_placeholder_409)
                    else if (st = Review \<or> st = Done \<and> t_status existing \<noteq> Approved \<and> t_status existing \<noteq> Rejected \<and> \<not> truthy gate)
                            \<and> truthy (t_assignee_agent_id existing)
                      then (case px_verifyEvidence px env' (t_result existing) of
                              (env'', ok) \<Rightarrow>
                                if \<not> ok then (env'', Inl Artifact_verification_failed_409)
                                else (env'', Inr (next'\<lparr>t_status := st\<rparr>, rev_reason)))
                    else (env', Inr (next'\<lparr>t_status := st\<rparr>, rev_reason)))))"

fun priority_of :: "string \<Rightarrow> task_priority option" where
  "priority_of s = map_of [(''P0'', P0), (''P1'', P1), (''P2'', P2), (''P3'', P3)] s"

definition patchPriority :: "patch_body \<Rightarrow> task \<Rightarrow> patch_error + task" where
  "patchPriority body next =
     (case field body ''priority'' of
        None \<Rightarrow> Inr next
      | Some v \<Rightarrow>
          if v = JNull then Inr (next\<lparr>t_priority := None\<rparr>)
          else (case Option.bind (as_string (Some v)) priority_of of
                  None \<Rightarrow> Inl Invalid_priority_400
                | Some p \<Rightarrow> Inr (next\<lparr>t_priority := Some p\<rparr>)))"

text \<open>The two assignment fields, agent first; a \<open>null\<close> clears, a name resolves and clears the other.\<close>

definition patchAssigneeAgent ::
  "patch_env \<Rightarrow> bar_env \<Rightarrow> string \<Rightarrow> auth_context \<Rightarrow> patch_body \<Rightarrow> task \<Rightarrow> task \<Rightarrow> bar_env \<times> (patch_error + task)" where
  "patchAssigneeAgent px env new_id auth body existing next =
     (case field body ''assignee_agent_id'' of
        None \<Rightarrow> (env, Inr next)
      | Some v \<Rightarrow>
          if v = JNull then (env, Inr (next\<lparr>t_assignee_agent_id := None\<rparr>))
          else (case resolveTaskAssignee env (px_gates px) (px_agentMember px) new_id (Some v) (t_squad_id existing) (Some auth) of
                  (env', Inl e) \<Rightarrow> (env', Inl (Assignee_400 e))
                | (env', Inr a) \<Rightarrow> (env', Inr (next\<lparr>t_assignee_agent_id := a, t_assignee_member_id := None\<rparr>))))"

definition patchAssigneeMember ::
  "patch_env \<Rightarrow> bar_env \<Rightarrow> string \<Rightarrow> auth_context \<Rightarrow> patch_body \<Rightarrow> task \<Rightarrow> task \<Rightarrow> bar_env \<times> (patch_error + task)" where
  "patchAssigneeMember px env new_id auth body existing next =
     (case field body ''assignee_member_id'' of
        None \<Rightarrow> (env, Inr next)
      | Some v \<Rightarrow>
          if v = JNull then (env, Inr (next\<lparr>t_assignee_member_id := None\<rparr>))
          else (case resolveTaskAssigneeMember env (px_gates px) new_id (Some v) (t_squad_id existing) (Some auth) of
                  (env', Inl e) \<Rightarrow> (env', Inl (Assignee_400 e))
                | (env', Inr m) \<Rightarrow> (env', Inr (next\<lparr>t_assignee_member_id := m, t_assignee_agent_id := None\<rparr>))))"

definition named :: "json option \<Rightarrow> bool" where
  "named v \<longleftrightarrow> v \<noteq> None \<and> v \<noteq> Some JNull"

definition patchAssignee ::
  "patch_env \<Rightarrow> bar_env \<Rightarrow> string \<Rightarrow> auth_context \<Rightarrow> patch_body \<Rightarrow> task \<Rightarrow> task \<Rightarrow> bar_env \<times> (patch_error + task)" where
  "patchAssignee px env new_id auth body existing next =
     (if field body ''assignee_agent_id'' = None \<and> field body ''assignee_member_id'' = None then (env, Inr next)
      else if named (field body ''assignee_agent_id'') \<and> named (field body ''assignee_member_id'')
        then (env, Inl Task_single_assignee_400)
      else if isExternallySourced existing \<and> \<not> canActOnSquad (b_auth env) auth (t_squad_id existing) Admin
        then (env, Inl Forbidden_admin_403)
      else if assigneeCannotMutateOwnAssignment (boundAgentId auth) (t_status existing) (t_assignee_agent_id existing)
        then (env, Inl Assignee_cannot_mutate_own_assignment_409)
      else (case patchAssigneeAgent px env new_id auth body existing next of
              (env', Inl e) \<Rightarrow> (env', Inl e)
            | (env', Inr next') \<Rightarrow> patchAssigneeMember px env' new_id auth body existing next'))"

definition patchGateOwner ::
  "patch_env \<Rightarrow> bar_env \<Rightarrow> auth_context \<Rightarrow> patch_body \<Rightarrow> bool \<Rightarrow> task \<Rightarrow> task \<Rightarrow> patch_error + task" where
  "patchGateOwner px env auth body reversesVerdict existing next =
     (case field body ''gate_owner'' of
        None \<Rightarrow> Inr next
      | Some v \<Rightarrow>
          let repairs = (t_status existing = Review \<and> t_gate_owner existing = None \<and> isNonEmptyString (Some v) \<and>
                legacyOwnerAdmin auth);
              locked = t_status existing \<in> {Review, Approved, Rejected, Done}
          in if locked \<and> \<not> repairs \<and> \<not> reversesVerdict then Inl (Gate_owner_locked_409 (t_status existing))
             else if t_gate_owner existing \<noteq> None \<and> as_string (Some v) \<noteq> t_gate_owner existing \<and> \<not> legacyOwnerAdmin auth
               then Inl Gate_owner_immutable_403
             else
               and_then
                 (if v = JNull then Inr (next\<lparr>t_gate_owner := None\<rparr>)
                  else if isNonEmptyString (Some v) then
                    (let g = trim (the (as_string (Some v))) in
                     if \<not> isValidGateOwnerForm g then Inl Invalid_gate_owner_400
                     else if g = GATE_AGENT_SELF_COMPLETION \<and> t_gate_owner existing \<noteq> Some g then Inl Gate_owner_reserved_403
                     else Inr (next\<lparr>t_gate_owner := Some g\<rparr>))
                  else Inl Invalid_gate_owner_400)
                 (\<lambda>next'. if assigneeChangesOwnGate auth existing next' \<and>
                              \<not> canActOnSquad (b_auth env) auth (t_squad_id existing) Lead
                           then Inl Gate_owner_assignee_requires_lead_403 else Inr next'))"

definition patchProject :: "patch_body \<Rightarrow> task \<Rightarrow> patch_error + task" where
  "patchProject body next =
     (case field body ''project_id'' of
        None \<Rightarrow> Inr next
      | Some v \<Rightarrow>
          if v = JNull then Inr (next\<lparr>t_project_id := None\<rparr>)
          else if isNonEmptyString (Some v) then Inr (next\<lparr>t_project_id := Some (trim (the (as_string (Some v))))\<rparr>)
          else Inl Invalid_project_id_400)"

section \<open>The row the request asks for\<close>

text \<open>Everything up to the stamp: the validated next row and the reversal reason.\<close>

definition patchFields ::
  "patch_env \<Rightarrow> string \<Rightarrow> auth_context \<Rightarrow> patch_body \<Rightarrow> task \<Rightarrow> bar_env \<times> (patch_error + task \<times> string option)" where
  "patchFields px new_id auth body existing =
     (case patchText body existing of
        Inl e \<Rightarrow> (px_bar px, Inl e)
      | Inr n1 \<Rightarrow>
          (case patchStatus px new_id auth body existing n1 of
             (env, Inl e) \<Rightarrow> (env, Inl e)
           | (env, Inr (n2, rev_reason)) \<Rightarrow>
               (case patchPriority body n2 of
                  Inl e \<Rightarrow> (env, Inl e)
                | Inr n3 \<Rightarrow>
                    (case patchAssignee px env new_id auth body existing n3 of
                       (env', Inl e) \<Rightarrow> (env', Inl e)
                     | (env', Inr n4) \<Rightarrow>
                         (if assigneeChangesInReview existing n4 then (env', Inl Assignee_frozen_409)
                          else (env', map_sum id (\<lambda>n. (n, rev_reason))
                                 (and_then (patchGateOwner px env' auth body (rev_reason \<noteq> None) existing n4)
                                    (patchProject body))))))))"

text \<open>The write: a reversal or an ordinary update.\<close>

definition patchWrite ::
  "bar_env \<Rightarrow> task_db \<Rightarrow> string \<Rightarrow> auth_context \<Rightarrow> task \<Rightarrow> task \<Rightarrow> string option
     \<Rightarrow> bar_env \<times> task_db \<times> (patch_error + task)" where
  "patchWrite env db new_id auth existing nx rev_reason =
     (case rev_reason of
        Some reason \<Rightarrow>
          (case reverseTaskVerdict env db new_id \<lparr>ri_existing = existing, ri_next = nx, ri_reason = reason,
              ri_actorId = (if truthy (boundAgentId auth) then the (boundAgentId auth)
                 else if truthy (memberId auth) then the (memberId auth) else ''unknown''),
              ri_actor_is_agent = truthy (boundAgentId auth)\<rparr> of
             (e, d, out) \<Rightarrow>
               (e, d, case out of
                  Reversed t \<Rightarrow> Inr (nx\<lparr>t_status := t_status t, t_updated_at := t_updated_at t\<rparr>)
                | Threw (Update_intake ie) \<Rightarrow> Inl (Intake_400 ie)
                | Threw (Update_conflict c) \<Rightarrow> Inl (Update_409 c)
                | r \<Rightarrow> Inl (Reversal_409 r)))
      | None \<Rightarrow>
          (case persistTaskUpdate env db new_id existing nx of
             (e, d, out) \<Rightarrow>
               (e, d, case out of
                  Inr t \<Rightarrow> Inr t
                | Inl (Update_intake ie) \<Rightarrow> Inl (Intake_400 ie)
                | Inl (Update_conflict c) \<Rightarrow> Inl (Update_409 c))))"

definition WAKEABLE_TASK_STATUSES :: "task_status list" where
  "WAKEABLE_TASK_STATUSES = [Open, In_progress, Blocked, Rejected]"

definition patchEffects ::
  "patch_env \<Rightarrow> auth_context \<Rightarrow> patch_body \<Rightarrow> task \<Rightarrow> task \<Rightarrow> patch_effect list" where
  "patchEffects px auth body existing t =
     (let assigningAgent = (as_string (field body ''assignee_agent_id'') \<noteq> None \<and> t_assignee_agent_id t \<noteq> None);
          releases = (assigningAgent \<and> px_canReleaseHold px auth (t_squad_id existing));
          lifts = (releases \<and> px_liftsHold px (t_id existing));
          rung = (assigningAgent \<and> (t_assignee_agent_id t \<noteq> t_assignee_agent_id existing \<or> lifts))
      in (if releases then [Release_hold (t_id existing)] else []) @
         (if rung \<and> t_status t \<in> set WAKEABLE_TASK_STATUSES
          then [Enqueue_wake (t_id t) (the (t_assignee_agent_id t))] else []) @
         [Mirror_update t (t_status existing \<noteq> t_status t), Emit_task_updated t] @
         (if rung then [Ring_doorbell (the (t_assignee_agent_id t))] else []) @
         (if t_status existing \<noteq> Review \<and> t_status t = Review \<and> t_gate_owner t = Some GATE_OFFICE
          then [Freeze_office t] else []))"

definition patchCommit ::
  "patch_env \<Rightarrow> bar_env \<Rightarrow> string \<Rightarrow> string \<Rightarrow> auth_context \<Rightarrow> patch_body \<Rightarrow> task \<Rightarrow> task \<Rightarrow> string option
     \<Rightarrow> bar_env \<times> task_db \<times> (patch_error + task \<times> patch_effect list)" where
  "patchCommit px env new_id now auth body existing n5 rev_reason =
     (let db = px_db px in
      case validateTaskProjectAttribution db (t_project_id n5) (t_squad_id existing)
             (Some (t_project_id existing, t_result existing)) of
        Some pe \<Rightarrow> (env, db, Inl (Project_error pe))
      | None \<Rightarrow>
          (case (if field body ''priority'' \<noteq> None \<and> (t_priority n5 = Some P0 \<or> t_priority n5 = Some P1)
                 then assertIntakeWithBar env new_id n5 True (actorOf auth) else (env, None)) of
             (env1, Some ie) \<Rightarrow> (env1, db, Inl (Intake_400 ie))
           | (env1, None) \<Rightarrow>
               (let nx = stampTaskUpdate n5 (t_status existing) now in
                if as_string (field body ''assignee_agent_id'') \<noteq> None \<and> t_assignee_agent_id nx \<noteq> None \<and>
                   px_holdRefuses px auth existing
                then (env1, db, Inl Task_held_409)
                else (case patchWrite env1 db new_id auth existing nx rev_reason of
                        (env2, db2, Inl e) \<Rightarrow> (env2, db2, Inl e)
                      | (env2, db2, Inr t) \<Rightarrow> (env2, db2, Inr (t, patchEffects px auth body existing t))))))"

definition patchTask ::
  "patch_env \<Rightarrow> string \<Rightarrow> string \<Rightarrow> auth_context \<Rightarrow> patch_body \<Rightarrow> string
     \<Rightarrow> bar_env \<times> task_db \<times> (patch_error + task \<times> patch_effect list)" where
  "patchTask px new_id now auth body tid =
     (let db = px_db px in
      case first_row (\<lambda>t. t_id t = tid) (d_tasks db) of
        None \<Rightarrow> (px_bar px, db, Inl Task_not_found_404)
      | Some existing \<Rightarrow>
          if \<not> canActOnSquad (b_auth (px_bar px)) auth (t_squad_id existing) Member
          then (px_bar px, db, Inl Forbidden_member_403)
          else if (field body ''title'' \<noteq> None \<or> field body ''body'' \<noteq> None) \<and> officeTaskContentLocked db (t_id existing)
          then (px_bar px, db, Inl Office_payload_frozen_409)
          else (case patchFields px new_id auth body existing of
                  (env, Inl e) \<Rightarrow> (env, db, Inl e)
                | (env, Inr (n5, rev_reason)) \<Rightarrow> patchCommit px env new_id now auth body existing n5 rev_reason))"

section \<open>What each stage keeps\<close>

text \<open>The columns the guards read.\<close>

definition same_core :: "task \<Rightarrow> task \<Rightarrow> bool" where
  "same_core a b \<longleftrightarrow> t_id a = t_id b \<and> t_status a = t_status b \<and> t_assignee_agent_id a = t_assignee_agent_id b \<and>
     t_gate_owner a = t_gate_owner b"

lemma same_core_refl [simp]: "same_core a a"
  by (simp add: same_core_def)

lemma patchText_core: "patchText body t = Inr n \<Longrightarrow> same_core n t"
  by (cases "field body ''title''"; cases "field body ''body''"; cases "as_string (field body ''body'')";
      cases "field body ''done_when''")
    (auto simp: patchText_def same_core_def split: if_splits)

lemma patchPriority_core: "patchPriority body t = Inr n \<Longrightarrow> same_core n t"
  by (auto simp: patchPriority_def same_core_def split: option.splits if_splits)

lemma patchProject_core: "patchProject body t = Inr n \<Longrightarrow> same_core n t"
  by (auto simp: patchProject_def same_core_def split: option.splits if_splits)

lemma patchMove_core: "patchMove px i auth body ex t st = (e, Inr (n, rr)) \<Longrightarrow> same_core n t"
  by (auto simp: patchMove_def same_core_def split: option.splits if_splits prod.splits)

lemma patchAssignee_keeps:
  "patchAssignee px env i auth body ex t = (e, Inr n) \<Longrightarrow>
     t_id n = t_id t \<and> t_status n = t_status t \<and> t_gate_owner n = t_gate_owner t"
  by (auto simp: patchAssignee_def patchAssigneeAgent_def patchAssigneeMember_def
      split: option.splits if_splits prod.splits sum.splits)

lemma patchAssignee_own:
  assumes "patchAssignee px env i auth body ex t = (e, Inr n)"
    and "assigneeCannotMutateOwnAssignment (boundAgentId auth) (t_status ex) (t_assignee_agent_id ex)"
  shows "t_assignee_agent_id n = t_assignee_agent_id t"
  using assms by (auto simp: patchAssignee_def split: if_splits)

lemma patchGateOwner_keeps:
  "patchGateOwner px env auth body rv ex t = Inr n \<Longrightarrow>
     t_id n = t_id t \<and> t_status n = t_status t \<and> t_assignee_agent_id n = t_assignee_agent_id t \<and>
     (if field body ''gate_owner'' = None then t_gate_owner n = t_gate_owner t
      else t_gate_owner n = effectiveGateOwner body ex)"
proof (cases "field body ''gate_owner''")
  case (Some v)
  assume "patchGateOwner px env auth body rv ex t = Inr n"
  then obtain n0 where n0: "n = n0" "n0 = t\<lparr>t_gate_owner := effectiveGateOwner body ex\<rparr>"
    using Some by (cases "v = JNull"; cases "isNonEmptyString (Some v)")
      (auto simp: patchGateOwner_def Let_def effectiveGateOwner_def isNonEmptyString_def split: if_splits)
  with Some show ?thesis by simp
qed (simp add: patchGateOwner_def)

lemma status_of_patchable: "status_of v = Some st \<Longrightarrow> st \<noteq> Approved \<and> st \<noteq> Rejected"
  by (auto simp: status_of_def isPatchableStatus_def PATCH_ALLOWED_STATUSES_def ALL_TASK_STATUSES_def
      split: if_splits option.splits)

lemma checkTransitionWithBar_None:
  "checkTransitionWithBar e i src dst actor r = (e', None) \<Longrightarrow> dst \<in> set (TRANSITIONS src) \<or> src = Open \<and> dst = Blocked"
  by (auto simp: checkTransitionWithBar_def checkTransition_def split: if_splits option.splits prod.splits)

lemma patchMove_transition:
  assumes "patchMove px i auth body ex t st = (e, Inr (n, rr))"
  shows "if rr = None then st \<in> set (TRANSITIONS (t_status ex)) \<or> t_status ex = Open \<and> st = Blocked
    else legacyOwnerAdmin auth \<and> st = Review \<and> t_status ex \<in> {Approved, Rejected, Review}"
  using assms checkTransitionWithBar_None [of "px_bar px" i "t_status ex" st "actorOf auth" "field body ''reason''"]
  by (fastforce simp: patchMove_def detectVerdictReversalRequest_def split: if_splits option.splits prod.splits)

text \<open>A status stage that passes: nothing asked, or a move every guard has allowed.\<close>

lemma patchStatus_cases:
  assumes "patchStatus px i auth body ex t = (e, Inr (n, rr))"
  shows "(field body ''status'' = None \<and> same_core n t \<and> rr = None) \<or>
    (\<exists>st. status_of (field body ''status'') = Some st \<and> t_status n = st \<and> same_core (n\<lparr>t_status := t_status t\<rparr>) t \<and>
      (if rr = None then st \<in> set (TRANSITIONS (t_status ex)) \<or> t_status ex = Open \<and> st = Blocked
       else legacyOwnerAdmin auth \<and> st = Review \<and> t_status ex \<in> {Approved, Rejected, Review}) \<and>
      (st = Review \<longrightarrow> truthy (effectiveGateOwner body ex)) \<and>
      \<not> patchToDoneBypassesGate (t_status ex) (t_gate_owner ex) st \<and>
      \<not> assigneeSelfClose (boundAgentId auth) (t_status ex) (t_assignee_agent_id ex) st)"
proof (cases "field body ''status''")
  case None
  with assms show ?thesis by (auto simp: patchStatus_def)
next
  case (Some v)
  obtain st where st: "status_of (Some v) = Some st"
    using assms Some by (auto simp: patchStatus_def split: option.splits)
  obtain e1 n1 where mv: "patchMove px i auth body ex t st = (e1, Inr (n1, rr))" "n = n1\<lparr>t_status := st\<rparr>"
    using assms Some st by (auto simp: patchStatus_def Let_def split: prod.splits sum.splits if_splits)
  have guards: "st = Review \<longrightarrow> truthy (effectiveGateOwner body ex)"
    "\<not> patchToDoneBypassesGate (t_status ex) (t_gate_owner ex) st"
    "\<not> assigneeSelfClose (boundAgentId auth) (t_status ex) (t_assignee_agent_id ex) st"
    using assms Some st mv(1) by (auto simp: patchStatus_def Let_def split: prod.splits sum.splits if_splits)
  from patchMove_core [OF mv(1)] have "same_core (n\<lparr>t_status := t_status t\<rparr>) t"
    by (simp add: mv(2) same_core_def)
  with st guards patchMove_transition [OF mv(1)] mv(2) Some show ?thesis by auto
qed

lemma patchFields_stages:
  assumes "patchFields px i auth body ex = (e, Inr (n, rr))"
  obtains n1 n2 n3 n4 n5 e1 where "patchText body ex = Inr n1" "patchStatus px i auth body ex n1 = (e1, Inr (n2, rr))"
    "patchPriority body n2 = Inr n3" "patchAssignee px e1 i auth body ex n3 = (e, Inr n4)"
    "patchGateOwner px e auth body (rr \<noteq> None) ex n4 = Inr n5" "patchProject body n5 = Inr n"
proof -
  obtain n1 where 1: "patchText body ex = Inr n1"
    using assms by (auto simp: patchFields_def split: sum.splits)
  obtain e1 n2 rr' where 2: "patchStatus px i auth body ex n1 = (e1, Inr (n2, rr'))"
    using assms 1 by (auto simp: patchFields_def split: sum.splits prod.splits)
  obtain n3 where 3: "patchPriority body n2 = Inr n3"
    using assms 1 2 by (auto simp: patchFields_def split: sum.splits prod.splits)
  obtain e4 n4 where 4: "patchAssignee px e1 i auth body ex n3 = (e4, Inr n4)"
    using assms 1 2 3 by (auto simp: patchFields_def split: sum.splits prod.splits)
  have last: "e4 = e" "rr' = rr" "and_then (patchGateOwner px e4 auth body (rr' \<noteq> None) ex n4) (patchProject body) = Inr n"
    using assms 1 2 3 4
    by (cases "and_then (patchGateOwner px e4 auth body (rr' \<noteq> None) ex n4) (patchProject body)";
        auto simp: patchFields_def split: if_splits)+
  then obtain n5 where "patchGateOwner px e auth body (rr \<noteq> None) ex n4 = Inr n5" "patchProject body n5 = Inr n"
    by (auto simp: and_then_Inr_iff)
  with 1 2 3 4 last show thesis by (intro that) auto
qed

text \<open>The status and gate the accepted row carries.\<close>

lemma patchFields_moves:
  assumes f: "patchFields px i auth body ex = (e, Inr (n, rr))"
  shows "t_id n = t_id ex \<and>
    (t_status n = t_status ex \<and> rr = None \<or>
     t_status n \<noteq> Approved \<and> t_status n \<noteq> Rejected \<and>
     (if rr = None then t_status n \<in> set (TRANSITIONS (t_status ex)) \<or> t_status ex = Open \<and> t_status n = Blocked
      else legacyOwnerAdmin auth \<and> t_status n = Review \<and> t_status ex \<in> {Approved, Rejected, Review}) \<and>
     (t_status n = Review \<longrightarrow> truthy (t_gate_owner n)) \<and>
     \<not> patchToDoneBypassesGate (t_status ex) (t_gate_owner ex) (t_status n) \<and>
     \<not> assigneeSelfClose (boundAgentId auth) (t_status ex) (t_assignee_agent_id ex) (t_status n))"
proof -
  obtain n1 n2 n3 n4 n5 e1 where st: "patchText body ex = Inr n1" "patchStatus px i auth body ex n1 = (e1, Inr (n2, rr))"
    "patchPriority body n2 = Inr n3" "patchAssignee px e1 i auth body ex n3 = (e, Inr n4)"
    "patchGateOwner px e auth body (rr \<noteq> None) ex n4 = Inr n5" "patchProject body n5 = Inr n"
    using f by (rule patchFields_stages)
  note keep = patchText_core [OF st(1)] patchPriority_core [OF st(3)] patchAssignee_keeps [OF st(4)]
    patchGateOwner_keeps [OF st(5)] patchProject_core [OF st(6)]
  have gate: "t_gate_owner n = effectiveGateOwner body ex"
    if "t_gate_owner n2 = t_gate_owner n1"
    using keep that by (auto simp: same_core_def effectiveGateOwner_def split: if_splits option.splits)
  have n: "t_status n = t_status n2" "t_id n = t_id n2" using keep by (auto simp: same_core_def)
  from patchStatus_cases [OF st(2)] show ?thesis
  proof (elim disjE exE conjE)
    assume "same_core n2 n1" "rr = None"
    with n keep(1) show ?thesis by (simp add: same_core_def)
  next
    fix s assume s: "status_of (field body ''status'') = Some s" "t_status n2 = s"
      "same_core (n2\<lparr>t_status := t_status n1\<rparr>) n1"
      "if rr = None then s \<in> set (TRANSITIONS (t_status ex)) \<or> t_status ex = Open \<and> s = Blocked
       else legacyOwnerAdmin auth \<and> s = Review \<and> t_status ex \<in> {Approved, Rejected, Review}"
      "s = Review \<longrightarrow> truthy (effectiveGateOwner body ex)"
      "\<not> patchToDoneBypassesGate (t_status ex) (t_gate_owner ex) s"
      "\<not> assigneeSelfClose (boundAgentId auth) (t_status ex) (t_assignee_agent_id ex) s"
    then have "t_gate_owner n = effectiveGateOwner body ex" "t_id n = t_id ex"
      using gate keep(1) n by (auto simp: same_core_def)
    with s n status_of_patchable [OF s(1)] show ?thesis by (cases "rr = None") auto
  qed
qed

lemma patchFields_own_assignee:
  assumes f: "patchFields px i auth body ex = (e, Inr (n, rr))"
    and own: "assigneeCannotMutateOwnAssignment (boundAgentId auth) (t_status ex) (t_assignee_agent_id ex)"
  shows "t_assignee_agent_id n = t_assignee_agent_id ex"
proof -
  obtain n1 n2 n3 n4 n5 e1 where st: "patchText body ex = Inr n1" "patchStatus px i auth body ex n1 = (e1, Inr (n2, rr))"
    "patchPriority body n2 = Inr n3" "patchAssignee px e1 i auth body ex n3 = (e, Inr n4)"
    "patchGateOwner px e auth body (rr \<noteq> None) ex n4 = Inr n5" "patchProject body n5 = Inr n"
    using f by (rule patchFields_stages)
  have "t_assignee_agent_id n2 = t_assignee_agent_id n1"
    using patchStatus_cases [OF st(2)] by (auto simp: same_core_def)
  then show ?thesis
    using patchText_core [OF st(1)] patchPriority_core [OF st(3)] patchAssignee_own [OF st(4) own]
      patchGateOwner_keeps [OF st(5)] patchProject_core [OF st(6)] by (auto simp: same_core_def)
qed

section \<open>What the write does to the table\<close>

lemma buildTaskUpdate_rows:
  "buildTaskUpdateStatement db ex nx = Written db' \<Longrightarrow>
   d_tasks db' = map (\<lambda>r. if update_matches db ex nx r then updated_row nx r else r) (d_tasks db)"
  by (auto simp: buildTaskUpdateStatement_def split: list.splits)

text \<open>Every write path changes the task table through the one guarded update, or not at all.\<close>

definition may_write :: "task_db \<Rightarrow> task \<Rightarrow> task \<Rightarrow> bool" where
  "may_write db nx r \<longleftrightarrow> t_id r = t_id nx \<and> \<not> isTaskArchived db (t_id r) \<and>
     (t_status r = Review \<longrightarrow> \<not> assigneeColumnsDiffer r nx)"

definition written_by :: "task_db \<Rightarrow> task \<Rightarrow> task \<Rightarrow> task_db \<Rightarrow> bool" where
  "written_by db ex nx db' \<longleftrightarrow> d_tasks db' = d_tasks db \<or>
     (\<exists>p. (\<forall>r. p r \<longrightarrow> may_write db nx r) \<and> d_tasks db' = map (\<lambda>r. if p r then updated_row nx r else r) (d_tasks db))"

lemma written_by_refl [simp]: "written_by db ex nx db"
  by (simp add: written_by_def)

lemma written_by_same: "d_tasks db' = d_tasks db \<Longrightarrow> written_by db ex nx db'"
  by (simp add: written_by_def)

lemma written_by_build:
  assumes "buildTaskUpdateStatement db1 ex nx = Written db'" "d_tasks db1 = d_tasks db" "d_archived db1 = d_archived db"
  shows "written_by db ex nx db'"
  unfolding written_by_def using buildTaskUpdate_rows [OF assms(1)] assms(2)
  by (intro disjI2 exI [of _ "update_matches db1 ex nx"])
    (auto simp: update_matches_def may_write_def isTaskArchived_def assigneeColumnsDiffer_def assms(3))

lemma persistTaskUpdate_written:
  assumes "persistTaskUpdate env db i ex nx = (env', db', out)"
  shows "written_by db ex nx db' \<or> written_by db ex (nx\<lparr>t_result := None\<rparr>) db'"
  using assms
  by (auto simp: persistTaskUpdate_def Let_def intro: written_by_build split: prod.splits option.splits if_splits write_outcome.splits)

lemma reversal_stamp_tasks:
  "reversal_stamp db inp v = Inr db' \<Longrightarrow> d_tasks db' = d_tasks db \<and> d_archived db' = d_archived db"
  by (auto simp: reversal_stamp_def markVerdictReversed_def stamp_reversed_def Let_def split: if_splits prod.splits)

lemma reversal_void_tasks [simp]:
  "d_tasks (reversal_void db inp v) = d_tasks db" "d_archived (reversal_void db inp v) = d_archived db"
  by (simp_all add: reversal_void_def)

lemma reversal_receipt_tasks: "reversal_receipt db inp v = Some db' \<Longrightarrow> d_tasks db' = d_tasks db"
  by (auto simp: reversal_receipt_def Let_def split: if_splits)

lemma written_by_tasks: "written_by db ex nx db1 \<Longrightarrow> d_tasks db2 = d_tasks db1 \<Longrightarrow> written_by db ex nx db2"
  by (simp add: written_by_def)

text \<open>Step 2 of a reversal, the task update.\<close>

definition reversal_land ::
  "bar_env \<Rightarrow> task_db \<Rightarrow> string \<Rightarrow> task \<Rightarrow> task \<Rightarrow> bar_env \<times> task_db \<times> (update_error + task)" where
  "reversal_land env db2 new_id ex nx =
     (if t_status ex = Review then (env, db2, Inr ex)
      else (let (env', intake) = (if severity_touched ex nx
                  then assertIntakeWithBar env new_id nx True ''system:task-update'' else (env, None))
            in case intake of
                 Some err \<Rightarrow> (env', db2, Inl (Update_intake err))
               | None \<Rightarrow>
                   (case buildTaskUpdateStatement db2 ex nx of
                      Aborted c \<Rightarrow> (env', db2, Inl (Update_conflict c))
                    | No_row \<Rightarrow> (env', db2, Inl (Update_conflict (throwTaskUpdateConflict db2 ex)))
                    | Written db' \<Rightarrow> (env', db', Inr nx))))"

lemma reversal_land_written:
  "reversal_land env db2 i ex nx = (env', db', out) \<Longrightarrow> d_tasks db2 = d_tasks db \<Longrightarrow>
     d_archived db2 = d_archived db \<Longrightarrow> written_by db ex nx db'"
  by (auto simp: reversal_land_def Let_def intro: written_by_build written_by_same
      split: prod.splits option.splits if_splits write_outcome.splits)

lemma reverseTaskVerdict_written:
  assumes r: "reverseTaskVerdict env db i inp = (env', db', out)"
  shows "written_by db (ri_existing inp) (ri_next inp) db'"
proof (cases "\<exists>v db1. findLatestVerdict db (t_id (ri_existing inp)) = Some v \<and> reversal_stamp db inp v = Inr db1 \<and>
    \<not> (t_status (ri_existing inp) \<noteq> Review \<and> assigneeColumnsDiffer (ri_existing inp) (ri_next inp)) \<and>
    \<not> isTaskArchived db (t_id (ri_existing inp))")
  case False
  with r have "db' = db"
    by (auto simp: reverseTaskVerdict_def Let_def split: if_splits option.splits sum.splits)
  then show ?thesis by simp
next
  case True
  then obtain v db1 where v: "findLatestVerdict db (t_id (ri_existing inp)) = Some v" "reversal_stamp db inp v = Inr db1"
    "\<not> (t_status (ri_existing inp) \<noteq> Review \<and> assigneeColumnsDiffer (ri_existing inp) (ri_next inp))"
    "\<not> isTaskArchived db (t_id (ri_existing inp))" by blast
  obtain e3 db3 landed where l: "reversal_land env (reversal_void db1 inp v) i (ri_existing inp) (ri_next inp) = (e3, db3, landed)"
    by (cases "reversal_land env (reversal_void db1 inp v) i (ri_existing inp) (ri_next inp)")
  have w: "written_by db (ri_existing inp) (ri_next inp) db3"
    using reversal_land_written [OF l] reversal_stamp_tasks [OF v(2)] by simp
  have eq: "reverseTaskVerdict env db i inp =
    (case landed of Inl err \<Rightarrow> (e3, db3, Threw err)
     | Inr t \<Rightarrow> (case reversal_receipt db3 inp v of
         None \<Rightarrow> (e3, db3, Threw (Update_conflict Task_update_conflict)) | Some db4 \<Rightarrow> (e3, db4, Reversed t)))"
    using v l by (auto simp: reverseTaskVerdict_def reversal_land_def Let_def split: prod.splits)
  have "d_tasks db' = d_tasks db3"
    using r [unfolded eq] by (auto dest: reversal_receipt_tasks split: sum.splits option.splits)
  with w show ?thesis by (rule written_by_tasks)
qed

lemma patchWrite_written:
  assumes "patchWrite env db i auth ex nx rr = (env', db', out)"
  shows "written_by db ex nx db' \<or> written_by db ex (nx\<lparr>t_result := None\<rparr>) db'"
proof (cases rr)
  case None
  with assms obtain o' where "persistTaskUpdate env db i ex nx = (env', db', o')"
    by (auto simp: patchWrite_def split: prod.splits)
  then show ?thesis by (rule persistTaskUpdate_written)
next
  case (Some reason)
  with assms obtain inp o' where "reverseTaskVerdict env db i inp = (env', db', o')" "ri_existing inp = ex" "ri_next inp = nx"
    by (auto simp: patchWrite_def split: prod.splits)
  then show ?thesis using reverseTaskVerdict_written [of env db i inp env' db' o'] by simp
qed

lemma stampTaskUpdate_keeps [simp]:
  "t_id (stampTaskUpdate t st now) = t_id t" "t_status (stampTaskUpdate t st now) = t_status t"
  "t_assignee_agent_id (stampTaskUpdate t st now) = t_assignee_agent_id t"
  "t_gate_owner (stampTaskUpdate t st now) = t_gate_owner t"
  by (simp_all add: stampTaskUpdate_def Let_def)

definition unique_ids :: "task_db \<Rightarrow> bool" where
  "unique_ids db \<longleftrightarrow> distinct (map t_id (d_tasks db))"

lemma written_by_ids: "written_by db ex nx db' \<Longrightarrow> map t_id (d_tasks db') = map t_id (d_tasks db)"
  by (auto simp: written_by_def updated_row_def)

lemma patchTask_written:
  assumes "patchTask px i now auth body tid = (env', db', res)"
  shows "d_tasks db' = d_tasks (px_db px) \<or>
    (\<exists>ex e n rr nx. first_row (\<lambda>t. t_id t = tid) (d_tasks (px_db px)) = Some ex \<and>
       patchFields px i auth body ex = (e, Inr (n, rr)) \<and> same_core nx n \<and> written_by (px_db px) ex nx db')"
proof (cases "first_row (\<lambda>t. t_id t = tid) (d_tasks (px_db px))")
  case None
  with assms show ?thesis by (simp add: patchTask_def)
next
  case (Some ex)
  show ?thesis
  proof (cases "\<exists>e n rr. patchFields px i auth body ex = (e, Inr (n, rr)) \<and>
      patchTask px i now auth body tid = patchCommit px e i now auth body ex n rr")
    case False
    with assms Some have "db' = px_db px"
      by (auto simp: patchTask_def Let_def split: if_splits prod.splits sum.splits)
    then show ?thesis by simp
  next
    case True
    then obtain e n rr where f: "patchFields px i auth body ex = (e, Inr (n, rr))"
      and c: "patchCommit px e i now auth body ex n rr = (env', db', res)" using assms by auto
    let ?nx = "stampTaskUpdate n (t_status ex) now"
    have "db' = px_db px \<or> (\<exists>e1 out. patchWrite e1 (px_db px) i auth ex ?nx rr = (env', db', out))"
      using c by (auto simp: patchCommit_def Let_def split: if_splits option.splits prod.splits sum.splits)
    then consider "db' = px_db px" | "written_by (px_db px) ex ?nx db'" | "written_by (px_db px) ex (?nx\<lparr>t_result := None\<rparr>) db'"
      using patchWrite_written by blast
    then show ?thesis
    proof cases
      case 2
      moreover have "same_core ?nx n" by (simp add: same_core_def)
      ultimately show ?thesis using Some f by blast
    next
      case 3
      moreover have "same_core (?nx\<lparr>t_result := None\<rparr>) n" by (simp add: same_core_def)
      ultimately show ?thesis using Some f by blast
    qed simp
  qed
qed

lemma unique_ids_row:
  assumes "unique_ids db" "r \<in> set (d_tasks db)" "first_row (\<lambda>t. t_id t = t_id r) (d_tasks db) = Some x"
  shows "x = r"
  using first_row_key [of t_id "d_tasks db" r] assms by (simp add: unique_ids_def)

lemma unique_ids_eq:
  assumes "unique_ids db" "x \<in> set (d_tasks db)" "y \<in> set (d_tasks db)" "t_id x = t_id y"
  shows "x = y"
  using assms(1) inj_onD [of t_id "set (d_tasks db)" x y] assms(2-4) by (simp add: unique_ids_def distinct_map)

lemma written_by_rows:
  assumes "unique_ids db" "written_by db ex nx db'" "t_id nx = t_id ex" "ex \<in> set (d_tasks db)"
    and r: "r \<in> set (d_tasks db)" "r' \<in> set (d_tasks db')" "t_id r' = t_id r"
  shows "r' = r \<or> r = ex \<and> r' = updated_row nx r \<and> may_write db nx r"
proof -
  note eq = unique_ids_eq [OF assms(1)]
  from assms(2) consider "d_tasks db' = d_tasks db"
    | p where "\<forall>r. p r \<longrightarrow> may_write db nx r" "d_tasks db' = map (\<lambda>r. if p r then updated_row nx r else r) (d_tasks db)"
    unfolding written_by_def by blast
  then show ?thesis
  proof cases
    case 1
    then have "r' = r" using eq [OF _ r(1) r(3)] r(2) by metis
    then show ?thesis ..
  next
    case (2 p)
    then obtain x where x: "x \<in> set (d_tasks db)" "r' = (if p x then updated_row nx x else x)" using r(2) by auto
    have "t_id r' = t_id x" using x(2) by (simp add: updated_row_def split: if_splits)
    with r(3) have "t_id x = t_id r" by simp
    then have "x = r" by (rule eq [OF x(1) r(1)])
    moreover have "x = ex" if "p x" using eq [OF x(1) assms(4)] 2(1) assms(3) that unfolding may_write_def by metis
    ultimately show ?thesis using x(2) 2(1) by (cases "p x") auto
  qed
qed

text \<open>The only row a request changes is the one it names, and its new core is the validated one.\<close>

lemma patchTask_row:
  assumes wf: "unique_ids (px_db px)" and p: "patchTask px i now auth body tid = (env', db', res)"
    and r: "r \<in> set (d_tasks (px_db px))" "r' \<in> set (d_tasks db')" "t_id r' = t_id r"
  shows "r' = r \<or> (\<exists>e n rr. patchFields px i auth body r = (e, Inr (n, rr)) \<and> same_core r' n) \<and>
     \<not> isTaskArchived (px_db px) (t_id r) \<and> (t_status r = Review \<longrightarrow> \<not> assigneeColumnsDiffer r r')"
  using patchTask_written [OF p]
proof (elim disjE exE conjE)
  assume "d_tasks db' = d_tasks (px_db px)"
  with r have "r' \<in> set (d_tasks (px_db px))" by simp
  then have "r' = r" using unique_ids_eq [OF wf _ r(1)] r(3) by blast
  then show ?thesis by simp
next
  fix ex e n rr nx
  assume ex: "first_row (\<lambda>t. t_id t = tid) (d_tasks (px_db px)) = Some ex"
    and f: "patchFields px i auth body ex = (e, Inr (n, rr))" and c: "same_core nx n" and w: "written_by (px_db px) ex nx db'"
  have "ex \<in> set (d_tasks (px_db px))" using first_row_Some [OF ex] by simp
  moreover have "t_id nx = t_id ex" using patchFields_moves [OF f] c by (simp add: same_core_def)
  ultimately have "r' = r \<or> r = ex \<and> r' = updated_row nx r \<and> may_write (px_db px) nx r" using written_by_rows [OF wf w _ _ r] by blast
  then show ?thesis using f c patchFields_moves [OF f]
    by (auto simp: same_core_def updated_row_def may_write_def assigneeColumnsDiffer_def)
qed

text \<open>A request changes no row of another squad's task: it needs at least member authority.\<close>

lemma patchTask_ids:
  assumes "patchTask px i now auth body tid = (env', db', res)"
  shows "map t_id (d_tasks db') = map t_id (d_tasks (px_db px))"
  using patchTask_written [OF assms] written_by_ids by metis

lemma patchTask_unique:
  "patchTask px i now auth body tid = (env', db', res) \<Longrightarrow> unique_ids (px_db px) \<Longrightarrow> unique_ids db'"
  by (simp add: unique_ids_def patchTask_ids)

end
