(* ===== verification/Task_Safety.thy ===== *)
theory Task_Safety
  imports Task_Patch
begin

text \<open>
  What the \<open>PATCH\<close> handler of \<^verbatim>\<open>src/tasks/index.ts\<close> guarantees over single requests
  and over runs of requests: the status of a task moves only along the allowed edges, a gated
  task is closed only after a verdict, an archived row and the assignee of a task in review do
  not change, and an agent cannot bring its own task to done, whatever it asks in whatever order.
\<close>

section \<open>Single requests\<close>

lemma TRANSITIONS_to_Done: "Done \<in> set (TRANSITIONS s) \<Longrightarrow> s \<in> {In_progress, Approved, Rejected}"
  by (cases s) auto

text \<open>C30: Whatever a request asks, a row of the task table either keeps its status or makes a move
  the handler allows: an edge of the transition matrix, open to blocked, or the reversal of a
  verdict to review by an owner or admin. No request writes approved or rejected, a task that
  has a gate reaches done only from approved or rejected, and a task that enters review has
  a gate afterwards.\<close>
theorem patch_status_integrity:
  assumes "unique_ids (px_db px)" and "patchTask px i now auth body tid = (env', db', res)"
    and "r \<in> set (d_tasks (px_db px))" "r' \<in> set (d_tasks db')" "t_id r' = t_id r"
  shows "t_status r' = t_status r \<or>
    t_status r' \<notin> {Approved, Rejected} \<and>
    (t_status r' \<in> set (TRANSITIONS (t_status r)) \<or> t_status r = Open \<and> t_status r' = Blocked \<or>
     legacyOwnerAdmin auth \<and> t_status r' = Review \<and> t_status r \<in> {Approved, Rejected}) \<and>
    (t_status r' = Done \<and> truthy (t_gate_owner r) \<longrightarrow> t_status r \<in> {Approved, Rejected}) \<and>
    (t_status r' = Review \<longrightarrow> truthy (t_gate_owner r'))"
  using patchTask_row [OF assms]
proof (elim disjE conjE exE)
  fix e n rr assume f: "patchFields px i auth body r = (e, Inr (n, rr))" and c: "same_core r' n"
  from c have [simp]: "t_status r' = t_status n" "t_gate_owner r' = t_gate_owner n" by (simp_all add: same_core_def)
  from patchFields_moves [OF f] show ?thesis
    by (cases "rr = None") (auto simp: patchToDoneBypassesGate_def)
qed simp

text \<open>A request never changes an archived task, and while a task is in review neither its
  assigned agent nor its assigned member can be changed, so that who may not give the verdict
  is fixed for the whole review.\<close>
theorem patch_frozen_columns:
  assumes "unique_ids (px_db px)" and "patchTask px i now auth body tid = (env', db', res)"
    and "r \<in> set (d_tasks (px_db px))" "r' \<in> set (d_tasks db')" "t_id r' = t_id r"
  shows "(isTaskArchived (px_db px) (t_id r) \<longrightarrow> r' = r) \<and>
    (t_status r = Review \<longrightarrow> t_assignee_agent_id r' = t_assignee_agent_id r \<and>
       t_assignee_member_id r' = t_assignee_member_id r)"
  using patchTask_row [OF assms] by (auto simp: assigneeColumnsDiffer_def)

text \<open>A request that changes any task names an existing one on whose squad its caller has at
  least member authority at that moment; every other request leaves the table as it was.\<close>
theorem patch_needs_member:
  assumes "patchTask px i now auth body tid = (env', db', res)" and "d_tasks db' \<noteq> d_tasks (px_db px)"
  shows "\<exists>t. first_row (\<lambda>t. t_id t = tid) (d_tasks (px_db px)) = Some t \<and>
    canActOnSquad (b_auth (px_bar px)) auth (t_squad_id t) Member"
proof (cases "first_row (\<lambda>t. t_id t = tid) (d_tasks (px_db px))")
  case None
  with assms show ?thesis by (simp add: patchTask_def)
next
  case (Some t)
  moreover have "canActOnSquad (b_auth (px_bar px)) auth (t_squad_id t) Member"
    using assms Some by (auto simp: patchTask_def Let_def split: if_splits)
  ultimately show ?thesis by simp
qed

section \<open>Runs of an agent\<close>

text \<open>Any sequence of requests by callers bound to the agent \<open>a\<close>, on any tasks with any bodies.\<close>

inductive agent_run :: "string \<Rightarrow> patch_env \<Rightarrow> patch_env \<Rightarrow> bool" for a px where
  run_nil: "agent_run a px px"
| run_step: "agent_run a px px1 \<Longrightarrow> boundAgentId auth = Some a \<Longrightarrow>
    patchTask px1 i now auth body tid = (env', db', res) \<Longrightarrow> agent_run a px (px1\<lparr>px_bar := env', px_db := db'\<rparr>)"

text \<open>The task is still the agent's and no one has verified it.\<close>

definition own_unverified :: "string \<Rightarrow> string \<Rightarrow> task_db \<Rightarrow> bool" where
  "own_unverified a tid db =
     list_all (\<lambda>t. t_id t = tid \<longrightarrow> t_assignee_agent_id t = Some a \<and> t_status t \<notin> {Approved, Done}) (d_tasks db)"

lemma own_unverified_step:
  assumes wf: "unique_ids (px_db px)" and own: "own_unverified a k (px_db px)" and a: "a \<noteq> []"
    and auth: "boundAgentId auth = Some a" and p: "patchTask px i now auth body tid = (env', db', res)"
  shows "own_unverified a k db'"
  unfolding own_unverified_def list_all_iff
proof (intro ballI impI)
  fix r' assume r': "r' \<in> set (d_tasks db')" "t_id r' = k"
  have "k \<in> set (map t_id (d_tasks (px_db px)))"
    using r' patchTask_ids [OF p] by (metis list.set_map imageI)
  then obtain r where r: "r \<in> set (d_tasks (px_db px))" "t_id r = k" by auto
  then have o: "t_assignee_agent_id r = Some a" "t_status r \<notin> {Approved, Done}"
    using own by (auto simp: own_unverified_def list_all_iff)
  have "r' = r \<or> (\<exists>e n rr. patchFields px i auth body r = (e, Inr (n, rr)) \<and> same_core r' n)"
    using patchTask_row [OF wf p r(1) r'(1)] r'(2) r(2) by argo
  then show "t_assignee_agent_id r' = Some a \<and> t_status r' \<notin> {Approved, Done}"
  proof (elim disjE exE conjE)
    assume "r' = r"
    with o show ?thesis by simp
  next
    fix e n rr assume f: "patchFields px i auth body r = (e, Inr (n, rr))" and c: "same_core r' n"
    have "assigneeCannotMutateOwnAssignment (boundAgentId auth) (t_status r) (t_assignee_agent_id r)"
      using o auth a by (cases "t_status r")
        (auto simp: assigneeCannotMutateOwnAssignment_def ASSIGNEE_STEERABLE_TOWARD_DONE_def)
    then have "t_assignee_agent_id n = Some a" using patchFields_own_assignee [OF f] o(1) by simp
    moreover have "t_status n \<notin> {Approved, Done}"
      using patchFields_moves [OF f] o auth a TRANSITIONS_to_Done [of "t_status r"]
      by (auto simp: assigneeSelfClose_def ASSIGNEE_UNVERIFIED_DONE_SOURCES_def split: if_splits)
    ultimately show ?thesis using c by (simp add: same_core_def)
  qed
qed

text \<open>C29: An agent cannot close its own task. Starting from any tables in which the task is assigned
  to the agent and neither approved nor done, after every sequence of requests by that agent,
  on this and on other tasks, the task is still assigned to it and still neither approved
  nor done: it can neither mark the task done, nor approve it, nor hand it over first.\<close>
theorem agent_cannot_close_own_task:
  assumes run: "agent_run a px px'" and wf: "unique_ids (px_db px)" and a: "a \<noteq> []"
    and own: "own_unverified a k (px_db px)"
  shows "own_unverified a k (px_db px') \<and> map t_id (d_tasks (px_db px')) = map t_id (d_tasks (px_db px))"
  using run
proof (induction rule: agent_run.induct)
  case (run_step px1 auth i now body tid env' db' res)
  have "unique_ids (px_db px1)" using wf run_step.IH by (simp add: unique_ids_def)
  then show ?case
    using own_unverified_step [OF _ _ a run_step.hyps(2,3)] patchTask_ids [OF run_step.hyps(3)] run_step.IH by simp
qed (simp add: own)

section \<open>Samples\<close>

definition agent_auth :: auth_context where
  "agent_auth = alice_auth\<lparr>auth_role := Role_member, boundAgentId := Some ''a'',
     capabilities := Some [\<lparr>g_member_id = ''alice'', g_scope_type = Squad, g_scope_id = Some ''s1'', g_capability = Member\<rparr>]\<rparr>"

definition sample_db :: task_db where
  "sample_db = \<lparr>d_tasks = [sample_task], d_archived = [], d_verdicts = [], d_freezes = [], d_reversals = [],
     d_projects = [], d_project_access = [], d_abort = (\<lambda>_ _. None)\<rparr>"

definition sample_patch :: patch_env where
  "sample_patch = \<lparr>px_bar = sample_bar, px_gates = sample_gates, px_db = sample_db, px_agentMember = (\<lambda>_. None),
     px_verifyEvidence = (\<lambda>e r. (e, r \<noteq> None)), px_holdRefuses = (\<lambda>_ _. False),
     px_canReleaseHold = (\<lambda>_ _. False), px_liftsHold = (\<lambda>_. False)\<rparr>"

text \<open>A request of the agent that is accepted: the task goes to review under a gate.\<close>

definition to_review :: patch_body where
  "to_review = [(''status'', JStr ''review'')]"

definition reviewable :: patch_env where
  "reviewable = sample_patch\<lparr>px_db := sample_db\<lparr>d_tasks := [sample_task\<lparr>t_result := Some ''Artifact: x'', t_gate_owner := Some ''gate:bee''\<rparr>]\<rparr>\<rparr>"

lemma unique_samples: "unique_ids (px_db sample_patch)" "unique_ids (px_db reviewable)"
  by code_simp+

definition reviewed :: "bar_env \<times> task_db \<times> (patch_error + task \<times> patch_effect list)" where
  "reviewed = patchTask reviewable ''e'' ''now'' agent_auth to_review ''t1''"

lemma reviewed_row:
  "map t_status (d_tasks (px_db reviewable)) = [In_progress]" "map t_status (d_tasks (fst (snd reviewed))) = [Review]"
  by code_simp+

lemma reviewed_eq: "patchTask reviewable ''e'' ''now'' agent_auth to_review ''t1'' = (fst reviewed, fst (snd reviewed), snd (snd reviewed))"
  by (simp add: reviewed_def)

theorem patch_status_integrity_witness:
  "t_status (hd (d_tasks (px_db reviewable))) = In_progress \<and> t_status (hd (d_tasks (fst (snd reviewed)))) = Review \<and>
   truthy (t_gate_owner (hd (d_tasks (fst (snd reviewed)))))"
proof -
  let ?r = "hd (d_tasks (px_db reviewable))" and ?s = "hd (d_tasks (fst (snd reviewed)))"
  have m: "?r \<in> set (d_tasks (px_db reviewable))" "?s \<in> set (d_tasks (fst (snd reviewed)))" "t_id ?s = t_id ?r"
    "t_status ?r = In_progress" "t_status ?s = Review" by code_simp+
  then show ?thesis using patch_status_integrity [OF unique_samples(2) reviewed_eq m(1-3)] by simp
qed

theorem patch_frozen_columns_witness:
  "t_assignee_agent_id (hd (d_tasks (fst (snd (patchTask (reviewable\<lparr>px_db := fst (snd reviewed)\<rparr>) ''e'' ''now'' alice_auth
      [(''assignee_agent_id'', JNull)] ''t1''))))) = Some ''a''"
proof -
  let ?px = "reviewable\<lparr>px_db := fst (snd reviewed)\<rparr>"
  let ?p = "patchTask ?px ''e'' ''now'' alice_auth [(''assignee_agent_id'', JNull)] ''t1''"
  let ?r = "hd (d_tasks (px_db ?px))" and ?s = "hd (d_tasks (fst (snd ?p)))"
  have p: "?p = (fst ?p, fst (snd ?p), snd (snd ?p))" by simp
  have u: "unique_ids (px_db ?px)" by code_simp
  have m: "?r \<in> set (d_tasks (px_db ?px))" by code_simp
  have m': "?s \<in> set (d_tasks (fst (snd ?p)))" by code_simp
  have i: "t_id ?s = t_id ?r" by code_simp
  have "t_status ?r = Review" "t_assignee_agent_id ?r = Some ''a''" by code_simp+
  then show ?thesis using patch_frozen_columns [OF u p m m' i] by simp
qed

theorem patch_needs_member_witness:
  "d_tasks (fst (snd reviewed)) \<noteq> d_tasks (px_db reviewable) \<and>
   (\<exists>t. first_row (\<lambda>t. t_id t = ''t1'') (d_tasks (px_db reviewable)) = Some t \<and>
      canActOnSquad (b_auth (px_bar reviewable)) agent_auth (t_squad_id t) Member)"
proof -
  have "d_tasks (fst (snd reviewed)) \<noteq> d_tasks (px_db reviewable)" using reviewed_row by force
  then show ?thesis using patch_needs_member [OF reviewed_eq] by blast
qed

theorem agent_cannot_close_own_task_witness:
  "agent_run ''a'' reviewable (reviewable\<lparr>px_bar := fst reviewed, px_db := fst (snd reviewed)\<rparr>) \<and>
   own_unverified ''a'' ''t1'' (fst (snd reviewed))"
proof -
  have "boundAgentId agent_auth = Some ''a''" by (simp add: agent_auth_def)
  then have run: "agent_run ''a'' reviewable (reviewable\<lparr>px_bar := fst reviewed, px_db := fst (snd reviewed)\<rparr>)"
    using agent_run.run_step [OF agent_run.run_nil _ reviewed_eq] by blast
  moreover have "own_unverified ''a'' ''t1'' (px_db reviewable)" by code_simp
  ultimately show ?thesis using agent_cannot_close_own_task [OF run unique_samples(2)] by simp
qed

section \<open>Two requests the guards do not stop\<close>

text \<open>Completion reads the stored success predicate and not the one the same request writes: a
  request that marks a task done and at once replaces its predicate by a placeholder is
  accepted and leaves a done task whose predicate the completion gate refuses.\<close>
theorem done_with_placeholder_predicate:
  "\<exists>e db t fx. patchTask (sample_patch\<lparr>px_db := sample_db\<lparr>d_tasks := [sample_task\<lparr>t_assignee_agent_id := None\<rparr>]\<rparr>\<rparr>)
       ''e'' ''now'' alice_auth [(''status'', JStr ''done''), (''done_when'', JStr ''(backfill required)'')] ''t1'' =
     (e, db, Inr (t, fx)) \<and> d_tasks db = [t] \<and> t_status t = Done \<and>
     assertCompletableDoneWhen (t_done_when t) = Some Done_when_placeholder"
proof -
  let ?p = "patchTask (sample_patch\<lparr>px_db := sample_db\<lparr>d_tasks := [sample_task\<lparr>t_assignee_agent_id := None\<rparr>]\<rparr>\<rparr>)
       ''e'' ''now'' alice_auth [(''status'', JStr ''done''), (''done_when'', JStr ''(backfill required)'')] ''t1''"
  have "(case ?p of (e, db, Inr (t, fx)) \<Rightarrow> d_tasks db = [t] \<and> t_status t = Done \<and>
     assertCompletableDoneWhen (t_done_when t) = Some Done_when_placeholder | _ \<Rightarrow> False)" by code_simp
  then show ?thesis by (auto split: prod.splits sum.splits)
qed

text \<open>The direct-completion guard for ungated tasks reads the gate the request asks for, the gate
  guard the gate the row has: one request that sets a gate and marks an agent's ungated task
  done passes both, with a verifier that refuses every piece of evidence and with no verdict.\<close>
theorem gate_and_done_skip_both_checks:
  "\<exists>e db t fx. patchTask (sample_patch\<lparr>px_verifyEvidence := \<lambda>e r. (e, False)\<rparr>) ''e'' ''now'' alice_auth
       [(''status'', JStr ''done''), (''gate_owner'', JStr ''gate:bee'')] ''t1'' = (e, db, Inr (t, fx)) \<and>
     d_tasks db = [t] \<and> t_status t = Done \<and> t_gate_owner t = Some ''gate:bee'' \<and> t_result t = None \<and> d_verdicts db = []"
proof -
  let ?p = "patchTask (sample_patch\<lparr>px_verifyEvidence := \<lambda>e r. (e, False)\<rparr>) ''e'' ''now'' alice_auth
       [(''status'', JStr ''done''), (''gate_owner'', JStr ''gate:bee'')] ''t1''"
  have "(case ?p of (e, db, Inr (t, fx)) \<Rightarrow>
     d_tasks db = [t] \<and> t_status t = Done \<and> t_gate_owner t = Some ''gate:bee'' \<and> t_result t = None \<and> d_verdicts db = []
     | _ \<Rightarrow> False)" by code_simp
  then show ?thesis by (auto split: prod.splits sum.splits)
qed

end
