(* ===== verification/Flight_Meta.thy ===== *)
theory Flight_Meta
  imports Task_Update
begin

text \<open>
  The contract of a flight: the parser of \<open>mupot.flight.meta/v1\<close> and the check of its
  references (\<^verbatim>\<open>src/flight/meta.ts\<close>), and the SQL predicate that repeats the parser on
  stored rows (\<^verbatim>\<open>src/flight/meta-sql.ts\<close>). The theorems show that parsing is a bounded
  normal form, that what the parser returns parses back to itself, and that the SQL predicate
  accepts exactly the rows the parser accepts, apart from huge revisions and NUL characters.
\<close>

section \<open>The parsed contract\<close>

datatype confidentiality = Private | Internal | Public_projection

datatype publication_target = Publish_none | Inkwell_draft | Mumega_com

record flight_meta =
  fm_goal_id :: string
  fm_objective_id :: string
  fm_squad_ids :: "string list"
  fm_task_ids :: "string list"
  fm_done_when :: "string list"
  fm_artifact_refs :: "string list"
  fm_receipt_refs :: "string list"
  fm_confidentiality :: confidentiality
  fm_publication_target :: publication_target
  fm_parent_flight_id :: "string option"
  fm_routine_run_id :: "string option"
  fm_routine_revision :: "int option"
  fm_timeout_ms :: "int option"

definition FLIGHT_META_V1_SCHEMA :: string where
  "FLIGHT_META_V1_SCHEMA = ''mupot.flight.meta/v1''"

definition FLIGHT_META_TIMEOUT_MS_MIN :: int where
  "FLIGHT_META_TIMEOUT_MS_MIN = 5 * 60 * 1000"

definition FLIGHT_META_TIMEOUT_MS_MAX :: int where
  "FLIGHT_META_TIMEOUT_MS_MAX = 24 * 60 * 60 * 1000"

definition KEYS :: "string list" where
  "KEYS = [''schema'', ''goal_id'', ''objective_id'', ''squad_ids'', ''task_ids'', ''done_when'', ''artifact_refs'',
     ''receipt_refs'', ''confidentiality'', ''publication_target'', ''parent_flight_id'', ''routine_run_id'',
     ''routine_revision'', ''timeout_ms'']"

text \<open>\<open>Number.isSafeInteger\<close>: an integer of magnitude below \<open>2\<^sup>53\<close>.\<close>

definition isFlightMetaTimeoutMs :: "json option \<Rightarrow> bool" where
  "isFlightMetaTimeoutMs v =
     (case v of
        Some (JNum i) \<Rightarrow> \<bar>i\<bar> < 2 ^ 53 \<and> FLIGHT_META_TIMEOUT_MS_MIN \<le> i \<and> i \<le> FLIGHT_META_TIMEOUT_MS_MAX
      | _ \<Rightarrow> False)"

definition boundedString :: "json option \<Rightarrow> nat \<Rightarrow> bool" where
  "boundedString v m = (case as_string v of Some s \<Rightarrow> length (trim s) > 0 \<and> utf8_length s \<le> m | None \<Rightarrow> False)"

definition boundedStrings :: "json option \<Rightarrow> nat \<Rightarrow> nat \<Rightarrow> bool \<Rightarrow> bool" where
  "boundedStrings v maxItems maxLength nonEmpty =
     (case v of
        Some (JArr xs) \<Rightarrow> (\<not> nonEmpty \<or> length xs > 0) \<and> length xs \<le> maxItems \<and>
          list_all (\<lambda>x. boundedString (Some x) maxLength) xs
      | _ \<Rightarrow> False)"

definition confidentialities :: "(string \<times> confidentiality) list" where
  "confidentialities = [(''private'', Private), (''internal'', Internal), (''public-projection'', Public_projection)]"

definition publication_targets :: "(string \<times> publication_target) list" where
  "publication_targets = [(''none'', Publish_none), (''inkwell-draft'', Inkwell_draft), (''mumega.com'', Mumega_com)]"

text \<open>\<open>[...].includes(v)\<close> for the two enumerations: the value it names.\<close>

definition enum_of :: "(string \<times> 'a) list \<Rightarrow> json option \<Rightarrow> 'a option" where
  "enum_of table v = Option.bind (as_string v) (map_of table)"

definition isRevision :: "json option \<Rightarrow> bool" where
  "isRevision v = (case v of Some (JNum i) \<Rightarrow> 1 \<le> i | _ \<Rightarrow> False)"

definition strings_of :: "json option \<Rightarrow> string list" where
  "strings_of v = (case v of Some (JArr xs) \<Rightarrow> List.map_filter (\<lambda>x. as_string (Some x)) xs | _ \<Rightarrow> [])"

definition int_of :: "json option \<Rightarrow> int option" where
  "int_of v = (case v of Some (JNum i) \<Rightarrow> Some i | _ \<Rightarrow> None)"

definition parseFlightMetaV1 :: "json \<Rightarrow> flight_meta option" where
  "parseFlightMetaV1 raw =
     (case raw of
        JObj meta \<Rightarrow>
          let f = (\<lambda>k. field meta k) in
          if utf8_length (stringify raw) > 16384 then None
          else if list_ex (\<lambda>(k, _). k \<notin> set KEYS) meta then None
          else if as_string (f ''schema'') \<noteq> Some FLIGHT_META_V1_SCHEMA then None
          else if \<not> boundedString (f ''goal_id'') 200 then None
          else if \<not> boundedString (f ''objective_id'') 200 then None
          else if \<not> boundedStrings (f ''squad_ids'') 8 200 True then None
          else if \<not> boundedStrings (f ''task_ids'') 200 200 True then None
          else if \<not> boundedStrings (f ''done_when'') 100 1000 True then None
          else if \<not> boundedStrings (f ''artifact_refs'') 200 2000 False then None
          else if \<not> boundedStrings (f ''receipt_refs'') 200 2000 False then None
          else (case enum_of confidentialities (f ''confidentiality'') of
            None \<Rightarrow> None
          | Some conf \<Rightarrow>
              (case enum_of publication_targets (f ''publication_target'') of
                 None \<Rightarrow> None
               | Some target \<Rightarrow>
                   if f ''parent_flight_id'' \<noteq> Some JNull \<and> \<not> boundedString (f ''parent_flight_id'') 200 then None
                   else if f ''routine_run_id'' \<noteq> None \<and> \<not> boundedString (f ''routine_run_id'') 200 then None
                   else if f ''routine_revision'' \<noteq> None \<and> \<not> isRevision (f ''routine_revision'') then None
                   else if f ''timeout_ms'' \<noteq> None \<and> \<not> isFlightMetaTimeoutMs (f ''timeout_ms'') then None
                   else Some \<lparr>fm_goal_id = the (as_string (f ''goal_id'')),
                     fm_objective_id = the (as_string (f ''objective_id'')),
                     fm_squad_ids = unique (strings_of (f ''squad_ids'')),
                     fm_task_ids = unique (strings_of (f ''task_ids'')),
                     fm_done_when = strings_of (f ''done_when''),
                     fm_artifact_refs = strings_of (f ''artifact_refs''),
                     fm_receipt_refs = strings_of (f ''receipt_refs''),
                     fm_confidentiality = conf, fm_publication_target = target,
                     fm_parent_flight_id = as_string (f ''parent_flight_id''),
                     fm_routine_run_id = as_string (f ''routine_run_id''),
                     fm_routine_revision = int_of (f ''routine_revision''),
                     fm_timeout_ms = int_of (f ''timeout_ms'')\<rparr>))
      | _ \<Rightarrow> None)"

section \<open>The SQL predicate on stored rows\<close>

text \<open>
  Over the stored text that \<open>createFlight\<close> wrote with \<open>JSON.stringify\<close>, so that \<open>json(meta)\<close> is
  that text again; \<open>json_each\<close> and \<open>json_extract\<close> read the parsed value. \<open>length\<close> on SQLite text
  counts the characters before the first NUL, a cast to BLOB counts bytes. A number whose text has an exponent, which an
  integer has from \<open>10\<^sup>21\<close> on, is of type \<open>real\<close>.
\<close>

datatype json_type_name = T_null | T_true | T_false | T_integer | T_real | T_text | T_array | T_object

fun json_type :: "json \<Rightarrow> json_type_name" where
  "json_type JNull = T_null"
| "json_type (JBool b) = (if b then T_true else T_false)"
| "json_type (JNum i) = (if \<bar>i\<bar> < 10 ^ 21 then T_integer else T_real)"
| "json_type JFrac = T_real"
| "json_type (JStr s) = T_text"
| "json_type (JArr xs) = T_array"
| "json_type (JObj kvs) = T_object"

definition sql_text_length :: "string \<Rightarrow> nat" where
  "sql_text_length s = length (takeWhile (\<lambda>c. c \<noteq> CHR 0x00) s)"

definition trimmedTextSql :: "string \<Rightarrow> string" where
  "trimmedTextSql s = trim s"

definition boundedTextSql :: "string \<Rightarrow> nat \<Rightarrow> bool" where
  "boundedTextSql s m \<longleftrightarrow> sql_text_length (trimmedTextSql s) > 0 \<and> utf8_length s \<le> m"

definition boundedFlightMetaTextSql :: "json option \<Rightarrow> nat \<Rightarrow> bool" where
  "boundedFlightMetaTextSql v m = (case v of Some (JStr s) \<Rightarrow> boundedTextSql s m | _ \<Rightarrow> False)"

definition boundedFlightMetaArraySql :: "json option \<Rightarrow> nat \<Rightarrow> nat \<Rightarrow> bool \<Rightarrow> bool" where
  "boundedFlightMetaArraySql v maxItems maxLength nonEmpty =
     (case v of
        Some (JArr xs) \<Rightarrow>
          (if nonEmpty then 1 \<le> length xs \<and> length xs \<le> maxItems else length xs \<le> maxItems) \<and>
          \<not> list_ex (\<lambda>x. json_type x \<noteq> T_text \<or> \<not> boundedFlightMetaTextSql (Some x) maxLength) xs
      | _ \<Rightarrow> False)"

definition canonicalFlightMetaSql :: "json \<Rightarrow> bool" where
  "canonicalFlightMetaSql m =
     (case m of
        JObj meta \<Rightarrow>
          let f = (\<lambda>k. field meta k); ty = (\<lambda>k. map_option json_type (field meta k)) in
          utf8_length (stringify m) \<le> 16384 \<and>
          \<not> list_ex (\<lambda>(k, _). k \<notin> set KEYS) meta \<and>
          distinct (map fst meta) \<and>
          f ''schema'' = Some (JStr ''mupot.flight.meta/v1'') \<and>
          boundedFlightMetaTextSql (f ''goal_id'') 200 \<and>
          boundedFlightMetaTextSql (f ''objective_id'') 200 \<and>
          boundedFlightMetaArraySql (f ''squad_ids'') 8 200 True \<and>
          boundedFlightMetaArraySql (f ''task_ids'') 200 200 True \<and>
          boundedFlightMetaArraySql (f ''done_when'') 100 1000 True \<and>
          boundedFlightMetaArraySql (f ''artifact_refs'') 200 2000 False \<and>
          boundedFlightMetaArraySql (f ''receipt_refs'') 200 2000 False \<and>
          f ''confidentiality'' \<in> {Some (JStr ''private''), Some (JStr ''internal''), Some (JStr ''public-projection'')} \<and>
          f ''publication_target'' \<in> {Some (JStr ''none''), Some (JStr ''inkwell-draft''), Some (JStr ''mumega.com'')} \<and>
          ty ''parent_flight_id'' \<in> {Some T_null, Some T_text} \<and>
          (ty ''parent_flight_id'' = Some T_null \<or> boundedFlightMetaTextSql (f ''parent_flight_id'') 200) \<and>
          (ty ''routine_run_id'' = None \<or> boundedFlightMetaTextSql (f ''routine_run_id'') 200) \<and>
          (ty ''routine_revision'' = None \<or>
             ty ''routine_revision'' = Some T_integer \<and> (case f ''routine_revision'' of Some (JNum i) \<Rightarrow> i > 0 | _ \<Rightarrow> False)) \<and>
          (ty ''timeout_ms'' = None \<or>
             ty ''timeout_ms'' = Some T_integer \<and> (case f ''timeout_ms'' of Some (JNum i) \<Rightarrow>
                FLIGHT_META_TIMEOUT_MS_MIN \<le> i \<and> i \<le> FLIGHT_META_TIMEOUT_MS_MAX | _ \<Rightarrow> False))
      | _ \<Rightarrow> False)"

definition readableFlightSql :: "json \<Rightarrow> string list \<Rightarrow> bool" where
  "readableFlightSql m readableIds \<longleftrightarrow>
     canonicalFlightMetaSql m \<and>
     (case m of JObj meta \<Rightarrow> list_all (\<lambda>s. s \<in> set readableIds) (strings_of (field meta ''squad_ids'')) | _ \<Rightarrow> True)"

section \<open>References\<close>

datatype meta_reference_error =
    Flight_squad_not_found string | Flight_task_not_found string | Flight_task_scope_mismatch string
  | Flight_task_project_mismatch string | Meta_task_archived string

definition D1_ID_QUERY_CHUNK_SIZE :: nat where
  "D1_ID_QUERY_CHUNK_SIZE = 90"

definition loadFlightSquads :: "squad_scope list \<Rightarrow> string list \<Rightarrow> squad_scope list" where
  "loadFlightSquads squads squadIds =
     concat (map (\<lambda>chunk. filter (\<lambda>s. sq_id s \<in> set chunk) squads) (chunks D1_ID_QUERY_CHUNK_SIZE squadIds))"

text \<open>The rows of the chunked task read, and \<open>new Map(rows)\<close> over them, in which a later row of
  the same id replaces an earlier one.\<close>

definition load_tasks :: "task_db \<Rightarrow> string list \<Rightarrow> task list" where
  "load_tasks db taskIds =
     concat (map (\<lambda>chunk. filter (\<lambda>t. t_id t \<in> set chunk \<and> \<not> isTaskArchived db (t_id t)) (d_tasks db))
       (chunks D1_ID_QUERY_CHUNK_SIZE taskIds))"

definition tasks_by_id :: "task list \<Rightarrow> string \<Rightarrow> task option" where
  "tasks_by_id rows = map_of (map (\<lambda>t. (t_id t, t)) (rev rows))"

fun check_tasks :: "task_db \<Rightarrow> (string \<Rightarrow> task option) \<Rightarrow> string list \<Rightarrow> string option \<Rightarrow> string list \<Rightarrow> meta_reference_error option" where
  "check_tasks db lookup squadIds projectId [] = None"
| "check_tasks db lookup squadIds projectId (taskId # rest) =
     (case lookup taskId of
        None \<Rightarrow> if isTaskArchived db taskId then Some (Meta_task_archived taskId) else Some (Flight_task_not_found taskId)
      | Some t \<Rightarrow>
          if t_squad_id t \<notin> set squadIds then Some (Flight_task_scope_mismatch taskId)
          else if projectId \<noteq> None \<and> t_project_id t \<noteq> projectId then Some (Flight_task_project_mismatch taskId)
          else check_tasks db lookup squadIds projectId rest)"

definition validateFlightMetaReferences ::
  "squad_scope list \<Rightarrow> task_db \<Rightarrow> flight_meta \<Rightarrow> string option \<Rightarrow> meta_reference_error option" where
  "validateFlightMetaReferences squads db meta projectId =
     (let foundSquads = map sq_id (loadFlightSquads squads (fm_squad_ids meta)) in
      case find (\<lambda>i. i \<notin> set foundSquads) (fm_squad_ids meta) of
        Some i \<Rightarrow> if i \<noteq> [] then Some (Flight_squad_not_found i) else
          check_tasks db (tasks_by_id (load_tasks db (fm_task_ids meta))) (fm_squad_ids meta) projectId (fm_task_ids meta)
      | None \<Rightarrow> check_tasks db (tasks_by_id (load_tasks db (fm_task_ids meta))) (fm_squad_ids meta) projectId (fm_task_ids meta))"

section \<open>The two readers agree\<close>

fun nul_free :: "json \<Rightarrow> bool" where
  "nul_free (JStr s) \<longleftrightarrow> CHR 0x00 \<notin> set s"
| "nul_free (JArr xs) \<longleftrightarrow> list_all nul_free xs"
| "nul_free (JObj kvs) \<longleftrightarrow> list_all (\<lambda>(k, v). nul_free v) kvs"
| "nul_free _ \<longleftrightarrow> True"

lemma set_trim: "set (trim s) \<subseteq> set s"
  by (auto simp: trim_def dest!: set_dropWhileD)

lemma sql_text_length_nul_free: "CHR 0x00 \<notin> set s \<Longrightarrow> sql_text_length (trim s) = length (trim s)"
proof -
  assume "CHR 0x00 \<notin> set s"
  then have "\<forall>c \<in> set (trim s). c \<noteq> CHR 0x00" using set_trim by blast
  then have "takeWhile (\<lambda>c. c \<noteq> CHR 0x00) (trim s) = trim s" using takeWhile_eq_all_conv by blast
  then show ?thesis unfolding sql_text_length_def by (rule arg_cong)
qed

lemma boundedText_agrees:
  assumes "\<And>x. v = Some x \<Longrightarrow> nul_free x"
  shows "boundedFlightMetaTextSql v m = boundedString v m"
proof (cases v)
  case (Some x)
  with assms have "nul_free x" by simp
  with Some show ?thesis
    by (cases x) (simp_all add: boundedFlightMetaTextSql_def boundedString_def as_string_def boundedTextSql_def
      trimmedTextSql_def sql_text_length_nul_free)
qed (simp add: boundedFlightMetaTextSql_def boundedString_def)

lemma boundedText_is_text: "boundedFlightMetaTextSql (Some x) m \<Longrightarrow> json_type x = T_text"
  by (cases x) (simp_all add: boundedFlightMetaTextSql_def)

lemma boundedArray_agrees:
  assumes "\<And>x. v = Some x \<Longrightarrow> nul_free x"
  shows "boundedFlightMetaArraySql v n m ne = boundedStrings v n m ne"
proof (cases "\<exists>xs. v = Some (JArr xs)")
  case True
  then obtain xs where v: "v = Some (JArr xs)" by blast
  with assms have "\<forall>x \<in> set xs. nul_free x" by (simp add: list_all_iff)
  then have "\<forall>x \<in> set xs. boundedFlightMetaTextSql (Some x) m = boundedString (Some x) m"
    using boundedText_agrees by blast
  then show ?thesis
    using boundedText_is_text
    by (auto simp: v boundedFlightMetaArraySql_def boundedStrings_def list_all_iff list_ex_iff Suc_le_eq)
next
  case False
  then show ?thesis
    by (simp add: boundedFlightMetaArraySql_def boundedStrings_def split: option.splits json.splits)
qed

lemma enum_of_Some_iff: "(\<exists>c. enum_of table v = Some c) \<longleftrightarrow> (\<exists>s c. v = Some (JStr s) \<and> map_of table s = Some c)"
  by (auto simp: enum_of_def as_string_def split: option.splits json.splits)

lemma enums_agree:
  "(\<exists>c. enum_of confidentialities v = Some c) \<longleftrightarrow>
     v \<in> {Some (JStr ''private''), Some (JStr ''internal''), Some (JStr ''public-projection'')}"
  "(\<exists>c. enum_of publication_targets v = Some c) \<longleftrightarrow>
     v \<in> {Some (JStr ''none''), Some (JStr ''inkwell-draft''), Some (JStr ''mumega.com'')}"
  unfolding enum_of_Some_iff by (auto simp: confidentialities_def publication_targets_def split: if_splits)

lemma as_string_Some_iff: "as_string v = Some s \<longleftrightarrow> v = Some (JStr s)"
  by (auto simp: as_string_def split: option.splits json.splits)

text \<open>The parser's checks as one condition.\<close>

definition meta_ok :: "(string \<times> json) list \<Rightarrow> bool" where
  "meta_ok meta \<longleftrightarrow>
     utf8_length (stringify (JObj meta)) \<le> 16384 \<and> (\<forall>k \<in> fst ` set meta. k \<in> set KEYS) \<and>
     field meta ''schema'' = Some (JStr FLIGHT_META_V1_SCHEMA) \<and>
     boundedString (field meta ''goal_id'') 200 \<and> boundedString (field meta ''objective_id'') 200 \<and>
     boundedStrings (field meta ''squad_ids'') 8 200 True \<and> boundedStrings (field meta ''task_ids'') 200 200 True \<and>
     boundedStrings (field meta ''done_when'') 100 1000 True \<and>
     boundedStrings (field meta ''artifact_refs'') 200 2000 False \<and>
     boundedStrings (field meta ''receipt_refs'') 200 2000 False \<and>
     (\<exists>c. enum_of confidentialities (field meta ''confidentiality'') = Some c) \<and>
     (\<exists>c. enum_of publication_targets (field meta ''publication_target'') = Some c) \<and>
     (field meta ''parent_flight_id'' = Some JNull \<or> boundedString (field meta ''parent_flight_id'') 200) \<and>
     (field meta ''routine_run_id'' = None \<or> boundedString (field meta ''routine_run_id'') 200) \<and>
     (field meta ''routine_revision'' = None \<or> isRevision (field meta ''routine_revision'')) \<and>
     (field meta ''timeout_ms'' = None \<or> isFlightMetaTimeoutMs (field meta ''timeout_ms''))"

definition built_meta :: "(string \<times> json) list \<Rightarrow> flight_meta" where
  "built_meta meta = \<lparr>fm_goal_id = the (as_string (field meta ''goal_id'')),
     fm_objective_id = the (as_string (field meta ''objective_id'')),
     fm_squad_ids = unique (strings_of (field meta ''squad_ids'')), fm_task_ids = unique (strings_of (field meta ''task_ids'')),
     fm_done_when = strings_of (field meta ''done_when''), fm_artifact_refs = strings_of (field meta ''artifact_refs''),
     fm_receipt_refs = strings_of (field meta ''receipt_refs''),
     fm_confidentiality = the (enum_of confidentialities (field meta ''confidentiality'')),
     fm_publication_target = the (enum_of publication_targets (field meta ''publication_target'')),
     fm_parent_flight_id = as_string (field meta ''parent_flight_id''),
     fm_routine_run_id = as_string (field meta ''routine_run_id''),
     fm_routine_revision = int_of (field meta ''routine_revision''), fm_timeout_ms = int_of (field meta ''timeout_ms'')\<rparr>"

lemma if_None_left: "(if c then None else e) = (if \<not> c then e else None)"
  by simp

lemma if_None_nest: "(if a then if b then x else None else None) = (if a \<and> b then x else None)"
  by simp

lemma parse_JObj: "parseFlightMetaV1 (JObj meta) = (if meta_ok meta then Some (built_meta meta) else None)"
proof (cases "(\<exists>c. enum_of confidentialities (field meta ''confidentiality'') = Some c) \<and>
    (\<exists>d. enum_of publication_targets (field meta ''publication_target'') = Some d)")
  case True
  then obtain c d where e: "enum_of confidentialities (field meta ''confidentiality'') = Some c"
    "enum_of publication_targets (field meta ''publication_target'') = Some d" by blast
  show ?thesis
    unfolding parseFlightMetaV1_def json.case Let_def e option.case if_None_left if_None_nest
  proof (intro if_cong)
    show "Some \<lparr>fm_goal_id = the (as_string (field meta ''goal_id'')),
         fm_objective_id = the (as_string (field meta ''objective_id'')),
         fm_squad_ids = unique (strings_of (field meta ''squad_ids'')), fm_task_ids = unique (strings_of (field meta ''task_ids'')),
         fm_done_when = strings_of (field meta ''done_when''), fm_artifact_refs = strings_of (field meta ''artifact_refs''),
         fm_receipt_refs = strings_of (field meta ''receipt_refs''), fm_confidentiality = c, fm_publication_target = d,
         fm_parent_flight_id = as_string (field meta ''parent_flight_id''),
         fm_routine_run_id = as_string (field meta ''routine_run_id''),
         fm_routine_revision = int_of (field meta ''routine_revision''),
         fm_timeout_ms = int_of (field meta ''timeout_ms'')\<rparr> = Some (built_meta meta)"
      by (simp only: built_meta_def e option.sel)
  qed (auto simp: meta_ok_def e list_ex_iff as_string_Some_iff simp del: stringify.simps)
next
  case False
  then have "\<not> meta_ok meta" unfolding meta_ok_def by blast
  moreover have "parseFlightMetaV1 (JObj meta) = None"
    using False by (auto simp: parseFlightMetaV1_def Let_def simp del: stringify.simps split: option.split)
  ultimately show ?thesis by simp
qed

lemma parse_Some_iff: "parseFlightMetaV1 raw = Some m \<longleftrightarrow> (\<exists>meta. raw = JObj meta \<and> meta_ok meta \<and> m = built_meta meta)"
proof (cases "\<exists>meta. raw = JObj meta")
  case True
  then show ?thesis by (auto simp: parse_JObj split: if_splits)
next
  case False
  then show ?thesis by (cases raw) (simp_all add: parseFlightMetaV1_def)
qed

text \<open>C36: The SQL predicate that readers apply to stored flights mirrors the parser. For every object with distinct keys, as
  \<open>JSON.parse\<close> returns them, and no NUL character in its texts, it accepts the contract exactly when the parser does and the routine
  revision, where there is one, is below \<open>10\<^sup>21\<close>. Both exceptions are real: a larger revision is stored in exponent form, which
  SQLite takes for a real (\<open>huge_revision_unreadable\<close>), and it measures a text up to its first NUL (\<open>nul_text_unreadable\<close>).\<close>
theorem canonical_sql_mirrors_parser:
  assumes "distinct (map fst meta)" "nul_free (JObj meta)"
  shows "canonicalFlightMetaSql (JObj meta) \<longleftrightarrow>
    parseFlightMetaV1 (JObj meta) \<noteq> None \<and> (\<forall>i. field meta ''routine_revision'' = Some (JNum i) \<longrightarrow> i < 10 ^ 21)"
proof -
  have nf: "nul_free x" if "field meta k = Some x" for k x
    using assms(2) map_of_SomeD [OF that] by (auto simp: list_all_iff)
  have agree: "boundedFlightMetaTextSql (field meta k) n = boundedString (field meta k) n"
    "boundedFlightMetaArraySql (field meta k) n l b = boundedStrings (field meta k) n l b" for k n l b
    by (rule boundedText_agrees boundedArray_agrees, erule nf)+
  have parent: "map_option json_type v \<in> {Some T_null, Some T_text} \<and>
      (map_option json_type v = Some T_null \<or> boundedString v n) \<and> R \<longleftrightarrow> (v = Some JNull \<or> boundedString v n) \<and> R" for v n R
    by (cases v; cases "the v") (auto simp: boundedString_def as_string_def)
  have revision: "(map_option json_type v = None \<or>
        map_option json_type v = Some T_integer \<and> (case v of Some (JNum i) \<Rightarrow> i > 0 | _ \<Rightarrow> False)) \<longleftrightarrow>
      (v = None \<or> isRevision v) \<and> (\<forall>i. v = Some (JNum i) \<longrightarrow> i < 10 ^ 21)" for v
    by (cases v; cases "the v") (auto simp: isRevision_def)
  have timeout: "(map_option json_type v = None \<or>
        map_option json_type v = Some T_integer \<and> (case v of Some (JNum i) \<Rightarrow>
          FLIGHT_META_TIMEOUT_MS_MIN \<le> i \<and> i \<le> FLIGHT_META_TIMEOUT_MS_MAX | _ \<Rightarrow> False)) \<longleftrightarrow>
      v = None \<or> isFlightMetaTimeoutMs v" for v
    by (cases v; cases "the v") (auto simp: isFlightMetaTimeoutMs_def FLIGHT_META_TIMEOUT_MS_MIN_def FLIGHT_META_TIMEOUT_MS_MAX_def)
  have run: "map_option json_type v = None \<longleftrightarrow> v = None" for v by simp
  have keys: "\<not> list_ex (\<lambda>(k, _). k \<notin> set KEYS) meta \<longleftrightarrow> (\<forall>k \<in> fst ` set meta. k \<in> set KEYS)"
    by (auto simp: list_ex_iff)
  have "canonicalFlightMetaSql (JObj meta) \<longleftrightarrow>
      meta_ok meta \<and> (\<forall>i. field meta ''routine_revision'' = Some (JNum i) \<longrightarrow> i < 10 ^ 21)"
    unfolding canonicalFlightMetaSql_def meta_ok_def json.case Let_def enums_agree agree keys revision timeout parent
      FLIGHT_META_V1_SCHEMA_def unfolding run
    by (simp only: assms(1) simp_thms conj_ac)
  then show ?thesis by (simp add: parse_JObj)
qed

section \<open>Parsing is a normal form\<close>

fun confidentiality_name :: "confidentiality \<Rightarrow> string" where
  "confidentiality_name Private = ''private''"
| "confidentiality_name Internal = ''internal''"
| "confidentiality_name Public_projection = ''public-projection''"

fun target_name :: "publication_target \<Rightarrow> string" where
  "target_name Publish_none = ''none''"
| "target_name Inkwell_draft = ''inkwell-draft''"
| "target_name Mumega_com = ''mumega.com''"

text \<open>The object literal the parser returns, which \<open>createFlight\<close> stores with \<open>JSON.stringify\<close>.\<close>

definition meta_fields :: "flight_meta \<Rightarrow> (string \<times> json) list" where
  "meta_fields m =
     ([(''schema'', JStr FLIGHT_META_V1_SCHEMA), (''goal_id'', JStr (fm_goal_id m)), (''objective_id'', JStr (fm_objective_id m)),
       (''squad_ids'', JArr (map JStr (fm_squad_ids m))), (''task_ids'', JArr (map JStr (fm_task_ids m))),
       (''done_when'', JArr (map JStr (fm_done_when m))), (''artifact_refs'', JArr (map JStr (fm_artifact_refs m))),
       (''receipt_refs'', JArr (map JStr (fm_receipt_refs m))),
       (''confidentiality'', JStr (confidentiality_name (fm_confidentiality m))),
       (''publication_target'', JStr (target_name (fm_publication_target m))),
       (''parent_flight_id'', case fm_parent_flight_id m of None \<Rightarrow> JNull | Some p \<Rightarrow> JStr p)] @
      (case fm_routine_run_id m of None \<Rightarrow> [] | Some r \<Rightarrow> [(''routine_run_id'', JStr r)]) @
      (case fm_routine_revision m of None \<Rightarrow> [] | Some r \<Rightarrow> [(''routine_revision'', JNum r)]) @
      (case fm_timeout_ms m of None \<Rightarrow> [] | Some t \<Rightarrow> [(''timeout_ms'', JNum t)]))"

definition meta_json :: "flight_meta \<Rightarrow> json" where
  "meta_json m = JObj (meta_fields m)"

abbreviation json_size :: "json \<Rightarrow> nat" where
  "json_size v \<equiv> utf8_length (stringify v)"

lemma utf8_append: "utf8_length (a @ b) = utf8_length a + utf8_length b"
  by (induction a) auto

lemma utf8_join: "xs \<noteq> [] \<Longrightarrow> utf8_length (join '','' xs) + 1 = sum_list (map (\<lambda>x. utf8_length x + 1) xs)"
  by (induction "'',''" xs rule: join.induct) (auto simp: utf8_append)

lemma json_size_arr: "json_size (JArr xs) = (if xs = [] then 2 else 1 + sum_list (map (\<lambda>x. json_size x + 1) xs))"
  using utf8_join [of "map stringify xs"] by (auto simp: utf8_append comp_def)

lemma json_size_obj:
  "json_size (JObj kvs) = (if kvs = [] then 2 else 1 + sum_list (map (\<lambda>(k, v). utf8_length (quote k) + json_size v + 2) kvs))"
proof -
  have "utf8_length ((case kv of (k, v) \<Rightarrow> quote k @ '':'' @ stringify v)) + 1 =
      (case kv of (k, v) \<Rightarrow> utf8_length (quote k) + json_size v + 2)" for kv
    by (cases kv) (simp add: utf8_append)
  then show ?thesis
    using utf8_join [of "map (\<lambda>(k, v). quote k @ '':'' @ stringify v) kvs"] by (auto simp: utf8_append comp_def)
qed

lemma sum_unique_from: "sum_list (map f (unique_from seen xs)) \<le> (sum_list (map f xs) :: nat)"
  by (induction seen xs rule: unique_from.induct) auto

lemma json_size_unique: "json_size (JArr (map JStr (unique ss))) \<le> json_size (JArr (map JStr ss))"
  using sum_unique_from [of "\<lambda>s. json_size (JStr s) + 1" "[]" ss] unique_eq_Nil [of ss]
  by (auto simp: json_size_arr unique_def comp_def simp del: stringify.simps)

text \<open>An object whose keys are among another's, with values no longer, is no longer.\<close>

lemma json_size_obj_mono:
  assumes "distinct (map fst a)" "distinct (map fst b)" "a \<noteq> []"
    and sub: "\<And>k v. map_of a k = Some v \<Longrightarrow> \<exists>w. map_of b k = Some w \<and> json_size v \<le> json_size w"
  shows "json_size (JObj a) \<le> json_size (JObj b)"
proof -
  let ?e = "\<lambda>k v. utf8_length (quote k) + json_size v + 2"
  have s: "sum_list (map (\<lambda>(k, v). ?e k v) xs) = (\<Sum>k \<in> fst ` set xs. ?e k (the (map_of xs k)))"
    if "distinct (map fst xs)" for xs :: "(string \<times> json) list"
  proof -
    have "sum_list (map (\<lambda>(k, v). ?e k v) xs) = sum_list (map (\<lambda>k. ?e k (the (map_of xs k))) (map fst xs))"
      using that by (auto simp: comp_def intro!: arg_cong [where f = sum_list] map_cong)
    also have "\<dots> = (\<Sum>k \<in> set (map fst xs). ?e k (the (map_of xs k)))"
      using that by (rule sum_list_distinct_conv_sum_set)
    finally show ?thesis by simp
  qed
  have dom: "fst ` set a \<subseteq> fst ` set b"
  proof
    fix k assume "k \<in> fst ` set a"
    then obtain v where "map_of a k = Some v" by (metis map_of_eq_None_iff not_None_eq)
    then obtain w where "map_of b k = Some w" using sub by blast
    then show "k \<in> fst ` set b" by (metis map_of_eq_None_iff option.distinct(1))
  qed
  have "(\<Sum>k \<in> fst ` set a. ?e k (the (map_of a k))) \<le> (\<Sum>k \<in> fst ` set a. ?e k (the (map_of b k)))"
  proof (rule sum_mono)
    fix k assume "k \<in> fst ` set a"
    then obtain v where "map_of a k = Some v" by (metis map_of_eq_None_iff not_None_eq)
    with sub show "?e k (the (map_of a k)) \<le> ?e k (the (map_of b k))" by fastforce
  qed
  also have "\<dots> \<le> (\<Sum>k \<in> fst ` set b. ?e k (the (map_of b k)))"
    by (rule sum_mono2) (use dom in auto)
  finally have "sum_list (map (\<lambda>(k, v). ?e k v) a) \<le> sum_list (map (\<lambda>(k, v). ?e k v) b)"
    using s assms(1,2) by simp
  moreover have "b \<noteq> []" using dom assms(3) by auto
  ultimately show ?thesis unfolding json_size_obj using assms(3) by simp
qed

lemma strings_of_map [simp]: "strings_of (Some (JArr (map JStr ss))) = ss"
  by (induction ss) (simp_all add: strings_of_def List.map_filter_simps)

lemma boundedStrings_strings:
  assumes "boundedStrings v n m ne"
  shows "v = Some (JArr (map JStr (strings_of v)))" and "length (strings_of v) \<le> n"
    and "ne \<Longrightarrow> strings_of v \<noteq> []" and "s \<in> set (strings_of v) \<Longrightarrow> boundedString (Some (JStr s)) m"
proof -
  obtain xs where v: "v = Some (JArr xs)" using assms by (auto simp: boundedStrings_def split: option.splits json.splits)
  have all: "\<forall>x \<in> set xs. boundedString (Some x) m" "length xs \<le> n" "ne \<Longrightarrow> xs \<noteq> []"
    using assms by (auto simp: v boundedStrings_def list_all_iff)
  obtain ss where xs: "xs = map JStr ss"
  proof -
    have "\<forall>x \<in> set xs. \<exists>s. x = JStr s" using all(1) by (auto simp: boundedString_def as_string_Some_iff split: option.splits)
    then have "\<exists>ss. xs = map JStr ss" by (induction xs) (auto intro: exI [of _ "_ # _"])
    with that show thesis by blast
  qed
  have ss: "strings_of v = ss" by (simp add: v xs)
  from v xs ss show "v = Some (JArr (map JStr (strings_of v)))" by simp
  from all xs ss show "length (strings_of v) \<le> n" "ne \<Longrightarrow> strings_of v \<noteq> []"
    "s \<in> set (strings_of v) \<Longrightarrow> boundedString (Some (JStr s)) m" by auto
qed

lemma boundedStrings_unique:
  assumes "boundedStrings v n m ne"
  shows "boundedStrings (Some (JArr (map JStr (unique (strings_of v))))) n m ne"
    "boundedStrings (Some (JArr (map JStr (strings_of v)))) n m ne"
proof -
  note b = boundedStrings_strings [OF assms]
  from b(1) assms show "boundedStrings (Some (JArr (map JStr (strings_of v)))) n m ne" by simp
  from b(2-4) length_unique [of "strings_of v"]
  show "boundedStrings (Some (JArr (map JStr (unique (strings_of v))))) n m ne"
    by (auto simp: boundedStrings_def list_all_iff)
qed

lemma meta_fields_lookup [simp]:
  "field (meta_fields m) ''schema'' = Some (JStr FLIGHT_META_V1_SCHEMA)"
  "field (meta_fields m) ''goal_id'' = Some (JStr (fm_goal_id m))"
  "field (meta_fields m) ''objective_id'' = Some (JStr (fm_objective_id m))"
  "field (meta_fields m) ''squad_ids'' = Some (JArr (map JStr (fm_squad_ids m)))"
  "field (meta_fields m) ''task_ids'' = Some (JArr (map JStr (fm_task_ids m)))"
  "field (meta_fields m) ''done_when'' = Some (JArr (map JStr (fm_done_when m)))"
  "field (meta_fields m) ''artifact_refs'' = Some (JArr (map JStr (fm_artifact_refs m)))"
  "field (meta_fields m) ''receipt_refs'' = Some (JArr (map JStr (fm_receipt_refs m)))"
  "field (meta_fields m) ''confidentiality'' = Some (JStr (confidentiality_name (fm_confidentiality m)))"
  "field (meta_fields m) ''publication_target'' = Some (JStr (target_name (fm_publication_target m)))"
  "field (meta_fields m) ''parent_flight_id'' = Some (case fm_parent_flight_id m of None \<Rightarrow> JNull | Some p \<Rightarrow> JStr p)"
  "field (meta_fields m) ''routine_run_id'' = map_option JStr (fm_routine_run_id m)"
  "field (meta_fields m) ''routine_revision'' = map_option JNum (fm_routine_revision m)"
  "field (meta_fields m) ''timeout_ms'' = map_option JNum (fm_timeout_ms m)"
  unfolding meta_fields_def by (simp_all split: option.splits)

lemma meta_fields_keys: "distinct (map fst (meta_fields m))" "set (map fst (meta_fields m)) \<subseteq> set KEYS" "meta_fields m \<noteq> []"
  by (auto simp: meta_fields_def KEYS_def split: option.splits)

lemma enum_of_names [simp]:
  "enum_of confidentialities (Some (JStr (confidentiality_name c))) = Some c"
  "enum_of publication_targets (Some (JStr (target_name t))) = Some t"
  by (cases c; simp add: enum_of_def confidentialities_def) (cases t; simp add: enum_of_def publication_targets_def)

lemma enum_of_name:
  "enum_of confidentialities v = Some c \<Longrightarrow> v = Some (JStr (confidentiality_name c))"
  "enum_of publication_targets v = Some t \<Longrightarrow> v = Some (JStr (target_name t))"
  by (cases c; auto simp: enum_of_def confidentialities_def bind_eq_Some_conv as_string_Some_iff split: if_splits)
    (cases t; auto simp: enum_of_def publication_targets_def bind_eq_Some_conv as_string_Some_iff split: if_splits)

lemma boundedString_string: "boundedString v n \<Longrightarrow> v = Some (JStr (the (as_string v)))"
  by (auto simp: boundedString_def as_string_Some_iff split: option.splits)

lemma optional_fields:
  "v = None \<or> boundedString v n \<Longrightarrow> map_option JStr (as_string v) = v"
  "v = None \<or> isRevision v \<Longrightarrow> map_option JNum (int_of v) = v"
  "v = None \<or> isFlightMetaTimeoutMs v \<Longrightarrow> map_option JNum (int_of v) = v"
  "v = Some JNull \<or> boundedString v n \<Longrightarrow> Some (case as_string v of None \<Rightarrow> JNull | Some p \<Rightarrow> JStr p) = v"
  by (auto simp: boundedString_def isRevision_def isFlightMetaTimeoutMs_def int_of_def as_string_def
      split: option.splits json.splits)

lemma meta_okD:
  assumes "meta_ok meta"
  shows "boundedString (field meta ''goal_id'') 200" "boundedString (field meta ''objective_id'') 200"
    "boundedStrings (field meta ''squad_ids'') 8 200 True" "boundedStrings (field meta ''task_ids'') 200 200 True"
    "boundedStrings (field meta ''done_when'') 100 1000 True" "boundedStrings (field meta ''artifact_refs'') 200 2000 False"
    "boundedStrings (field meta ''receipt_refs'') 200 2000 False"
    "\<exists>c. enum_of confidentialities (field meta ''confidentiality'') = Some c"
    "\<exists>c. enum_of publication_targets (field meta ''publication_target'') = Some c"
    "field meta ''parent_flight_id'' = Some JNull \<or> boundedString (field meta ''parent_flight_id'') 200"
    "field meta ''routine_run_id'' = None \<or> boundedString (field meta ''routine_run_id'') 200"
    "field meta ''routine_revision'' = None \<or> isRevision (field meta ''routine_revision'')"
    "field meta ''timeout_ms'' = None \<or> isFlightMetaTimeoutMs (field meta ''timeout_ms'')"
    "field meta ''schema'' = Some (JStr FLIGHT_META_V1_SCHEMA)" "json_size (JObj meta) \<le> 16384"
    "\<forall>k \<in> fst ` set meta. k \<in> set KEYS"
  using assms unfolding meta_ok_def by - (elim conjE, assumption)+

text \<open>The stored object carries the accepted one's fields, the two id lists without repetitions.\<close>

lemma meta_fields_built:
  assumes "meta_ok meta"
  shows "field (meta_fields (built_meta meta)) k =
    (if k \<in> {''squad_ids'', ''task_ids''} then Some (JArr (map JStr (unique (strings_of (field meta k))))) else field meta k)"
proof (cases "k \<in> set KEYS")
  case False
  then have "k \<notin> set (map fst (meta_fields (built_meta meta)))" "k \<notin> fst ` set meta"
    using meta_fields_keys(2) meta_okD(16) [OF assms] by blast+
  then have "field (meta_fields (built_meta meta)) k = None" "field meta k = None"
    by (metis map_of_eq_None_iff set_map)+
  with False show ?thesis by (auto simp: KEYS_def)
next
  case True
  note ok = meta_okD [OF assms]
  obtain g ob dw ar rr c t where f: "field meta ''goal_id'' = Some (JStr g)" "field meta ''objective_id'' = Some (JStr ob)"
    "field meta ''done_when'' = Some (JArr (map JStr dw))" "field meta ''artifact_refs'' = Some (JArr (map JStr ar))"
    "field meta ''receipt_refs'' = Some (JArr (map JStr rr))" "enum_of confidentialities (field meta ''confidentiality'') = Some c"
    "enum_of publication_targets (field meta ''publication_target'') = Some t"
    using boundedString_string [OF ok(1)] boundedString_string [OF ok(2)] boundedStrings_strings(1) [OF ok(5)]
      boundedStrings_strings(1) [OF ok(6)] boundedStrings_strings(1) [OF ok(7)] ok(8,9) by blast
  moreover note enum_of_name(1) [OF f(6)] enum_of_name(2) [OF f(7)]
  moreover have "map_option JStr (as_string (field meta ''routine_run_id'')) = field meta ''routine_run_id''"
    "map_option JNum (int_of (field meta ''routine_revision'')) = field meta ''routine_revision''"
    "map_option JNum (int_of (field meta ''timeout_ms'')) = field meta ''timeout_ms''"
    "Some (case as_string (field meta ''parent_flight_id'') of None \<Rightarrow> JNull | Some p \<Rightarrow> JStr p) = field meta ''parent_flight_id''"
    by (rule optional_fields ok)+
  moreover note ok(14)
  moreover have "k = ''schema'' \<or> k = ''goal_id'' \<or> k = ''objective_id'' \<or> k = ''squad_ids'' \<or> k = ''task_ids'' \<or>
    k = ''done_when'' \<or> k = ''artifact_refs'' \<or> k = ''receipt_refs'' \<or> k = ''confidentiality'' \<or>
    k = ''publication_target'' \<or> k = ''parent_flight_id'' \<or> k = ''routine_run_id'' \<or> k = ''routine_revision'' \<or> k = ''timeout_ms''"
    using True by (simp add: KEYS_def)
  ultimately show ?thesis
    by (elim disjE; hypsubst; simp add: built_meta_def)
qed

lemma meta_fields_ok:
  assumes "meta_ok meta" "distinct (map fst meta)"
  shows "meta_ok (meta_fields (built_meta meta))"
proof -
  note f = meta_fields_built [OF assms(1)] and ok = meta_okD [OF assms(1)]
  have "json_size (JObj (meta_fields (built_meta meta))) \<le> json_size (JObj meta)"
  proof (rule json_size_obj_mono [OF meta_fields_keys(1) assms(2) meta_fields_keys(3)])
    fix k v assume v: "map_of (meta_fields (built_meta meta)) k = Some v"
    show "\<exists>w. map_of meta k = Some w \<and> json_size v \<le> json_size w"
    proof (cases "k \<in> {''squad_ids'', ''task_ids''}")
      case True
      then have "field meta k = Some (JArr (map JStr (strings_of (field meta k))))"
        using boundedStrings_strings(1) ok(3,4) by blast
      moreover have "v = JArr (map JStr (unique (strings_of (field meta k))))" using v f [of k] True by simp
      ultimately show ?thesis using json_size_unique [of "strings_of (field meta k)"] by metis
    next
      case False
      then show ?thesis using v f [of k] by simp
    qed
  qed
  also have "\<dots> \<le> 16384" by (rule ok(15))
  finally have size: "json_size (JObj (meta_fields (built_meta meta))) \<le> 16384" .
  have keys: "\<forall>k \<in> fst ` set (meta_fields (built_meta meta)). k \<in> set KEYS"
    using meta_fields_keys(2) by (metis list.set_map subsetD)
  have same: "field (meta_fields (built_meta meta)) k = field meta k" if "k \<notin> {''squad_ids'', ''task_ids''}" for k
    using f [of k] that by simp
  have ids: "boundedStrings (field (meta_fields (built_meta meta)) ''squad_ids'') 8 200 True"
    "boundedStrings (field (meta_fields (built_meta meta)) ''task_ids'') 200 200 True"
    unfolding f using boundedStrings_unique(1) [OF ok(3)] boundedStrings_unique(1) [OF ok(4)] by simp_all
  show ?thesis
    using ok(1,2,5-14) size keys ids
    by (simp only: meta_ok_def same insert_iff empty_iff list.inject char.inject simp_thms list.distinct)
qed

lemma read_back [simp]:
  "as_string (map_option JStr v) = v" "int_of (map_option JNum i) = i"
  "as_string (Some (case v of None \<Rightarrow> JNull | Some p \<Rightarrow> JStr p)) = v"
  by (simp_all add: as_string_def int_of_def split: option.splits)

lemma meta_fields_rebuild: "built_meta (meta_fields (built_meta meta)) = built_meta meta"
  by (simp add: built_meta_def unique_id)

lemma parse_meta_normal:
  assumes "parseFlightMetaV1 (JObj meta) = Some m" "distinct (map fst meta)"
  shows "parseFlightMetaV1 (meta_json m) = Some m"
proof -
  from assms(1) have ok: "meta_ok meta" and m: "m = built_meta meta" by (auto simp: parse_JObj split: if_splits)
  show ?thesis
    using meta_fields_ok [OF ok assms(2)] meta_fields_rebuild [of meta] by (simp add: meta_json_def parse_JObj m)
qed

text \<open>C37: What the parser accepts, stored the way \<open>createFlight\<close> stores it and read back, parses to
  the same contract: parsing is a normal form, and no accepted contract outgrows the
  16384-byte limit or loses a field when it is written and read again.\<close>
theorem parse_meta_roundtrip:
  assumes "parseFlightMetaV1 (JObj meta) = Some m" "distinct (map fst meta)"
  shows "parseFlightMetaV1 (meta_json m) = Some m"
  using assms by (rule parse_meta_normal)

definition bounded_text :: "nat \<Rightarrow> string \<Rightarrow> bool" where
  "bounded_text n s \<longleftrightarrow> trim s \<noteq> [] \<and> utf8_length s \<le> n"

definition bounded_list :: "nat \<Rightarrow> nat \<Rightarrow> nat \<Rightarrow> string list \<Rightarrow> bool" where
  "bounded_list lo hi n ss \<longleftrightarrow> lo \<le> length ss \<and> length ss \<le> hi \<and> list_all (bounded_text n) ss"

lemma bounded_text_iff: "boundedString (Some (JStr s)) n \<longleftrightarrow> bounded_text n s"
  by (simp add: boundedString_def bounded_text_def)

lemma bounded_list_strings:
  assumes "boundedStrings v hi n ne"
  shows "bounded_list (if ne then 1 else 0) hi n (strings_of v)" "bounded_list (if ne then 1 else 0) hi n (unique (strings_of v))"
  using boundedStrings_strings [OF assms] length_unique [of "strings_of v"]
  by (auto simp: bounded_list_def list_all_iff bounded_text_iff Suc_le_eq)

lemma parse_meta_limits:
  assumes "parseFlightMetaV1 raw = Some m"
  shows "bounded_text 200 (fm_goal_id m)" "bounded_text 200 (fm_objective_id m)"
    "bounded_list 1 8 200 (fm_squad_ids m)" "distinct (fm_squad_ids m)"
    "bounded_list 1 200 200 (fm_task_ids m)" "distinct (fm_task_ids m)"
    "bounded_list 1 100 1000 (fm_done_when m)" "bounded_list 0 200 2000 (fm_artifact_refs m)"
    "bounded_list 0 200 2000 (fm_receipt_refs m)"
    "pred_option (bounded_text 200) (fm_parent_flight_id m)" "pred_option (bounded_text 200) (fm_routine_run_id m)"
    "pred_option ((\<le>) 1) (fm_routine_revision m)"
    "pred_option (\<lambda>t. 300000 \<le> t \<and> t \<le> 86400000) (fm_timeout_ms m)"
proof -
  from assms obtain meta where ok: "meta_ok meta" and m: "m = built_meta meta" by (auto simp: parse_Some_iff)
  note d = meta_okD [OF ok]
  have bt: "bounded_text n (the (as_string v))" if "boundedString v n" for v n
    using that by (auto simp: boundedString_def bounded_text_def split: option.splits)
  show "bounded_text 200 (fm_goal_id m)" "bounded_text 200 (fm_objective_id m)"
    using bt d(1,2) by (simp_all add: m built_meta_def)
  show "bounded_list 1 8 200 (fm_squad_ids m)" "bounded_list 1 200 200 (fm_task_ids m)"
    "bounded_list 1 100 1000 (fm_done_when m)" "bounded_list 0 200 2000 (fm_artifact_refs m)"
    "bounded_list 0 200 2000 (fm_receipt_refs m)"
    using bounded_list_strings [OF d(3)] bounded_list_strings [OF d(4)] bounded_list_strings [OF d(5)]
      bounded_list_strings [OF d(6)] bounded_list_strings [OF d(7)] by (simp_all add: m built_meta_def)
  show "distinct (fm_squad_ids m)" "distinct (fm_task_ids m)" by (simp_all add: m built_meta_def)
  show "pred_option (bounded_text 200) (fm_parent_flight_id m)" "pred_option (bounded_text 200) (fm_routine_run_id m)"
    using d(10,11) by (auto simp: m built_meta_def boundedString_def bounded_text_def as_string_def
        split: option.splits json.splits)
  show "pred_option ((\<le>) 1) (fm_routine_revision m)" "pred_option (\<lambda>t. 300000 \<le> t \<and> t \<le> 86400000) (fm_timeout_ms m)"
    using d(12,13) by (auto simp: m built_meta_def int_of_def isRevision_def isFlightMetaTimeoutMs_def
        FLIGHT_META_TIMEOUT_MS_MIN_def FLIGHT_META_TIMEOUT_MS_MAX_def split: option.splits json.splits)
qed

text \<open>C38: Every contract the parser returns is within the limits the readers rely on: one to eight
  squads and one to two hundred tasks, without repetitions, one to a hundred success
  predicates, at most two hundred references of each kind, every text non-blank and bounded in
  bytes, a positive revision and a stall timeout between five minutes and a day.\<close>
theorem parse_meta_bounds:
  assumes "parseFlightMetaV1 raw = Some m"
  shows "bounded_text 200 (fm_goal_id m) \<and> bounded_text 200 (fm_objective_id m) \<and>
    bounded_list 1 8 200 (fm_squad_ids m) \<and> distinct (fm_squad_ids m) \<and>
    bounded_list 1 200 200 (fm_task_ids m) \<and> distinct (fm_task_ids m) \<and>
    bounded_list 1 100 1000 (fm_done_when m) \<and> bounded_list 0 200 2000 (fm_artifact_refs m) \<and>
    bounded_list 0 200 2000 (fm_receipt_refs m) \<and>
    pred_option (bounded_text 200) (fm_parent_flight_id m) \<and> pred_option (bounded_text 200) (fm_routine_run_id m) \<and>
    pred_option ((\<le>) 1) (fm_routine_revision m) \<and>
    pred_option (\<lambda>t. 300000 \<le> t \<and> t \<le> 86400000) (fm_timeout_ms m)"
  by (intro conjI parse_meta_limits [OF assms])

definition sample_fields :: "(string \<times> json) list" where
  "sample_fields = [(''schema'', JStr ''mupot.flight.meta/v1''), (''goal_id'', JStr ''g''), (''objective_id'', JStr ''o''),
     (''squad_ids'', JArr [JStr ''s1'', JStr ''s1'']), (''task_ids'', JArr [JStr ''t1'']), (''done_when'', JArr [JStr ''tests pass'']),
     (''artifact_refs'', JArr [JStr ''src/a.ts'']), (''receipt_refs'', JArr []), (''confidentiality'', JStr ''internal''),
     (''publication_target'', JStr ''none''), (''parent_flight_id'', JNull)]"

definition sample_meta :: flight_meta where
  "sample_meta = \<lparr>fm_goal_id = ''g'', fm_objective_id = ''o'', fm_squad_ids = [''s1''], fm_task_ids = [''t1''],
     fm_done_when = [''tests pass''], fm_artifact_refs = [''src/a.ts''], fm_receipt_refs = [], fm_confidentiality = Internal,
     fm_publication_target = Publish_none, fm_parent_flight_id = None, fm_routine_run_id = None,
     fm_routine_revision = None, fm_timeout_ms = None\<rparr>"

lemma sample_parses: "parseFlightMetaV1 (JObj sample_fields) = Some sample_meta"
proof -
  have size: "json_size (JObj sample_fields) \<le> 16384"
    by (simp add: sample_fields_def quote_def json_escape_def Let_def)
  have "meta_ok sample_fields"
    using size by (simp add: meta_ok_def KEYS_def sample_fields_def boundedString_def boundedStrings_def trim_def js_space_def
      enum_of_def confidentialities_def publication_targets_def FLIGHT_META_V1_SCHEMA_def del: stringify.simps)
  moreover have "built_meta sample_fields = sample_meta"
    by (simp add: built_meta_def sample_fields_def sample_meta_def enum_of_def confidentialities_def int_of_def
        publication_targets_def strings_of_def List.map_filter_simps unique_def)
  ultimately show ?thesis by (simp add: parse_JObj)
qed

theorem canonical_sql_mirrors_parser_witness: "canonicalFlightMetaSql (JObj sample_fields)"
proof -
  have "distinct (map fst sample_fields)" "nul_free (JObj sample_fields)" by code_simp+
  moreover have "field sample_fields ''routine_revision'' = None" by (simp add: sample_fields_def)
  ultimately show ?thesis using canonical_sql_mirrors_parser [of sample_fields] sample_parses by simp
qed

text \<open>Where the two disagree: a contract that is accepted and stored, and that no reader sees.\<close>

lemma digits_of_power: "digits_of (10 ^ k) = CHR ''1'' # replicate k (CHR ''0'')"
proof (induction k)
  case 0
  show ?case by code_simp
next
  case (Suc k)
  have zero: "char_of (48 :: nat) = CHR ''0''" by code_simp
  have "1 \<le> (10::nat) ^ k" by simp
  then have "\<not> (10::nat) ^ Suc k < 10" by simp
  then have "digits_of (10 ^ Suc k) = digits_of (10 ^ k) @ [CHR ''0'']" by (subst digits_of.simps) (simp add: zero)
  also have "\<dots> = CHR ''1'' # (replicate k (CHR ''0'') @ [CHR ''0''])" by (simp only: Suc append_Cons)
  finally show ?case by (simp only: replicate_append_same replicate_Suc)
qed

lemma dropWhile_padding: "a \<noteq> b \<Longrightarrow> dropWhile (\<lambda>c. c = a) (replicate k a @ [b]) = [b]"
  by (induction k) simp_all

lemma print_huge: "stringify (JNum (10 ^ 21)) = ''1e+21''"
proof -
  have "digits_of (nat \<bar>10 ^ 21\<bar>) = CHR ''1'' # replicate 21 (CHR ''0'')"
    using digits_of_power [of 21] by (simp add: nat_power_eq)
  moreover have "digits_of 21 = ''21''" by code_simp
  ultimately show ?thesis by (simp add: print_number_def Let_def dropWhile_padding)
qed

lemma huge_revision_unreadable:
  "parseFlightMetaV1 (JObj (sample_fields @ [(''routine_revision'', JNum (10 ^ 21))])) \<noteq> None \<and>
   \<not> canonicalFlightMetaSql (JObj (sample_fields @ [(''routine_revision'', JNum (10 ^ 21))]))"
  (is "?parses \<and> \<not> ?reads")
proof
  have size: "json_size (JObj (sample_fields @ [(''routine_revision'', JNum (10 ^ 21))])) \<le> 16384"
    unfolding json_size_obj using print_huge by (simp add: sample_fields_def quote_def json_escape_def Let_def)
  have "meta_ok (sample_fields @ [(''routine_revision'', JNum (10 ^ 21))])"
    using size by (simp add: meta_ok_def KEYS_def sample_fields_def boundedString_def boundedStrings_def trim_def js_space_def
      enum_of_def confidentialities_def publication_targets_def FLIGHT_META_V1_SCHEMA_def isRevision_def del: stringify.simps)
  then show ?parses by (simp add: parse_JObj)
  have "field (sample_fields @ [(''routine_revision'', JNum (10 ^ 21))]) ''routine_revision'' = Some (JNum (10 ^ 21))"
    by (simp add: sample_fields_def)
  then show "\<not> ?reads" by (simp add: canonicalFlightMetaSql_def Let_def del: stringify.simps)
qed

definition nul_fields :: "(string \<times> json) list" where
  "nul_fields = map (\<lambda>(k, v). if k = ''goal_id'' then (k, JStr [CHR 0x00, CHR ''g'']) else (k, v)) sample_fields"

lemma nul_text_unreadable: "parseFlightMetaV1 (JObj nul_fields) \<noteq> None \<and> \<not> canonicalFlightMetaSql (JObj nul_fields)"
proof
  have size: "json_size (JObj nul_fields) \<le> 16384"
    by (simp add: nul_fields_def sample_fields_def quote_def json_escape_def hex_digit_def Let_def)
  have "meta_ok nul_fields"
    using size by (simp add: meta_ok_def KEYS_def nul_fields_def sample_fields_def boundedString_def boundedStrings_def trim_def js_space_def
      enum_of_def confidentialities_def publication_targets_def FLIGHT_META_V1_SCHEMA_def del: stringify.simps)
  then show "parseFlightMetaV1 (JObj nul_fields) \<noteq> None" by (simp add: parse_JObj)
  have "field nul_fields ''goal_id'' = Some (JStr [CHR 0x00, CHR ''g''])" by (simp add: nul_fields_def sample_fields_def)
  moreover have "\<not> boundedFlightMetaTextSql (Some (JStr [CHR 0x00, CHR ''g''])) 200"
    by (simp add: boundedFlightMetaTextSql_def boundedTextSql_def trimmedTextSql_def trim_def js_space_def sql_text_length_def)
  ultimately show "\<not> canonicalFlightMetaSql (JObj nul_fields)" by (simp add: canonicalFlightMetaSql_def Let_def del: stringify.simps)
qed

theorem parse_meta_roundtrip_witness: "parseFlightMetaV1 (meta_json sample_meta) = Some sample_meta"
proof -
  have "distinct (map fst sample_fields)" by code_simp
  then show ?thesis by (rule parse_meta_roundtrip [OF sample_parses])
qed

theorem parse_meta_bounds_witness: "bounded_list 1 200 200 (fm_task_ids sample_meta) \<and> fm_task_ids sample_meta = [''t1'']"
  using parse_meta_bounds [OF sample_parses] by (simp add: sample_meta_def)

section \<open>References that hold\<close>

lemma set_load_squads: "set (loadFlightSquads squads ids) = {s \<in> set squads. sq_id s \<in> set ids}"
proof -
  have "set ids = set (concat (chunks D1_ID_QUERY_CHUNK_SIZE ids))" by (simp add: concat_chunks D1_ID_QUERY_CHUNK_SIZE_def)
  then show ?thesis unfolding loadFlightSquads_def by auto
qed

lemma set_load_tasks: "set (load_tasks db ids) = {t \<in> set (d_tasks db). t_id t \<in> set ids \<and> \<not> isTaskArchived db (t_id t)}"
proof -
  have "set ids = set (concat (chunks D1_ID_QUERY_CHUNK_SIZE ids))" by (simp add: concat_chunks D1_ID_QUERY_CHUNK_SIZE_def)
  then show ?thesis unfolding load_tasks_def by auto
qed

lemma tasks_by_id_Some: "tasks_by_id rows i = Some t \<Longrightarrow> t \<in> set rows \<and> t_id t = i"
  unfolding tasks_by_id_def by (auto dest: map_of_SomeD)

lemma tasks_by_id_None: "tasks_by_id rows i = None \<longleftrightarrow> (\<forall>t \<in> set rows. t_id t \<noteq> i)"
  unfolding tasks_by_id_def by (auto simp: map_of_eq_None_iff image_image)

definition task_referable :: "task_db \<Rightarrow> flight_meta \<Rightarrow> string option \<Rightarrow> string \<Rightarrow> bool" where
  "task_referable db meta projectId i =
     list_ex (\<lambda>t. t_id t = i \<and> \<not> isTaskArchived db i \<and> t_squad_id t \<in> set (fm_squad_ids meta) \<and>
       (projectId = None \<or> t_project_id t = projectId)) (d_tasks db)"

lemma check_tasks_None:
  assumes d: "distinct (map t_id (d_tasks db))" and sub: "set ids \<subseteq> set all_ids"
  shows "check_tasks db (tasks_by_id (load_tasks db all_ids)) (fm_squad_ids meta) p ids = None \<longleftrightarrow>
    (\<forall>i \<in> set ids. task_referable db meta p i)"
  using sub
proof (induction ids)
  case (Cons i ids)
  show ?case
  proof (cases "tasks_by_id (load_tasks db all_ids) i")
    case None
    then have "\<not> task_referable db meta p i"
      using Cons.prems unfolding tasks_by_id_None set_load_tasks task_referable_def list_ex_iff by auto
    with None show ?thesis by simp
  next
    case (Some t)
    then have t: "t \<in> set (d_tasks db)" "t_id t = i" "\<not> isTaskArchived db i"
      using tasks_by_id_Some [OF Some] unfolding set_load_tasks by auto
    have "x = t" if "x \<in> set (d_tasks db)" "t_id x = i" for x
      using inj_onD [of t_id "set (d_tasks db)" x t] d that t by (simp add: distinct_map)
    then have "task_referable db meta p i \<longleftrightarrow> t_squad_id t \<in> set (fm_squad_ids meta) \<and> (p = None \<or> t_project_id t = p)"
      using t unfolding task_referable_def list_ex_iff by metis
    with Some Cons show ?thesis by auto
  qed
qed simp

text \<open>The reference check, which reads squads and tasks in chunks of ninety, accepts a parsed
  contract exactly when every squad exists and every task exists, is not archived, belongs to
  one of the contract's squads and, where a project is given, to that project.\<close>
theorem references_valid_iff:
  assumes "distinct (map t_id (d_tasks db))" and "parseFlightMetaV1 raw = Some meta"
  shows "validateFlightMetaReferences squads db meta p = None \<longleftrightarrow>
    (\<forall>i \<in> set (fm_squad_ids meta). i \<in> sq_id ` set squads) \<and> (\<forall>i \<in> set (fm_task_ids meta). task_referable db meta p i)"
proof -
  let ?found = "set (map sq_id (loadFlightSquads squads (fm_squad_ids meta)))"
  have found: "i \<in> ?found \<longleftrightarrow> i \<in> sq_id ` set squads" if "i \<in> set (fm_squad_ids meta)" for i
    using that by (auto simp: set_load_squads)
  have nonblank: "i \<noteq> []" if "i \<in> set (fm_squad_ids meta)" for i
    using parse_meta_limits(3) [OF assms(2)] that by (auto simp: bounded_list_def list_all_iff bounded_text_def)
  show ?thesis
  proof (cases "find (\<lambda>i. i \<notin> ?found) (fm_squad_ids meta)")
    case None
    then have "\<forall>i \<in> set (fm_squad_ids meta). i \<in> sq_id ` set squads"
      using found unfolding find_None_iff by blast
    with None show ?thesis
      using check_tasks_None [OF assms(1) order_refl] by (simp add: validateFlightMetaReferences_def Let_def)
  next
    case (Some i)
    then have i: "i \<in> set (fm_squad_ids meta)" "i \<notin> ?found" unfolding find_Some_iff by auto
    with nonblank Some have "validateFlightMetaReferences squads db meta p \<noteq> None"
      by (simp add: validateFlightMetaReferences_def Let_def)
    with i found show ?thesis by blast
  qed
qed

theorem references_valid_iff_witness:
  "validateFlightMetaReferences [\<lparr>sq_id = ''s1'', sq_department_id = ''d'', sq_kind = Work\<rparr>]
     \<lparr>d_tasks = [sample_task], d_archived = [], d_verdicts = [], d_freezes = [], d_reversals = [],
      d_projects = [], d_project_access = [], d_abort = (\<lambda>_ _. None)\<rparr> sample_meta None = None"
  (is "validateFlightMetaReferences ?s ?db _ _ = None")
proof -
  have "distinct (map t_id (d_tasks ?db))" by simp
  moreover have "\<forall>i \<in> set (fm_task_ids sample_meta). task_referable ?db sample_meta None i"
    by (simp add: sample_meta_def task_referable_def sample_task_def isTaskArchived_def)
  ultimately show ?thesis
    using references_valid_iff [OF _ sample_parses, of ?db ?s None] by (simp add: sample_meta_def)
qed

end
