(* ===== verification/Flight_Clearance.thy ===== *)
theory Flight_Clearance
  imports Flight_Meta Complex_Main
begin

text \<open>
  Flight rows (\<^verbatim>\<open>src/flight/service.ts\<close>), how their outcome is counted
  (\<^verbatim>\<open>src/flight/cancelled.ts\<close>), and clearance, the detection of flights that collide on a
  task or an artifact (\<^verbatim>\<open>src/flight/clearance.ts\<close>, with the SQL-scoped read of
  \<^verbatim>\<open>src/flight/service.ts\<close> and the chokepoint of \<^verbatim>\<open>src/flight/dispatch.ts\<close>). The
  theorems show that the scoped read loses no collision, and that the SQL outcome filter is the
  displayed outcome.

  A row's \<open>fr_meta\<close> is its parsed JSON text, \<open>None\<close> when the text is not valid JSON.
\<close>

section \<open>Flight rows\<close>

datatype flight_status = Preflight | Held | Running | Waiting | Sleeping | Landed | Failed

datatype trigger_source = Manual | Schedule | Api | Event | Cron

record flight_row =
  fr_id :: string
  fr_tenant :: string
  fr_project_id :: "string option"
  fr_agent :: string
  fr_dispatched_by :: string
  fr_goal :: string
  fr_status :: flight_status
  fr_trigger :: trigger_source
  fr_gate_verdict :: "string option"
  fr_gate_reason :: string
  fr_score :: "real option"
  fr_budget :: "int option"
  fr_cost :: int
  fr_cost_metered :: bool
  fr_bookkeeping :: bool
  fr_next_run_at :: "int option"
  fr_created_at :: int
  fr_started_at :: "int option"
  fr_ended_at :: "int option"
  fr_meta :: "json option"
  fr_client_request_id :: "string option"
  fr_harness :: "string option"
  fr_model :: "string option"

definition LIVE_FLIGHT_STATUSES :: "flight_status list" where
  "LIVE_FLIGHT_STATUSES = [Preflight, Running, Waiting, Sleeping]"

section \<open>Outcomes\<close>

text \<open>A cancel receipt and the two keys of its payload that the readers extract.\<close>

record cancel_receipt =
  cr_tenant :: string
  cr_flight_id :: string
  cr_self_cancel :: "int option"
  cr_routine_outcome :: "string option"

definition cancelledFlightSql :: "cancel_receipt list \<Rightarrow> flight_row \<Rightarrow> bool" where
  "cancelledFlightSql receipts f =
     exists_row (\<lambda>r. cr_tenant r = fr_tenant f \<and> cr_flight_id r = fr_id f \<and>
       (case cr_self_cancel r of None \<Rightarrow> 0 | Some i \<Rightarrow> i) \<noteq> 1) receipts"

definition cancelUnconfirmedFlightSql :: "cancel_receipt list \<Rightarrow> flight_row \<Rightarrow> bool" where
  "cancelUnconfirmedFlightSql receipts f =
     exists_row (\<lambda>r. cr_tenant r = fr_tenant f \<and> cr_flight_id r = fr_id f \<and>
       (case cr_self_cancel r of None \<Rightarrow> 0 | Some i \<Rightarrow> i) \<noteq> 1 \<and>
       (case cr_routine_outcome r of None \<Rightarrow> ''none'' | Some s \<Rightarrow> s) = ''unconfirmed'') receipts"

text \<open>A row as the readers see it, with the two computed columns.\<close>

record outcome_row =
  or_status :: flight_status
  or_cancelled :: bool
  or_cancel_unconfirmed :: bool
  or_bookkeeping :: bool

definition cancelledColumnSql :: "cancel_receipt list \<Rightarrow> flight_row \<Rightarrow> outcome_row" where
  "cancelledColumnSql receipts f =
     \<lparr>or_status = fr_status f, or_cancelled = cancelledFlightSql receipts f,
      or_cancel_unconfirmed = cancelUnconfirmedFlightSql receipts f, or_bookkeeping = fr_bookkeeping f\<rparr>"

definition isCancelledFlight :: "outcome_row \<Rightarrow> bool" where
  "isCancelledFlight r \<longleftrightarrow> or_status r = Failed \<and> or_cancelled r"

definition isCancelUnconfirmed :: "outcome_row \<Rightarrow> bool" where
  "isCancelUnconfirmed r \<longleftrightarrow> isCancelledFlight r \<and> or_cancel_unconfirmed r"

definition isBookkeepingFlight :: "outcome_row \<Rightarrow> bool" where
  "isBookkeepingFlight r = or_bookkeeping r"

definition isBookkeepingClosed :: "outcome_row \<Rightarrow> bool" where
  "isBookkeepingClosed r \<longleftrightarrow> (or_status r = Landed \<or> or_status r = Failed) \<and> isBookkeepingFlight r"

definition isRealFailure :: "outcome_row \<Rightarrow> bool" where
  "isRealFailure r \<longleftrightarrow> or_status r = Failed \<and> \<not> isCancelledFlight r \<and> \<not> isBookkeepingFlight r"

definition realFailureSql :: "cancel_receipt list \<Rightarrow> flight_row \<Rightarrow> bool" where
  "realFailureSql receipts f \<longleftrightarrow> fr_status f = Failed \<and> \<not> fr_bookkeeping f \<and> \<not> cancelledFlightSql receipts f"

definition genuinelyFailedFlightSql :: "cancel_receipt list \<Rightarrow> flight_row \<Rightarrow> bool" where
  "genuinelyFailedFlightSql receipts f = realFailureSql receipts f"

definition bookkeepingClosedFlightSql :: "flight_row \<Rightarrow> bool" where
  "bookkeepingClosedFlightSql f \<longleftrightarrow> fr_status f \<in> {Landed, Failed} \<and> fr_bookkeeping f"

fun status_name :: "flight_status \<Rightarrow> string" where
  "status_name Preflight = ''preflight''"
| "status_name Held = ''held''"
| "status_name Running = ''running''"
| "status_name Waiting = ''waiting''"
| "status_name Sleeping = ''sleeping''"
| "status_name Landed = ''landed''"
| "status_name Failed = ''failed''"

definition flightOutcome :: "outcome_row \<Rightarrow> string" where
  "flightOutcome r =
     (if isBookkeepingClosed r then ''bookkeeping''
      else if isCancelledFlight r then ''cancelled''
      else status_name (or_status r))"

datatype outcome_error = Invalid_outcome

definition outcome_chars :: "string \<Rightarrow> bool" where
  "outcome_chars o' \<longleftrightarrow> o' \<noteq> [] \<and>
     list_all (\<lambda>c. let n = of_char c :: nat in 97 \<le> n \<and> n \<le> 122 \<or> n = 95) o'"

definition outcome_part :: "cancel_receipt list \<Rightarrow> flight_row \<Rightarrow> string \<Rightarrow> bool" where
  "outcome_part receipts f o' =
     (if o' = ''cancelled'' then fr_status f = Failed \<and> \<not> fr_bookkeeping f \<and> cancelledFlightSql receipts f
      else if o' = ''failed'' then realFailureSql receipts f
      else if o' = ''bookkeeping'' then bookkeepingClosedFlightSql f
      else if o' = ''landed'' then fr_status f = Landed \<and> \<not> fr_bookkeeping f
      else status_name (fr_status f) = o')"

definition outcomeFilterSql :: "cancel_receipt list \<Rightarrow> string list \<Rightarrow> outcome_error + (flight_row \<Rightarrow> bool)" where
  "outcomeFilterSql receipts outcomes =
     (if outcomes = [] then Inr (\<lambda>f. True)
      else if list_ex (\<lambda>o'. \<not> outcome_chars o') outcomes then Inl Invalid_outcome
      else Inr (\<lambda>f. list_ex (outcome_part receipts f) outcomes))"

lemma outcome_part_display: "outcome_part receipts f o' \<longleftrightarrow> flightOutcome (cancelledColumnSql receipts f) = o'"
  by (cases "fr_status f"; cases "fr_bookkeeping f"; cases "cancelledFlightSql receipts f")
    (auto simp: outcome_part_def flightOutcome_def cancelledColumnSql_def isBookkeepingClosed_def isCancelledFlight_def
      isBookkeepingFlight_def realFailureSql_def bookkeepingClosedFlightSql_def)

text \<open>The outcome filter that is pushed into SQL keeps a flight exactly when the outcome the
  readers display for it is one of the requested ones; a name that is not an outcome is an
  error and never a filter that lets everything through.\<close>
theorem outcome_filter_is_displayed_outcome:
  "outcomeFilterSql receipts (o' # os) =
     (if list_ex (\<lambda>x. \<not> outcome_chars x) (o' # os) then Inl Invalid_outcome
      else Inr (\<lambda>f. flightOutcome (cancelledColumnSql receipts f) \<in> set (o' # os)))"
  by (simp add: outcomeFilterSql_def outcome_part_display list_ex_iff eq_commute)

lemma real_failure_agrees: "isRealFailure (cancelledColumnSql receipts f) \<longleftrightarrow> realFailureSql receipts f"
  by (auto simp: isRealFailure_def cancelledColumnSql_def realFailureSql_def isCancelledFlight_def isBookkeepingFlight_def)

section \<open>Collisions\<close>

datatype collision_severity = Hold | Warn

datatype collision_reason = Shared_task_id | Shared_artifact_ref | Shared_objective | Shared_goal | Shared_squad

record flight_collision =
  fc_severity :: collision_severity
  fc_flight_a :: string
  fc_flight_b :: string
  fc_reasons :: "collision_reason list"
  fc_task_ids :: "string list"
  fc_artifact_refs :: "string list"
  fc_objective_id :: "string option"
  fc_goal_id :: "string option"
  fc_squad_ids :: "string list"

record clearance_result =
  cl_cleared :: bool
  cl_live_set_truncated :: bool
  cl_holds :: "flight_collision list"
  cl_warns :: "flight_collision list"

definition intersect :: "string list \<Rightarrow> string list \<Rightarrow> string list" where
  "intersect a b = unique (filter (\<lambda>x. x \<in> set b) a)"

definition parseRowMeta :: "flight_row \<Rightarrow> flight_meta option" where
  "parseRowMeta row = Option.bind (fr_meta row) parseFlightMetaV1"

definition compareMeta ::
  "string \<Rightarrow> string \<Rightarrow> flight_meta \<Rightarrow> string \<Rightarrow> string \<Rightarrow> flight_meta \<Rightarrow> flight_collision option" where
  "compareMeta aId aTenant aMeta bId bTenant bMeta =
     (if aId = bId then None
      else if aTenant \<noteq> bTenant then None
      else
        let sharedTaskIds = intersect (fm_task_ids aMeta) (fm_task_ids bMeta);
            sharedArtifactRefs = intersect (fm_artifact_refs aMeta) (fm_artifact_refs bMeta);
            sharedObjectiveId = (if fm_objective_id aMeta = fm_objective_id bMeta then Some (fm_objective_id aMeta) else None);
            sharedGoalId = (if fm_goal_id aMeta = fm_goal_id bMeta then Some (fm_goal_id aMeta) else None);
            sharedSquadIds = intersect (fm_squad_ids aMeta) (fm_squad_ids bMeta);
            hardReasons = (if sharedTaskIds \<noteq> [] then [Shared_task_id] else []) @
                          (if sharedArtifactRefs \<noteq> [] then [Shared_artifact_ref] else []);
            softReasons = (if truthy sharedObjectiveId then [Shared_objective] else []) @
                          (if truthy sharedGoalId then [Shared_goal] else []) @
                          (if sharedSquadIds \<noteq> [] then [Shared_squad] else [])
        in if hardReasons \<noteq> [] then
             Some \<lparr>fc_severity = Hold, fc_flight_a = aId, fc_flight_b = bId, fc_reasons = hardReasons,
               fc_task_ids = sharedTaskIds, fc_artifact_refs = sharedArtifactRefs, fc_objective_id = sharedObjectiveId,
               fc_goal_id = sharedGoalId, fc_squad_ids = sharedSquadIds\<rparr>
           else if softReasons = [] then None
           else
             Some \<lparr>fc_severity = Warn, fc_flight_a = aId, fc_flight_b = bId, fc_reasons = softReasons,
               fc_task_ids = [], fc_artifact_refs = [], fc_objective_id = sharedObjectiveId,
               fc_goal_id = sharedGoalId, fc_squad_ids = sharedSquadIds\<rparr>)"

fun collision_pairs :: "(flight_row \<times> flight_meta) list \<Rightarrow> flight_collision list" where
  "collision_pairs [] = []"
| "collision_pairs ((a, ma) # rest) =
     List.map_filter (\<lambda>(b, mb).
        map_option (\<lambda>c. if fr_bookkeeping a \<or> fr_bookkeeping b then c\<lparr>fc_severity := Warn\<rparr> else c)
          (compareMeta (fr_id a) (fr_tenant a) ma (fr_id b) (fr_tenant b) mb)) rest
     @ collision_pairs rest"

definition detectFlightCollisions :: "flight_row list \<Rightarrow> flight_collision list" where
  "detectFlightCollisions flights =
     (let live = filter (\<lambda>row. fr_status row \<in> set LIVE_FLIGHT_STATUSES) flights;
          parsed = List.map_filter (\<lambda>row. map_option (Pair row) (parseRowMeta row)) live
      in collision_pairs parsed)"

definition row_collision :: "flight_meta \<Rightarrow> string option \<Rightarrow> string list \<Rightarrow> flight_row \<Rightarrow> (bool \<times> flight_collision) option" where
  "row_collision proposed tenantOpt ignoreIds row =
     (if fr_status row \<notin> set LIVE_FLIGHT_STATUSES then None
      else if fr_id row \<in> set ignoreIds then None
      else if tenantOpt \<noteq> None \<and> Some (fr_tenant row) \<noteq> tenantOpt then None
      else (case parseRowMeta row of
              None \<Rightarrow> None
            | Some meta \<Rightarrow>
                (case compareMeta ''__proposed__'' (case tenantOpt of Some t \<Rightarrow> t | None \<Rightarrow> fr_tenant row) proposed
                        (fr_id row) (fr_tenant row) meta of
                   None \<Rightarrow> None
                 | Some c \<Rightarrow>
                     if fc_severity c = Hold \<and> \<not> fr_bookkeeping row then Some (True, c)
                     else if fc_severity c = Hold then Some (False, c\<lparr>fc_severity := Warn\<rparr>)
                     else Some (False, c))))"

definition checkFlightClearance ::
  "flight_meta \<Rightarrow> flight_row list \<Rightarrow> string option \<Rightarrow> string list \<Rightarrow> bool \<Rightarrow> clearance_result" where
  "checkFlightClearance proposed activeFlights tenantOpt ignoreFlightIds liveSetTruncated =
     (let hits = List.map_filter (row_collision proposed tenantOpt ignoreFlightIds) activeFlights;
          holds = map snd (filter fst hits);
          warns = map snd (filter (\<lambda>h. \<not> fst h) hits)
      in if liveSetTruncated
         then \<lparr>cl_cleared = False, cl_live_set_truncated = True, cl_holds = holds, cl_warns = warns\<rparr>
         else \<lparr>cl_cleared = (length holds = 0), cl_live_set_truncated = False, cl_holds = holds, cl_warns = warns\<rparr>)"

section \<open>The scoped read\<close>

text \<open>The text column \<open>value\<close> of \<open>json_each(meta, path)\<close>: a container's members, or the value
  itself; a nested container shows as its JSON text. A path into a value that is not an object
  selects nothing. Numbers, booleans and null never equal a text.\<close>

fun je_text :: "json \<Rightarrow> string option" where
  "je_text (JStr s) = Some s"
| "je_text (JArr xs) = Some (stringify (JArr xs))"
| "je_text (JObj kvs) = Some (stringify (JObj kvs))"
| "je_text _ = None"

fun je_members :: "json \<Rightarrow> json list" where
  "je_members (JArr xs) = xs"
| "je_members (JObj kvs) = map snd kvs"
| "je_members v = [v]"

definition je_path :: "json \<Rightarrow> string \<Rightarrow> json option" where
  "je_path m k = (case m of JObj kvs \<Rightarrow> map_of kvs k | _ \<Rightarrow> None)"

definition je_overlap :: "json option \<Rightarrow> string \<Rightarrow> string list \<Rightarrow> bool" where
  "je_overlap meta k values =
     (case Option.bind meta (\<lambda>m. je_path m k) of
        None \<Rightarrow> False
      | Some v \<Rightarrow> list_ex (\<lambda>x. case je_text x of Some s \<Rightarrow> s \<in> set values | None \<Rightarrow> False) (je_members v))"

definition je_equals :: "json option \<Rightarrow> string \<Rightarrow> string \<Rightarrow> bool" where
  "je_equals meta k s = (Option.bind (Option.bind meta (\<lambda>m. je_path m k)) je_text = Some s)"

definition LIVE_SET_CAP :: nat where
  "LIVE_SET_CAP = 2000"

definition newest_first :: "flight_row list \<Rightarrow> flight_row list" where
  "newest_first rows = sort_key (\<lambda>r. - fr_created_at r) rows"

definition live_scoped :: "string \<Rightarrow> flight_row \<Rightarrow> bool" where
  "live_scoped tenant f \<longleftrightarrow> fr_tenant f = tenant \<and> fr_status f \<in> set LIVE_FLIGHT_STATUSES"

definition listLiveFlights :: "flight_row list \<Rightarrow> string \<Rightarrow> nat \<Rightarrow> flight_row list \<times> bool" where
  "listLiveFlights flights tenant cap =
     (let rows = take (cap + 1) (newest_first (filter (live_scoped tenant) flights)) in (take cap rows, length rows > cap))"

definition hold_scoped :: "string \<Rightarrow> flight_meta \<Rightarrow> flight_row \<Rightarrow> bool" where
  "hold_scoped tenant meta f \<longleftrightarrow> live_scoped tenant f \<and> fr_meta f \<noteq> None \<and> \<not> fr_bookkeeping f \<and>
     (fm_task_ids meta \<noteq> [] \<and> je_overlap (fr_meta f) ''task_ids'' (fm_task_ids meta) \<or>
      fm_artifact_refs meta \<noteq> [] \<and> je_overlap (fr_meta f) ''artifact_refs'' (fm_artifact_refs meta))"

definition warn_scoped :: "string \<Rightarrow> flight_meta \<Rightarrow> flight_row \<Rightarrow> bool" where
  "warn_scoped tenant meta f \<longleftrightarrow> live_scoped tenant f \<and> fr_meta f \<noteq> None \<and>
     (je_equals (fr_meta f) ''objective_id'' (fm_objective_id meta) \<or> je_equals (fr_meta f) ''goal_id'' (fm_goal_id meta) \<or>
      fm_squad_ids meta \<noteq> [] \<and> je_overlap (fr_meta f) ''squad_ids'' (fm_squad_ids meta))"

definition listIntersectingLiveFlights ::
  "flight_row list \<Rightarrow> string \<Rightarrow> flight_meta \<Rightarrow> nat \<Rightarrow> flight_row list \<times> bool" where
  "listIntersectingLiveFlights flights tenant meta cap =
     (let (held, truncated) =
            (if fm_task_ids meta \<noteq> [] \<or> fm_artifact_refs meta \<noteq> [] then
               let rows = take (cap + 1) (newest_first (filter (hold_scoped tenant meta) flights))
               in (take cap rows, length rows > cap)
             else ([], False));
          warned = take cap (newest_first (filter (warn_scoped tenant meta) flights))
      in (held @ filter (\<lambda>r. fr_id r \<notin> set (map fr_id held)) warned, truncated))"

fun reason_tag :: "collision_reason \<Rightarrow> string" where
  "reason_tag Shared_task_id = ''shared_task_id''"
| "reason_tag Shared_artifact_ref = ''shared_artifact_ref''"
| "reason_tag Shared_objective = ''shared_objective''"
| "reason_tag Shared_goal = ''shared_goal''"
| "reason_tag Shared_squad = ''shared_squad''"

definition clearanceReasonTags :: "clearance_result \<Rightarrow> string list" where
  "clearanceReasonTags c =
     (if cl_live_set_truncated c then [''flight_clearance_live_set_truncated''] else []) @
     concat (map (\<lambda>h. map (\<lambda>r. ''clearance_'' @ reason_tag r @ '':'' @ fc_flight_b h) (fc_reasons h)) (cl_holds c))"

record meta_clearance =
  mc_cleared :: bool
  mc_truncated :: bool
  mc_reasons :: "string list"
  mc_clearance :: clearance_result

definition clearFlightMeta :: "flight_row list \<Rightarrow> string \<Rightarrow> flight_meta \<Rightarrow> string list \<Rightarrow> meta_clearance" where
  "clearFlightMeta flights tenant meta ignoreFlightIds =
     (let (rows, truncated) = listIntersectingLiveFlights flights tenant meta LIVE_SET_CAP;
          c = checkFlightClearance meta rows (Some tenant) ignoreFlightIds truncated
      in \<lparr>mc_cleared = cl_cleared c, mc_truncated = truncated,
          mc_reasons = (if cl_cleared c then [] else clearanceReasonTags c), mc_clearance = c\<rparr>)"

section \<open>Clearance decides collisions\<close>

definition shares_work :: "flight_meta \<Rightarrow> flight_meta \<Rightarrow> bool" where
  "shares_work a b \<longleftrightarrow> set (fm_task_ids a) \<inter> set (fm_task_ids b) \<noteq> {} \<or> set (fm_artifact_refs a) \<inter> set (fm_artifact_refs b) \<noteq> {}"

text \<open>A live flight of the tenant that executes, is not waived, and shares a task or an artifact. The
  reserved name of the proposal itself is never a stored id.\<close>

definition hard_collision :: "string \<Rightarrow> flight_meta \<Rightarrow> string list \<Rightarrow> flight_row \<Rightarrow> bool" where
  "hard_collision tenant proposed ignoreIds f \<longleftrightarrow>
     live_scoped tenant f \<and> \<not> fr_bookkeeping f \<and> fr_id f \<notin> set ignoreIds \<and> fr_id f \<noteq> ''__proposed__'' \<and>
     (case parseRowMeta f of None \<Rightarrow> False | Some m \<Rightarrow> shares_work proposed m)"

lemma intersect_Nil: "intersect a b = [] \<longleftrightarrow> set a \<inter> set b = {}"
  by (auto simp: intersect_def filter_empty_conv)

lemma compareMeta_hold:
  "(\<exists>c. compareMeta a t ma b t' mb = Some c \<and> fc_severity c = Hold) \<longleftrightarrow> a \<noteq> b \<and> t = t' \<and> shares_work ma mb"
  by (auto simp: compareMeta_def Let_def intersect_Nil shares_work_def)

lemma row_collision_hold:
  "(\<exists>c. row_collision proposed (Some tenant) ignoreIds f = Some (True, c)) \<longleftrightarrow> hard_collision tenant proposed ignoreIds f"
proof (cases "parseRowMeta f")
  case None
  then show ?thesis by (simp add: row_collision_def hard_collision_def)
next
  case (Some m)
  have "(\<exists>c. row_collision proposed (Some tenant) ignoreIds f = Some (True, c)) \<longleftrightarrow>
    live_scoped tenant f \<and> fr_id f \<notin> set ignoreIds \<and> \<not> fr_bookkeeping f \<and>
    (\<exists>c. compareMeta ''__proposed__'' tenant proposed (fr_id f) (fr_tenant f) m = Some c \<and> fc_severity c = Hold)"
    by (auto simp: row_collision_def live_scoped_def Some split: option.splits if_splits)
  then show ?thesis
    unfolding compareMeta_hold by (auto simp: hard_collision_def Some live_scoped_def)
qed

lemma set_map_filter_iff: "y \<in> set (List.map_filter g xs) \<longleftrightarrow> (\<exists>x \<in> set xs. g x = Some y)"
  by (induction xs) (auto simp: List.map_filter_simps split: option.splits)

lemma holds_Nil:
  "cl_holds (checkFlightClearance proposed rows (Some tenant) ignoreIds tr) = [] \<longleftrightarrow>
     \<not> list_ex (hard_collision tenant proposed ignoreIds) rows"
proof -
  let ?hits = "List.map_filter (row_collision proposed (Some tenant) ignoreIds) rows"
  have "filter fst ?hits = [] \<longleftrightarrow> \<not> (\<exists>f \<in> set rows. \<exists>c. row_collision proposed (Some tenant) ignoreIds f = Some (True, c))"
    by (force simp: filter_empty_conv set_map_filter_iff)
  then show ?thesis
    unfolding row_collision_hold by (simp add: checkFlightClearance_def Let_def list_ex_iff)
qed

lemma cleared_iff:
  "cl_cleared (checkFlightClearance proposed rows (Some tenant) ignoreIds tr) \<longleftrightarrow>
     \<not> tr \<and> \<not> list_ex (hard_collision tenant proposed ignoreIds) rows"
proof -
  have "cl_cleared (checkFlightClearance proposed rows (Some tenant) ignoreIds tr) \<longleftrightarrow>
    \<not> tr \<and> cl_holds (checkFlightClearance proposed rows (Some tenant) ignoreIds tr) = []"
    by (simp add: checkFlightClearance_def Let_def)
  then show ?thesis by (simp only: holds_Nil)
qed

text \<open>What the parser accepts is visible to the SQL overlap.\<close>

lemma je_overlap_strings:
  assumes "boundedStrings (field kvs k) n l ne" "s \<in> set (strings_of (field kvs k))" "s \<in> set values"
  shows "je_overlap (Some (JObj kvs)) k values"
proof -
  have "field kvs k = Some (JArr (map JStr (strings_of (field kvs k))))" by (rule boundedStrings_strings(1) [OF assms(1)])
  then obtain ss where ss: "field kvs k = Some (JArr (map JStr ss))" by blast
  then have "s \<in> set ss" using assms(2) by simp
  with ss assms(3) show ?thesis by (auto simp: je_overlap_def je_path_def list_ex_iff)
qed

lemma shares_work_overlap:
  assumes "parseFlightMetaV1 raw = Some m" "shares_work proposed m"
  shows "fm_task_ids proposed \<noteq> [] \<and> je_overlap (Some raw) ''task_ids'' (fm_task_ids proposed) \<or>
    fm_artifact_refs proposed \<noteq> [] \<and> je_overlap (Some raw) ''artifact_refs'' (fm_artifact_refs proposed)"
proof -
  from assms(1) obtain kvs where raw: "raw = JObj kvs" and ok: "meta_ok kvs" and m: "m = built_meta kvs"
    by (auto simp: parse_Some_iff)
  note d = meta_okD [OF ok]
  from assms(2) consider s where "s \<in> set (fm_task_ids proposed)" "s \<in> set (fm_task_ids m)"
    | s where "s \<in> set (fm_artifact_refs proposed)" "s \<in> set (fm_artifact_refs m)" unfolding shares_work_def by blast
  then show ?thesis
  proof cases
    case (1 s)
    then have "s \<in> set (strings_of (field kvs ''task_ids''))" by (simp add: m built_meta_def)
    then show ?thesis using je_overlap_strings [OF d(4) _ 1(1)] 1(1) raw by (cases "fm_task_ids proposed") auto
  next
    case (2 s)
    then have "s \<in> set (strings_of (field kvs ''artifact_refs''))" by (simp add: m built_meta_def)
    then show ?thesis using je_overlap_strings [OF d(6) _ 2(1)] 2(1) raw by (cases "fm_artifact_refs proposed") auto
  qed
qed

lemma hard_collision_scoped:
  assumes "hard_collision tenant proposed ignoreIds f"
  shows "hold_scoped tenant proposed f"
proof -
  from assms obtain m where m: "parseRowMeta f = Some m" "shares_work proposed m" "live_scoped tenant f" "\<not> fr_bookkeeping f"
    by (auto simp: hard_collision_def split: option.splits)
  then obtain raw where raw: "fr_meta f = Some raw" "parseFlightMetaV1 raw = Some m"
    by (auto simp: parseRowMeta_def bind_eq_Some_conv)
  show ?thesis unfolding hold_scoped_def using m(3,4) raw(1) shares_work_overlap [OF raw(2) m(2)] by simp
qed

lemma set_newest_first [simp]: "set (newest_first rows) = set rows" "length (newest_first rows) = length rows"
  by (simp_all add: newest_first_def)

text \<open>The scoped read holds every row that can hold the proposal, unless it says it is truncated.\<close>

lemma intersecting_rows:
  assumes "listIntersectingLiveFlights flights tenant meta cap = (rows, tr)"
  shows "tr \<longleftrightarrow> cap < length (filter (hold_scoped tenant meta) flights)"
    and "set rows \<subseteq> set flights" and "\<not> tr \<Longrightarrow> f \<in> set flights \<Longrightarrow> hold_scoped tenant meta f \<Longrightarrow> f \<in> set rows"
proof -
  let ?h = "newest_first (filter (hold_scoped tenant meta) flights)"
  let ?w = "take cap (newest_first (filter (warn_scoped tenant meta) flights))"
  have none: "filter (hold_scoped tenant meta) flights = []" if "fm_task_ids meta = []" "fm_artifact_refs meta = []"
    using that by (simp add: hold_scoped_def)
  have rows: "rows = take cap ?h @ filter (\<lambda>r. fr_id r \<notin> set (map fr_id (take cap ?h))) ?w"
    and tr: "tr \<longleftrightarrow> cap < length (filter (hold_scoped tenant meta) flights)"
    using assms none by (auto simp: listIntersectingLiveFlights_def Let_def min_def newest_first_def split: if_splits)
  show "tr \<longleftrightarrow> cap < length (filter (hold_scoped tenant meta) flights)" by (rule tr)
  show "set rows \<subseteq> set flights"
    unfolding rows using set_take_subset set_newest_first(1) by (force dest!: in_set_takeD)
  show "f \<in> set rows" if "\<not> tr" "f \<in> set flights" "hold_scoped tenant meta f"
    using that tr by (simp add: rows)
qed

text \<open>What clearance asks of the read that feeds it: it returns stored rows only, and unless it says
  so it leaves out no row that collides.\<close>

locale live_read =
  fixes read_live :: "flight_row list \<Rightarrow> string \<Rightarrow> flight_meta \<Rightarrow> flight_row list \<times> bool"
  assumes read_stored: "read_live flights tenant meta = (rows, tr) \<Longrightarrow> set rows \<subseteq> set flights"
    and read_complete: "read_live flights tenant meta = (rows, False) \<Longrightarrow> f \<in> set flights \<Longrightarrow>
      hard_collision tenant meta ignoreIds f \<Longrightarrow> f \<in> set rows"
begin

lemma cleared_by_read:
  assumes "read_live flights tenant meta = (rows, tr)"
  shows "cl_cleared (checkFlightClearance meta rows (Some tenant) ignoreIds tr) \<longleftrightarrow>
    \<not> tr \<and> \<not> list_ex (hard_collision tenant meta ignoreIds) flights"
proof (cases tr)
  case True
  then show ?thesis by (simp add: cleared_iff)
next
  case False
  with assms have r: "read_live flights tenant meta = (rows, False)" by simp
  have "list_ex (hard_collision tenant meta ignoreIds) rows \<longleftrightarrow> list_ex (hard_collision tenant meta ignoreIds) flights"
    unfolding list_ex_iff using read_stored [OF r] read_complete [OF r] by blast
  with False show ?thesis by (simp add: cleared_iff)
qed

end

interpretation scoped_read: live_read "\<lambda>flights tenant meta. listIntersectingLiveFlights flights tenant meta LIVE_SET_CAP"
proof
  show "set rows \<subseteq> set flights" if "listIntersectingLiveFlights flights tenant meta LIVE_SET_CAP = (rows, tr)"
    for flights tenant meta rows tr using intersecting_rows(2) [OF that] .
  show "f \<in> set rows" if "listIntersectingLiveFlights flights tenant meta LIVE_SET_CAP = (rows, False)"
    "f \<in> set flights" "hard_collision tenant meta ignoreIds f" for flights tenant meta rows f ignoreIds
    using intersecting_rows(3) [OF that(1)] that(2) hard_collision_scoped [OF that(3)] by simp
qed

interpretation full_read: live_read "\<lambda>flights tenant meta. listLiveFlights flights tenant LIVE_SET_CAP"
proof
  show "set rows \<subseteq> set flights" if "listLiveFlights flights tenant LIVE_SET_CAP = (rows, tr)" for flights tenant rows tr
    using that by (auto simp: listLiveFlights_def Let_def dest!: in_set_takeD)
  show "f \<in> set rows" if "listLiveFlights flights tenant LIVE_SET_CAP = (rows, False)" "f \<in> set flights"
    "hard_collision tenant meta ignoreIds f" for flights tenant meta rows f ignoreIds
  proof -
    let ?l = "newest_first (filter (live_scoped tenant) flights)"
    have "length ?l \<le> LIVE_SET_CAP" "rows = take LIVE_SET_CAP ?l"
      using that(1) by (auto simp: listLiveFlights_def Let_def newest_first_def)
    then have "rows = ?l" by simp
    moreover have "live_scoped tenant f" using that(3) by (simp add: hard_collision_def)
    ultimately show ?thesis using that(2) by simp
  qed
qed

lemma clearance_decision:
  "mc_cleared (clearFlightMeta flights tenant meta ignoreIds) \<longleftrightarrow>
     length (filter (hold_scoped tenant meta) flights) \<le> 2000 \<and>
     \<not> list_ex (hard_collision tenant meta ignoreIds) flights"
proof -
  obtain rows tr where r: "listIntersectingLiveFlights flights tenant meta LIVE_SET_CAP = (rows, tr)" by fastforce
  have "mc_cleared (clearFlightMeta flights tenant meta ignoreIds) \<longleftrightarrow>
      \<not> tr \<and> \<not> list_ex (hard_collision tenant meta ignoreIds) flights"
    using scoped_read.cleared_by_read [OF r] by (simp add: clearFlightMeta_def r Let_def)
  moreover have "\<not> tr \<longleftrightarrow> length (filter (hold_scoped tenant meta) flights) \<le> 2000"
    using intersecting_rows(1) [OF r] by (simp add: LIVE_SET_CAP_def not_less)
  ultimately show ?thesis by blast
qed

text \<open>C34: The tower clears a proposed flight exactly when at most two thousand live flights of the
  tenant intersect it and none of them shares a task or an artifact with it: reading only the
  flights that intersect in SQL loses no collision, and a read that may be incomplete is
  refused. Waived, bookkeeping, unparseable and terminal flights do not block.\<close>
theorem clearance_decides:
  "mc_cleared (clearFlightMeta flights tenant meta ignoreIds) \<longleftrightarrow>
     length (filter (hold_scoped tenant meta) flights) \<le> 2000 \<and>
     \<not> list_ex (hard_collision tenant meta ignoreIds) flights"
  by (rule clearance_decision)

end
