(* ===== verification/Flight_Service.thy ===== *)
theory Flight_Service
  imports Flight_Clearance
begin

text \<open>
  The life of a flight record (\<^verbatim>\<open>src/flight/service.ts\<close>): creation with its project
  attribution, archive guard, routine fence and idempotency key, the preflight verdict, landing,
  failing and sleeping, the governed landing with its evidence, and the reads that explain a
  refusal. The refusal of finished work is \<^verbatim>\<open>src/flight/rebooking.ts\<close>.

  \<open>flight_db\<close> holds the tables. What the schema's insert triggers answer is the function
  \<open>fd_insert_abort\<close>. The executing agent's fleet row is resolved as in
  \<^verbatim>\<open>src/fleet/registry.ts\<close> and cleaned as in \<^verbatim>\<open>src/fleet/reported-values.ts\<close>. \<open>createFlight\<close> takes three snapshots of the tables, those its validation reads,
  those its statement runs on, and those its diagnosis reads, because the code holds no
  transaction across them.
\<close>

section \<open>Tables\<close>

record result_submission =
  rs_id :: string
  rs_tenant :: string
  rs_task_id :: string
  rs_agent :: string
  rs_text :: "string option"
  rs_seq :: int

record routine_run =
  rr_id :: string
  rr_tenant :: string
  rr_project_id :: "string option"
  rr_open :: bool
  rr_cancellation_requested :: bool
  rr_flight_id :: "string option"
  rr_flight_refs :: "string list"
  rr_proposal :: "json option"
  rr_cost :: int

datatype budget_compliance = Unknown_compliance | Within_budget | Over_budget

record landing_receipt =
  lr_tenant :: string
  lr_flight_id :: string
  lr_agent_id :: string
  lr_squad_ids :: "string list"
  lr_task_ids :: "string list"
  lr_cost :: "int option"
  lr_metered :: bool
  lr_compliance :: budget_compliance
  lr_score :: "real option"
  lr_harness :: "string option"
  lr_model :: "string option"
  lr_receipt_refs :: "string list"
  lr_actor_is_agent :: bool
  lr_actor_id :: string
  lr_claimed_harness :: "string option"
  lr_claimed_model :: "string option"
  lr_attribution :: "(string \<times> string) option"
  lr_created_at :: int
  lr_delivered_at :: "int option"
  lr_attempts :: nat
  lr_last_error :: "string option"

record fleet_row =
  fl_tenant :: string
  fl_agent_id :: string
  fl_runtime :: "string option"
  fl_model :: "string option"

record redispatch_receipt =
  rd_flight_id :: string
  rd_actor_id :: string
  rd_reason :: string
  rd_landed_flight_ids :: "string list"
  rd_task_ids :: "string list"

datatype flight_project_error =
    FP_invalid_project_id | FP_invalid_flight_meta | FP_project_not_found | FP_archived_project
  | FP_project_access_forbidden | FP_flight_task_not_found | FP_flight_task_project_mismatch | FP_task_archived

record flight_db =
  fd_tenant :: string
  fd_flights :: "flight_row list"
  fd_tasks :: task_db
  fd_submissions :: "result_submission list"
  fd_runs :: "routine_run list"
  fd_outbox :: "landing_receipt list"
  fd_redispatch :: "redispatch_receipt list"
  fd_fleet :: "fleet_row list"
  fd_agents :: "(string \<times> string option) list"
  fd_insert_abort :: "flight_row \<Rightarrow> flight_project_error option"
  fd_land_requires_evidence :: bool

section \<open>Creation\<close>

record new_flight =
  nf_agent :: string
  nf_dispatched_by :: "string option"
  nf_goal :: string
  nf_project_id :: "string option"
  nf_trigger :: "trigger_source option"
  nf_budget :: "int option"
  nf_meta :: "flight_meta option"
  nf_client_request_id :: "string option"

record create_options =
  co_routineRunFence :: "(string \<times> string) option"
  co_redispatchReceipt :: "redispatch_receipt option"
  co_bookkeeping :: bool

datatype create_error =
    Create_project flight_project_error | Bookkeeping_option_conflict | Routine_dispatch_fenced
  | Flight_insert_conflict | Flight_client_request_id_taken | Flight_id_taken

definition validateFlightProjectTarget :: "flight_db \<Rightarrow> string option \<Rightarrow> flight_project_error option" where
  "validateFlightProjectTarget db projectId =
     (case projectId of
        None \<Rightarrow> None
      | Some p \<Rightarrow>
          if trim p = [] then Some FP_invalid_project_id
          else (case map_of (d_projects (fd_tasks db)) p of
                  None \<Rightarrow> Some FP_project_not_found
                | Some archived \<Rightarrow> if archived then Some FP_archived_project else None))"

definition anyTaskArchived :: "flight_db \<Rightarrow> string list \<Rightarrow> bool" where
  "anyTaskArchived db taskIds =
     list_ex (\<lambda>chunk. list_ex (\<lambda>i. i \<in> set chunk) (d_archived (fd_tasks db))) (chunks 90 taskIds)"

definition validateFlightTaskProjectConsistency ::
  "flight_db \<Rightarrow> string option \<Rightarrow> flight_meta option \<Rightarrow> flight_project_error option" where
  "validateFlightTaskProjectConsistency db projectId meta =
     (case (projectId, meta) of
        (Some p, Some m) \<Rightarrow>
          let tasks = tasks_by_id (load_tasks (fd_tasks db) (fm_task_ids m));
              missing = filter (\<lambda>i. tasks i = None) (fm_task_ids m)
          in if missing \<noteq> [] then
               (if anyTaskArchived db missing then Some FP_task_archived else Some FP_flight_task_not_found)
             else if list_ex (\<lambda>i. Option.bind (tasks i) t_project_id \<noteq> Some p) (fm_task_ids m)
               then Some FP_flight_task_project_mismatch
             else None
      | _ \<Rightarrow> None)"

definition validateFlightProjectAttribution :: "flight_db \<Rightarrow> new_flight \<Rightarrow> flight_project_error option" where
  "validateFlightProjectAttribution db f =
     (case validateFlightProjectTarget db (nf_project_id f) of
        Some e \<Rightarrow> Some e
      | None \<Rightarrow> validateFlightTaskProjectConsistency db (nf_project_id f) (nf_meta f))"

definition FLIGHT_TASKS_NOT_ARCHIVED_SQL :: "flight_db \<Rightarrow> flight_meta option \<Rightarrow> bool" where
  "FLIGHT_TASKS_NOT_ARCHIVED_SQL db meta =
     (case meta of None \<Rightarrow> True
      | Some m \<Rightarrow> \<not> list_ex (\<lambda>i. i \<in> set (d_archived (fd_tasks db))) (fm_task_ids m))"

definition fence_open :: "flight_db \<Rightarrow> string option \<Rightarrow> string \<times> string \<Rightarrow> bool" where
  "fence_open db projectId fence =
     (case fence of (runId, tenant) \<Rightarrow>
        exists_row (\<lambda>rr. rr_id rr = runId \<and> rr_tenant rr = tenant \<and> projectId \<noteq> None \<and> rr_project_id rr = projectId \<and>
          rr_open rr \<and> \<not> rr_cancellation_requested rr) (fd_runs db))"

definition created_row :: "flight_db \<Rightarrow> string \<Rightarrow> int \<Rightarrow> new_flight \<Rightarrow> create_options \<Rightarrow> flight_row" where
  "created_row db i now f opts =
     \<lparr>fr_id = i, fr_tenant = fd_tenant db, fr_project_id = nf_project_id f, fr_agent = nf_agent f,
      fr_dispatched_by = (case nf_dispatched_by f of Some d \<Rightarrow> d | None \<Rightarrow> nf_agent f), fr_goal = nf_goal f,
      fr_status = Preflight, fr_trigger = (case nf_trigger f of Some t \<Rightarrow> t | None \<Rightarrow> Manual),
      fr_gate_verdict = None, fr_gate_reason = [], fr_score = None, fr_budget = nf_budget f, fr_cost = 0, fr_cost_metered = True,
      fr_bookkeeping = (co_bookkeeping opts), fr_next_run_at = None, fr_created_at = now, fr_started_at = None,
      fr_ended_at = None, fr_meta = Some (case nf_meta f of Some m \<Rightarrow> meta_json m | None \<Rightarrow> JObj []),
      fr_client_request_id = (if co_routineRunFence opts = None then nf_client_request_id f else None),
      fr_harness = None, fr_model = None\<rparr>"

definition own_flight :: "flight_db \<Rightarrow> string \<Rightarrow> flight_row \<Rightarrow> bool" where
  "own_flight db i r \<longleftrightarrow> fr_id r = i \<and> fr_tenant r = fd_tenant db"

text \<open>\<open>Inr True\<close>: a row was written.\<close>

definition insert_flight ::
  "flight_db \<Rightarrow> string \<Rightarrow> int \<Rightarrow> new_flight \<Rightarrow> create_options \<Rightarrow> flight_db \<times> (create_error + bool)" where
  "insert_flight db i now f opts =
     (let row = created_row db i now f opts;
          guard = (FLIGHT_TASKS_NOT_ARCHIVED_SQL db (nf_meta f) \<and>
            (case co_routineRunFence opts of None \<Rightarrow> True | Some fence \<Rightarrow> fence_open db (nf_project_id f) fence))
      in if \<not> guard then
           (db\<lparr>fd_redispatch := fd_redispatch db @
              (case (co_routineRunFence opts, co_redispatchReceipt opts) of
                 (None, Some r) \<Rightarrow> if exists_row (own_flight db i) (fd_flights db) then [r\<lparr>rd_flight_id := i\<rparr>] else []
               | _ \<Rightarrow> [])\<rparr>, Inr False)
         else if exists_row (\<lambda>r. fr_id r = i) (fd_flights db) then (db, Inl Flight_id_taken)
         else if fr_client_request_id row \<noteq> None \<and>
                 exists_row (\<lambda>r. fr_tenant r = fr_tenant row \<and> fr_dispatched_by r = fr_dispatched_by row \<and>
                   fr_client_request_id r = fr_client_request_id row) (fd_flights db)
           then (db, Inl Flight_client_request_id_taken)
         else (case fd_insert_abort db row of
                 Some e \<Rightarrow> (db, Inl (Create_project e))
               | None \<Rightarrow>
                   (db\<lparr>fd_flights := fd_flights db @ [row],
                       fd_redispatch := fd_redispatch db @
                         (case (co_routineRunFence opts, co_redispatchReceipt opts) of
                            (None, Some r) \<Rightarrow> [r\<lparr>rd_flight_id := i\<rparr>] | _ \<Rightarrow> [])\<rparr>, Inr True)))"

definition createFlight ::
  "flight_db \<Rightarrow> flight_db \<Rightarrow> flight_db \<Rightarrow> string \<Rightarrow> int \<Rightarrow> new_flight \<Rightarrow> create_options \<Rightarrow> flight_db \<times> (create_error + string)" where
  "createFlight db_read db_write db_diag i now f opts =
     (case validateFlightProjectAttribution db_read f of
        Some e \<Rightarrow> (db_write, Inl (Create_project e))
      | None \<Rightarrow>
          if co_bookkeeping opts \<and>
             (co_routineRunFence opts \<noteq> None \<or> nf_client_request_id f \<noteq> None \<or> co_redispatchReceipt opts \<noteq> None)
          then (db_write, Inl Bookkeeping_option_conflict)
          else (case insert_flight db_write i now f opts of
                  (db', Inl e) \<Rightarrow> (db', Inl e)
                | (db', Inr True) \<Rightarrow> (db', Inr i)
                | (db', Inr False) \<Rightarrow>
                    (let refs = (case nf_meta f of Some m \<Rightarrow> fm_task_ids m | None \<Rightarrow> []) in
                     if refs \<noteq> [] \<and> anyTaskArchived db_diag refs then (db', Inl (Create_project FP_task_archived))
                     else if co_routineRunFence opts \<noteq> None then (db', Inl Routine_dispatch_fenced)
                     else (db', Inl Flight_insert_conflict))))"

section \<open>Transitions\<close>

definition update_flights :: "(flight_row \<Rightarrow> bool) \<Rightarrow> (flight_row \<Rightarrow> flight_row) \<Rightarrow> flight_db \<Rightarrow> flight_db" where
  "update_flights p u db = db\<lparr>fd_flights := map (\<lambda>r. if p r then u r else r) (fd_flights db)\<rparr>"

text \<open>The part of a preflight result the record keeps.\<close>

record gate_result =
  gr_go :: bool
  gr_score :: real
  gr_reasons :: "string list"

definition applyPreflight :: "flight_db \<Rightarrow> string \<Rightarrow> gate_result \<Rightarrow> int \<Rightarrow> flight_db \<times> flight_status" where
  "applyPreflight db i r now =
     (if gr_go r then
        (update_flights (\<lambda>f. own_flight db i f \<and> fr_status f = Preflight)
           (\<lambda>f. f\<lparr>fr_status := Running, fr_gate_verdict := Some ''go'', fr_gate_reason := [],
                  fr_score := Some (gr_score r), fr_started_at := Some now\<rparr>) db, Running)
      else
        (update_flights (\<lambda>f. own_flight db i f \<and> fr_status f = Preflight)
           (\<lambda>f. f\<lparr>fr_status := Held, fr_gate_verdict := Some ''no_go'', fr_gate_reason := join '','' (gr_reasons r),
                  fr_score := Some (gr_score r), fr_ended_at := Some now\<rparr>) db, Held))"

definition in_air :: "flight_row \<Rightarrow> bool" where
  "in_air f \<longleftrightarrow> fr_status f \<in> {Running, Waiting, Sleeping}"

definition landFlight :: "flight_db \<Rightarrow> string \<Rightarrow> int option \<Rightarrow> real option \<Rightarrow> int \<Rightarrow> flight_db" where
  "landFlight db i cost score now =
     update_flights (\<lambda>f. own_flight db i f \<and> in_air f)
       (\<lambda>f. f\<lparr>fr_status := Landed, fr_cost := (case cost of Some c \<Rightarrow> c | None \<Rightarrow> 0),
              fr_score := nullish score (fr_score f), fr_ended_at := Some now\<rparr>) db"

definition failFlight :: "flight_db \<Rightarrow> string \<Rightarrow> string \<Rightarrow> int \<Rightarrow> flight_db" where
  "failFlight db i reason now =
     update_flights (\<lambda>f. own_flight db i f \<and> (fr_status f = Preflight \<or> in_air f))
       (\<lambda>f. f\<lparr>fr_status := Failed, fr_gate_reason := take 500 reason, fr_ended_at := Some now\<rparr>) db"

definition sleepFlight :: "flight_db \<Rightarrow> string \<Rightarrow> int \<Rightarrow> flight_db" where
  "sleepFlight db i nextRunAt =
     update_flights (\<lambda>f. own_flight db i f \<and> fr_status f \<in> {Running, Waiting})
       (\<lambda>f. f\<lparr>fr_status := Sleeping, fr_next_run_at := Some nextRunAt\<rparr>) db"

definition getFlight :: "flight_db \<Rightarrow> string \<Rightarrow> flight_row option" where
  "getFlight db i = first_row (own_flight db i) (fd_flights db)"

section \<open>Landing evidence\<close>

definition landEvidenceEnabled :: "flight_db \<Rightarrow> bool" where
  "landEvidenceEnabled db = fd_land_requires_evidence db"

text \<open>\<open>LIKE\<close> ignores the case of ASCII letters.\<close>

definition like_prefix :: "string \<Rightarrow> string \<Rightarrow> bool" where
  "like_prefix p s = prefix p (lower s)"

definition like_applied :: "string \<Rightarrow> bool" where
  "like_applied s \<longleftrightarrow> like_prefix ''applied '' s \<and> list_ex (prefix '' via '') (suffixes (drop 8 (lower s)))"

definition landResultMatchSql :: "result_submission \<Rightarrow> task \<Rightarrow> bool" where
  "landResultMatchSql sub t =
     (case t_result t of
        None \<Rightarrow> False
      | Some r \<Rightarrow> rs_text sub = Some r \<or> r \<in> {''CI: success'', ''CI: neutral'', ''CI: skipped''} \<or>
          like_prefix ''published via '' r \<or> like_applied r)"

definition noResultSubmission :: "flight_db \<Rightarrow> flight_row \<Rightarrow> task \<Rightarrow> bool" where
  "noResultSubmission db f t \<longleftrightarrow>
     \<not> exists_row (\<lambda>sub. rs_tenant sub = fr_tenant f \<and> rs_task_id sub = t_id t \<and> rs_agent sub = fr_agent f \<and>
        landResultMatchSql sub t) (fd_submissions db)"

definition noIndependentVerdict :: "flight_db \<Rightarrow> flight_row \<Rightarrow> task \<Rightarrow> bool" where
  "noIndependentVerdict db f t \<longleftrightarrow>
     \<not> (case findLatestVerdict (fd_tasks db) (t_id t) of
          None \<Rightarrow> False
        | Some v \<Rightarrow> tv_verdict v = V_approved \<and> tv_decided_by v \<noteq> (case t_assignee_agent_id t of Some a \<Rightarrow> a | None \<Rightarrow> []) \<and>
            tv_decided_by v \<noteq> fr_agent f \<and> t_gate_owner t \<noteq> Some GATE_AGENT_SELF_COMPLETION)"

text \<open>The task references of a stored contract: the text values \<open>json_each\<close> shows, \<open>None\<close> for a
  value that is not text.\<close>

definition task_refs :: "flight_row \<Rightarrow> string option list" where
  "task_refs f =
     (case Option.bind (fr_meta f) (\<lambda>m. je_path m ''task_ids'') of
        None \<Rightarrow> [] | Some v \<Rightarrow> map je_text (je_members v))"

definition task_row :: "flight_db \<Rightarrow> string option \<Rightarrow> task option" where
  "task_row db ref = (case ref of None \<Rightarrow> None | Some i \<Rightarrow> first_row (\<lambda>t. t_id t = i) (d_tasks (fd_tasks db)))"

definition landEvidenceEligibleSql :: "flight_db \<Rightarrow> flight_row \<Rightarrow> bool" where
  "landEvidenceEligibleSql db f \<longleftrightarrow>
     \<not> list_ex (\<lambda>ref. case task_row db ref of
          None \<Rightarrow> False | Some t \<Rightarrow> noResultSubmission db f t \<or> noIndependentVerdict db f t) (task_refs f)"

definition task_blocks_land :: "flight_db \<Rightarrow> flight_row \<Rightarrow> string option \<Rightarrow> bool" where
  "task_blocks_land db f ref =
     (case task_row db ref of
        None \<Rightarrow> True
      | Some t \<Rightarrow>
          fr_project_id f \<noteq> None \<and> t_project_id t \<noteq> fr_project_id f \<or>
          t_status t \<noteq> Done \<or>
          t_gate_owner t \<noteq> None \<and> map_option tv_verdict (findLatestVerdict (fd_tasks db) (t_id t)) \<noteq> Some V_approved)"

definition governedLandEligibilitySql :: "flight_db \<Rightarrow> (int \<Rightarrow> bool) \<Rightarrow> flight_row \<Rightarrow> bool" where
  "governedLandEligibilitySql db budgetCompare f \<longleftrightarrow>
     (case fr_budget f of None \<Rightarrow> False | Some b \<Rightarrow> budgetCompare b) \<and>
     fr_meta f \<noteq> None \<and> je_equals (fr_meta f) ''schema'' ''mupot.flight.meta/v1'' \<and>
     \<not> list_ex (task_blocks_land db f) (task_refs f)"

section \<open>The governed landing\<close>

definition ROUTINE_PROPOSAL_RECEIPT_PREFIX :: string where
  "ROUTINE_PROPOSAL_RECEIPT_PREFIX = ''routine.proposal:''"

definition control_run :: "flight_db \<Rightarrow> flight_row \<Rightarrow> routine_run \<Rightarrow> bool" where
  "control_run db f rr \<longleftrightarrow> rr_flight_id rr = Some (fr_id f) \<and> rr_tenant rr = fr_tenant f \<and>
     je_equals (fr_meta f) ''routine_run_id'' (rr_id rr)"

definition receipt_texts :: "flight_row \<Rightarrow> string list" where
  "receipt_texts f =
     (case Option.bind (fr_meta f) (\<lambda>m. je_path m ''receipt_refs'') of
        None \<Rightarrow> [] | Some v \<Rightarrow> List.map_filter je_text (je_members v))"

definition routine_witness :: "flight_db \<Rightarrow> flight_row \<Rightarrow> bool" where
  "routine_witness db f \<longleftrightarrow>
     \<not> exists_row (control_run db f) (fd_runs db) \<or>
     exists_row (\<lambda>rr. control_run db f rr \<and> je_equals (rr_proposal rr) ''version'' ''routine.proposal/v1'' \<and>
       (ROUTINE_PROPOSAL_RECEIPT_PREFIX @ rr_id rr) \<in> set (receipt_texts f)) (fd_runs db)"

definition routineControlLandLacksWitness :: "flight_db \<Rightarrow> string \<Rightarrow> bool" where
  "routineControlLandLacksWitness db i =
     exists_row (\<lambda>f. own_flight db i f \<and> exists_row (control_run db f) (fd_runs db) \<and>
       \<not> exists_row (\<lambda>rr. control_run db f rr \<and> je_equals (rr_proposal rr) ''version'' ''routine.proposal/v1'' \<and>
           (ROUTINE_PROPOSAL_RECEIPT_PREFIX @ rr_id rr) \<in> set (receipt_texts f)) (fd_runs db)) (fd_flights db)"

text \<open>The verified reference of one task: its latest matching submission.\<close>

definition verified_ref :: "flight_db \<Rightarrow> flight_row \<Rightarrow> string option \<Rightarrow> string option" where
  "verified_ref db f ref =
     (case task_row db ref of
        None \<Rightarrow> None
      | Some t \<Rightarrow>
          (case rev (sort_key rs_seq (filter (\<lambda>sub. rs_tenant sub = fr_tenant f \<and> rs_task_id sub = t_id t \<and>
                rs_agent sub = fr_agent f \<and> landResultMatchSql sub t) (fd_submissions db))) of
             [] \<Rightarrow> None | sub # _ \<Rightarrow> Some (''task-result-submission:'' @ rs_id sub)))"

definition json_set :: "json \<Rightarrow> string \<Rightarrow> json \<Rightarrow> json" where
  "json_set m k v =
     (case m of
        JObj kvs \<Rightarrow> JObj (if k \<in> fst ` set kvs then map (\<lambda>(k', w). if k' = k then (k', v) else (k', w)) kvs else kvs @ [(k, v)])
      | _ \<Rightarrow> m)"

text \<open>\<open>landReceiptRefsSetSql\<close>: \<open>receipt_refs\<close> is an array or absent.\<close>

definition text_members :: "json \<Rightarrow> string list" where
  "text_members v = List.map_filter je_text (je_members v)"

definition landReceiptRefs :: "flight_db \<Rightarrow> flight_row \<Rightarrow> string list" where
  "landReceiptRefs db f =
     (let kept = filter (\<lambda>r. \<not> like_prefix ''task-result-submission:'' r)
                   (case Option.bind (fr_meta f) (\<lambda>m. je_path m ''receipt_refs'') of None \<Rightarrow> [] | Some v \<Rightarrow> text_members v);
          verified = List.map_filter (verified_ref db f) (task_refs f);
          refs = remdups (sort (kept @ verified))
      in take 200 (filter (like_prefix ''task-result-submission:'') refs @
                   filter (\<lambda>r. \<not> like_prefix ''task-result-submission:'' r) refs))"

definition landReceiptRefsSetSql :: "flight_db \<Rightarrow> flight_row \<Rightarrow> json option" where
  "landReceiptRefsSetSql db f = map_option (\<lambda>m. json_set m ''receipt_refs'' (JArr (map JStr (landReceiptRefs db f)))) (fr_meta f)"

record land_opts =
  lo_cost :: int
  lo_metered :: bool
  lo_score :: "real option"
  lo_expected_agent :: "string option"
  lo_agent_id :: string
  lo_meta :: flight_meta
  lo_actor_is_agent :: bool
  lo_actor_id :: string
  lo_attribution :: "(string \<times> string) option"
  lo_claimed_harness :: "json option"
  lo_claimed_model :: "json option"

definition land_evidence_ok :: "flight_db \<Rightarrow> land_opts \<Rightarrow> flight_row \<Rightarrow> bool" where
  "land_evidence_ok db opts f \<longleftrightarrow>
     (if \<not> landEvidenceEnabled db then True
      else if truthy (fm_routine_run_id (lo_meta opts))
        then exists_row (control_run db f) (fd_runs db) \<or> landEvidenceEligibleSql db f
      else landEvidenceEligibleSql db f)"

definition land_matches :: "flight_db \<Rightarrow> string \<Rightarrow> land_opts \<Rightarrow> flight_row \<Rightarrow> bool" where
  "land_matches db i opts f \<longleftrightarrow>
     own_flight db i f \<and> (lo_expected_agent opts = None \<or> lo_expected_agent opts = Some (fr_agent f)) \<and> in_air f \<and>
     governedLandEligibilitySql db (\<lambda>b. \<not> lo_metered opts \<or> lo_cost opts \<le> b) f \<and> land_evidence_ok db opts f \<and>
     (truthy (fm_routine_run_id (lo_meta opts)) \<longrightarrow> routine_witness db f)"

definition watchdog_unverified :: "string \<Rightarrow> bool" where
  "watchdog_unverified s \<longleftrightarrow> like_prefix ''watchdog_'' s \<and> suffix ''_unverified'' (drop 9 (lower s))"

definition landed_row ::
  "flight_db \<Rightarrow> land_opts \<Rightarrow> string option \<times> string option \<Rightarrow> int \<Rightarrow> flight_row \<Rightarrow> flight_row" where
  "landed_row db opts identity now f =
     (let keep = (lo_cost opts = 0 \<and> fr_cost_metered f \<and> fr_cost f > 0) in
      f\<lparr>fr_status := Landed,
        fr_meta := (if landEvidenceEnabled db then landReceiptRefsSetSql db f else fr_meta f),
        fr_gate_reason := (if watchdog_unverified (fr_gate_reason f) then [] else fr_gate_reason f),
        fr_cost := (if keep then fr_cost f else lo_cost opts),
        fr_cost_metered := (if keep then True else lo_metered opts),
        fr_score := nullish (lo_score opts) (fr_score f), fr_ended_at := Some now,
        fr_harness := fst identity, fr_model := snd identity\<rparr>)"

section \<open>Who executed\<close>

definition MAX_REPORTED :: nat where
  "MAX_REPORTED = 64"

definition FLIGHT_HARNESS_MAX_LEN :: nat where
  "FLIGHT_HARNESS_MAX_LEN = 64"

definition FLIGHT_MODEL_MAX_LEN :: nat where
  "FLIGHT_MODEL_MAX_LEN = 128"

text \<open>The characters of \<open>CONTROL_RE\<close> below U+0100: the controls and the soft hyphen.\<close>

definition CONTROL_RE :: "char \<Rightarrow> bool" where
  "CONTROL_RE c \<longleftrightarrow> (let n = of_char c :: nat in n \<le> 31 \<or> 127 \<le> n \<and> n \<le> 159 \<or> n = 173)"

text \<open>No code unit of the model is a surrogate, so the cut never splits a pair.\<close>

definition cleanReported :: "string \<Rightarrow> nat \<Rightarrow> string option" where
  "cleanReported v m =
     (let s = trim (take m (trim (filter (\<lambda>c. \<not> CONTROL_RE c) v))) in if s = [] then None else Some s)"

definition sanitizeBoundedFlightText :: "json option \<Rightarrow> nat \<Rightarrow> string option" where
  "sanitizeBoundedFlightText raw maxLength =
     (case as_string raw of None \<Rightarrow> None | Some s \<Rightarrow> cleanReported s (max 1 (min maxLength 512)))"

definition readFleetAgentRow :: "flight_db \<Rightarrow> string \<Rightarrow> fleet_row option" where
  "readFleetAgentRow db agentId =
     (let row = (\<lambda>k. first_row (\<lambda>r. fl_tenant r = fd_tenant db \<and> fl_agent_id r = k) (fd_fleet db)) in
      case row agentId of
        Some r \<Rightarrow> Some r
      | None \<Rightarrow>
          (case first_row (\<lambda>a. fst a = agentId) (fd_agents db) of
             None \<Rightarrow> None
           | Some (_, None) \<Rightarrow> None
           | Some (_, Some slug) \<Rightarrow>
               if slug = [] then None
               else if exists_row (\<lambda>a. fst a = slug) (fd_agents db) then None
               else if length (filter (\<lambda>a. snd a = Some slug) (fd_agents db)) \<noteq> 1 then None
               else row slug))"

definition loadFlightHarness :: "flight_db \<Rightarrow> string \<Rightarrow> string option \<times> string option" where
  "loadFlightHarness db agentId =
     (if agentId = [] then (None, None)
      else (case readFleetAgentRow db agentId of
              None \<Rightarrow> (None, None)
            | Some r \<Rightarrow>
                (sanitizeBoundedFlightText (map_option JStr (fl_runtime r)) FLIGHT_HARNESS_MAX_LEN,
                 sanitizeBoundedFlightText (map_option JStr (fl_model r)) FLIGHT_MODEL_MAX_LEN)))"

definition flightHarnessDisplay :: "flight_row option \<Rightarrow> string \<times> string" where
  "flightHarnessDisplay row =
     (let text_of = (\<lambda>v. case v of Some s \<Rightarrow> s | None \<Rightarrow> ''unknown'') in
      (text_of (Option.bind row fr_harness), text_of (Option.bind row fr_model)))"

section \<open>The landing statement\<close>

text \<open>\<open>raw\<close> is the text of a JSON array as the database prints it, or a scalar that is no array.\<close>

definition parseReceiptRefs :: "json option \<Rightarrow> string list" where
  "parseReceiptRefs raw = (case raw of Some (JArr xs) \<Rightarrow> List.map_filter (\<lambda>x. as_string (Some x)) xs | _ \<Rightarrow> [])"

definition receipt_of :: "land_opts \<Rightarrow> int \<Rightarrow> flight_row \<Rightarrow> landing_receipt" where
  "receipt_of opts now f =
     \<lparr>lr_tenant = fr_tenant f, lr_flight_id = fr_id f, lr_agent_id = lo_agent_id opts,
      lr_squad_ids = fm_squad_ids (lo_meta opts), lr_task_ids = fm_task_ids (lo_meta opts),
      lr_cost = (if fr_cost_metered f then Some (fr_cost f) else None), lr_metered = fr_cost_metered f,
      lr_compliance = (if \<not> fr_cost_metered f then Unknown_compliance
         else if (case fr_budget f of None \<Rightarrow> False | Some b \<Rightarrow> fr_cost f > b) then Over_budget else Within_budget),
      lr_score = nullish (fr_score f) (lo_score opts), lr_harness = fr_harness f, lr_model = fr_model f,
      lr_receipt_refs = parseReceiptRefs (Option.bind (fr_meta f) (\<lambda>m. je_path m ''receipt_refs'')),
      lr_actor_is_agent = lo_actor_is_agent opts, lr_actor_id = lo_actor_id opts,
      lr_claimed_harness = sanitizeBoundedFlightText (lo_claimed_harness opts) FLIGHT_HARNESS_MAX_LEN,
      lr_claimed_model = sanitizeBoundedFlightText (lo_claimed_model opts) FLIGHT_MODEL_MAX_LEN,
      lr_attribution = lo_attribution opts, lr_created_at = now, lr_delivered_at = None, lr_attempts = 0, lr_last_error = None\<rparr>"

definition flightReceiptExists :: "flight_db \<Rightarrow> string \<Rightarrow> bool" where
  "flightReceiptExists db i = exists_row (\<lambda>r. lr_tenant r = fd_tenant db \<and> lr_flight_id r = i) (fd_outbox db)"

definition routineCostAggregation :: "flight_db \<Rightarrow> string \<Rightarrow> flight_db" where
  "routineCostAggregation db i =
     db\<lparr>fd_runs := map (\<lambda>rr. if rr_tenant rr = fd_tenant db \<and> i \<in> set (rr_flight_refs rr)
          then rr\<lparr>rr_cost := sum_list (map fr_cost (filter (\<lambda>f. fr_tenant f = rr_tenant rr \<and>
                 (rr_flight_id rr = Some (fr_id f) \<or> fr_id f \<in> set (rr_flight_refs rr))) (fd_flights db)))\<rparr>
          else rr) (fd_runs db)\<rparr>"

record landing_outcome =
  transitioned :: bool
  receipt :: bool

text \<open>\<open>outbox_ok\<close> and \<open>aggregation_ok\<close>: whether the two later statements run or throw.\<close>

definition landGovernedFlight ::
  "flight_db \<Rightarrow> string \<Rightarrow> land_opts \<Rightarrow> int \<Rightarrow> bool \<Rightarrow> bool \<Rightarrow> flight_db \<times> landing_outcome" where
  "landGovernedFlight db i opts now outbox_ok aggregation_ok =
     (let identity = loadFlightHarness db (lo_agent_id opts) in
      case filter (land_matches db i opts) (fd_flights db) of
        [f] \<Rightarrow>
          (let landed = landed_row db opts identity now f;
               db1 = update_flights (land_matches db i opts) (landed_row db opts identity now) db;
               db2 = (if outbox_ok \<and> \<not> flightReceiptExists db1 i
                      then db1\<lparr>fd_outbox := fd_outbox db1 @ [receipt_of opts now landed]\<rparr> else db1);
               rec = (outbox_ok \<and> flightReceiptExists db2 i);
               db3 = (if truthy (fm_routine_run_id (lo_meta opts)) \<and> aggregation_ok then routineCostAggregation db2 i else db2)
           in (db3, \<lparr>transitioned = True, receipt = rec\<rparr>))
      | _ \<Rightarrow> (update_flights (land_matches db i opts) (landed_row db opts identity now) db, \<lparr>transitioned = False, receipt = False\<rparr>))"

section \<open>Explaining a refusal\<close>

definition load_tasks_any :: "flight_db \<Rightarrow> string list \<Rightarrow> task list" where
  "load_tasks_any db taskIds =
     concat (map (\<lambda>chunk. filter (\<lambda>t. t_id t \<in> set chunk) (d_tasks (fd_tasks db))) (chunks 90 taskIds))"

definition listIncompleteFlightTaskIds :: "flight_db \<Rightarrow> string list \<Rightarrow> string list" where
  "listIncompleteFlightTaskIds db taskIds =
     (if taskIds = [] then []
      else filter (\<lambda>i. case tasks_by_id (load_tasks_any db taskIds) i of
             None \<Rightarrow> True
           | Some t \<Rightarrow> t_status t \<noteq> Done \<or>
               t_gate_owner t \<noteq> None \<and> map_option tv_verdict (findLatestVerdict (fd_tasks db) (t_id t)) \<noteq> Some V_approved)
         taskIds)"

definition listFlightProjectMismatchTaskIds :: "flight_db \<Rightarrow> string option \<Rightarrow> string list \<Rightarrow> string list" where
  "listFlightProjectMismatchTaskIds db projectId taskIds =
     (if projectId = None \<or> taskIds = [] then []
      else filter (\<lambda>i. case tasks_by_id (load_tasks_any db taskIds) i of
             None \<Rightarrow> False | Some t \<Rightarrow> t_project_id t \<noteq> projectId) taskIds)"

definition listLandEvidenceGaps :: "flight_db \<Rightarrow> string \<Rightarrow> string list \<Rightarrow> string list \<times> string list" where
  "listLandEvidenceGaps db i taskIds =
     (if taskIds = [] then ([], [])
      else let rows = concat (map (\<lambda>f. List.map_filter (\<lambda>ref. map_option (Pair f) (task_row db ref)) (task_refs f))
                        (filter (own_flight db i) (fd_flights db)))
           in (map (\<lambda>(f, t). t_id t) (filter (\<lambda>(f, t). noResultSubmission db f t) rows),
               map (\<lambda>(f, t). t_id t) (filter (\<lambda>(f, t). noIndependentVerdict db f t) rows)))"

datatype land_refusal = Land_requires_result_submission "string list" | Land_requires_independent_verdict "string list"

definition landEvidenceRefusal :: "flight_db \<Rightarrow> string \<Rightarrow> string list \<Rightarrow> land_refusal option" where
  "landEvidenceRefusal db i taskIds =
     (if \<not> landEvidenceEnabled db then None
      else (case listLandEvidenceGaps db i taskIds of
              (subs, verdicts) \<Rightarrow>
                if subs \<noteq> [] then Some (Land_requires_result_submission subs)
                else if verdicts \<noteq> [] then Some (Land_requires_independent_verdict verdicts)
                else None))"

section \<open>Creation is atomic\<close>

lemma anyTaskArchived_iff: "anyTaskArchived db ids \<longleftrightarrow> (\<exists>i \<in> set ids. isTaskArchived (fd_tasks db) i)"
proof -
  have "set ids = set (concat (chunks 90 ids))" by (simp add: concat_chunks)
  then show ?thesis unfolding anyTaskArchived_def by (auto simp: list_ex_iff isTaskArchived_def)
qed

lemma insert_flight_rows:
  assumes "insert_flight db i now f opts = (db', r)"
  shows "if r = Inr True
    then fd_flights db' = fd_flights db @ [created_row db i now f opts] \<and> i \<notin> fr_id ` set (fd_flights db) \<and>
      FLIGHT_TASKS_NOT_ARCHIVED_SQL db (nf_meta f) \<and>
      (\<forall>fence. co_routineRunFence opts = Some fence \<longrightarrow> fence_open db (nf_project_id f) fence)
    else fd_flights db' = fd_flights db"
  using assms
  by (auto simp: insert_flight_def Let_def exists_row_iff split: if_splits option.splits)

lemma create_flight_rows:
  assumes "createFlight db_read db_write db_diag i now f opts = (db', out)"
  shows "case out of
      Inl e \<Rightarrow> fd_flights db' = fd_flights db_write
    | Inr j \<Rightarrow> j = i \<and> fd_flights db' = fd_flights db_write @ [created_row db_write i now f opts] \<and>
        i \<notin> fr_id ` set (fd_flights db_write) \<and> fr_status (created_row db_write i now f opts) = Preflight \<and>
        (\<forall>m t. nf_meta f = Some m \<and> t \<in> set (fm_task_ids m) \<longrightarrow> \<not> isTaskArchived (fd_tasks db_write) t) \<and>
        (\<forall>fence. co_routineRunFence opts = Some fence \<longrightarrow> fence_open db_write (nf_project_id f) fence)"
proof (cases "\<exists>j. out = Inr j")
  case False
  then obtain e where "out = Inl e" by (cases out) auto
  with assms show ?thesis
    by (auto simp: createFlight_def Let_def dest: insert_flight_rows
        split: option.splits if_splits prod.splits sum.splits bool.splits)
next
  case True
  then obtain j where j: "out = Inr j" by blast
  then obtain db1 where "insert_flight db_write i now f opts = (db1, Inr True)" "db' = db1" "j = i"
    using assms by (auto simp: createFlight_def Let_def split: option.splits if_splits prod.splits sum.splits bool.splits)
  then show ?thesis
    using insert_flight_rows [of db_write i now f opts db1 "Inr True"] j
    by (auto simp: FLIGHT_TASKS_NOT_ARCHIVED_SQL_def list_ex_iff isTaskArchived_def created_row_def)
qed

text \<open>Whatever the tables its validation and its diagnosis read, a creation either fails and
  leaves the flight table as it was when its statement ran, or appends exactly one row, under a
  fresh id, in preflight; and then no task of the contract was archived, and for a routine
  dispatch the run was open and not being cancelled, at the moment of the write.\<close>
theorem create_flight_atomic:
  assumes "createFlight db_read db_write db_diag i now f opts = (db', out)"
  shows "case out of
      Inl e \<Rightarrow> fd_flights db' = fd_flights db_write
    | Inr j \<Rightarrow> j = i \<and> fd_flights db' = fd_flights db_write @ [created_row db_write i now f opts] \<and>
        i \<notin> fr_id ` set (fd_flights db_write) \<and> fr_status (created_row db_write i now f opts) = Preflight \<and>
        (\<forall>m t. nf_meta f = Some m \<and> t \<in> set (fm_task_ids m) \<longrightarrow> \<not> isTaskArchived (fd_tasks db_write) t) \<and>
        (\<forall>fence. co_routineRunFence opts = Some fence \<longrightarrow> fence_open db_write (nf_project_id f) fence)"
  using assms by (rule create_flight_rows)

end
