(* ===== verification/Flight_Safety.thy ===== *)
theory Flight_Safety
  imports Flight_Service
begin

text \<open>
  What the flight record guarantees over any sequence of its operations: the life cycle, with
  terminal flights frozen, and the governed landing, with the agreement between the predicate
  of its statement and the reads that explain a refusal.
\<close>

section \<open>Life cycle\<close>

text \<open>One operation of \<^verbatim>\<open>src/flight/service.ts\<close> by any caller with any arguments.\<close>

inductive flight_step :: "flight_db \<Rightarrow> flight_db \<Rightarrow> bool" where
  step_create: "createFlight db_read db db_diag i now f opts = (db', out) \<Longrightarrow> flight_step db db'"
| step_preflight: "applyPreflight db i r now = (db', st) \<Longrightarrow> flight_step db db'"
| step_land: "flight_step db (landFlight db i cost score now)"
| step_fail: "flight_step db (failFlight db i reason now)"
| step_sleep: "flight_step db (sleepFlight db i nextRunAt)"
| step_governed: "landGovernedFlight db i opts now o1 o2 = (db', out) \<Longrightarrow> flight_step db db'"

inductive flight_steps :: "flight_db \<Rightarrow> flight_db \<Rightarrow> bool" for db where
  steps_nil: "flight_steps db db"
| steps_cons: "flight_steps db db1 \<Longrightarrow> flight_step db1 db2 \<Longrightarrow> flight_steps db db2"

definition unique_flights :: "flight_db \<Rightarrow> bool" where
  "unique_flights db \<longleftrightarrow> distinct (map fr_id (fd_flights db))"

definition terminal :: "flight_row \<Rightarrow> bool" where
  "terminal f \<longleftrightarrow> fr_status f \<in> {Held, Landed, Failed}"

text \<open>The edges of the life cycle.\<close>

definition flight_edge :: "flight_status \<Rightarrow> flight_status \<Rightarrow> bool" where
  "flight_edge a b \<longleftrightarrow> a = b \<or>
     (case a of
        Preflight \<Rightarrow> b \<in> {Running, Held, Failed}
      | Running \<Rightarrow> b \<in> {Sleeping, Landed, Failed}
      | Waiting \<Rightarrow> b \<in> {Sleeping, Landed, Failed}
      | Sleeping \<Rightarrow> b \<in> {Landed, Failed}
      | _ \<Rightarrow> False)"

text \<open>Every operation is a row-wise update, guarded on the status, with at most one new row.\<close>

definition evolves :: "flight_row \<Rightarrow> flight_row \<Rightarrow> bool" where
  "evolves r r' \<longleftrightarrow> fr_id r' = fr_id r \<and> fr_tenant r' = fr_tenant r \<and> fr_agent r' = fr_agent r \<and>
     flight_edge (fr_status r) (fr_status r') \<and> (terminal r \<longrightarrow> r' = r)"

lemma evolves_refl [simp]: "evolves r r"
  by (simp add: evolves_def flight_edge_def)

lemma evolves_terminal: "evolves r r' \<Longrightarrow> terminal r \<Longrightarrow> r' = r"
  by (simp add: evolves_def)

lemma update_flights_evolves:
  assumes "\<And>r. p r \<Longrightarrow> evolves r (u r)"
  shows "list_all2 evolves (fd_flights db) (fd_flights (update_flights p u db))"
  using assms by (auto simp: update_flights_def list_all2_conv_all_nth)

lemma landed_row_fields [simp]:
  "fr_status (landed_row db opts identity now r) = Landed" "fr_id (landed_row db opts identity now r) = fr_id r"
  "fr_tenant (landed_row db opts identity now r) = fr_tenant r" "fr_agent (landed_row db opts identity now r) = fr_agent r"
  "fr_budget (landed_row db opts identity now r) = fr_budget r" "fr_project_id (landed_row db opts identity now r) = fr_project_id r"
  by (simp_all add: landed_row_def Let_def)

lemma landed_row_evolves: "in_air r \<Longrightarrow> evolves r (landed_row db opts identity now r)"
  by (cases "fr_status r") (simp_all add: in_air_def evolves_def flight_edge_def terminal_def)

lemma governed_rows:
  assumes "landGovernedFlight db i opts now o1 o2 = (db', out)"
  shows "fd_flights db' = fd_flights (update_flights (land_matches db i opts)
    (landed_row db opts (loadFlightHarness db (lo_agent_id opts)) now) db)"
  using assms unfolding landGovernedFlight_def Let_def routineCostAggregation_def
  by (cases "filter (land_matches db i opts) (fd_flights db)" rule: remdups_adj.cases) (auto split: if_splits)

lemma flight_step_rows:
  assumes "flight_step db db'"
  shows "\<exists>kept new. fd_flights db' = kept @ new \<and> list_all2 evolves (fd_flights db) kept \<and>
    (new = [] \<or> (\<exists>r. new = [r] \<and> fr_status r = Preflight \<and> fr_id r \<notin> fr_id ` set (fd_flights db)))"
proof -
  have upd: ?thesis if "\<And>r. p r \<Longrightarrow> evolves r (u r)" "fd_flights db' = fd_flights (update_flights p u db)" for p u
    using update_flights_evolves [of p u db] that by (intro exI [of _ "fd_flights db'"] exI [of _ "[]"]) simp
  have same: ?thesis if "fd_flights db' = fd_flights db"
    using that by (intro exI [of _ "fd_flights db'"] exI [of _ "[]"]) (simp add: list_all2_refl)
  from assms show ?thesis
  proof cases
    case (step_create db_read db_diag i now f opts out)
    show ?thesis
    proof (cases out)
      case (Inl e)
      then show ?thesis using create_flight_rows [OF step_create] same by simp
    next
      case (Inr j)
      then show ?thesis
        using create_flight_rows [OF step_create]
        by (intro exI [of _ "fd_flights db"] exI [of _ "[created_row db i now f opts]"])
          (auto simp: list_all2_refl created_row_def)
    qed
  next
    case (step_preflight i r now st)
    then show ?thesis
      by (intro upd [of "\<lambda>f. own_flight db i f \<and> fr_status f = Preflight"
            "\<lambda>f. if gr_go r then f\<lparr>fr_status := Running, fr_gate_verdict := Some ''go'', fr_gate_reason := [],
                  fr_score := Some (gr_score r), fr_started_at := Some now\<rparr>
              else f\<lparr>fr_status := Held, fr_gate_verdict := Some ''no_go'', fr_gate_reason := join '','' (gr_reasons r),
                  fr_score := Some (gr_score r), fr_ended_at := Some now\<rparr>"])
        (auto simp: evolves_def flight_edge_def terminal_def applyPreflight_def split: if_splits)
  next
    case (step_land i cost score now)
    then show ?thesis
      by (intro upd) (auto simp: evolves_def flight_edge_def terminal_def landFlight_def in_air_def)
  next
    case (step_fail i reason now)
    then show ?thesis
      by (intro upd) (auto simp: evolves_def flight_edge_def terminal_def failFlight_def in_air_def)
  next
    case (step_sleep i nextRunAt)
    then show ?thesis
      by (intro upd) (auto simp: evolves_def flight_edge_def terminal_def sleepFlight_def)
  next
    case (step_governed i opts now o1 o2 out)
    let ?id = "loadFlightHarness db (lo_agent_id opts)"
    show ?thesis
    proof (rule upd [OF _ governed_rows [OF step_governed]])
      show "evolves r (landed_row db opts ?id now r)" if "land_matches db i opts r" for r
        using that unfolding land_matches_def by (elim conjE) (rule landed_row_evolves)
    qed
  qed
qed

lemma list_all2_evolves_ids: "list_all2 evolves xs ys \<Longrightarrow> map fr_id ys = map fr_id xs"
  by (induction rule: list_all2_induct) (auto simp: evolves_def)

lemma flight_step_unique:
  assumes "flight_step db db'" "unique_flights db"
  shows "unique_flights db'"
proof -
  obtain kept new where r: "fd_flights db' = kept @ new" "list_all2 evolves (fd_flights db) kept"
    "new = [] \<or> (\<exists>r. new = [r] \<and> fr_status r = Preflight \<and> fr_id r \<notin> fr_id ` set (fd_flights db))"
    using flight_step_rows [OF assms(1)] by blast
  have ids: "map fr_id kept = map fr_id (fd_flights db)" by (rule list_all2_evolves_ids [OF r(2)])
  then have "fr_id ` set kept = fr_id ` set (fd_flights db)" by (metis list.set_map)
  moreover have "distinct (map fr_id kept)" using ids assms(2) by (simp add: unique_flights_def)
  ultimately show ?thesis using r(1,3) unfolding unique_flights_def by (auto intro: rev_image_eqI)
qed

lemma list_all2_successor:
  assumes "list_all2 evolves xs ys" "f \<in> set xs"
  shows "\<exists>g \<in> set ys. evolves f g"
  using assms by (induction rule: list_all2_induct) auto

lemma flight_step_successor:
  assumes "flight_step db db'" "f \<in> set (fd_flights db)"
  shows "\<exists>g \<in> set (fd_flights db'). evolves f g"
  using flight_step_rows [OF assms(1)] list_all2_successor [OF _ assms(2)] by fastforce

lemma flight_step_new:
  assumes "flight_step db db'" "g \<in> set (fd_flights db')" "fr_id g \<notin> fr_id ` set (fd_flights db)"
  shows "fr_status g = Preflight"
proof -
  obtain kept new where r: "fd_flights db' = kept @ new" "list_all2 evolves (fd_flights db) kept"
    "new = [] \<or> (\<exists>r. new = [r] \<and> fr_status r = Preflight \<and> fr_id r \<notin> fr_id ` set (fd_flights db))"
    using flight_step_rows [OF assms(1)] by blast
  have "fr_id ` set kept = fr_id ` set (fd_flights db)" using list_all2_evolves_ids [OF r(2)] by (metis list.set_map)
  then have "g \<notin> set kept" using assms(3) by blast
  with r assms(2) show ?thesis by auto
qed

lemma flight_steps_terminal:
  assumes "flight_steps db db'" "f \<in> set (fd_flights db)" "terminal f"
  shows "f \<in> set (fd_flights db')"
  using assms(1)
proof induction
  case (steps_cons db1 db2)
  then obtain g where "g \<in> set (fd_flights db2)" "evolves f g" using flight_step_successor by blast
  moreover have "g = f" using \<open>evolves f g\<close> assms(3) by (rule evolves_terminal)
  ultimately show ?case by simp
qed (rule assms(2))

lemma flight_steps_unique: "flight_steps db db' \<Longrightarrow> unique_flights db \<Longrightarrow> unique_flights db'"
  by (induction rule: flight_steps.induct) (auto dest: flight_step_unique)

text \<open>C32: The life cycle of a flight. After any sequence of operations the last one moves every flight
  along an edge of the life cycle and gives it neither another agent nor another tenant, a row
  it adds starts in preflight, and a flight that was held, landed or failed at the start is still
  there, exactly as it was: nothing revives or rewrites a terminal flight.\<close>
theorem flight_life_cycle:
  assumes run: "flight_steps db db1" and st: "flight_step db1 db2" and wf: "unique_flights db"
  shows "(\<forall>f \<in> set (fd_flights db1). \<forall>g \<in> set (fd_flights db2). fr_id g = fr_id f \<longrightarrow>
            flight_edge (fr_status f) (fr_status g) \<and> fr_agent g = fr_agent f \<and> fr_tenant g = fr_tenant f) \<and>
    (\<forall>g \<in> set (fd_flights db2). fr_id g \<notin> fr_id ` set (fd_flights db1) \<longrightarrow> fr_status g = Preflight) \<and>
    (\<forall>f \<in> set (fd_flights db). terminal f \<longrightarrow> first_row (\<lambda>g. fr_id g = fr_id f) (fd_flights db2) = Some f)"
proof (intro conjI ballI impI)
  have wf2: "unique_flights db2" using flight_step_unique [OF st flight_steps_unique [OF run wf]] .
  have run2: "flight_steps db db2" using run st by (rule steps_cons)
  show "flight_edge (fr_status f) (fr_status g)" "fr_agent g = fr_agent f" "fr_tenant g = fr_tenant f"
    if f: "f \<in> set (fd_flights db1)" and g: "g \<in> set (fd_flights db2)" "fr_id g = fr_id f" for f g
  proof -
    obtain h where h: "h \<in> set (fd_flights db2)" "evolves f h" using flight_step_successor [OF st f] by blast
    have "fr_id h = fr_id g" using h(2) g(2) by (simp add: evolves_def)
    then have "h = g" using inj_onD [of fr_id "set (fd_flights db2)" h g] wf2 h(1) g(1)
      by (simp add: unique_flights_def distinct_map)
    with h(2) show "flight_edge (fr_status f) (fr_status g)" "fr_agent g = fr_agent f" "fr_tenant g = fr_tenant f"
      by (simp_all add: evolves_def)
  qed
  show "fr_status g = Preflight" if "g \<in> set (fd_flights db2)" "fr_id g \<notin> fr_id ` set (fd_flights db1)" for g
    using flight_step_new [OF st that] .
  show "first_row (\<lambda>g. fr_id g = fr_id f) (fd_flights db2) = Some f" if "f \<in> set (fd_flights db)" "terminal f" for f
    using first_row_key [of fr_id "fd_flights db2" f] flight_steps_terminal [OF run2 that] wf2
    by (simp add: unique_flights_def)
qed

section \<open>The governed landing\<close>

text \<open>What every task of a landed flight carries.\<close>

definition task_landed :: "flight_db \<Rightarrow> flight_row \<Rightarrow> task \<Rightarrow> bool" where
  "task_landed db f t \<longleftrightarrow> t_status t = Done \<and> (fr_project_id f = None \<or> t_project_id t = fr_project_id f) \<and>
     (t_gate_owner t = None \<or>
      (case findLatestVerdict (fd_tasks db) (t_id t) of None \<Rightarrow> False | Some v \<Rightarrow> tv_verdict v = V_approved))"

definition task_evidenced :: "flight_db \<Rightarrow> flight_row \<Rightarrow> task \<Rightarrow> bool" where
  "task_evidenced db f t \<longleftrightarrow>
     list_ex (\<lambda>sub. rs_tenant sub = fr_tenant f \<and> rs_task_id sub = t_id t \<and> rs_agent sub = fr_agent f \<and> landResultMatchSql sub t)
       (fd_submissions db) \<and>
     (case findLatestVerdict (fd_tasks db) (t_id t) of
        None \<Rightarrow> False
      | Some v \<Rightarrow> tv_verdict v = V_approved \<and> tv_decided_by v \<noteq> fr_agent f \<and> t_assignee_agent_id t \<noteq> Some (tv_decided_by v) \<and>
          t_gate_owner t \<noteq> Some GATE_AGENT_SELF_COMPLETION)"

lemma task_landed_blocks: "\<not> task_blocks_land db f ref \<longleftrightarrow> (\<exists>t. task_row db ref = Some t \<and> task_landed db f t)"
  by (cases "task_row db ref") (auto simp: task_blocks_land_def task_landed_def split: option.splits)

lemma evidence_eligible:
  assumes "landEvidenceEligibleSql db f" "ref \<in> set (task_refs f)" "task_row db ref = Some t"
  shows "task_evidenced db f t"
proof -
  have "\<not> noResultSubmission db f t" "\<not> noIndependentVerdict db f t"
    using assms by (force simp: landEvidenceEligibleSql_def list_ex_iff)+
  then show ?thesis
    by (auto simp: task_evidenced_def noResultSubmission_def noIndependentVerdict_def exists_row_def
        split: option.splits)
qed

lemma governed_single:
  assumes "landGovernedFlight db i opts now o1 o2 = (db', out)" "transitioned out"
  obtains f where "filter (land_matches db i opts) (fd_flights db) = [f]"
  using assms unfolding landGovernedFlight_def Let_def
  by (cases "filter (land_matches db i opts) (fd_flights db)" rule: remdups_adj.cases) auto

lemma governed_none:
  assumes "landGovernedFlight db i opts now o1 o2 = (db', out)" "\<not> transitioned out" "unique_flights db"
  shows "filter (land_matches db i opts) (fd_flights db) = []" "db' = db"
proof -
  have "filter (land_matches db i opts) (fd_flights db) = filter (\<lambda>f. fr_id f = i \<and> land_matches db i opts f) (fd_flights db)"
    by (rule filter_cong) (auto simp: land_matches_def own_flight_def)
  also have "length \<dots> \<le> 1"
    unfolding filter_key [OF assms(3) [unfolded unique_flights_def]] by (simp split: option.splits)
  finally show n: "filter (land_matches db i opts) (fd_flights db) = []"
    using assms(1,2) unfolding landGovernedFlight_def Let_def
    by (cases "filter (land_matches db i opts) (fd_flights db)" rule: remdups_adj.cases) auto
  have "update_flights (land_matches db i opts) u db = db" for u
    using n unfolding update_flights_def filter_empty_conv by (simp add: map_idI)
  with assms(1) n show "db' = db" by (simp add: landGovernedFlight_def Let_def)
qed

text \<open>C33: A governed landing that takes place moves one flight of the tenant from the air to landed. The flight has a budget and the
  cost the landing claims is within it, unless the claim is unmetered. Only the claim is compared: the row keeps the claimed cost, or,
  where the claim is zero, a metered cost that was reported before, whatever its size (\<open>landed_over_budget\<close>). Every task its
  contract names exists, is done, is in the flight's project and, if gated, has approval as its latest verdict; with evidence
  required, and unless the flight controls a routine run, every task also has a matching result submitted by the flight's agent and
  an approving verdict by neither that agent nor the task's assignee. A refused landing changes nothing.\<close>
theorem governed_landing_sound:
  assumes land: "landGovernedFlight db i opts now o1 o2 = (db', out)" and wf: "unique_flights db"
  shows "if transitioned out then
      \<exists>f \<in> set (fd_flights db). own_flight db i f \<and> in_air f \<and>
        (\<exists>g \<in> set (fd_flights db'). fr_id g = i \<and> fr_status g = Landed \<and>
           (fr_cost g = lo_cost opts \<or> lo_cost opts = 0 \<and> fr_cost_metered f \<and> 0 < fr_cost f \<and> fr_cost g = fr_cost f)) \<and>
        (\<exists>b. fr_budget f = Some b \<and> (lo_metered opts \<longrightarrow> lo_cost opts \<le> b)) \<and>
        list_all (\<lambda>ref. case task_row db ref of
            None \<Rightarrow> False
          | Some t \<Rightarrow> task_landed db f t \<and>
              (landEvidenceEnabled db \<and> \<not> list_ex (control_run db f) (fd_runs db) \<longrightarrow> task_evidenced db f t)) (task_refs f)
    else db' = db"
proof (cases "transitioned out")
  case False
  then show ?thesis using governed_none [OF land] wf by simp
next
  case True
  obtain f where f: "filter (land_matches db i opts) (fd_flights db) = [f]" using land True by (rule governed_single)
  have m: "f \<in> set (fd_flights db)" "land_matches db i opts f"
    using f by (metis filter_eq_Cons_iff append_is_Nil_conv in_set_conv_decomp, metis filter_eq_Cons_iff)
  then have own: "own_flight db i f" "in_air f"
    and gov: "governedLandEligibilitySql db (\<lambda>b. \<not> lo_metered opts \<or> lo_cost opts \<le> b) f" and ev: "land_evidence_ok db opts f"
    unfolding land_matches_def by blast+
  let ?id = "loadFlightHarness db (lo_agent_id opts)"
  have "landed_row db opts ?id now f \<in> set (fd_flights db')"
    unfolding governed_rows [OF land] update_flights_def using m by force
  moreover have "fr_cost (landed_row db opts ?id now f) = lo_cost opts \<or>
      lo_cost opts = 0 \<and> fr_cost_metered f \<and> 0 < fr_cost f \<and> fr_cost (landed_row db opts ?id now f) = fr_cost f"
    by (auto simp: landed_row_def Let_def)
  ultimately have landed: "\<exists>g \<in> set (fd_flights db'). fr_id g = i \<and> fr_status g = Landed \<and>
      (fr_cost g = lo_cost opts \<or> lo_cost opts = 0 \<and> fr_cost_metered f \<and> 0 < fr_cost f \<and> fr_cost g = fr_cost f)"
    using own(1) by (intro bexI [of _ "landed_row db opts ?id now f"]) (simp_all add: own_flight_def)
  have budget: "\<exists>b. fr_budget f = Some b \<and> (lo_metered opts \<longrightarrow> lo_cost opts \<le> b)"
    using gov by (auto simp: governedLandEligibilitySql_def split: option.splits)
  have "case task_row db ref of None \<Rightarrow> False
      | Some t \<Rightarrow> task_landed db f t \<and>
          (landEvidenceEnabled db \<and> \<not> list_ex (control_run db f) (fd_runs db) \<longrightarrow> task_evidenced db f t)"
    if ref: "ref \<in> set (task_refs f)" for ref
  proof -
    have "\<not> task_blocks_land db f ref" using gov ref by (simp add: governedLandEligibilitySql_def list_ex_iff)
    then obtain t where t: "task_row db ref = Some t" "task_landed db f t" using task_landed_blocks by blast
    moreover have "task_evidenced db f t" if "landEvidenceEnabled db" "\<not> list_ex (control_run db f) (fd_runs db)"
      using ev that evidence_eligible [OF _ ref t(1)]
      by (simp add: land_evidence_ok_def exists_row_def split: if_splits)
    ultimately show ?thesis by simp
  qed
  then show ?thesis using True own m(1) landed budget by (auto simp: list_all_iff)
qed

section \<open>A refusal is explained\<close>

lemma task_refs_meta_json: "fr_meta f = Some (meta_json m) \<Longrightarrow> task_refs f = map Some (fm_task_ids m)"
  by (simp add: task_refs_def meta_json_def je_path_def comp_def)

lemma set_load_tasks_any: "set (load_tasks_any db ids) = {t \<in> set (d_tasks (fd_tasks db)). t_id t \<in> set ids}"
proof -
  have "set ids = set (concat (chunks 90 ids))" by (simp add: concat_chunks)
  then show ?thesis unfolding load_tasks_any_def by auto
qed

lemma tasks_by_id_any:
  assumes "distinct (map t_id (d_tasks (fd_tasks db)))" "i \<in> set ids"
  shows "tasks_by_id (load_tasks_any db ids) i = task_row db (Some i)"
proof (cases "tasks_by_id (load_tasks_any db ids) i")
  case None
  then have "\<forall>t \<in> set (d_tasks (fd_tasks db)). t_id t \<noteq> i"
    using assms(2) unfolding tasks_by_id_None set_load_tasks_any by auto
  then have "first_row (\<lambda>t. t_id t = i) (d_tasks (fd_tasks db)) = None" by (simp add: first_row_None)
  with None show ?thesis by (simp add: task_row_def)
next
  case (Some t)
  then have "t \<in> set (d_tasks (fd_tasks db))" "t_id t = i"
    using tasks_by_id_Some [OF Some] unfolding set_load_tasks_any by auto
  with Some show ?thesis using first_row_key [OF assms(1)] by (auto simp: task_row_def)
qed

lemma incomplete_and_mismatch:
  assumes d: "distinct (map t_id (d_tasks (fd_tasks db)))" and m: "fr_meta f = Some (meta_json m)"
  shows "listIncompleteFlightTaskIds db (fm_task_ids m) = [] \<and>
      listFlightProjectMismatchTaskIds db (fr_project_id f) (fm_task_ids m) = [] \<longleftrightarrow>
    \<not> list_ex (task_blocks_land db f) (task_refs f)"
proof -
  have "listIncompleteFlightTaskIds db (fm_task_ids m) = [] \<and>
      listFlightProjectMismatchTaskIds db (fr_project_id f) (fm_task_ids m) = [] \<longleftrightarrow>
    (\<forall>i \<in> set (fm_task_ids m). \<not> task_blocks_land db f (Some i))"
  proof -
    have "\<not> task_blocks_land db f (Some i) \<longleftrightarrow>
       \<not> (case tasks_by_id (load_tasks_any db (fm_task_ids m)) i of
             None \<Rightarrow> True
           | Some t \<Rightarrow> t_status t \<noteq> Done \<or>
               t_gate_owner t \<noteq> None \<and> map_option tv_verdict (findLatestVerdict (fd_tasks db) (t_id t)) \<noteq> Some V_approved) \<and>
       \<not> (fr_project_id f \<noteq> None \<and> (case tasks_by_id (load_tasks_any db (fm_task_ids m)) i of
             None \<Rightarrow> False | Some t \<Rightarrow> t_project_id t \<noteq> fr_project_id f))"
      if "i \<in> set (fm_task_ids m)" for i
      using tasks_by_id_any [OF d that] by (auto simp: task_blocks_land_def split: option.splits)
    then show ?thesis
      unfolding listIncompleteFlightTaskIds_def listFlightProjectMismatchTaskIds_def
      by (cases "fm_task_ids m = []"; cases "fr_project_id f = None") (auto simp: filter_empty_conv)
  qed
  then show ?thesis by (simp add: task_refs_meta_json [OF m] list_ex_iff)
qed

lemma evidence_refusal:
  assumes "unique_flights db" "f \<in> set (fd_flights db)" "own_flight db i f" "fr_meta f = Some (meta_json m)"
  shows "landEvidenceRefusal db i (fm_task_ids m) = None \<longleftrightarrow> \<not> landEvidenceEnabled db \<or> landEvidenceEligibleSql db f"
proof (cases "landEvidenceEnabled db \<and> fm_task_ids m \<noteq> []")
  case False
  then show ?thesis
    by (auto simp: landEvidenceRefusal_def listLandEvidenceGaps_def landEvidenceEligibleSql_def task_refs_meta_json [OF assms(4)])
next
  case True
  have "filter (own_flight db i) (fd_flights db) = filter (\<lambda>x. fr_id x = fr_id f \<and> fr_tenant x = fd_tenant db) (fd_flights db)"
    using assms(3) by (intro filter_cong) (simp_all add: own_flight_def)
  also have "\<dots> = [f]"
    unfolding filter_key [OF assms(1) [unfolded unique_flights_def]]
    using first_row_key [OF assms(1) [unfolded unique_flights_def] assms(2)] assms(3) by (simp add: own_flight_def)
  finally have one: "filter (own_flight db i) (fd_flights db) = [f]" .
  let ?rows = "List.map_filter (\<lambda>ref. map_option (Pair f) (task_row db ref)) (task_refs f)"
  have rows: "x \<in> set ?rows \<longleftrightarrow> (\<exists>ref \<in> set (task_refs f). \<exists>t. task_row db ref = Some t \<and> x = (f, t))" for x
    unfolding set_map_filter_iff by auto
  have "landEvidenceRefusal db i (fm_task_ids m) = None \<longleftrightarrow>
      filter (\<lambda>(g, t). noResultSubmission db g t) ?rows = [] \<and> filter (\<lambda>(g, t). noIndependentVerdict db g t) ?rows = []"
    using True by (simp add: landEvidenceRefusal_def listLandEvidenceGaps_def one Let_def split: if_split)
  also have "\<dots> \<longleftrightarrow> (\<forall>(g, t) \<in> set ?rows. \<not> noResultSubmission db g t \<and> \<not> noIndependentVerdict db g t)"
    unfolding filter_empty_conv by blast
  also have "\<dots> \<longleftrightarrow> landEvidenceEligibleSql db f"
    unfolding Ball_def rows landEvidenceEligibleSql_def list_ex_iff by (auto split: option.splits)
  finally show ?thesis using True by simp
qed

text \<open>The reads that explain a refused landing agree with the statement that refuses it: a flight
  in the air whose contract was stored by its creation and names no routine run satisfies the
  statement's condition exactly when the caller is the expected agent, the budget admits the
  cost, and the lists of incomplete tasks, of tasks in another project and of missing evidence
  are all empty. No refusal is left unexplained and no explanation is given to a flight that lands.\<close>
theorem land_refusal_explained:
  assumes "unique_flights db" "distinct (map t_id (d_tasks (fd_tasks db)))"
    and "f \<in> set (fd_flights db)" "own_flight db i f" "in_air f"
    and "fr_meta f = Some (meta_json (lo_meta opts))" "fm_routine_run_id (lo_meta opts) = None"
  shows "land_matches db i opts f \<longleftrightarrow>
    (lo_expected_agent opts = None \<or> lo_expected_agent opts = Some (fr_agent f)) \<and>
    (\<exists>b. fr_budget f = Some b \<and> (\<not> lo_metered opts \<or> lo_cost opts \<le> b)) \<and>
    listIncompleteFlightTaskIds db (fm_task_ids (lo_meta opts)) = [] \<and>
    listFlightProjectMismatchTaskIds db (fr_project_id f) (fm_task_ids (lo_meta opts)) = [] \<and>
    landEvidenceRefusal db i (fm_task_ids (lo_meta opts)) = None"
proof -
  have schema: "je_equals (fr_meta f) ''schema'' ''mupot.flight.meta/v1''"
    by (simp add: assms(6) je_equals_def je_path_def meta_json_def FLIGHT_META_V1_SCHEMA_def)
  have budget: "(case fr_budget f of None \<Rightarrow> False | Some b \<Rightarrow> \<not> lo_metered opts \<or> lo_cost opts \<le> b) \<longleftrightarrow>
    (\<exists>b. fr_budget f = Some b \<and> (\<not> lo_metered opts \<or> lo_cost opts \<le> b))" by (auto split: option.splits)
  have ev: "land_evidence_ok db opts f \<longleftrightarrow> landEvidenceRefusal db i (fm_task_ids (lo_meta opts)) = None"
    unfolding evidence_refusal [OF assms(1,3,4,6)] land_evidence_ok_def assms(7) by simp
  show ?thesis
    unfolding land_matches_def governedLandEligibilitySql_def budget ev incomplete_and_mismatch [OF assms(2,6), symmetric]
    using schema assms(4-7) by auto
qed

section \<open>Samples\<close>

definition done_task :: task where
  "done_task = sample_task\<lparr>t_status := Done, t_result := Some ''merged'', t_gate_owner := Some ''gate:bee''\<rparr>"

definition sample_flight :: flight_row where
  "sample_flight = \<lparr>fr_id = ''f1'', fr_tenant = ''t'', fr_project_id = None, fr_agent = ''a'', fr_dispatched_by = ''a'',
     fr_goal = ''goal'', fr_status = Running, fr_trigger = Manual, fr_gate_verdict = Some ''go'', fr_gate_reason = [],
     fr_score = None, fr_budget = Some 100, fr_cost = 0, fr_cost_metered = True, fr_bookkeeping = False, fr_next_run_at = None,
     fr_created_at = 1, fr_started_at = Some 2, fr_ended_at = None, fr_meta = Some (meta_json sample_meta),
     fr_client_request_id = None, fr_harness = None, fr_model = None\<rparr>"

definition sample_flight_db :: flight_db where
  "sample_flight_db = \<lparr>fd_tenant = ''t'', fd_flights = [sample_flight, sample_flight\<lparr>fr_id := ''f0'', fr_status := Failed\<rparr>],
     fd_tasks = \<lparr>d_tasks = [done_task], d_archived = [],
       d_verdicts = [\<lparr>tv_id = ''v'', tv_task_id = ''t1'', tv_verdict = V_approved, tv_decided_by = ''b'',
         tv_decided_at = ''2026-01-03'', tv_reversed_at = None\<rparr>],
       d_freezes = [], d_reversals = [], d_projects = [], d_project_access = [], d_abort = (\<lambda>_ _. None)\<rparr>,
     fd_submissions = [\<lparr>rs_id = ''r1'', rs_tenant = ''t'', rs_task_id = ''t1'', rs_agent = ''a'', rs_text = Some ''merged'', rs_seq = 1\<rparr>],
     fd_runs = [], fd_outbox = [], fd_redispatch = [], fd_fleet = [], fd_agents = [], fd_insert_abort = (\<lambda>_. None),
     fd_land_requires_evidence = True\<rparr>"

definition sample_land :: land_opts where
  "sample_land = \<lparr>lo_cost = 40, lo_metered = True, lo_score = None, lo_expected_agent = None, lo_agent_id = ''a'',
     lo_meta = sample_meta, lo_actor_is_agent = True, lo_actor_id = ''a'',
     lo_attribution = None, lo_claimed_harness = None, lo_claimed_model = None\<rparr>"

definition sample_new :: new_flight where
  "sample_new = \<lparr>nf_agent = ''a'', nf_dispatched_by = None, nf_goal = ''goal'', nf_project_id = None, nf_trigger = None,
     nf_budget = Some 100, nf_meta = Some sample_meta, nf_client_request_id = None\<rparr>"

definition plain_options :: create_options where
  "plain_options = \<lparr>co_routineRunFence = None, co_redispatchReceipt = None, co_bookkeeping = False\<rparr>"

lemma sample_unique: "unique_flights sample_flight_db" "distinct (map t_id (d_tasks (fd_tasks sample_flight_db)))"
  by code_simp+

lemma sample_created:
  "createFlight sample_flight_db sample_flight_db sample_flight_db ''f2'' 9 sample_new plain_options =
   (fst (createFlight sample_flight_db sample_flight_db sample_flight_db ''f2'' 9 sample_new plain_options), Inr ''f2'')"
proof -
  have "snd (createFlight sample_flight_db sample_flight_db sample_flight_db ''f2'' 9 sample_new plain_options) = Inr ''f2''"
    by code_simp
  then show ?thesis by (metis prod.collapse)
qed

theorem create_flight_atomic_witness:
  "fd_flights (fst (createFlight sample_flight_db sample_flight_db sample_flight_db ''f2'' 9 sample_new plain_options)) =
   fd_flights sample_flight_db @ [created_row sample_flight_db ''f2'' 9 sample_new plain_options]"
  using create_flight_atomic [OF sample_created] by simp

theorem flight_life_cycle_witness:
  "first_row (\<lambda>g. fr_id g = ''f0'') (fd_flights (failFlight sample_flight_db ''f0'' ''x'' 5)) =
   Some (sample_flight\<lparr>fr_id := ''f0'', fr_status := Failed\<rparr>)"
proof -
  let ?f = "sample_flight\<lparr>fr_id := ''f0'', fr_status := Failed\<rparr>"
  have "?f \<in> set (fd_flights sample_flight_db)" "terminal ?f" "fr_id ?f = ''f0''"
    by (simp_all add: sample_flight_db_def terminal_def)
  then show ?thesis
    using flight_life_cycle [OF steps_nil step_fail sample_unique(1), of "''f0''" "''x''" 5] by metis
qed

theorem governed_landing_sound_witness:
  "transitioned (snd (landGovernedFlight sample_flight_db ''f1'' sample_land 9 True True)) \<and>
   (\<exists>g \<in> set (fd_flights (fst (landGovernedFlight sample_flight_db ''f1'' sample_land 9 True True))).
      fr_id g = ''f1'' \<and> fr_status g = Landed)"
proof -
  let ?l = "landGovernedFlight sample_flight_db ''f1'' sample_land 9 True True"
  have "transitioned (snd ?l)" by code_simp
  moreover have "?l = (fst ?l, snd ?l)" by simp
  ultimately show ?thesis using governed_landing_sound [OF _ sample_unique(1), of "''f1''" sample_land 9 True True "fst ?l" "snd ?l"] by auto
qed

text \<open>A flight of which more than its budget was reported lands on a claim of nothing, and its row stays over the budget.\<close>

lemma landed_over_budget:
  "\<exists>g \<in> set (fd_flights (fst (landGovernedFlight
       (sample_flight_db\<lparr>fd_flights := [sample_flight\<lparr>fr_cost := 500, fr_cost_metered := True\<rparr>]\<rparr>) ''f1'' (sample_land\<lparr>lo_cost := 0\<rparr>) 9 True True))).
     fr_id g = ''f1'' \<and> fr_status g = Landed \<and> fr_cost g = 500 \<and> fr_budget g = Some 100"
  by code_simp

theorem land_refusal_explained_witness:
  "\<not> land_matches sample_flight_db ''f1'' (sample_land\<lparr>lo_cost := 101\<rparr>) sample_flight \<and>
   land_matches sample_flight_db ''f1'' sample_land sample_flight"
proof -
  have h: "sample_flight \<in> set (fd_flights sample_flight_db)" "own_flight sample_flight_db ''f1'' sample_flight"
    "in_air sample_flight" "fr_meta sample_flight = Some (meta_json (lo_meta sample_land))"
    "fr_meta sample_flight = Some (meta_json (lo_meta (sample_land\<lparr>lo_cost := 101\<rparr>)))"
    "fm_routine_run_id (lo_meta sample_land) = None" "fm_routine_run_id (lo_meta (sample_land\<lparr>lo_cost := 101\<rparr>)) = None"
    by (simp_all add: sample_flight_db_def own_flight_def sample_flight_def in_air_def sample_land_def sample_meta_def)
  have e: "listIncompleteFlightTaskIds sample_flight_db (fm_task_ids (lo_meta sample_land)) = []"
    "listFlightProjectMismatchTaskIds sample_flight_db (fr_project_id sample_flight) (fm_task_ids (lo_meta sample_land)) = []"
    "landEvidenceRefusal sample_flight_db ''f1'' (fm_task_ids (lo_meta sample_land)) = None"
    by code_simp+
  have b: "fr_budget sample_flight = Some 100" "lo_metered sample_land" "lo_cost sample_land = 40" "lo_expected_agent sample_land = None"
    by (simp_all add: sample_flight_def sample_land_def)
  show ?thesis
    using land_refusal_explained [OF sample_unique h(1-3,4,6)] land_refusal_explained [OF sample_unique h(1-3,5,7)] e b by simp
qed

end
