(* ===== verification/Harness_Capacity.thy ===== *)
theory Harness_Capacity
  imports Prelude
begin

text \<open>
  Harness capacity snapshots (\<^verbatim>\<open>src/harness/capacity.ts\<close>): the strict parser of a report, the
  upsert that keeps the newest observation of each reporter, the view and the advisory tags that
  dispatch attaches to its answer. Times are milliseconds as integers.
\<close>

section \<open>Reports\<close>

datatype harness = Orca | Herdr

fun harness_name :: "harness \<Rightarrow> string" where
  "harness_name Orca = ''orca''"
| "harness_name Herdr = ''herdr''"

definition HARNESSES :: "harness list" where
  "HARNESSES = [Orca, Herdr]"

definition CAPACITY_FRESH_MS :: int where
  "CAPACITY_FRESH_MS = 5 * 60 * 1000"

definition SUMMARY_MAX_BYTES :: nat where
  "SUMMARY_MAX_BYTES = 4096"

definition MAX_COUNT :: int where
  "MAX_COUNT = 1000000"

definition MAX_FUTURE_SKEW_MS :: int where
  "MAX_FUTURE_SKEW_MS = 10 * 60 * 1000"

definition MAX_SAFE_INTEGER :: int where
  "MAX_SAFE_INTEGER = 2 ^ 53 - 1"

definition MAX_SUMMARY_KEYS :: nat where
  "MAX_SUMMARY_KEYS = 24"

definition lower_alpha :: "char \<Rightarrow> bool" where
  "lower_alpha c \<longleftrightarrow> (let n = of_char c :: nat in 97 \<le> n \<and> n \<le> 122)"

definition ascii_digit :: "char \<Rightarrow> bool" where
  "ascii_digit c \<longleftrightarrow> (let n = of_char c :: nat in 48 \<le> n \<and> n \<le> 57)"

definition HOST_KEY_RE :: "string \<Rightarrow> bool" where
  "HOST_KEY_RE s =
     (case s of
        [] \<Rightarrow> False
      | c # cs \<Rightarrow> (lower_alpha c \<or> ascii_digit c) \<and> length cs \<le> 47 \<and>
          list_all (\<lambda>d. lower_alpha d \<or> ascii_digit d \<or> d \<in> set ''._-'') cs)"

definition SUMMARY_KEY_RE :: "string \<Rightarrow> bool" where
  "SUMMARY_KEY_RE s =
     (case s of
        [] \<Rightarrow> False
      | c # cs \<Rightarrow> lower_alpha c \<and> length cs \<le> 31 \<and> list_all (\<lambda>d. lower_alpha d \<or> ascii_digit d \<or> d = CHR ''_'') cs)"

definition COUNT_FIELDS :: "string list" where
  "COUNT_FIELDS = [''live_terminals'', ''agent_sessions'', ''busy_recent'', ''orphaned_terminals'', ''workers_active'',
     ''workers_release_unknown'', ''worktrees_with_live'']"

text \<open>The seven counts, in the order of \<open>COUNT_FIELDS\<close>, as a dictionary.\<close>

record capacity_input =
  ci_harness :: harness
  ci_host_key :: string
  ci_observed_at :: int
  ci_counts :: "(string \<times> int) list"
  ci_max_agents :: "int option"
  ci_summary :: "(string \<times> int) list"

datatype capacity_error =
    Unknown_field | Invalid_harness | Invalid_host_key | Invalid_observed_at | Invalid_count string
  | Invalid_max_agents | Invalid_summary | Summary_too_large

definition isCount :: "json option \<Rightarrow> int \<Rightarrow> int option" where
  "isCount v m = (case v of Some (JNum i) \<Rightarrow> if 0 \<le> i \<and> i \<le> m then Some i else None | _ \<Rightarrow> None)"

fun parse_counts :: "(string \<times> json) list \<Rightarrow> string list \<Rightarrow> capacity_error + (string \<times> int) list" where
  "parse_counts args [] = Inr []"
| "parse_counts args (f # fs) =
     (case isCount (field args f) MAX_COUNT of
        None \<Rightarrow> Inl (Invalid_count f)
      | Some i \<Rightarrow> and_then (parse_counts args fs) (\<lambda>rest. Inr ((f, i) # rest)))"

fun parse_entries :: "(string \<times> json) list \<Rightarrow> capacity_error + (string \<times> int) list" where
  "parse_entries [] = Inr []"
| "parse_entries ((k, v) # kvs) =
     (case isCount (Some v) MAX_COUNT of
        None \<Rightarrow> Inl Invalid_summary
      | Some i \<Rightarrow> if \<not> SUMMARY_KEY_RE k then Inl Invalid_summary
                  else and_then (parse_entries kvs) (\<lambda>rest. Inr ((k, i) # rest)))"

definition summary_json :: "(string \<times> int) list \<Rightarrow> string" where
  "summary_json s = stringify (JObj (map (\<lambda>(k, i). (k, JNum i)) s))"

definition parse_summary :: "json option \<Rightarrow> capacity_error + (string \<times> int) list" where
  "parse_summary v =
     (case v of
        None \<Rightarrow> Inr []
      | Some (JObj entries) \<Rightarrow>
          if length entries > MAX_SUMMARY_KEYS then Inl Invalid_summary
          else and_then (parse_entries entries)
            (\<lambda>s. if length (summary_json s) > SUMMARY_MAX_BYTES then Inl Summary_too_large else Inr s)
      | _ \<Rightarrow> Inl Invalid_summary)"

definition parse_max_agents :: "json option \<Rightarrow> capacity_error + int option" where
  "parse_max_agents v =
     (if v = None then Inr None
      else (case isCount v 100000 of None \<Rightarrow> Inl Invalid_max_agents | Some i \<Rightarrow> Inr (Some i)))"

definition parseCapacityArgs :: "(string \<times> json) list \<Rightarrow> int \<Rightarrow> capacity_error + capacity_input" where
  "parseCapacityArgs args now =
     (if \<not> list_all (\<lambda>(k, v). k \<in> set ([''harness'', ''host_key'', ''observed_at'', ''max_agents'', ''summary''] @ COUNT_FIELDS)) args
      then Inl Unknown_field
      else and_then
        (if field args ''harness'' = Some (JStr ''orca'') then Inr Orca
         else if field args ''harness'' = Some (JStr ''herdr'') then Inr Herdr else Inl Invalid_harness) (\<lambda>h.
      and_then
        (case as_string (field args ''host_key'') of
           None \<Rightarrow> Inl Invalid_host_key
         | Some k \<Rightarrow> if HOST_KEY_RE k then Inr k else Inl Invalid_host_key) (\<lambda>hostKey.
      and_then
        (case isCount (field args ''observed_at'') MAX_SAFE_INTEGER of
           None \<Rightarrow> Inl Invalid_observed_at
         | Some t \<Rightarrow> if t > now + MAX_FUTURE_SKEW_MS then Inl Invalid_observed_at else Inr t) (\<lambda>observed.
      and_then (parse_counts args COUNT_FIELDS) (\<lambda>counts.
      and_then (parse_max_agents (field args ''max_agents'')) (\<lambda>maxAgents.
      and_then (parse_summary (field args ''summary'')) (\<lambda>summary.
        Inr \<lparr>ci_harness = h, ci_host_key = hostKey, ci_observed_at = observed, ci_counts = counts,
             ci_max_agents = maxAgents, ci_summary = summary\<rparr>)))))))"

section \<open>Snapshots\<close>

record capacity_row =
  hc_id :: string
  hc_tenant :: string
  hc_harness :: harness
  hc_host_key :: string
  hc_reporter :: string
  hc_observed_at :: int
  hc_received_at :: int
  hc_counts :: "(string \<times> int) list"
  hc_max_agents :: "int option"
  hc_summary_json :: string

definition agent_sessions :: "capacity_row \<Rightarrow> int" where
  "agent_sessions r = (case map_of (hc_counts r) ''agent_sessions'' of Some n \<Rightarrow> n | None \<Rightarrow> 0)"

definition isFresh :: "int \<Rightarrow> int \<Rightarrow> bool" where
  "isFresh receivedAt now \<longleftrightarrow> now - receivedAt \<le> CAPACITY_FRESH_MS"

definition isSaturated :: "capacity_row \<Rightarrow> bool" where
  "isSaturated r = (case hc_max_agents r of None \<Rightarrow> False | Some m \<Rightarrow> agent_sessions r \<ge> m)"

record capacity_view =
  cv_row :: capacity_row
  cv_fresh :: bool
  cv_saturated :: bool
  cv_age_ms :: int

definition toView :: "capacity_row \<Rightarrow> int \<Rightarrow> capacity_view" where
  "toView row now =
     (let fresh = isFresh (hc_received_at row) now in
      \<lparr>cv_row = row, cv_fresh = fresh, cv_saturated = (fresh \<and> isSaturated row), cv_age_ms = max 0 (now - hc_received_at row)\<rparr>)"

definition tenant_or_default :: "string \<Rightarrow> string" where
  "tenant_or_default slug = (if slug = [] then ''mumega'' else slug)"

definition capacity_key :: "capacity_row \<Rightarrow> string \<times> harness \<times> string \<times> string" where
  "capacity_key r = (hc_tenant r, hc_harness r, hc_host_key r, hc_reporter r)"

definition report_row :: "string \<Rightarrow> string \<Rightarrow> string \<Rightarrow> capacity_input \<Rightarrow> int \<Rightarrow> capacity_row" where
  "report_row i slug reporter inp now =
     \<lparr>hc_id = i, hc_tenant = tenant_or_default slug, hc_harness = ci_harness inp, hc_host_key = ci_host_key inp,
      hc_reporter = reporter, hc_observed_at = ci_observed_at inp, hc_received_at = now, hc_counts = ci_counts inp,
      hc_max_agents = ci_max_agents inp, hc_summary_json = summary_json (ci_summary inp)\<rparr>"

text \<open>\<open>INSERT ... ON CONFLICT DO UPDATE ... WHERE excluded.observed_at >= ...\<close>.\<close>

definition merge_report :: "capacity_row \<Rightarrow> capacity_row \<Rightarrow> capacity_row" where
  "merge_report new r =
     (if hc_observed_at new \<ge> hc_observed_at r
      then r\<lparr>hc_observed_at := hc_observed_at new, hc_received_at := hc_received_at new, hc_counts := hc_counts new,
             hc_max_agents := nullish (hc_max_agents new) (hc_max_agents r), hc_summary_json := hc_summary_json new\<rparr>
      else r)"

definition upsert_row :: "capacity_row \<Rightarrow> capacity_row list \<Rightarrow> capacity_row list" where
  "upsert_row new rows =
     (if exists_row (\<lambda>r. capacity_key r = capacity_key new) rows
      then map (\<lambda>r. if capacity_key r = capacity_key new then merge_report new r else r) rows
      else rows @ [new])"

definition upsertCapacity ::
  "capacity_row list \<Rightarrow> string \<Rightarrow> string \<Rightarrow> string \<Rightarrow> capacity_input \<Rightarrow> int \<Rightarrow> capacity_row list \<times> capacity_row option" where
  "upsertCapacity rows i slug reporter inp now =
     (let new = report_row i slug reporter inp now; rows' = upsert_row new rows in
      (rows', first_row (\<lambda>r. capacity_key r = capacity_key new) rows'))"

definition listCapacity :: "capacity_row list \<Rightarrow> string \<Rightarrow> int \<Rightarrow> harness option \<Rightarrow> int \<Rightarrow> capacity_view list" where
  "listCapacity rows slug now h limit =
     (let cap = min (max 1 limit) 200;
          mine = filter (\<lambda>r. hc_tenant r = tenant_or_default slug \<and> (case h of None \<Rightarrow> True | Some h \<Rightarrow> hc_harness r = h)) rows
      in map (\<lambda>r. toView r now) (take (nat cap) (sort_key (\<lambda>r. - hc_received_at r) mine)))"

definition advisory_tag :: "capacity_row \<Rightarrow> string" where
  "advisory_tag r = ''harness_capacity_saturated:'' @ harness_name (hc_harness r) @ '':'' @ hc_host_key r"

definition saturatedHarnessAdvisories :: "capacity_row list option \<Rightarrow> string \<Rightarrow> int \<Rightarrow> string list" where
  "saturatedHarnessAdvisories table slug now =
     (case table of
        None \<Rightarrow> []
      | Some rows \<Rightarrow>
          let hit = filter (\<lambda>r. hc_tenant r = tenant_or_default slug \<and> hc_received_at r \<ge> now - CAPACITY_FRESH_MS \<and>
                (case hc_max_agents r of None \<Rightarrow> False | Some m \<Rightarrow> agent_sessions r \<ge> m)) rows
          in map advisory_tag (take 10 (sort_key (\<lambda>r. harness_name (hc_harness r)) (sort_key hc_host_key hit))))"

text \<open>A stale snapshot is unknown load: the tags name exactly the snapshots the view calls saturated.\<close>

lemma advisory_hits:
  "hc_received_at r \<ge> now - CAPACITY_FRESH_MS \<and> (case hc_max_agents r of None \<Rightarrow> False | Some m \<Rightarrow> agent_sessions r \<ge> m) \<longleftrightarrow>
   cv_saturated (toView r now)"
  by (auto simp: toView_def isFresh_def isSaturated_def Let_def)

section \<open>The newest observation wins\<close>

text \<open>The specification: of the reports of one reporter, the last among those observed latest.\<close>

definition newest :: "capacity_row list \<Rightarrow> capacity_row option" where
  "newest rs =
     (if rs = [] then None else Some (last (filter (\<lambda>r. list_all (\<lambda>s. hc_observed_at s \<le> hc_observed_at r) rs) rs)))"

definition snapshot :: "capacity_row \<Rightarrow> int \<times> int \<times> (string \<times> int) list \<times> string" where
  "snapshot r = (hc_observed_at r, hc_received_at r, hc_counts r, hc_summary_json r)"

lemma newest_Nil [simp]: "newest [] = None"
  by (simp add: newest_def)

lemma newest_max:
  assumes "newest rs = Some m"
  shows "m \<in> set rs \<and> (\<forall>s \<in> set rs. hc_observed_at s \<le> hc_observed_at m)"
proof -
  let ?p = "\<lambda>r. list_all (\<lambda>s. hc_observed_at s \<le> hc_observed_at r) rs"
  have ne: "rs \<noteq> []" and m: "m = last (filter ?p rs)" using assms by (auto simp: newest_def split: if_splits)
  have "finite (hc_observed_at ` set rs)" "hc_observed_at ` set rs \<noteq> {}" using ne by simp_all
  then have "Max (hc_observed_at ` set rs) \<in> hc_observed_at ` set rs" by (rule Max_in)
  then obtain r where "r \<in> set rs" "hc_observed_at r = Max (hc_observed_at ` set rs)" by auto
  then have "r \<in> set (filter ?p rs)" by (simp add: list_all_iff)
  then have "m \<in> set (filter ?p rs)" unfolding m by (metis last_in_set list.set(1) empty_iff)
  then show ?thesis by (simp add: list_all_iff)
qed

lemma newest_snoc:
  "newest (rs @ [n]) =
     (case newest rs of None \<Rightarrow> Some n | Some m \<Rightarrow> if hc_observed_at m \<le> hc_observed_at n then Some n else Some m)"
proof (cases "newest rs")
  case None
  then show ?thesis by (simp add: newest_def split: if_splits)
next
  case (Some m)
  note m = newest_max [OF Some]
  show ?thesis
  proof (cases "hc_observed_at m \<le> hc_observed_at n")
    case True
    with m have "list_all (\<lambda>s. hc_observed_at s \<le> hc_observed_at n) rs" by (fastforce simp: list_all_iff)
    with True Some show ?thesis by (simp add: newest_def)
  next
    case False
    have "filter (\<lambda>r. list_all (\<lambda>s. hc_observed_at s \<le> hc_observed_at r) (rs @ [n])) rs =
        filter (\<lambda>r. list_all (\<lambda>s. hc_observed_at s \<le> hc_observed_at r) rs) rs"
      using m False by (intro filter_cong) (fastforce simp: list_all_iff)+
    moreover have "\<not> list_all (\<lambda>s. hc_observed_at s \<le> hc_observed_at n) rs" using m False by (auto simp: list_all_iff)
    ultimately show ?thesis using Some False by (simp add: newest_def split: if_splits)
  qed
qed

definition key_is :: "string \<times> harness \<times> string \<times> string \<Rightarrow> capacity_row \<Rightarrow> bool" where
  "key_is k r \<longleftrightarrow> capacity_key r = k"

lemma merge_report_key [simp]: "capacity_key (merge_report n r) = capacity_key r"
  by (simp add: merge_report_def capacity_key_def)

lemma upsert_keys:
  "map capacity_key (upsert_row n rows) =
     map capacity_key rows @ (if capacity_key n \<in> set (map capacity_key rows) then [] else [capacity_key n])"
  by (auto simp: upsert_row_def exists_row_iff rev_image_eqI)

lemma find_map_keep:
  "(\<And>r. p (f r) = p r) \<Longrightarrow> find p (map f rows) = map_option f (find p rows)"
  by (induction rows) auto

lemma upsert_lookup:
  "first_row (key_is k) (upsert_row n rows) =
     (if capacity_key n = k
      then Some (case first_row (key_is k) rows of None \<Rightarrow> n | Some r \<Rightarrow> merge_report n r)
      else first_row (key_is k) rows)"
proof -
  let ?f = "\<lambda>r. if capacity_key r = capacity_key n then merge_report n r else r"
  have m: "first_row (key_is k) (map ?f rows) = map_option ?f (first_row (key_is k) rows)"
    unfolding first_row_def by (rule find_map_keep) (simp add: key_is_def)
  have a: "find (key_is k) (rows @ [n]) = (case find (key_is k) rows of None \<Rightarrow> if key_is k n then Some n else None | Some r \<Rightarrow> Some r)"
    by (induction rows) auto
  have h: "first_row (key_is k) rows = Some r \<Longrightarrow> capacity_key r = k" for r
    by (auto dest: first_row_Some simp: key_is_def)
  show ?thesis
  proof (cases "exists_row (\<lambda>r. capacity_key r = capacity_key n) rows")
    case True
    then have "capacity_key n = k \<Longrightarrow> first_row (key_is k) rows \<noteq> None" by (auto simp: first_row_None exists_row_iff key_is_def)
    with True m h show ?thesis by (auto simp: upsert_row_def split: option.splits)
  next
    case False
    then have "capacity_key n = k \<Longrightarrow> first_row (key_is k) rows = None" by (auto simp: first_row_None exists_row_iff key_is_def)
    with False a show ?thesis by (auto simp: upsert_row_def first_row_def key_is_def split: option.splits)
  qed
qed

lemma merge_snapshot:
  "snapshot (merge_report n r) = (if hc_observed_at r \<le> hc_observed_at n then snapshot n else snapshot r)"
  by (simp add: merge_report_def snapshot_def)

text \<open>A report as it reaches the store: fresh id, tenant slug, reporter, parsed input, receipt time.\<close>

type_synonym capacity_report = "string \<times> string \<times> string \<times> capacity_input \<times> int"

definition as_row :: "capacity_report \<Rightarrow> capacity_row" where
  "as_row = (\<lambda>(i, slug, reporter, inp, now). report_row i slug reporter inp now)"

definition store_reports :: "capacity_report list \<Rightarrow> capacity_row list" where
  "store_reports reports =
     foldl (\<lambda>rows (i, slug, reporter, inp, now). fst (upsertCapacity rows i slug reporter inp now)) [] reports"

lemma store_reports_snoc: "store_reports (rs @ [r]) = upsert_row (as_row r) (store_reports rs)"
  by (simp add: store_reports_def as_row_def upsertCapacity_def Let_def split: prod.splits)

text \<open>C40: The snapshot table refines a dictionary of newest observations. Whatever the order in
  which reports arrive, the table has at most one row per tenant, harness, host and reporter, and
  that row shows the counts, the summary and the times of the last report among those observed
  latest: a late delivery of an old observation never overwrites a newer one.\<close>
theorem capacity_newest_wins:
  "distinct (map capacity_key (store_reports reports)) \<and>
   map_option snapshot (first_row (\<lambda>r. capacity_key r = k) (store_reports reports)) =
   map_option snapshot (newest (filter (\<lambda>r. capacity_key r = k) (map as_row reports)))"
proof (induction reports rule: rev_induct)
  case Nil
  show ?case by (simp add: store_reports_def first_row_def)
next
  case (snoc r reports)
  have k: "(\<lambda>r. capacity_key r = k) = key_is k" by (simp add: fun_eq_iff key_is_def)
  have d: "distinct (map capacity_key (store_reports (reports @ [r])))"
    using snoc by (simp add: store_reports_snoc upsert_keys del: map_append)
  have "map_option snapshot (first_row (key_is k) (store_reports (reports @ [r]))) =
      map_option snapshot (newest (filter (key_is k) (map as_row (reports @ [r]))))"
    using snoc unfolding k store_reports_snoc upsert_lookup
    by (auto simp: newest_snoc merge_snapshot key_is_def [of k "as_row r"] snapshot_def [of "as_row r"] split: option.splits)
      (auto simp: snapshot_def split: if_splits)
  with d show ?case unfolding k by blast
qed

end
