(* ===== verification/Flight_Dispatch.thy ===== *)
theory Flight_Dispatch
  imports Flight_Safety Harness_Capacity
begin

text \<open>
  Dispatch: the readiness gate (\<^verbatim>\<open>src/flight/preflight.ts\<close>), the refusal of finished work and
  the idempotency key (\<^verbatim>\<open>src/flight/rebooking.ts\<close>) and the entry point that combines gate,
  clearance and creation (\<^verbatim>\<open>src/flight/dispatch.ts\<close>).

  Numbers of the gate are real numbers, where the code has doubles.
\<close>

section \<open>Preflight\<close>

record flight_signals =
  contextComplete :: bool
  toolsReachable :: bool
  budgetRemainingMicroUsd :: real
  budgetEstimateMicroUsd :: real
  recentProgress :: real
  progressPerStep :: real
  wastePerStep :: real
  stepSeconds :: real

record preflight_options =
  scoreThreshold :: "real option"
  cacheWindowSeconds :: "real option"
  minProgressRatio :: "real option"

record preflight_checks =
  pc_contextComplete :: bool
  pc_toolsReachable :: bool
  pc_budgetHeadroom :: bool
  pc_progressBeatsWaste :: bool
  pc_cacheStaysWarm :: bool

record preflight_result =
  pr_go :: bool
  pr_score :: real
  pr_checks :: preflight_checks
  pr_reasons :: "string list"

definition clamp01 :: "real \<Rightarrow> real" where
  "clamp01 x = (if x < 0 then 0 else if x > 1 then 1 else x)"

definition FLOOR :: real where
  "FLOOR = 1 / 1000"

definition or_default :: "'a option \<Rightarrow> 'a \<Rightarrow> 'a" where
  "or_default v d = (case v of Some x \<Rightarrow> x | None \<Rightarrow> d)"

text \<open>\<open>a || 1\<close> on numbers.\<close>

definition nonzero_or_one :: "real \<Rightarrow> real" where
  "nonzero_or_one x = (if x = 0 then 1 else x)"

definition readiness_factors :: "flight_signals \<Rightarrow> preflight_options \<Rightarrow> (real \<times> real) list" where
  "readiness_factors s opts =
     (let window = or_default (cacheWindowSeconds opts) 300 in
      [(if contextComplete s then 1 else FLOOR, 2),
       (if toolsReachable s then 1 else FLOOR, 2),
       (clamp01 (if budgetEstimateMicroUsd s > 0 then budgetRemainingMicroUsd s / budgetEstimateMicroUsd s else 1), 1),
       (clamp01 (progressPerStep s / nonzero_or_one (progressPerStep s + wastePerStep s)), 3 / 2),
       (clamp01 (recentProgress s), 1),
       (if stepSeconds s \<le> window then 1 else clamp01 (window / stepSeconds s), 1)])"

definition readinessScore :: "flight_signals \<Rightarrow> preflight_options \<Rightarrow> real" where
  "readinessScore s opts =
     (let factors = readiness_factors s opts;
          wsum = foldl (\<lambda>a (v, w). a + w) 0 factors;
          lnsum = foldl (\<lambda>a (v, w). a + w * ln (max v FLOOR)) 0 factors
      in clamp01 (exp (lnsum / wsum)))"

definition preflightCheck :: "flight_signals \<Rightarrow> preflight_options \<Rightarrow> preflight_result" where
  "preflightCheck s opts =
     (let threshold = or_default (scoreThreshold opts) (1 / 2);
          window = or_default (cacheWindowSeconds opts) 300;
          ratio = or_default (minProgressRatio opts) 1;
          checks = \<lparr>pc_contextComplete = contextComplete s, pc_toolsReachable = toolsReachable s,
            pc_budgetHeadroom = (budgetRemainingMicroUsd s \<ge> budgetEstimateMicroUsd s),
            pc_progressBeatsWaste = (progressPerStep s \<ge> wastePerStep s * ratio),
            pc_cacheStaysWarm = (stepSeconds s \<le> window)\<rparr>;
          score = readinessScore s opts;
          reasons = (if \<not> pc_contextComplete checks then [''context_incomplete''] else []) @
                    (if \<not> pc_toolsReachable checks then [''tools_unreachable''] else []) @
                    (if \<not> pc_budgetHeadroom checks then [''insufficient_budget''] else []) @
                    (if \<not> pc_progressBeatsWaste checks then [''would_wander''] else []) @
                    (if \<not> pc_cacheStaysWarm checks then [''cache_would_cool''] else []) @
                    (if score < threshold then [''low_readiness''] else [])
      in \<lparr>pr_go = (reasons = []), pr_score = score, pr_checks = checks, pr_reasons = reasons\<rparr>)"

lemma clamp01_range: "0 \<le> clamp01 x" "clamp01 x \<le> 1"
  by (simp_all add: clamp01_def)

lemma ln_factor: "v \<le> 1 \<Longrightarrow> ln (max v FLOOR) \<le> 0"
  by (simp add: FLOOR_def max_def ln_le_zero_iff)

lemma ln_FLOOR: "ln FLOOR < 17 / 4 * ln (1 / 2)"
proof -
  have "17 / 4 * ln (2::real) \<le> 5 * ln 2" by simp
  also have "\<dots> = ln (2 ^ 5)" using ln_realpow [of "2 :: real" 5] by simp
  also have "\<dots> < ln 1000" by simp
  finally show ?thesis by (simp add: FLOOR_def ln_div)
qed

definition lnsum :: "flight_signals \<Rightarrow> preflight_options \<Rightarrow> real" where
  "lnsum s opts = foldl (\<lambda>a (v, w). a + w * ln (max v FLOOR)) 0 (readiness_factors s opts)"

lemma readinessScore_lnsum: "readinessScore s opts = clamp01 (exp (lnsum s opts / (17 / 2)))"
  by (simp add: readinessScore_def lnsum_def readiness_factors_def Let_def)

lemma lnsum_bounds:
  "lnsum s opts \<le> 0" "\<not> contextComplete s \<or> \<not> toolsReachable s \<Longrightarrow> lnsum s opts \<le> 2 * ln FLOOR"
proof -
  let ?w = "or_default (cacheWindowSeconds opts) 300"
  let ?f = "\<lambda>b. ln (max (if b then 1 else FLOOR) FLOOR)"
  let ?r = "ln (max (clamp01 (if budgetEstimateMicroUsd s > 0 then budgetRemainingMicroUsd s / budgetEstimateMicroUsd s else 1)) FLOOR)
    + 3 / 2 * ln (max (clamp01 (progressPerStep s / nonzero_or_one (progressPerStep s + wastePerStep s))) FLOOR)
    + ln (max (clamp01 (recentProgress s)) FLOOR) + ln (max (if stepSeconds s \<le> ?w then 1 else clamp01 (?w / stepSeconds s)) FLOOR)"
  have sum: "lnsum s opts = 2 * ?f (contextComplete s) + 2 * ?f (toolsReachable s) + ?r"
    by (simp add: lnsum_def readiness_factors_def Let_def)
  have "?r \<le> 0"
    by (intro add_nonpos_nonpos mult_nonneg_nonpos ln_factor) (simp_all add: clamp01_range(2))
  moreover have f: "?f b \<le> 0" "\<not> b \<Longrightarrow> ?f b = ln FLOOR" for b by (simp_all add: ln_factor FLOOR_def)
  ultimately show "lnsum s opts \<le> 0" unfolding sum using f(1) [of "contextComplete s"] f(1) [of "toolsReachable s"] by linarith
  show "lnsum s opts \<le> 2 * ln FLOOR" if "\<not> contextComplete s \<or> \<not> toolsReachable s"
    using that \<open>?r \<le> 0\<close> f(1) [of "contextComplete s"] f(1) [of "toolsReachable s"] f(2) [of "contextComplete s"] f(2) [of "toolsReachable s"]
    unfolding sum by (elim disjE) linarith+
qed

text \<open>The readiness score is always positive and at most one, and it fails closed: with an
  incomplete context or an unreachable tool it stays below one half, whatever the other signals
  say, so that no other factor can average a missing prerequisite away. A flight goes exactly
  when its context is complete, its tools answer, its budget covers the estimate, its progress
  beats its waste, its steps stay in the cache window and the score reaches the threshold.\<close>
theorem preflight_fails_closed:
  "0 < readinessScore s opts \<and> readinessScore s opts \<le> 1 \<and>
   (contextComplete s \<and> toolsReachable s \<or> readinessScore s opts < 1 / 2) \<and>
   (pr_go (preflightCheck s opts) \<longleftrightarrow>
      contextComplete s \<and> toolsReachable s \<and> budgetEstimateMicroUsd s \<le> budgetRemainingMicroUsd s \<and>
      wastePerStep s * or_default (minProgressRatio opts) 1 \<le> progressPerStep s \<and>
      stepSeconds s \<le> or_default (cacheWindowSeconds opts) 300 \<and>
      or_default (scoreThreshold opts) (1 / 2) \<le> readinessScore s opts)"
proof (intro conjI)
  have e: "readinessScore s opts = exp (lnsum s opts / (17 / 2))"
    using lnsum_bounds(1) [of s opts] by (simp add: readinessScore_lnsum clamp01_def)
  show "0 < readinessScore s opts" "readinessScore s opts \<le> 1" using lnsum_bounds(1) [of s opts] by (simp_all add: e)
  show "contextComplete s \<and> toolsReachable s \<or> readinessScore s opts < 1 / 2"
  proof (cases "contextComplete s \<and> toolsReachable s")
    case False
    then have "lnsum s opts / (17 / 2) < ln (1 / 2)" using lnsum_bounds(2) [of s opts] ln_FLOOR by simp
    then have "exp (lnsum s opts / (17 / 2)) < exp (ln (1 / 2))" by (rule exp_less_mono)
    then show ?thesis by (simp add: e)
  qed simp
  show "pr_go (preflightCheck s opts) \<longleftrightarrow>
      contextComplete s \<and> toolsReachable s \<and> budgetEstimateMicroUsd s \<le> budgetRemainingMicroUsd s \<and>
      wastePerStep s * or_default (minProgressRatio opts) 1 \<le> progressPerStep s \<and>
      stepSeconds s \<le> or_default (cacheWindowSeconds opts) 300 \<and>
      or_default (scoreThreshold opts) (1 / 2) \<le> readinessScore s opts"
    by (auto simp: preflightCheck_def Let_def)
qed

section \<open>Rebooking\<close>

definition CLIENT_REQUEST_ID_MAX_LENGTH :: nat where
  "CLIENT_REQUEST_ID_MAX_LENGTH = 200"

definition REDISPATCH_REASON_MAX_LENGTH :: nat where
  "REDISPATCH_REASON_MAX_LENGTH = 500"

definition control_char :: "char \<Rightarrow> bool" where
  "control_char c \<longleftrightarrow> (let n = of_char c :: nat in n \<le> 31 \<or> n = 127)"

text \<open>\<open>Some\<close> of the optional value, or \<open>None\<close> for a refusal.\<close>

definition parseClientRequestId :: "json option \<Rightarrow> string option option" where
  "parseClientRequestId v =
     (if v = None \<or> v = Some JNull then Some None
      else (case as_string v of
              None \<Rightarrow> None
            | Some s \<Rightarrow>
                if trim s = [] \<or> length (trim s) > CLIENT_REQUEST_ID_MAX_LENGTH then None
                else if list_ex control_char (trim s) then None
                else Some (Some (trim s))))"

definition parseRedispatchReason :: "json option \<Rightarrow> string option option" where
  "parseRedispatchReason v =
     (if v = None \<or> v = Some JNull then Some None
      else (case as_string v of
              None \<Rightarrow> None
            | Some s \<Rightarrow>
                if trim s = [] \<or> length (trim s) > REDISPATCH_REASON_MAX_LENGTH then None else Some (Some (trim s))))"

definition listLandedFlightsForTasks :: "flight_db \<Rightarrow> string list \<Rightarrow> (string \<times> string) list" where
  "listLandedFlightsForTasks db taskIds =
     (if taskIds = [] then []
      else let landed = filter (\<lambda>f. fr_tenant f = fd_tenant db \<and> fr_status f = Landed \<and> \<not> fr_bookkeeping f) (fd_flights db);
               newest = sort_key (\<lambda>f. case fr_ended_at f of None \<Rightarrow> 1 | Some e \<Rightarrow> - e) (sort_key fr_id landed);
               texts = (\<lambda>f. case Option.bind (fr_meta f) (\<lambda>m. je_path m ''task_ids'') of
                          None \<Rightarrow> [] | Some v \<Rightarrow> List.map_filter (\<lambda>x. as_string (Some x)) (je_members v))
           in concat (map (\<lambda>f. map (Pair (fr_id f)) (filter (\<lambda>i. i \<in> set taskIds) (texts f))) newest))"

definition listFinishedTaskIds :: "flight_db \<Rightarrow> string list \<Rightarrow> string list" where
  "listFinishedTaskIds db taskIds =
     (if taskIds = [] then []
      else sort (map t_id (filter (\<lambda>t. t_id t \<in> set taskIds \<and> t_status t \<in> {Done, Approved}) (d_tasks (fd_tasks db)))))"

datatype finished_work_conflict =
    Flight_task_already_landed "string list" "string list"
  | Flight_task_already_done "string list"

definition summarizeLandedConflict :: "(string \<times> string) list \<Rightarrow> string list \<times> string list" where
  "summarizeLandedConflict rows = (unique (map fst rows), unique (map snd rows))"

definition findFinishedWorkConflict :: "flight_db \<Rightarrow> string list \<Rightarrow> finished_work_conflict option" where
  "findFinishedWorkConflict db taskIds =
     (let landed = listLandedFlightsForTasks db taskIds; finished = listFinishedTaskIds db taskIds in
      if landed \<noteq> [] then
        (case summarizeLandedConflict landed of (fs, ts) \<Rightarrow> Some (Flight_task_already_landed fs ts))
      else if finished \<noteq> [] then Some (Flight_task_already_done finished)
      else None)"

definition findFlightByClientRequestId :: "flight_db \<Rightarrow> string \<Rightarrow> string \<Rightarrow> flight_row option" where
  "findFlightByClientRequestId db dispatchedBy key =
     first_row (\<lambda>f. fr_tenant f = fd_tenant db \<and> fr_dispatched_by f = dispatchedBy \<and> fr_client_request_id f = Some key)
       (fd_flights db)"

record request_shape =
  sh_agent :: string
  sh_goal :: string
  sh_project_id :: "string option"
  sh_budget :: "int option"
  sh_meta :: flight_meta

definition sameDispatchRequest :: "flight_row \<Rightarrow> request_shape \<Rightarrow> bool" where
  "sameDispatchRequest stored request =
     (case parseRowMeta stored of
        None \<Rightarrow> False
      | Some m \<Rightarrow> fr_agent stored = sh_agent request \<and> fr_goal stored = sh_goal request \<and>
          fr_project_id stored = sh_project_id request \<and> fr_budget stored = sh_budget request \<and>
          stringify (meta_json m) = stringify (meta_json (sh_meta request)))"

lemma find_append_None: "find p xs = None \<Longrightarrow> find p (xs @ ys) = find p ys"
  by (induction xs) (auto split: if_splits)

lemma created_by_insert:
  assumes "createFlight db_read db db_diag i now f opts = (db', Inr j)"
  shows "insert_flight db i now f opts = (db', Inr True) \<and> fd_tenant db' = fd_tenant db"
proof -
  have ins: "insert_flight db i now f opts = (db', Inr True)"
    using assms by (auto simp: createFlight_def Let_def split: option.splits if_splits prod.splits sum.splits bool.splits)
  moreover have "fd_tenant db' = fd_tenant db"
    using ins by (auto simp: insert_flight_def Let_def split: if_splits option.splits)
  ultimately show ?thesis by blast
qed

text \<open>A retry finds its original. After a creation with an idempotency key and a parsed contract, the
  lookup by dispatcher and key returns exactly the row that creation wrote, and that row is
  recognised as the same request, so that a redelivered dispatch books no second flight.\<close>
theorem retry_finds_original:
  assumes create: "createFlight db_read db db_diag i now f opts = (db', Inr j)"
    and key: "nf_client_request_id f = Some k" "co_routineRunFence opts = None"
    and meta: "nf_meta f = Some m" "parseFlightMetaV1 (JObj raw) = Some m" "distinct (map fst raw)"
    and dispatcher: "d = (case nf_dispatched_by f of Some d \<Rightarrow> d | None \<Rightarrow> nf_agent f)"
  shows "findFlightByClientRequestId db' d k = Some (created_row db i now f opts) \<and>
    sameDispatchRequest (created_row db i now f opts)
      \<lparr>sh_agent = nf_agent f, sh_goal = nf_goal f, sh_project_id = nf_project_id f, sh_budget = nf_budget f, sh_meta = m\<rparr>"
proof -
  let ?row = "created_row db i now f opts"
  have db': "fd_flights db' = fd_flights db @ [?row]" using create_flight_rows [OF create] by simp
  have ins: "insert_flight db i now f opts = (db', Inr True)" and tenant: "fd_tenant db' = fd_tenant db"
    using created_by_insert [OF create] by simp_all
  have row: "fr_client_request_id ?row = Some k" "fr_tenant ?row = fd_tenant db" "fr_dispatched_by ?row = d"
    "fr_meta ?row = Some (meta_json m)" "fr_agent ?row = nf_agent f" "fr_goal ?row = nf_goal f"
    "fr_project_id ?row = nf_project_id f" "fr_budget ?row = nf_budget f"
    using key meta(1) dispatcher by (simp_all add: created_row_def)
  have fresh: "\<not> exists_row (\<lambda>r. fr_tenant r = fr_tenant ?row \<and> fr_dispatched_by r = fr_dispatched_by ?row \<and>
      fr_client_request_id r = fr_client_request_id ?row) (fd_flights db)"
    using ins row(1) unfolding insert_flight_def Let_def by (auto split: if_splits)
  then have "first_row (\<lambda>r. fr_tenant r = fd_tenant db \<and> fr_dispatched_by r = d \<and> fr_client_request_id r = Some k) (fd_flights db) = None"
    unfolding row(1-3) by (simp add: first_row_None exists_row_iff)
  then have "findFlightByClientRequestId db' d k = Some ?row"
    unfolding findFlightByClientRequestId_def db' tenant using row(1-3)
    by (simp add: first_row_def find_append_None)
  moreover have "parseRowMeta ?row = Some m"
    using parse_meta_normal [OF meta(2,3)] row(4) by (simp add: parseRowMeta_def)
  ultimately show ?thesis using row by (simp add: sameDispatchRequest_def)
qed

definition keyed_new :: new_flight where
  "keyed_new = sample_new\<lparr>nf_client_request_id := Some ''k''\<rparr>"

lemma keyed_created:
  "createFlight sample_flight_db sample_flight_db sample_flight_db ''f2'' 9 keyed_new plain_options =
   (fst (createFlight sample_flight_db sample_flight_db sample_flight_db ''f2'' 9 keyed_new plain_options), Inr ''f2'')"
proof -
  have "snd (createFlight sample_flight_db sample_flight_db sample_flight_db ''f2'' 9 keyed_new plain_options) = Inr ''f2''"
    by code_simp
  then show ?thesis by (metis prod.collapse)
qed

theorem retry_finds_original_witness:
  "findFlightByClientRequestId
     (fst (createFlight sample_flight_db sample_flight_db sample_flight_db ''f2'' 9 keyed_new plain_options)) ''a'' ''k'' =
   Some (created_row sample_flight_db ''f2'' 9 keyed_new plain_options)"
proof -
  have "nf_client_request_id keyed_new = Some ''k''" "co_routineRunFence plain_options = None"
    "nf_meta keyed_new = Some sample_meta" "distinct (map fst sample_fields)"
    "''a'' = (case nf_dispatched_by keyed_new of Some d \<Rightarrow> d | None \<Rightarrow> nf_agent keyed_new)"
    by (simp_all add: keyed_new_def sample_new_def plain_options_def sample_fields_def)
  from retry_finds_original [OF keyed_created this(1-3) sample_parses this(4-5)] show ?thesis by simp
qed

section \<open>Dispatch\<close>

record dispatch_extra =
  dx_allowCollisionWith :: "string list"
  dx_id :: "string option"
  dx_redispatchReceipt :: "redispatch_receipt option"

record dispatch_result =
  dr_id :: string
  dr_go :: bool
  dr_status :: flight_status
  dr_reasons :: "string list"
  dr_score :: real
  dr_clearance :: "clearance_result option"
  dr_advisories :: "string list"

definition combine_gates :: "preflight_result \<Rightarrow> clearance_result option \<Rightarrow> gate_result" where
  "combine_gates preflight clearance =
     (case clearance of
        Some c \<Rightarrow>
          if cl_cleared c then \<lparr>gr_go = pr_go preflight, gr_score = pr_score preflight, gr_reasons = pr_reasons preflight\<rparr>
          else \<lparr>gr_go = False, gr_score = pr_score preflight,
                gr_reasons = pr_reasons preflight @ [''flight_clearance_hold''] @ clearanceReasonTags c\<rparr>
      | None \<Rightarrow> \<lparr>gr_go = pr_go preflight, gr_score = pr_score preflight, gr_reasons = pr_reasons preflight\<rparr>)"

text \<open>
  Each statement sees the tables as they are when it runs: \<open>db_clear\<close> for the clearance read,
  \<open>db_read\<close>, \<open>db_write\<close> and \<open>db_diag\<close> for the creation, and \<open>between\<close> is what other requests do
  between the creation and the recording of the verdict. \<open>de_fresh\<close> is the random id, used
  when the caller names none, and \<open>de_caps\<close> the capacity table, \<open>None\<close> where its read fails.
\<close>

record dispatch_env =
  de_clear :: flight_db
  de_read :: flight_db
  de_write :: flight_db
  de_diag :: flight_db
  de_between :: "flight_db \<Rightarrow> flight_db"
  de_caps :: "capacity_row list option"
  de_fresh :: string
  de_created :: int
  de_applied :: int
  de_advised :: int

definition dispatch_options :: "dispatch_extra \<Rightarrow> create_options" where
  "dispatch_options extra =
     \<lparr>co_routineRunFence = None, co_redispatchReceipt = dx_redispatchReceipt extra, co_bookkeeping = False\<rparr>"

definition dispatch_clearance :: "dispatch_env \<Rightarrow> new_flight \<Rightarrow> dispatch_extra \<Rightarrow> clearance_result option" where
  "dispatch_clearance env f extra =
     map_option (\<lambda>m. mc_clearance (clearFlightMeta (fd_flights (de_clear env)) (fd_tenant (de_clear env)) m
       (dx_allowCollisionWith extra))) (nf_meta f)"

definition dispatchFlight ::
  "dispatch_env \<Rightarrow> new_flight \<Rightarrow> flight_signals \<Rightarrow> preflight_options \<Rightarrow> dispatch_extra \<Rightarrow>
   flight_db \<times> (create_error + dispatch_result)" where
  "dispatchFlight env f signals opts extra =
     (let preflight = preflightCheck signals opts;
          clearance = dispatch_clearance env f extra;
          combined = combine_gates preflight clearance
      in case createFlight (de_read env) (de_write env) (de_diag env) (or_default (dx_id extra) (de_fresh env)) (de_created env) f
                (dispatch_options extra) of
           (db, Inl e) \<Rightarrow> (db, Inl e)
         | (db, Inr i) \<Rightarrow>
             (case applyPreflight (de_between env db) i combined (de_applied env) of
                (db', status) \<Rightarrow>
                  (db', Inr \<lparr>dr_id = i, dr_go = gr_go combined, dr_status = status, dr_reasons = gr_reasons combined,
                     dr_score = gr_score combined, dr_clearance = clearance,
                     dr_advisories = saturatedHarnessAdvisories (de_caps env) (fd_tenant (de_write env)) (de_advised env)\<rparr>)))"

text \<open>The tower lets the flight through: no contract, or no collision among the live flights.\<close>

definition airspace_clear :: "flight_db \<Rightarrow> new_flight \<Rightarrow> string list \<Rightarrow> bool" where
  "airspace_clear db f ignoreIds =
     (case nf_meta f of
        None \<Rightarrow> True
      | Some m \<Rightarrow> length (filter (hold_scoped (fd_tenant db) m) (fd_flights db)) \<le> 2000 \<and>
          \<not> list_ex (hard_collision (fd_tenant db) m ignoreIds) (fd_flights db))"

lemma go_iff_no_reasons: "pr_go (preflightCheck s opts) \<longleftrightarrow> pr_reasons (preflightCheck s opts) = []"
  by (simp add: preflightCheck_def Let_def)

lemma combine_gates_decision:
  "gr_go (combine_gates (preflightCheck s opts) (dispatch_clearance env f extra)) \<longleftrightarrow>
     pr_go (preflightCheck s opts) \<and> airspace_clear (de_clear env) f (dx_allowCollisionWith extra)"
  "gr_go (combine_gates (preflightCheck s opts) (dispatch_clearance env f extra)) \<longleftrightarrow>
     gr_reasons (combine_gates (preflightCheck s opts) (dispatch_clearance env f extra)) = []"
proof -
  have c: "cl_cleared (mc_clearance (clearFlightMeta fs t m ids)) \<longleftrightarrow> mc_cleared (clearFlightMeta fs t m ids)" for fs t m ids
    by (simp add: clearFlightMeta_def Let_def split: prod.splits)
  show "gr_go (combine_gates (preflightCheck s opts) (dispatch_clearance env f extra)) \<longleftrightarrow>
     pr_go (preflightCheck s opts) \<and> airspace_clear (de_clear env) f (dx_allowCollisionWith extra)"
    by (simp add: combine_gates_def dispatch_clearance_def airspace_clear_def c clearance_decision split: option.splits)
  show "gr_go (combine_gates (preflightCheck s opts) (dispatch_clearance env f extra)) \<longleftrightarrow>
     gr_reasons (combine_gates (preflightCheck s opts) (dispatch_clearance env f extra)) = []"
    by (simp add: combine_gates_def go_iff_no_reasons split: option.splits)
qed

text \<open>A row as the verdict of a dispatch leaves it.\<close>

definition ruled :: "dispatch_result \<Rightarrow> flight_row \<Rightarrow> bool" where
  "ruled r row \<longleftrightarrow>
     fr_id row = dr_id r \<and> fr_status row = dr_status r \<and> fr_gate_verdict row = Some (if dr_go r then ''go'' else ''no_go'') \<and>
     fr_gate_reason row = join '','' (dr_reasons r)"

lemma apply_rules:
  assumes "dr_id r = i" "dr_go r = gr_go g" "dr_reasons r = gr_reasons g" "gr_go g \<longleftrightarrow> gr_reasons g = []"
    "dr_status r = (if gr_go g then Running else Held)"
  shows "list_all2 (\<lambda>x x'. if own_flight db i x \<and> fr_status x = Preflight then ruled r x' else x' = x)
      (fd_flights db) (fd_flights (fst (applyPreflight db i g now)))"
    "snd (applyPreflight db i g now) = dr_status r"
  using assms by (auto simp: applyPreflight_def update_flights_def own_flight_def ruled_def list_all2_conv_all_nth)

text \<open>C35: Dispatch departs exactly when both gates pass. A dispatch either fails and books nothing, or books one flight: it appends one
  row, in preflight, under the id it answers. It answers running exactly when the readiness gate says go and the airspace was clear
  when it was read, and held otherwise, and gives a reason exactly for a hold. Whatever other requests do between the booking and the
  verdict, the verdict, with the answered status and the reasons, is written to the row of that id where it is still in
  preflight, and no other row changes; if they do nothing, the flight that was booked carries it.\<close>
theorem dispatch_decides:
  assumes "dispatchFlight env f signals opts extra = (db', out)"
  shows "case out of
      Inl e \<Rightarrow> fd_flights db' = fd_flights (de_write env)
    | Inr r \<Rightarrow> (dr_go r \<longleftrightarrow> pr_go (preflightCheck signals opts) \<and> airspace_clear (de_clear env) f (dx_allowCollisionWith extra)) \<and>
        (dr_go r \<longleftrightarrow> dr_reasons r = []) \<and> dr_status r = (if dr_go r then Running else Held) \<and>
        (\<exists>booked new. fd_flights booked = fd_flights (de_write env) @ [new] \<and> fr_id new = dr_id r \<and>
           dr_id r \<notin> fr_id ` set (fd_flights (de_write env)) \<and> fr_status new = Preflight \<and>
           list_all2 (\<lambda>x x'. if own_flight (de_between env booked) (dr_id r) x \<and> fr_status x = Preflight then ruled r x' else x' = x)
             (fd_flights (de_between env booked)) (fd_flights db') \<and>
           (de_between env booked = booked \<longrightarrow> (\<exists>row. fd_flights db' = fd_flights (de_write env) @ [row] \<and> ruled r row)))"
proof -
  let ?i = "or_default (dx_id extra) (de_fresh env)"
  let ?c = "createFlight (de_read env) (de_write env) (de_diag env) ?i (de_created env) f (dispatch_options extra)"
  let ?g = "combine_gates (preflightCheck signals opts) (dispatch_clearance env f extra)"
  obtain db res where c: "?c = (db, res)" by fastforce
  show ?thesis
  proof (cases res)
    case (Inl e)
    with assms c create_flight_rows [OF c] show ?thesis by (auto simp: dispatchFlight_def Let_def)
  next
    case (Inr j)
    define new where "new = created_row (de_write env) ?i (de_created env) f (dispatch_options extra)"
    have rows: "j = ?i" "fd_flights db = fd_flights (de_write env) @ [new]" "?i \<notin> fr_id ` set (fd_flights (de_write env))"
      using create_flight_rows [OF c] Inr by (auto simp: new_def)
    have n: "fr_id new = ?i" "fr_tenant new = fd_tenant db" "fr_status new = Preflight"
      using created_by_insert c Inr by (simp_all add: created_row_def new_def)
    note go = combine_gates_decision [of signals opts env f extra]
    define z where "z = de_between env db"
    obtain st where ap: "snd (applyPreflight z ?i ?g (de_applied env)) = st" by blast
    have st: "st = (if gr_go ?g then Running else Held)" using ap by (simp add: applyPreflight_def split: if_splits)
    have "\<exists>r. out = Inr r \<and> dr_id r = ?i \<and> dr_go r = gr_go ?g \<and> dr_reasons r = gr_reasons ?g \<and> dr_status r = st"
      and db': "db' = fst (applyPreflight z ?i ?g (de_applied env))"
      using assms c Inr rows(1) ap by (auto simp: dispatchFlight_def Let_def z_def split: prod.splits)
    then obtain r where r: "out = Inr r" "dr_id r = ?i" "dr_go r = gr_go ?g" "dr_reasons r = gr_reasons ?g" "dr_status r = st" by blast
    have rule: "list_all2 (\<lambda>x x'. if own_flight z ?i x \<and> fr_status x = Preflight then ruled r x' else x' = x) (fd_flights z) (fd_flights db')"
      unfolding db' by (rule apply_rules(1) [OF r(2-4) go(2)]) (simp add: r(5) st)
    have quiet: "\<exists>row. fd_flights db' = fd_flights (de_write env) @ [row] \<and> ruled r row" if same: "z = db"
    proof -
      let ?P = "\<lambda>x x'. if own_flight z ?i x \<and> fr_status x = Preflight then ruled r x' else x' = x"
      obtain ys row where ys: "fd_flights db' = ys @ [row]" "list_all2 ?P (fd_flights (de_write env)) ys" "?P new row"
        using rule unfolding same rows(2) list_all2_append1 list_all2_Cons1 by auto
      have "ys = fd_flights (de_write env)"
      proof (rule nth_equalityI)
        show "length ys = length (fd_flights (de_write env))" using ys(2) list_all2_lengthD by fastforce
        fix k assume "k < length ys"
        then show "ys ! k = fd_flights (de_write env) ! k"
          using list_all2_nthD2 [OF ys(2), of k] rows(3) list_all2_lengthD [OF ys(2)]
          by (auto simp: own_flight_def image_iff split: if_splits) (metis nth_mem)
      qed
      with ys n same show ?thesis by (auto simp: own_flight_def)
    qed
    show ?thesis
      unfolding r(1) sum.case
      using go r(2-5) st rows(2,3) n(1,3) rule quiet unfolding z_def by (intro conjI exI [of _ db] exI [of _ new]) auto
  qed
qed

definition good_signals :: flight_signals where
  "good_signals = \<lparr>contextComplete = True, toolsReachable = True, budgetRemainingMicroUsd = 10, budgetEstimateMicroUsd = 5,
     recentProgress = 1, progressPerStep = 1, wastePerStep = 0, stepSeconds = 60\<rparr>"

definition no_options :: preflight_options where
  "no_options = \<lparr>scoreThreshold = None, cacheWindowSeconds = None, minProgressRatio = None\<rparr>"

definition cowork :: dispatch_extra where
  "cowork = \<lparr>dx_allowCollisionWith = [''f1''], dx_id = None, dx_redispatchReceipt = None\<rparr>"

definition quiet_env :: "(flight_db \<Rightarrow> flight_db) \<Rightarrow> dispatch_env" where
  "quiet_env between = \<lparr>de_clear = sample_flight_db, de_read = sample_flight_db, de_write = sample_flight_db,
     de_diag = sample_flight_db, de_between = between, de_caps = None, de_fresh = ''f2'', de_created = 9, de_applied = 11, de_advised = 12\<rparr>"

lemma good_signals_go: "pr_go (preflightCheck good_signals no_options)"
proof -
  have "readinessScore good_signals no_options = 1"
    by (simp add: readinessScore_def readiness_factors_def good_signals_def no_options_def or_default_def nonzero_or_one_def
        clamp01_def FLOOR_def Let_def)
  then show ?thesis by (simp add: preflightCheck_def Let_def good_signals_def no_options_def or_default_def)
qed

lemma sample_airspace: "airspace_clear sample_flight_db sample_new [''f1'']"
  by (simp add: airspace_clear_def sample_new_def sample_flight_db_def hard_collision_def live_scoped_def
      LIVE_FLIGHT_STATUSES_def sample_flight_def)

lemma sample_dispatch:
  "\<exists>db' r. dispatchFlight (quiet_env between) sample_new good_signals no_options cowork = (db', Inr r)"
proof -
  have "createFlight sample_flight_db sample_flight_db sample_flight_db ''f2'' 9 sample_new (dispatch_options cowork) =
      (fst (createFlight sample_flight_db sample_flight_db sample_flight_db ''f2'' 9 sample_new plain_options), Inr ''f2'')"
    using sample_created by (simp add: dispatch_options_def cowork_def plain_options_def)
  then show ?thesis
    by (simp add: dispatchFlight_def quiet_env_def cowork_def or_default_def Let_def split: prod.splits)
qed

theorem dispatch_decides_witness:
  "\<exists>db' r row. dispatchFlight (quiet_env (\<lambda>db. db)) sample_new good_signals no_options cowork = (db', Inr r) \<and>
     dr_go r \<and> fd_flights db' = fd_flights sample_flight_db @ [row] \<and> fr_status row = Running"
proof -
  let ?e = "quiet_env (\<lambda>db. db)"
  obtain db' r where d: "dispatchFlight ?e sample_new good_signals no_options cowork = (db', Inr r)"
    using sample_dispatch by blast
  have e: "de_between ?e = (\<lambda>db. db)" "de_clear ?e = sample_flight_db" "de_write ?e = sample_flight_db"
    "dx_allowCollisionWith cowork = [''f1'']"
    by (simp_all add: quiet_env_def cowork_def)
  from dispatch_decides [OF d] d show ?thesis
    unfolding e using good_signals_go sample_airspace by (auto simp: ruled_def)
qed

text \<open>The answer of a dispatch is the verdict, not the row: a flight that another request fails
  between the creation and the verdict stays failed, and the dispatch still answers running.\<close>

lemma dispatch_answer_stale:
  "\<exists>db' r. dispatchFlight (quiet_env (\<lambda>db. failFlight db ''f2'' ''cancelled'' 10)) sample_new good_signals no_options cowork =
     (db', Inr r) \<and> dr_status r = Running \<and> map fr_status (fd_flights db') = [Running, Failed, Failed]"
proof -
  let ?e = "quiet_env (\<lambda>db. failFlight db ''f2'' ''cancelled'' 10)"
  let ?g = "combine_gates (preflightCheck good_signals no_options) (dispatch_clearance ?e sample_new cowork)"
  let ?db = "fst (createFlight sample_flight_db sample_flight_db sample_flight_db ''f2'' 9 sample_new plain_options)"
  have c: "createFlight sample_flight_db sample_flight_db sample_flight_db ''f2'' 9 sample_new (dispatch_options cowork) =
      (?db, Inr ''f2'')"
    using sample_created by (simp add: dispatch_options_def cowork_def plain_options_def)
  have go: "gr_go ?g"
    unfolding combine_gates_decision using good_signals_go sample_airspace by (simp add: quiet_env_def cowork_def)
  have rows: "fd_flights ?db = fd_flights sample_flight_db @ [created_row sample_flight_db ''f2'' 9 sample_new plain_options]"
    "fd_tenant ?db = ''t''"
    using create_flight_rows [OF sample_created] created_by_insert [OF sample_created] by (simp_all add: sample_flight_db_def)
  have "map fr_status (fd_flights (fst (applyPreflight (failFlight ?db ''f2'' ''cancelled'' 10) ''f2'' ?g 11))) = [Running, Failed, Failed]"
    using rows go by (simp add: applyPreflight_def failFlight_def update_flights_def own_flight_def sample_flight_db_def
        sample_flight_def created_row_def)
  moreover have "snd (applyPreflight (failFlight ?db ''f2'' ''cancelled'' 10) ''f2'' ?g 11) = Running"
    using go by (simp add: applyPreflight_def)
  ultimately show ?thesis
    using c by (auto simp: dispatchFlight_def quiet_env_def cowork_def or_default_def Let_def split: prod.splits)
qed

end
