(* ===== verification/Flight_Feed.thy ===== *)
theory Flight_Feed
  imports Flight_Safety
begin

text \<open>
  How landed and other flights reach their readers (\<^verbatim>\<open>src/flight/service.ts\<close>): the outbox of landing
  receipts with its delivery and flush, the listings, and the outcome feed with its cursor.

  The event bus is a parameter of the delivery: \<open>bus r\<close> is \<open>None\<close> when it accepts the event of
  receipt \<open>r\<close> and the message of its exception otherwise. A receipt is attempted at most once per
  flush, so a function of the receipt is no restriction; \<open>clock r\<close> is the time of that attempt.
  The names that the listings join from agents and squads are left out.
\<close>

section \<open>The outbox\<close>

definition pending :: "flight_db \<Rightarrow> landing_receipt \<Rightarrow> bool" where
  "pending db r \<longleftrightarrow> lr_tenant r = fd_tenant db \<and> lr_delivered_at r = None"

definition pending_for :: "flight_db \<Rightarrow> string \<Rightarrow> landing_receipt \<Rightarrow> bool" where
  "pending_for db i r \<longleftrightarrow> lr_tenant r = fd_tenant db \<and> lr_flight_id r = i \<and> lr_delivered_at r = None"

definition settle :: "(landing_receipt \<Rightarrow> string option) \<Rightarrow> (landing_receipt \<Rightarrow> int) \<Rightarrow> landing_receipt \<Rightarrow> landing_receipt \<Rightarrow> landing_receipt" where
  "settle bus clock attempted r =
     (case bus attempted of
        None \<Rightarrow> r\<lparr>lr_delivered_at := Some (clock attempted), lr_attempts := lr_attempts r + 1, lr_last_error := None\<rparr>
      | Some msg \<Rightarrow> r\<lparr>lr_last_error := Some (take 500 msg), lr_attempts := lr_attempts r + 1\<rparr>)"

text \<open>The tables after the attempt, the receipts whose event the bus took, and the answer.\<close>

definition deliverFlightLandedEvent ::
  "(landing_receipt \<Rightarrow> string option) \<Rightarrow> (landing_receipt \<Rightarrow> int) \<Rightarrow> flight_db \<Rightarrow> string \<Rightarrow> flight_db \<times> landing_receipt list \<times> bool" where
  "deliverFlightLandedEvent bus clock db i =
     (case first_row (pending_for db i) (fd_outbox db) of
        None \<Rightarrow> (db, [], True)
      | Some row \<Rightarrow>
          (db\<lparr>fd_outbox := map (\<lambda>r. if pending_for db i r then settle bus clock row r else r) (fd_outbox db)\<rparr>,
           if bus row = None then [row] else [], bus row = None))"

fun deliver_all ::
  "(landing_receipt \<Rightarrow> string option) \<Rightarrow> (landing_receipt \<Rightarrow> int) \<Rightarrow> flight_db \<Rightarrow> landing_receipt list \<Rightarrow>
   flight_db \<times> landing_receipt list \<times> nat" where
  "deliver_all bus clock db [] = (db, [], 0)"
| "deliver_all bus clock db (row # rows) =
     (case deliverFlightLandedEvent bus clock db (lr_flight_id row) of (db1, events, ok) \<Rightarrow>
      case deliver_all bus clock db1 rows of (db2, events', n) \<Rightarrow> (db2, events @ events', (if ok then 1 else 0) + n))"

record flush_result =
  attempted :: nat
  delivered :: nat

definition flush_limit :: "int \<Rightarrow> nat" where
  "flush_limit limit = nat (min (max limit 1) 100)"

definition flush_batch :: "flight_db \<Rightarrow> int \<Rightarrow> landing_receipt list" where
  "flush_batch db limit = take (flush_limit limit) (sort_key lr_created_at (filter (pending db) (fd_outbox db)))"

definition flushFlightEventOutbox ::
  "(landing_receipt \<Rightarrow> string option) \<Rightarrow> (landing_receipt \<Rightarrow> int) \<Rightarrow> flight_db \<Rightarrow> int \<Rightarrow> flight_db \<times> landing_receipt list \<times> flush_result" where
  "flushFlightEventOutbox bus clock db limit =
     (let rows = flush_batch db limit in
      case deliver_all bus clock db rows of (db', events, n) \<Rightarrow> (db', events, \<lparr>attempted = length rows, delivered = n\<rparr>))"

text \<open>The unique key of the outbox; the event type is always \<open>flight.landed\<close>.\<close>

definition outbox_key :: "landing_receipt \<Rightarrow> string \<times> string" where
  "outbox_key r = (lr_tenant r, lr_flight_id r)"

definition outbox_unique :: "flight_db \<Rightarrow> bool" where
  "outbox_unique db \<longleftrightarrow> distinct (map outbox_key (fd_outbox db))"

lemma settle_key [simp]: "outbox_key (settle bus clock a r) = outbox_key r"
  by (simp add: settle_def outbox_key_def split: option.splits)

lemma pending_for_unique:
  assumes "outbox_unique db" "b \<in> set (fd_outbox db)" "pending db b" "r \<in> set (fd_outbox db)"
  shows "pending_for db (lr_flight_id b) r \<longleftrightarrow> r = b"
proof -
  have "outbox_key r = outbox_key b \<longleftrightarrow> r = b"
    using assms by (auto simp: outbox_unique_def distinct_map inj_on_eq_iff)
  then show ?thesis using assms(3) by (auto simp: pending_def pending_for_def outbox_key_def)
qed

lemma deliver_pending:
  assumes "outbox_unique db" "b \<in> set (fd_outbox db)" "pending db b"
  shows "deliverFlightLandedEvent bus clock db (lr_flight_id b) =
    (db\<lparr>fd_outbox := map (\<lambda>r. if r = b then settle bus clock b r else r) (fd_outbox db)\<rparr>,
     if bus b = None then [b] else [], bus b = None)"
proof -
  note u = pending_for_unique [OF assms]
  have "first_row (pending_for db (lr_flight_id b)) (fd_outbox db) = first_row (\<lambda>r. r = b) (fd_outbox db)"
    by (rule first_row_cong) (simp add: u)
  also have "\<dots> = Some b"
    using assms(2) first_row_None [of "\<lambda>r. r = b" "fd_outbox db"] first_row_Some [of "\<lambda>r. r = b" "fd_outbox db"]
    by (cases "first_row (\<lambda>r. r = b) (fd_outbox db)") auto
  finally show ?thesis using u by (auto simp: deliverFlightLandedEvent_def intro!: arg_cong [of _ _ "\<lambda>x. db\<lparr>fd_outbox := x\<rparr>"])
qed

lemma deliver_all_batch:
  assumes "outbox_unique db" "distinct bs" "set bs \<subseteq> set (fd_outbox db)" "\<forall>b \<in> set bs. pending db b"
  shows "deliver_all bus clock db bs =
    (db\<lparr>fd_outbox := map (\<lambda>r. if r \<in> set bs then settle bus clock r r else r) (fd_outbox db)\<rparr>,
     filter (\<lambda>b. bus b = None) bs, length (filter (\<lambda>b. bus b = None) bs))"
  using assms
proof (induction bs arbitrary: db)
  case (Cons b bs)
  let ?f = "\<lambda>r. if r = b then settle bus clock b r else r"
  let ?db = "db\<lparr>fd_outbox := map ?f (fd_outbox db)\<rparr>"
  have b: "b \<in> set (fd_outbox db)" "pending db b" "b \<notin> set bs" using Cons.prems by auto
  have uniq: "outbox_unique ?db"
    using Cons.prems(1) by (auto simp: outbox_unique_def comp_def intro: back_subst [of distinct] map_cong)
  have "r \<in> set (fd_outbox ?db)" "pending ?db r" if "r \<in> set bs" for r
    using that b Cons.prems(3,4) by (force simp: pending_def)+
  then have rest: "set bs \<subseteq> set (fd_outbox ?db)" "\<forall>b \<in> set bs. pending ?db b" by auto
  have keep: "settle bus clock b b \<notin> set bs"
  proof
    assume "settle bus clock b b \<in> set bs"
    then have "settle bus clock b b \<in> set (fd_outbox db)" using Cons.prems(3) by auto
    with Cons.prems(1) b(1) have "settle bus clock b b = b"
      unfolding outbox_unique_def distinct_map by (metis inj_onD settle_key)
    with \<open>settle bus clock b b \<in> set bs\<close> b(3) show False by simp
  qed
  have merge: "map (\<lambda>r. if r \<in> set bs then settle bus clock r r else r) (map ?f (fd_outbox db)) =
      map (\<lambda>r. if r \<in> set (b # bs) then settle bus clock r r else r) (fd_outbox db)"
    using keep b(3) by auto
  show ?case
    using deliver_pending [OF Cons.prems(1) b(1,2), of bus clock] Cons.IH [OF uniq _ rest] Cons.prems(2) merge
    by simp
qed simp

text \<open>A flush settles exactly its batch. On an outbox with its unique key, a flush attempts the
  oldest undelivered receipts of the tenant, between one and a hundred as asked for, hands the bus
  the event of each receipt it accepts once and in order of age, marks exactly those delivered, counts
  one more attempt and the error on those the bus refused, and leaves every other receipt as it
  was; its counts are the sizes of the batch and of the delivered part.\<close>
theorem flush_settles_batch:
  assumes "outbox_unique db"
  shows "flushFlightEventOutbox bus clock db limit =
    (db\<lparr>fd_outbox := map (\<lambda>r. if r \<in> set (flush_batch db limit) then settle bus clock r r else r) (fd_outbox db)\<rparr>,
     filter (\<lambda>r. bus r = None) (flush_batch db limit),
     \<lparr>attempted = length (flush_batch db limit), delivered = length (filter (\<lambda>r. bus r = None) (flush_batch db limit))\<rparr>) \<and>
    distinct (flush_batch db limit) \<and> list_all (pending db) (flush_batch db limit) \<and>
    length (flush_batch db limit) = min (flush_limit limit) (length (filter (pending db) (fd_outbox db)))"
proof -
  have d: "distinct (fd_outbox db)" using assms by (simp add: outbox_unique_def distinct_map)
  have sub: "set (flush_batch db limit) \<subseteq> set (filter (pending db) (fd_outbox db))"
    unfolding flush_batch_def using set_take_subset by fastforce
  have b: "distinct (flush_batch db limit)" using d by (simp add: flush_batch_def)
  have "deliver_all bus clock db (flush_batch db limit) =
      (db\<lparr>fd_outbox := map (\<lambda>r. if r \<in> set (flush_batch db limit) then settle bus clock r r else r) (fd_outbox db)\<rparr>,
       filter (\<lambda>r. bus r = None) (flush_batch db limit), length (filter (\<lambda>r. bus r = None) (flush_batch db limit)))"
    using sub by (intro deliver_all_batch [OF assms b]) auto
  then show ?thesis using b sub
    by (auto simp: flushFlightEventOutbox_def Let_def list_all_iff) (simp add: flush_batch_def)
qed

text \<open>The unique key is kept by the only writer of receipts and by the flush itself.\<close>

lemma receipt_key: "outbox_key (receipt_of opts now f) = (fr_tenant f, fr_id f)"
  by (simp add: outbox_key_def receipt_of_def)

lemma governed_outbox:
  assumes "landGovernedFlight db i opts now o1 o2 = (db', out)"
  shows "fd_outbox db' = fd_outbox db \<or>
    (\<exists>r. fd_outbox db' = fd_outbox db @ [r] \<and> outbox_key r = (fd_tenant db, i) \<and> (fd_tenant db, i) \<notin> outbox_key ` set (fd_outbox db))"
proof -
  have u: "fd_outbox (update_flights p f d) = fd_outbox d" "fd_tenant (update_flights p f d) = fd_tenant d"
    "fd_outbox (routineCostAggregation d j) = fd_outbox d" for p f d j
    by (simp_all add: update_flights_def routineCostAggregation_def)
  show ?thesis
  proof (cases "\<exists>g. filter (land_matches db i opts) (fd_flights db) = [g]")
    case True
    then obtain g where g: "filter (land_matches db i opts) (fd_flights db) = [g]" by blast
    then have "land_matches db i opts g" by (metis filter_eq_Cons_iff)
    then have k: "outbox_key (receipt_of opts now (landed_row db opts j now g)) = (fd_tenant db, i)" for j
      by (simp add: receipt_key land_matches_def own_flight_def)
    have "flightReceiptExists d i \<longleftrightarrow> (fd_tenant d, i) \<in> outbox_key ` set (fd_outbox d)" for d
      by (force simp: flightReceiptExists_def exists_row_iff outbox_key_def)
    then show ?thesis using assms by (auto simp: landGovernedFlight_def Let_def g u k split: if_splits)
  next
    case False
    then have "fd_outbox (fst (landGovernedFlight db i opts now o1 o2)) = fd_outbox db"
      by (auto simp: landGovernedFlight_def Let_def u split: list.splits)
    with assms show ?thesis by simp
  qed
qed

lemma governed_keeps_outbox_unique:
  "landGovernedFlight db i opts now o1 o2 = (db', out) \<Longrightarrow> outbox_unique db \<Longrightarrow> outbox_unique db'"
  using governed_outbox [of db i opts now o1 o2 db' out] by (auto simp: outbox_unique_def)

section \<open>Listings\<close>

definition page_limit :: "int \<Rightarrow> nat" where
  "page_limit limit = nat (min (max limit 1) 500)"

definition in_project :: "string option \<Rightarrow> flight_row \<Rightarrow> bool" where
  "in_project projectId f = (case projectId of None \<Rightarrow> True | Some p \<Rightarrow> fr_project_id f = Some p)"

definition listFlights :: "flight_db \<Rightarrow> int \<Rightarrow> string option \<Rightarrow> flight_row list" where
  "listFlights db limit projectId =
     take (page_limit limit) (newest_first (filter (\<lambda>f. fr_tenant f = fd_tenant db \<and> in_project projectId f) (fd_flights db)))"

definition listFlightsWithLive :: "flight_db \<Rightarrow> int \<Rightarrow> flight_row list" where
  "listFlightsWithLive db limit =
     (let recent = listFlights db limit None; live = fst (listLiveFlights (fd_flights db) (fd_tenant db) LIVE_SET_CAP) in
      newest_first (recent @ filter (\<lambda>r. fr_id r \<notin> set (map fr_id recent)) live))"

text \<open>\<open>ORDER BY k DESC, id DESC\<close> and \<open>ORDER BY k ASC, id ASC\<close>.\<close>

definition order_asc :: "(flight_row \<Rightarrow> int) \<Rightarrow> flight_row list \<Rightarrow> flight_row list" where
  "order_asc k rows = sort_key k (sort_key fr_id rows)"

definition order_desc :: "(flight_row \<Rightarrow> int) \<Rightarrow> flight_row list \<Rightarrow> flight_row list" where
  "order_desc k rows = rev (order_asc k rows)"

text \<open>Without a cursor the bound is the largest safe integer and U+FFFF, above every id.\<close>

definition before_cursor :: "(int \<times> string) option \<Rightarrow> flight_row \<Rightarrow> bool" where
  "before_cursor before f =
     (case before of
        None \<Rightarrow> fr_created_at f \<le> 2 ^ 53 - 1
      | Some (t, i) \<Rightarrow> fr_created_at f < t \<or> fr_created_at f = t \<and> fr_id f < i)"

definition listFlightsForSquad ::
  "flight_db \<Rightarrow> string \<Rightarrow> int \<Rightarrow> (int \<times> string) option \<Rightarrow> string option \<Rightarrow> flight_row list" where
  "listFlightsForSquad db squadId limit before projectId =
     take (page_limit limit) (order_desc fr_created_at (filter (\<lambda>f. fr_tenant f = fd_tenant db \<and> in_project projectId f \<and>
       je_overlap (fr_meta f) ''squad_ids'' [squadId] \<and> before_cursor before f) (fd_flights db)))"

definition withCostSemantics :: "flight_row \<Rightarrow> int option \<times> bool" where
  "withCostSemantics f = (if fr_cost_metered f then Some (fr_cost f) else None, fr_cost_metered f)"

section \<open>The outcome feed\<close>

definition TIE_GROUP_CAP :: nat where
  "TIE_GROUP_CAP = 1000"

definition feed_key :: "flight_row \<Rightarrow> int" where
  "feed_key f = (case fr_ended_at f of Some e \<Rightarrow> e | None \<Rightarrow> fr_created_at f)"

record feed_opts =
  fo_limit :: int
  fo_projectId :: "string option"
  fo_outcomes :: "string list option"
  fo_sinceMs :: "int option"

definition feed_where :: "flight_db \<Rightarrow> feed_opts \<Rightarrow> (flight_row \<Rightarrow> bool) \<Rightarrow> flight_row \<Rightarrow> bool" where
  "feed_where db opts outcome f \<longleftrightarrow>
     fr_tenant f = fd_tenant db \<and> in_project (fo_projectId opts) f \<and> outcome f \<and>
     (case fo_sinceMs opts of None \<Rightarrow> True | Some c \<Rightarrow> feed_key f > c)"

definition feed_read :: "flight_db \<Rightarrow> feed_opts \<Rightarrow> (flight_row \<Rightarrow> bool) \<Rightarrow> (flight_row \<Rightarrow> bool) \<Rightarrow> nat \<Rightarrow> flight_row list" where
  "feed_read db opts outcome extra n =
     (let rows = filter (\<lambda>f. feed_where db opts outcome f \<and> extra f) (fd_flights db) in
      take n (if fo_sinceMs opts = None then order_desc fr_created_at rows else order_asc feed_key rows))"

definition feed_page :: "flight_db \<Rightarrow> feed_opts \<Rightarrow> (flight_row \<Rightarrow> bool) \<Rightarrow> flight_row list \<times> bool" where
  "feed_page db opts outcome =
     (let limit = page_limit (fo_limit opts);
          fetched = feed_read db opts outcome (\<lambda>f. True) (limit + 1);
          has_more = length fetched > limit;
          window = take limit fetched;
          widened = (if fo_sinceMs opts \<noteq> None \<and> has_more \<and> feed_key (fetched ! limit) = feed_key (window ! (limit - 1))
            then feed_read db opts outcome (\<lambda>f. feed_key f \<le> feed_key (window ! (limit - 1))) TIE_GROUP_CAP
            else window)
      in (if fo_sinceMs opts = None then widened else rev widened, has_more))"

definition feed_outcome :: "cancel_receipt list \<Rightarrow> feed_opts \<Rightarrow> outcome_error + (flight_row \<Rightarrow> bool)" where
  "feed_outcome receipts opts =
     (case fo_outcomes opts of None \<Rightarrow> Inr (\<lambda>f. True) | Some os \<Rightarrow> outcomeFilterSql receipts os)"

definition listFlightOutcomes ::
  "flight_db \<Rightarrow> cancel_receipt list \<Rightarrow> feed_opts \<Rightarrow> outcome_error + flight_row list \<times> bool" where
  "listFlightOutcomes db receipts opts =
     and_then (feed_outcome receipts opts) (\<lambda>outcome. Inr (feed_page db opts outcome))"

text \<open>The window of the cursor mode on the sorted list of the matching rows.\<close>

definition tie_window :: "nat \<Rightarrow> flight_row list \<Rightarrow> flight_row list" where
  "tie_window limit m =
     (if length m > limit \<and> feed_key (m ! limit) = feed_key (m ! (limit - 1))
      then take TIE_GROUP_CAP (filter (\<lambda>f. feed_key f \<le> feed_key (m ! (limit - 1))) m)
      else take limit m)"

definition feed_matches :: "flight_db \<Rightarrow> feed_opts \<Rightarrow> (flight_row \<Rightarrow> bool) \<Rightarrow> flight_row list" where
  "feed_matches db opts outcome = order_asc feed_key (filter (feed_where db opts outcome) (fd_flights db))"

lemma order_asc_sorted: "sorted (map k (order_asc k rows))" "set (order_asc k rows) = set rows" "mset (order_asc k rows) = mset rows"
  by (simp_all add: order_asc_def)

lemma filter_order_asc: "filter p (order_asc k rows) = order_asc k (filter p rows)"
  by (simp add: order_asc_def filter_sort)

lemma page_limit_pos: "0 < page_limit n" "page_limit n \<le> 500"
  by (simp_all add: page_limit_def)

lemma cursor_page:
  assumes "fo_sinceMs opts \<noteq> None"
  shows "feed_page db opts outcome =
    (rev (tie_window (page_limit (fo_limit opts)) (feed_matches db opts outcome)),
     length (feed_matches db opts outcome) > page_limit (fo_limit opts))"
proof -
  let ?m = "feed_matches db opts outcome" and ?l = "page_limit (fo_limit opts)"
  have read: "feed_read db opts outcome extra n = take n (filter extra ?m)" for extra n
    using assms by (auto simp: feed_read_def Let_def feed_matches_def filter_order_asc conj_commute)
  have more: "length (take (?l + 1) ?m) > ?l \<longleftrightarrow> length ?m > ?l" by auto
  have last: "take ?l ?m ! (?l - 1) = ?m ! (?l - 1)" "take ?l (take (?l + 1) ?m) = take ?l ?m"
    "take (?l + 1) ?m ! ?l = ?m ! ?l" "filter (\<lambda>f. True) ?m = ?m"
    using page_limit_pos(1) [of "fo_limit opts"] by simp_all
  have since: "(fo_sinceMs opts = None) = False" using assms by simp
  show ?thesis
    unfolding feed_page_def Let_def read last more since tie_window_def by simp
qed

lemma sorted_filter_prefix:
  assumes "sorted (map k m)"
  shows "filter (\<lambda>x. k x \<le> (c :: int)) m = take (length (filter (\<lambda>x. k x \<le> c) m)) m"
  using assms
proof (induction m)
  case (Cons x m)
  then show ?case
  proof (cases "k x \<le> c")
    case False
    with Cons.prems have "filter (\<lambda>y. k y \<le> c) m = []" by (fastforce simp: filter_empty_conv)
    with False show ?thesis by simp
  qed simp
qed simp

lemma last_take_nth: "0 < n \<Longrightarrow> n \<le> length xs \<Longrightarrow> last (take n xs) = xs ! (n - 1)"
  by (subst last_conv_nth) auto

lemma sorted_filter_cut:
  assumes "sorted (map k m)" "0 < n" "n \<le> length m" "n = length m \<or> k (m ! (n - 1)) < (k (m ! n) :: int)"
  shows "take n m = filter (\<lambda>x. k x \<le> k (m ! (n - 1))) m"
proof -
  let ?p = "\<lambda>x. k x \<le> k (m ! (n - 1))"
  have le: "k (m ! i) \<le> k (m ! j)" if "i \<le> j" "j < length m" for i j
    using sorted_nth_mono [OF assms(1), of i j] that by simp
  have "?p x" if x: "x \<in> set (take n m)" for x
  proof -
    obtain i where "i < n" "i < length m" "x = m ! i" using x by (auto simp: in_set_conv_nth)
    then show ?thesis using assms(2,3) le [of i "n - 1"] by simp
  qed
  then have "filter ?p (take n m) = take n m" by (simp add: filter_id_conv)
  moreover have "filter ?p (drop n m) = []"
  proof (cases "n = length m")
    case False
    then have "k (m ! (n - 1)) < k (m ! (n + j))" if "j < length m - n" for j
      using assms(3,4) le [of n "n + j"] that by fastforce
    then show ?thesis by (auto simp: filter_empty_conv in_set_conv_nth not_le)
  qed simp
  ultimately show ?thesis by (metis append_Nil2 append_take_drop_id filter_append)
qed

lemma tie_window_complete:
  assumes "sorted (map feed_key m)" "0 < limit" "limit \<le> 500" "m \<noteq> []"
    and cap: "length (filter (\<lambda>f. feed_key f \<le> feed_key (last (tie_window limit m))) m) \<le> TIE_GROUP_CAP"
  shows "tie_window limit m = filter (\<lambda>f. feed_key f \<le> feed_key (last (tie_window limit m))) m"
proof (cases "length m > limit \<and> feed_key (m ! limit) = feed_key (m ! (limit - 1))")
  case False
  let ?n = "min limit (length m)"
  have w: "tie_window limit m = take ?n m" using False by (auto simp: tie_window_def min_def)
  have n: "0 < ?n" "?n \<le> length m" using assms(2,4) by auto
  have "?n = length m \<or> feed_key (m ! (?n - 1)) < feed_key (m ! ?n)"
    using False sorted_nth_mono [OF assms(1), of "limit - 1" limit] by (cases "limit < length m") auto
  then have "take ?n m = filter (\<lambda>f. feed_key f \<le> feed_key (m ! (?n - 1))) m" by (rule sorted_filter_cut [OF assms(1) n])
  moreover have "last (take ?n m) = m ! (?n - 1)" using n assms(4) by (intro last_take_nth)
  ultimately show ?thesis unfolding w by simp
next
  case True
  let ?c = "feed_key (m ! (limit - 1))"
  let ?F = "filter (\<lambda>f. feed_key f \<le> ?c) m" and ?p = "\<lambda>n. take n m"
  have F: "?F = take (length ?F) m" by (rule sorted_filter_prefix [OF assms(1)])
  have "take limit m = filter (\<lambda>f. feed_key f \<le> ?c) (take limit m)"
    using True assms(2) sorted_nth_mono [OF assms(1), of _ "limit - 1"]
    by (auto simp: in_set_conv_nth intro!: filter_True [symmetric])
  then have "limit \<le> length ?F"
    using True by (metis (no_types, lifting) append_take_drop_id filter_append length_append le_add1 length_take min.absorb4)
  define n where "n = min TIE_GROUP_CAP (length ?F)"
  have w: "tie_window limit m = take n m"
    using True F by (simp add: tie_window_def n_def min.commute) (metis take_take)
  have n: "limit \<le> n" "n \<le> length m" "n \<le> length ?F"
    using assms(3) \<open>limit \<le> length ?F\<close> le_trans [OF min.cobounded2 length_filter_le]
    by (simp_all add: n_def TIE_GROUP_CAP_def)
  have pos: "0 < n" using assms(2) n(1) by (rule less_le_trans)
  have l: "last (tie_window limit m) = m ! (n - 1)" unfolding w using pos n(2) by (rule last_take_nth)
  have "n - 1 < length m" "n - 1 < length ?F" using pos n by linarith+
  then have "?c \<le> feed_key (m ! (n - 1))" using sorted_nth_mono [OF assms(1), of "limit - 1" "n - 1"] n(1) by simp
  moreover have "m ! (n - 1) \<in> set ?F"
    using F \<open>n - 1 < length ?F\<close> by (metis nth_mem nth_take)
  ultimately have c: "feed_key (m ! (n - 1)) = ?c" by simp
  then have "length ?F \<le> TIE_GROUP_CAP" using cap l by simp
  then have "n = length ?F" by (simp add: n_def)
  then show ?thesis using w F l c by simp
qed

text \<open>The cap counts the rows before the tie group as well: a group well below the cap is split, and
  its last rows are lost behind the cursor, when the earlier rows of the window fill the cap up.\<close>

lemma tie_group_split:
  assumes "limit < length m" "feed_key (m ! limit) = feed_key (m ! (limit - 1))"
    and "TIE_GROUP_CAP < length (filter (\<lambda>f. feed_key f \<le> feed_key (m ! (limit - 1))) m)"
  shows "length (tie_window limit m) = TIE_GROUP_CAP \<and>
    length (tie_window limit m) < length (filter (\<lambda>f. feed_key f \<le> feed_key (m ! (limit - 1))) m)"
  using assms by (simp add: tie_window_def)

text \<open>C39: The outcome feed loses nothing behind its cursor. In cursor mode, when at most a thousand
  matching rows lie between the cursor and the newest key of the answer, the answer is exactly
  the matching rows up to that key, each once and newest first, so that a reader that advances to
  that key has seen every committed match; an empty answer means that no row matches, and an answer
  that does not announce more is the whole rest.\<close>
theorem outcome_feed_complete:
  assumes since: "fo_sinceMs opts \<noteq> None" and out: "feed_outcome receipts opts = Inr outcome"
    and cap: "length (filter (\<lambda>f. feed_where db opts outcome f \<and>
      feed_key f \<le> feed_key (hd (fst (feed_page db opts outcome)))) (fd_flights db)) \<le> TIE_GROUP_CAP"
  shows "\<exists>rows rest. listFlightOutcomes db receipts opts = Inr (rows, rest) \<and>
    (rows = [] \<longleftrightarrow> filter (feed_where db opts outcome) (fd_flights db) = []) \<and>
    mset rows = mset (filter (\<lambda>f. feed_where db opts outcome f \<and> feed_key f \<le> feed_key (hd rows)) (fd_flights db)) \<and>
    sorted (map feed_key (rev rows)) \<and>
    (rest \<or> mset rows = mset (filter (feed_where db opts outcome) (fd_flights db)))"
proof -
  let ?m = "feed_matches db opts outcome" and ?l = "page_limit (fo_limit opts)"
  let ?w = "tie_window ?l ?m"
  note page = cursor_page [OF since, of db outcome]
  have list: "listFlightOutcomes db receipts opts = Inr (rev ?w, length ?m > ?l)"
    by (simp add: listFlightOutcomes_def out page)
  have m: "sorted (map feed_key ?m)" "mset ?m = mset (filter (feed_where db opts outcome) (fd_flights db))"
    by (simp_all add: feed_matches_def order_asc_sorted)
  have upto: "mset (filter (\<lambda>f. feed_key f \<le> c) ?m) =
      mset (filter (\<lambda>f. feed_where db opts outcome f \<and> feed_key f \<le> c) (fd_flights db))" for c
    unfolding feed_matches_def filter_order_asc order_asc_sorted(3) filter_filter ..
  have empty: "?w = [] \<longleftrightarrow> ?m = []"
    using page_limit_pos(1) [of "fo_limit opts"] by (auto simp: tie_window_def TIE_GROUP_CAP_def filter_empty_conv)
  have all: "\<not> length ?m > ?l \<Longrightarrow> ?w = ?m" by (simp add: tie_window_def)
  have w: "?w = filter (\<lambda>f. feed_key f \<le> feed_key (last ?w)) ?m" if "?m \<noteq> []"
  proof (rule tie_window_complete [OF m(1) page_limit_pos that])
    show "length (filter (\<lambda>f. feed_key f \<le> feed_key (last ?w)) ?m) \<le> TIE_GROUP_CAP"
      using cap mset_eq_length [OF upto] that empty by (simp add: page hd_rev)
  qed
  show ?thesis
  proof (cases "?m = []")
    case True
    then have "filter (feed_where db opts outcome) (fd_flights db) = []" using m(2) by simp
    with True empty list show ?thesis by (auto simp: filter_empty_conv)
  next
    case False
    have ne: "filter (feed_where db opts outcome) (fd_flights db) \<noteq> []" using False m(2) by (metis mset_zero_iff)
    have "hd (rev ?w) = last ?w" using False empty by (simp add: hd_rev)
    moreover have "mset ?w = mset (filter (\<lambda>f. feed_where db opts outcome f \<and> feed_key f \<le> feed_key (last ?w)) (fd_flights db))"
      using upto [of "feed_key (last ?w)"] w [OF False] by simp
    moreover have "sorted (map feed_key ?w)" using w [OF False] m(1) by (metis sorted_filter)
    moreover have "length ?m > ?l \<or> mset ?w = mset (filter (feed_where db opts outcome) (fd_flights db))"
      using all m(2) by metis
    ultimately show ?thesis using list ne False empty by simp
  qed
qed

definition landed_db :: flight_db where
  "landed_db = fst (landGovernedFlight sample_flight_db ''f1'' sample_land 9 True True)"

theorem flush_settles_batch_witness:
  "outbox_unique landed_db \<and>
   delivered (snd (snd (flushFlightEventOutbox (\<lambda>r. None) (\<lambda>r. 10) landed_db 50))) = 1"
proof -
  have "outbox_unique sample_flight_db" by (simp add: outbox_unique_def sample_flight_db_def)
  then have u: "outbox_unique landed_db" unfolding landed_db_def by (metis governed_keeps_outbox_unique prod.collapse)
  have "length (filter (pending landed_db) (fd_outbox landed_db)) = 1" by code_simp
  with flush_settles_batch [OF u, of "\<lambda>r. None" "\<lambda>r. 10" 50] u show ?thesis by (auto simp: flush_limit_def)
qed

definition failed_feed :: feed_opts where
  "failed_feed = \<lparr>fo_limit = 1, fo_projectId = None, fo_outcomes = Some [''failed''], fo_sinceMs = Some 0\<rparr>"

theorem outcome_feed_complete_witness:
  "\<exists>rows rest. listFlightOutcomes sample_flight_db [] failed_feed = Inr (rows, rest) \<and> rows \<noteq> []"
proof -
  let ?o = "\<lambda>f. list_ex (outcome_part [] f) [''failed'']"
  have o: "feed_outcome [] failed_feed = Inr ?o"
    by (simp add: feed_outcome_def failed_feed_def outcomeFilterSql_def outcome_chars_def)
  have since: "fo_sinceMs failed_feed \<noteq> None" by (simp add: failed_feed_def)
  have "length (filter p (fd_flights sample_flight_db)) \<le> TIE_GROUP_CAP" for p
    by (rule le_trans [OF length_filter_le]) (simp add: sample_flight_db_def TIE_GROUP_CAP_def)
  note c = outcome_feed_complete [OF since o this]
  have "filter (feed_where sample_flight_db failed_feed ?o) (fd_flights sample_flight_db) \<noteq> []" by code_simp
  with c show ?thesis by blast
qed

end
