(* ===== verification/Attach_Live.thy ===== *)
theory Attach_Live
  imports Gates
begin

text \<open>
  When an attached session is live (\<^verbatim>\<open>src/members/attach-live-sql.ts\<close>, \<^verbatim>\<open>src/members/attach-designated.ts\<close>,
  \<^verbatim>\<open>src/auth/token-lifecycle.ts\<close>), the read of every request (\<open>findLiveAttachment\<close> of
  \<^verbatim>\<open>src/members/seat-attach.ts\<close>) and the gate authority of an attached session
  (\<^verbatim>\<open>src/auth/attached-gate.ts\<close>). The request's read and the write's guard are two statements over the
  same fragments; the property shows that under the schema's keys they answer the same.

  \<open>attach_db\<close> holds the tables of seats, admissions, attachments, harnesses and tokens; agents and
  members come from \<open>gate_db\<close>. \<open>xd_julianday\<close> is SQLite's \<open>julianday\<close>, in milliseconds, \<open>None\<close> where
  it is NULL; \<open>xd_now\<close> is \<open>nowSqlUtc()\<close> and \<open>xd_clock\<close> the database's own \<open>'now'\<close>.
\<close>

section \<open>Tables\<close>

datatype admission_status = Adm_pending | Adm_live | Adm_denied | Adm_expired | Adm_revoked

datatype admission_scope = Scope_seat | Scope_harness

record seat_attachment =
  sa_id :: string
  sa_tenant :: string
  sa_seat :: string
  sa_human :: string
  sa_harness :: string
  sa_agent :: string
  sa_admission :: string
  sa_token :: string
  sa_detached_at :: "string option"

record seat_admission =
  ad_id :: string
  ad_tenant :: string
  ad_agent :: string
  ad_human :: string
  ad_harness :: string
  ad_status :: admission_status
  ad_scope :: admission_scope
  ad_requested_seat :: "string option"
  ad_gate_authority :: bool

record agent_seat =
  se_id :: string
  se_tenant :: string
  se_member :: string
  se_harness :: string
  se_agent :: string
  se_retired_at :: "string option"

record harness_row =
  hn_id :: string
  hn_tenant :: string
  hn_member :: string
  hn_credential_kind :: "string option"
  hn_grant_id :: "string option"

record token_row =
  mt_id :: string
  mt_tenant :: string
  mt_member :: string
  mt_agent :: "string option"
  mt_channel :: string
  mt_revoked_at :: "string option"
  mt_expires_at :: "string option"

record binding_row =
  ab_tenant :: string
  ab_agent :: string
  ab_member :: string

record attach_db =
  xd_tenant :: string
  xd_SEAT_ATTACH :: "string option"
  xd_SEAT_AUTO_ENROLL :: "string option"
  xd_SEAT_ATTACH_DESIGNATED :: "string option"
  xd_attachments :: "seat_attachment list"
  xd_admissions :: "seat_admission list"
  xd_seats :: "agent_seat list"
  xd_bindings :: "binding_row list"
  xd_member_tenants :: "(string \<times> string option) list"
  xd_harnesses :: "harness_row list"
  xd_tokens :: "token_row list"
  xd_designated :: "(string \<times> string) list"
  xd_now :: string
  xd_clock :: string
  xd_julianday :: "string \<Rightarrow> int option"

section \<open>The fragments\<close>

definition seatAutoEnrollEnabled :: "attach_db \<Rightarrow> bool" where
  "seatAutoEnrollEnabled x \<longleftrightarrow> xd_SEAT_AUTO_ENROLL x = Some ''1''"

definition seatAttachEnabled :: "attach_db \<Rightarrow> bool" where
  "seatAttachEnabled x \<longleftrightarrow> xd_SEAT_ATTACH x = Some ''1'' \<and> seatAutoEnrollEnabled x"

definition seatAttachDesignatedEnabled :: "attach_db \<Rightarrow> bool" where
  "seatAttachDesignatedEnabled x \<longleftrightarrow> seatAttachEnabled x \<and> xd_SEAT_ATTACH_DESIGNATED x = Some ''1''"

text \<open>\<open>attach_designated_member_id\<close> is a column of the agent, here a list of pairs of an agent and a member.\<close>

definition attachDesignatedClause :: "attach_db \<Rightarrow> string \<Rightarrow> string \<Rightarrow> bool" where
  "attachDesignatedClause x agent human \<longleftrightarrow>
     (if seatAttachDesignatedEnabled x then (agent, human) \<in> set (xd_designated x) else True)"

definition not_expired :: "attach_db \<Rightarrow> string \<Rightarrow> token_row \<Rightarrow> bool" where
  "not_expired x now t \<longleftrightarrow>
     (case mt_expires_at t of
        None \<Rightarrow> True
      | Some e \<Rightarrow> holds (sql_gt (xd_julianday x e) (xd_julianday x now)))"

definition TOKEN_LIVE_PREDICATE :: "gate_db \<Rightarrow> attach_db \<Rightarrow> string \<Rightarrow> token_row \<Rightarrow> bool" where
  "TOKEN_LIVE_PREDICATE g x now t \<longleftrightarrow>
     mt_revoked_at t = None \<and> not_expired x now t \<and>
     (case mt_agent t of
        None \<Rightarrow> True
      | Some a \<Rightarrow> exists_row (\<lambda>r. ag_id r = a \<and> (ag_status r = Agent_active \<or> ag_status r = Agent_paused)) (db_agents g))"

text \<open>\<open>LIKE 'oauth:_%'\<close>, which folds the case of ASCII letters.\<close>

definition like_oauth :: "string \<Rightarrow> bool" where
  "like_oauth s \<longleftrightarrow> lower (take 6 s) = ''oauth:'' \<and> length s \<ge> 7"

definition admissionBoundToSeatSql :: "attach_db \<Rightarrow> seat_admission \<Rightarrow> string \<Rightarrow> bool" where
  "admissionBoundToSeatSql x adm seat \<longleftrightarrow>
     ad_scope adm = Scope_seat \<and> ad_requested_seat adm = Some seat \<or>
     ad_scope adm = Scope_harness \<and>
     exists_row (\<lambda>hs.
       hn_id hs = ad_harness adm \<and> hn_tenant hs = ad_tenant adm \<and> hn_member hs = ad_human adm \<and>
       hn_credential_kind hs = Some ''oauth'' \<and>
       (case hn_grant_id hs of
          None \<Rightarrow> False
        | Some gid \<Rightarrow> like_oauth gid \<and>
            exists_row (\<lambda>gs. mt_id gs = drop 6 gid \<and> mt_tenant gs = ad_tenant adm \<and> mt_member gs = ad_human adm \<and>
              mt_channel gs = ''directory'' \<and> mt_agent gs = None \<and> mt_revoked_at gs = None \<and>
              not_expired x (xd_clock x) gs) (xd_tokens x))) (xd_harnesses x)"

text \<open>A row of the join.\<close>

record live_join =
  lj_att :: seat_attachment
  lj_adm :: seat_admission
  lj_seat :: agent_seat
  lj_agent :: agent_row
  lj_bind :: binding_row
  lj_harness :: harness_row

definition LIVE_ATTACHMENT_FROM_SQL :: "gate_db \<Rightarrow> attach_db \<Rightarrow> live_join list" where
  "LIVE_ATTACHMENT_FROM_SQL g x =
     [\<lparr>lj_att = att, lj_adm = adm, lj_seat = s, lj_agent = a, lj_bind = b, lj_harness = hr\<rparr>.
        att \<leftarrow> xd_attachments x,
        adm \<leftarrow> filter (\<lambda>adm. ad_id adm = sa_admission att \<and> ad_tenant adm = sa_tenant att) (xd_admissions x),
        s \<leftarrow> filter (\<lambda>s. se_id s = sa_seat att \<and> se_tenant s = sa_tenant att) (xd_seats x),
        a \<leftarrow> filter (\<lambda>a. ag_id a = sa_agent att) (db_agents g),
        b \<leftarrow> filter (\<lambda>b. ab_tenant b = sa_tenant att \<and> ab_agent b = ag_id a \<and>
               (ab_member b, Some (sa_tenant att)) \<in> set (xd_member_tenants x) \<and>
               memberStatus g (ab_member b) = Some Member_active) (xd_bindings x),
        hr \<leftarrow> filter (\<lambda>hr. hn_id hr = sa_harness att \<and> hn_tenant hr = sa_tenant att \<and>
               hn_member hr = sa_human att) (xd_harnesses x)]"

definition seatTokenLiveSql :: "gate_db \<Rightarrow> attach_db \<Rightarrow> live_join \<Rightarrow> token_row \<Rightarrow> bool" where
  "seatTokenLiveSql g x j t \<longleftrightarrow>
     mt_id t = sa_token (lj_att j) \<and> mt_member t = ab_member (lj_bind j) \<and> mt_agent t = Some (ag_id (lj_agent j)) \<and>
     mt_tenant t = xd_tenant x \<and> mt_channel t = ''directory'' \<and> TOKEN_LIVE_PREDICATE g x (xd_now x) t"

definition liveAttachmentConditionsSql :: "gate_db \<Rightarrow> attach_db \<Rightarrow> string \<Rightarrow> string option \<Rightarrow> string \<Rightarrow> live_join \<Rightarrow> bool" where
  "liveAttachmentConditionsSql g x human grantToken seat j \<longleftrightarrow>
     (let att = lj_att j; adm = lj_adm j; s = lj_seat j; hr = lj_harness j in
      sa_tenant att = xd_tenant x \<and> sa_seat att = seat \<and> sa_detached_at att = None \<and> sa_human att = human \<and>
      ad_status adm = Adm_live \<and> ad_agent adm = sa_agent att \<and> ad_human adm = sa_human att \<and>
      ad_harness adm = sa_harness att \<and> admissionBoundToSeatSql x adm (sa_seat att) \<and>
      (ad_scope adm = Scope_seat \<or>
       (case grantToken of
          None \<Rightarrow> False
        | Some gt \<Rightarrow> hn_credential_kind hr = Some ''oauth'' \<and> hn_grant_id hr = Some (''oauth:'' @ gt))) \<and>
      se_retired_at s = None \<and> se_member s = sa_human att \<and> se_harness s = sa_harness att \<and>
      ag_status (lj_agent j) = Agent_active \<and> attachDesignatedClause x (ag_id (lj_agent j)) human \<and>
      (case grantToken of
         None \<Rightarrow> True
       | Some gt \<Rightarrow> exists_row (\<lambda>t. mt_id t = gt \<and> mt_member t = human \<and> mt_tenant t = xd_tenant x \<and>
           mt_channel t = ''directory'' \<and> mt_agent t = None \<and> TOKEN_LIVE_PREDICATE g x (xd_now x) t) (xd_tokens x)))"

section \<open>The read of every request and the gate authority\<close>

definition findLiveAttachment :: "gate_db \<Rightarrow> attach_db \<Rightarrow> string \<Rightarrow> string option \<Rightarrow> string \<Rightarrow> live_join option" where
  "findLiveAttachment g x human grantToken seat =
     (case first_row (liveAttachmentConditionsSql g x human grantToken seat) (LIVE_ATTACHMENT_FROM_SQL g x) of
        None \<Rightarrow> None
      | Some j \<Rightarrow>
          (case first_row (seatTokenLiveSql g x j) (xd_tokens x) of
             None \<Rightarrow> None
           | Some t \<Rightarrow> if mt_id t = [] then None else Some j))"

definition attachedGateAgent :: "gate_db \<Rightarrow> attach_db \<Rightarrow> auth_context \<Rightarrow> (string \<times> string) option" where
  "attachedGateAgent g x auth =
     (case (attachedAuthority auth, seatBinding auth) of
        (Some att, Some b) \<Rightarrow>
          (case findLiveAttachment g x (sb_humanMemberId b) (Some (sb_grantTokenId b)) (sb_seatId b) of
             None \<Rightarrow> None
           | Some j \<Rightarrow>
               if sa_id (lj_att j) \<noteq> aa_attachmentId att \<or> ag_id (lj_agent j) \<noteq> aa_agentId att then None
               else if \<not> ad_gate_authority (lj_adm j) then None
               else if ad_requested_seat (lj_adm j) \<noteq> Some (se_id (lj_seat j)) then None
               else Some (ag_id (lj_agent j), sb_humanMemberId b))
      | _ \<Rightarrow> None)"

text \<open>The first conjunct of the write's guard for an attached session.\<close>

definition attached_write_chain :: "gate_db \<Rightarrow> attach_db \<Rightarrow> verdict_attribution \<Rightarrow> string \<Rightarrow> bool" where
  "attached_write_chain g x att decidedBy =
     exists_row (\<lambda>j.
       liveAttachmentConditionsSql g x (att_consentingMemberId att) (Some (va_grantTokenId att)) (va_seatId att) j \<and>
       sa_id (lj_att j) = att_attachmentId att \<and> sa_agent (lj_att j) = decidedBy \<and> ad_gate_authority (lj_adm j) \<and>
       ad_requested_seat (lj_adm j) = Some (sa_seat (lj_att j)) \<and>
       exists_row (seatTokenLiveSql g x j) (xd_tokens x)) (LIVE_ATTACHMENT_FROM_SQL g x)"

section \<open>The request's read and the write's guard\<close>

text \<open>The keys of the schema: primary keys, one live attachment per seat, one binding per agent, and no empty token id.\<close>

definition attach_keys :: "gate_db \<Rightarrow> attach_db \<Rightarrow> bool" where
  "attach_keys g x \<longleftrightarrow>
     distinct (map (\<lambda>r. (sa_tenant r, sa_seat r)) (filter (\<lambda>r. sa_detached_at r = None) (xd_attachments x))) \<and>
     distinct (map ad_id (xd_admissions x)) \<and> distinct (map se_id (xd_seats x)) \<and> distinct (map ag_id (db_agents g)) \<and>
     distinct (map (\<lambda>b. (ab_tenant b, ab_agent b)) (xd_bindings x)) \<and> distinct (map hn_id (xd_harnesses x)) \<and>
     list_all (\<lambda>t. mt_id t \<noteq> []) (xd_tokens x)"

lemma unique_row:
  assumes "distinct (map k rows)" "r \<in> set rows" "r' \<in> set rows" "k r = k r'"
  shows "r = r'"
  using assms by (auto simp: distinct_map dest: inj_onD)

lemma live_join_row:
  "j \<in> set (LIVE_ATTACHMENT_FROM_SQL g x) \<Longrightarrow>
     lj_att j \<in> set (xd_attachments x) \<and> lj_adm j \<in> set (xd_admissions x) \<and> lj_seat j \<in> set (xd_seats x) \<and>
     lj_agent j \<in> set (db_agents g) \<and> lj_bind j \<in> set (xd_bindings x) \<and> lj_harness j \<in> set (xd_harnesses x) \<and>
     ad_id (lj_adm j) = sa_admission (lj_att j) \<and> ad_tenant (lj_adm j) = sa_tenant (lj_att j) \<and>
     se_id (lj_seat j) = sa_seat (lj_att j) \<and> se_tenant (lj_seat j) = sa_tenant (lj_att j) \<and>
     ag_id (lj_agent j) = sa_agent (lj_att j) \<and>
     ab_tenant (lj_bind j) = sa_tenant (lj_att j) \<and> ab_agent (lj_bind j) = ag_id (lj_agent j) \<and>
     (ab_member (lj_bind j), Some (sa_tenant (lj_att j))) \<in> set (xd_member_tenants x) \<and>
     memberStatus g (ab_member (lj_bind j)) = Some Member_active \<and>
     hn_id (lj_harness j) = sa_harness (lj_att j) \<and> hn_tenant (lj_harness j) = sa_tenant (lj_att j) \<and>
     hn_member (lj_harness j) = sa_human (lj_att j)"
  by (cases j) (auto simp: LIVE_ATTACHMENT_FROM_SQL_def)

lemma live_join_unique:
  assumes keys: "attach_keys g x"
    and j: "j \<in> set (LIVE_ATTACHMENT_FROM_SQL g x)" "liveAttachmentConditionsSql g x h gt seat j"
    and i: "i \<in> set (LIVE_ATTACHMENT_FROM_SQL g x)" "liveAttachmentConditionsSql g x h gt seat i"
  shows "i = j"
proof -
  note cond = liveAttachmentConditionsSql_def Let_def
  note rows = live_join_row [OF j(1)] live_join_row [OF i(1)]
  note key = keys [unfolded attach_keys_def]
  have "lj_att i = lj_att j"
    by (rule unique_row [where k = "\<lambda>r. (sa_tenant r, sa_seat r)" and
          rows = "filter (\<lambda>r. sa_detached_at r = None) (xd_attachments x)"])
      (use key rows j(2) i(2) in \<open>simp_all add: cond\<close>)
  moreover from this have "lj_adm i = lj_adm j" "lj_seat i = lj_seat j" "lj_agent i = lj_agent j" "lj_harness i = lj_harness j"
    using key rows by (metis unique_row)+
  moreover from calculation have "lj_bind i = lj_bind j"
    by (intro unique_row [where k = "\<lambda>b. (ab_tenant b, ab_agent b)" and rows = "xd_bindings x"]) (use key rows in simp_all)
  ultimately show ?thesis by (cases i; cases j) simp
qed

text \<open>A request that may act at a gate passes the write's chain, whatever the keys.\<close>

lemma attached_precheck_implies_write:
  assumes "attachedGateAgent g x auth = Some (a, h)" "attachedAuthority auth = Some att" "verdictAttribution auth = Some v"
  shows "attached_write_chain g x v a" "aa_agentId att = a"
proof -
  obtain b where b: "seatBinding auth = Some b"
    "att_consentingMemberId v = sb_humanMemberId b" "va_grantTokenId v = sb_grantTokenId b"
    "va_seatId v = sb_seatId b" "att_attachmentId v = aa_attachmentId att"
    using assms(2,3) by (auto simp: attachedAuthority_def verdictAttribution_def split: option.splits)
  obtain j where j: "findLiveAttachment g x (sb_humanMemberId b) (Some (sb_grantTokenId b)) (sb_seatId b) = Some j"
    "sa_id (lj_att j) = aa_attachmentId att" "ag_id (lj_agent j) = aa_agentId att" "ad_gate_authority (lj_adm j)"
    "ad_requested_seat (lj_adm j) = Some (se_id (lj_seat j))" "a = ag_id (lj_agent j)"
    using assms(1,2) b(1) by (auto simp: attachedGateAgent_def split: option.splits if_splits)
  then obtain t where t: "first_row (liveAttachmentConditionsSql g x (sb_humanMemberId b) (Some (sb_grantTokenId b)) (sb_seatId b))
      (LIVE_ATTACHMENT_FROM_SQL g x) = Some j" "first_row (seatTokenLiveSql g x j) (xd_tokens x) = Some t"
    by (auto simp: findLiveAttachment_def split: option.splits if_splits)
  show "aa_agentId att = a" using j by simp
  show "attached_write_chain g x v a"
    using first_row_Some [OF t(1)] first_row_Some [OF t(2)] live_join_row [of j g x] j b
    unfolding attached_write_chain_def exists_row_iff by (intro bexI [of _ j]) auto
qed

text \<open>For an attached session the pre-check and the guard inside the verdict's write cannot diverge: under the keys of
  the schema the request's read lets the session act at a gate as its agent exactly when the write's own chain of
  attachment, admission, seat and tokens holds for that agent and the human behind it.\<close>
theorem attached_precheck_equals_write:
  assumes "attach_keys g x" and "attachedAuthority auth = Some a" and "verdictAttribution auth = Some v"
  shows "attachedGateAgent g x auth = Some (aa_agentId a, aa_humanMemberId a) \<longleftrightarrow>
         attached_write_chain g x v (aa_agentId a)"
    (is "?pre \<longleftrightarrow> ?write")
proof -
  obtain b where b: "seatBinding auth = Some b"
    and a: "aa_humanMemberId a = sb_humanMemberId b"
    and v: "att_consentingMemberId v = sb_humanMemberId b" "va_grantTokenId v = sb_grantTokenId b"
           "va_seatId v = sb_seatId b" "att_attachmentId v = aa_attachmentId a"
    using assms(2,3) by (auto simp: attachedAuthority_def verdictAttribution_def split: option.splits)
  define ok where "ok = liveAttachmentConditionsSql g x (sb_humanMemberId b) (Some (sb_grantTokenId b)) (sb_seatId b)"
  define J where "J = LIVE_ATTACHMENT_FROM_SQL g x"
  have seat: "se_id (lj_seat j) = sa_seat (lj_att j)" "ag_id (lj_agent j) = sa_agent (lj_att j)" if "j \<in> set J" for j
    using live_join_row that unfolding J_def by blast+
  have live: "findLiveAttachment g x (sb_humanMemberId b) (Some (sb_grantTokenId b)) (sb_seatId b) = Some j \<longleftrightarrow>
      j \<in> set J \<and> ok j \<and> (\<exists>t \<in> set (xd_tokens x). seatTokenLiveSql g x j t)" for j
  proof -
    have tok: "(case first_row (seatTokenLiveSql g x i) (xd_tokens x) of None \<Rightarrow> None
        | Some t \<Rightarrow> if mt_id t = [] then None else Some i) =
        (if \<exists>t \<in> set (xd_tokens x). seatTokenLiveSql g x i t then Some i else None)" for i
      using assms(1) first_row_Some [of "seatTokenLiveSql g x i" "xd_tokens x"]
      by (auto simp: attach_keys_def list_all_iff first_row_None split: option.splits)
    have "first_row ok J = Some j \<longleftrightarrow> j \<in> set J \<and> ok j"
      using live_join_unique [OF assms(1), of j] first_row_Some [of ok J] first_row_None [of ok J]
      by (cases "first_row ok J") (auto simp: ok_def J_def)
    then show ?thesis
      by (auto simp: findLiveAttachment_def ok_def [symmetric] J_def [symmetric] tok split: option.splits if_splits)
  qed
  have "?pre \<longleftrightarrow> (\<exists>j. findLiveAttachment g x (sb_humanMemberId b) (Some (sb_grantTokenId b)) (sb_seatId b) = Some j \<and>
      sa_id (lj_att j) = aa_attachmentId a \<and> ag_id (lj_agent j) = aa_agentId a \<and> ad_gate_authority (lj_adm j) \<and>
      ad_requested_seat (lj_adm j) = Some (se_id (lj_seat j)))"
    using b assms(2) by (auto simp: attachedGateAgent_def a split: option.splits)
  also have "\<dots> \<longleftrightarrow> ?write"
    unfolding live attached_write_chain_def v ok_def [symmetric] J_def [symmetric] exists_row_iff using seat by auto
  finally show ?thesis .
qed

text \<open>A sample: the human \<open>m\<close>, approved for one seat, acts through it as the agent \<open>b\<close>.\<close>

definition sample_attach_gates :: gate_db where
  "sample_attach_gates = sample_gates\<lparr>db_members := [(''m'', Member_active), (''w'', Member_active)]\<rparr>"

definition sample_attach :: attach_db where
  "sample_attach =
     \<lparr>xd_tenant = ''t'', xd_SEAT_ATTACH = Some ''1'', xd_SEAT_AUTO_ENROLL = Some ''1'', xd_SEAT_ATTACH_DESIGNATED = Some ''1'',
      xd_attachments = [\<lparr>sa_id = ''att'', sa_tenant = ''t'', sa_seat = ''seat'', sa_human = ''m'', sa_harness = ''h'',
         sa_agent = ''b'', sa_admission = ''adm'', sa_token = ''tok'', sa_detached_at = None\<rparr>],
      xd_admissions = [\<lparr>ad_id = ''adm'', ad_tenant = ''t'', ad_agent = ''b'', ad_human = ''m'', ad_harness = ''h'',
         ad_status = Adm_live, ad_scope = Scope_seat, ad_requested_seat = Some ''seat'', ad_gate_authority = True\<rparr>],
      xd_seats = [\<lparr>se_id = ''seat'', se_tenant = ''t'', se_member = ''m'', se_harness = ''h'', se_agent = ''own'', se_retired_at = None\<rparr>],
      xd_bindings = [\<lparr>ab_tenant = ''t'', ab_agent = ''b'', ab_member = ''w''\<rparr>],
      xd_member_tenants = [(''m'', Some ''t''), (''w'', Some ''t'')],
      xd_harnesses = [\<lparr>hn_id = ''h'', hn_tenant = ''t'', hn_member = ''m'', hn_credential_kind = Some ''oauth'', hn_grant_id = None\<rparr>],
      xd_tokens = [\<lparr>mt_id = ''tok'', mt_tenant = ''t'', mt_member = ''w'', mt_agent = Some ''b'', mt_channel = ''directory'',
         mt_revoked_at = None, mt_expires_at = Some ''late''\<rparr>,
        \<lparr>mt_id = ''grant'', mt_tenant = ''t'', mt_member = ''m'', mt_agent = None, mt_channel = ''directory'',
         mt_revoked_at = None, mt_expires_at = None\<rparr>],
      xd_designated = [(''b'', ''m'')], xd_now = ''now'', xd_clock = ''now'',
      xd_julianday = (\<lambda>s. if s = ''late'' then Some 2 else Some 1)\<rparr>"

definition sample_attached_auth :: auth_context where
  "sample_attached_auth =
     \<lparr>userId = ''u'', auth_role = Role_member, memberId = Some ''w'', capabilities = None, latentCapabilities = None,
      boundAgentId = Some ''b'', webSessionIdHash = None, webSessionMemberId = None,
      seatBinding = Some \<lparr>sb_seatId = ''seat'', sb_grantTokenId = ''grant'', sb_humanMemberId = ''m'',
        sb_attached = Some \<lparr>at_attachmentId = ''att'', at_admissionId = ''adm'', at_agentId = ''b'', at_seatAgentId = ''own'',
          at_ceiling = Ceil_member\<rparr>\<rparr>\<rparr>"

lemma attached_precheck_equals_write_witness:
  "attach_keys sample_attach_gates sample_attach \<and>
   attachedGateAgent sample_attach_gates sample_attach sample_attached_auth = Some (''b'', ''m'') \<and>
   attached_write_chain sample_attach_gates sample_attach (the (verdictAttribution sample_attached_auth)) ''b''"
proof -
  have k: "attach_keys sample_attach_gates sample_attach" by code_simp
  have pre: "attachedGateAgent sample_attach_gates sample_attach sample_attached_auth = Some (''b'', ''m'')" by code_simp
  define a where "a = the (attachedAuthority sample_attached_auth)"
  have a: "attachedAuthority sample_attached_auth = Some a" "aa_agentId a = ''b''" "aa_humanMemberId a = ''m''"
    by (simp_all add: a_def attachedAuthority_def sample_attached_auth_def)
  have v: "verdictAttribution sample_attached_auth = Some (the (verdictAttribution sample_attached_auth))"
    by (simp add: verdictAttribution_def attachedAuthority_def sample_attached_auth_def)
  show ?thesis using attached_precheck_equals_write [OF k a(1) v] pre k a by simp
qed

end
