(* ===== verification/Verdict_Independence.thy ===== *)
theory Verdict_Independence
  imports Task_Patch Attach_Live "HOL-Library.AList"
begin

text \<open>
  Nobody gives a verdict on their own task (\<^verbatim>\<open>src/tasks/verdict-independence.ts\<close>): the parties to a
  task's work, the two kinds of conflict of a decider with them, the owner's own authority with its
  two review lenses, in the form the write embeds in its \<open>WHERE\<close>, in the form the pre-checks call,
  and in the batched form of the listings.

  \<open>verdict_db\<close> holds the tables the verdict path reads and writes. The owner of an
  agent and the member of its key are lists of pairs of an agent and a member; bindings, seats,
  attachments and admissions are the tables of \<open>Attach_Live\<close>. \<open>vd_datetime\<close> is SQLite's \<open>datetime\<close>
  as seconds, \<open>None\<close> where it is NULL.
\<close>

section \<open>Tables\<close>

record gated_task = task +
  gt_review_entered_at :: "string option"
  gt_expired_count :: nat

record submission_row =
  sr_id :: string
  sr_tenant :: string
  sr_task_id :: string
  sr_agent :: string
  sr_text :: "string option"
  sr_digest :: string
  sr_seq :: int
  sr_created_at :: string
  sr_consenting :: "string option"

datatype runtime_stage = Runtime_consumed | Runtime_completed | Runtime_failed | Reset_terminated

record runtime_row =
  rt_task_id :: string
  rt_agent :: string
  rt_member :: string
  rt_stage :: runtime_stage
  rt_consenting :: "string option"

datatype lens_outcome = Lens_pass | Lens_fail

record lens_row =
  ln_rowid :: int
  ln_task_id :: string
  ln_submission_id :: string
  ln_result_digest :: string
  ln_gate_owner :: string
  ln_lens :: string
  ln_reviewer_kind :: gate_principal_type
  ln_reviewer_id :: string
  ln_outcome :: lens_outcome

datatype independence_waiver = Admin_supervisory | Owner_override | Owner_self

record verdict_row = task_verdict +
  tv_note :: "string option"
  tv_attested_origin :: bool
  tv_origin_agent_id :: "string option"
  tv_proposal_id :: "string option"
  tv_attachment_id :: "string option"
  tv_consenting_member_id :: "string option"
  tv_submission_id :: "string option"
  tv_result_digest :: "string option"
  tv_receipt_actor :: "gate_principal_type option"
  tv_waiver :: "independence_waiver option"

record routine_action =
  ra_id :: string
  ra_source_is_task :: bool
  ra_source_id :: string
  ra_waiting_pending :: bool
  ra_kind :: string
  ra_updated_at :: string

record verdict_db =
  vd_tasks :: "gated_task list"
  vd_archived :: "string list"
  vd_submissions :: "submission_row list"
  vd_runtime :: "runtime_row list"
  vd_verdicts :: "verdict_row list"
  vd_gates :: gate_db
  vd_attach :: attach_db
  vd_owners :: "(string \<times> string) list"
  vd_keys :: "(string \<times> string) list"
  vd_lenses :: "lens_row list"
  vd_actions :: "routine_action list"
  vd_project_access :: "(string \<times> string \<times> access_level) list"
  vd_chain_tasks :: "string list"
  vd_datetime :: "string \<Rightarrow> int option"

abbreviation vd_tenant :: "verdict_db \<Rightarrow> string" where
  "vd_tenant db \<equiv> xd_tenant (vd_attach db)"

section \<open>Who is linked to an agent\<close>

text \<open>The columns of the agent and of the member in the tables that relate them.\<close>

definition bound_to :: "verdict_db \<Rightarrow> string \<Rightarrow> string \<Rightarrow> bool" where
  "bound_to db a m = exists_row (\<lambda>b. ab_agent b = a \<and> ab_member b = m) (xd_bindings (vd_attach db))"

definition seat_of :: "verdict_db \<Rightarrow> string \<Rightarrow> string \<Rightarrow> bool" where
  "seat_of db a m = exists_row (\<lambda>s. se_agent s = a \<and> se_member s = m) (xd_seats (vd_attach db))"

definition agent_exists :: "verdict_db \<Rightarrow> string \<Rightarrow> bool" where
  "agent_exists db a = exists_row (\<lambda>r. ag_id r = a) (db_agents (vd_gates db))"

definition owns_agent :: "verdict_db \<Rightarrow> string \<Rightarrow> string \<Rightarrow> bool" where
  "owns_agent db m a \<longleftrightarrow> agent_exists db a \<and> (a, m) \<in> set (vd_owners db)"

definition memberAffiliatedWithAssigneeSql :: "verdict_db \<Rightarrow> string \<Rightarrow> string \<Rightarrow> bool" where
  "memberAffiliatedWithAssigneeSql db m a \<longleftrightarrow>
     agent_exists db a \<and>
     ((a, m) \<in> set (vd_owners db) \<or> bound_to db a m \<or> (a, m) \<in> set (vd_keys db) \<or>
      exists_row (\<lambda>t. sa_agent t = a \<and> sa_human t = m) (xd_attachments (vd_attach db)) \<or>
      exists_row (\<lambda>t. ad_agent t = a \<and> ad_human t = m \<and> (ad_status t = Adm_live \<or> ad_status t = Adm_revoked)) (xd_admissions (vd_attach db)) \<or>
      seat_of db a m)"

definition isMemberAffiliatedWithAssigneeAgent :: "verdict_db \<Rightarrow> string \<Rightarrow> string \<Rightarrow> bool" where
  "isMemberAffiliatedWithAssigneeAgent db m a = memberAffiliatedWithAssigneeSql db m a"

definition agentLinkedToMemberSql :: "verdict_db \<Rightarrow> string \<Rightarrow> string \<Rightarrow> bool" where
  "agentLinkedToMemberSql db a m \<longleftrightarrow>
     owns_agent db m a \<or> bound_to db a m \<or> (a, m) \<in> set (vd_keys db) \<or> seat_of db a m"

section \<open>Parties and conflicts\<close>

definition RAN_STAGES :: "runtime_row \<Rightarrow> bool" where
  "RAN_STAGES r \<longleftrightarrow> rt_stage r \<in> {Runtime_consumed, Runtime_completed, Runtime_failed}"

text \<open>The three sources of party agents, each as the agents it yields for a task.\<close>

definition partyAgentSources :: "verdict_db \<Rightarrow> string \<Rightarrow> string list list" where
  "partyAgentSources db t =
     [List.map_filter t_assignee_agent_id (filter (\<lambda>r. t_id r = t) (vd_tasks db)),
      map sr_agent (filter (\<lambda>s. sr_task_id s = t) (vd_submissions db)),
      map rt_agent (filter (\<lambda>r. rt_task_id r = t \<and> RAN_STAGES r) (vd_runtime db))]"

definition compilePartyAgentOwnershipSql :: "verdict_db \<Rightarrow> string \<Rightarrow> string \<Rightarrow> bool" where
  "compilePartyAgentOwnershipSql db d t = list_ex (\<lambda>src. list_ex (\<lambda>a. owns_agent db d a) src) (partyAgentSources db t)"

definition ownsTaskPartyAgent :: "verdict_db \<Rightarrow> string \<Rightarrow> string \<Rightarrow> bool" where
  "ownsTaskPartyAgent db d t = compilePartyAgentOwnershipSql db d t"

definition directConflictSqlRaw :: "verdict_db \<Rightarrow> string \<Rightarrow> string \<Rightarrow> bool" where
  "directConflictSqlRaw db d t \<longleftrightarrow>
     exists_row (\<lambda>r. t_id r = t \<and> (t_assignee_agent_id r = Some d \<or> t_assignee_member_id r = Some d)) (vd_tasks db) \<or>
     exists_row (\<lambda>s. sr_task_id s = t \<and> sr_agent s = d) (vd_submissions db) \<or>
     exists_row (\<lambda>s. sr_task_id s = t \<and> sr_consenting s = Some d) (vd_submissions db) \<or>
     exists_row (\<lambda>s. sr_task_id s = t \<and>
       (case sr_consenting s of None \<Rightarrow> False | Some m \<Rightarrow> agentLinkedToMemberSql db d m)) (vd_submissions db) \<or>
     exists_row (\<lambda>r. rt_task_id r = t \<and> RAN_STAGES r \<and> (rt_agent r = d \<or> rt_member r = d)) (vd_runtime db) \<or>
     exists_row (\<lambda>r. rt_task_id r = t \<and> RAN_STAGES r \<and> rt_consenting r = Some d) (vd_runtime db) \<or>
     exists_row (\<lambda>r. rt_task_id r = t \<and> RAN_STAGES r \<and>
       (case rt_consenting r of None \<Rightarrow> False | Some m \<Rightarrow> agentLinkedToMemberSql db d m)) (vd_runtime db)"

definition affiliatedConflictSqlRaw :: "verdict_db \<Rightarrow> string \<Rightarrow> string \<Rightarrow> bool" where
  "affiliatedConflictSqlRaw db d t \<longleftrightarrow>
     list_ex (\<lambda>src. list_ex (\<lambda>a. memberAffiliatedWithAssigneeSql db d a) src) (partyAgentSources db t) \<or>
     exists_row (\<lambda>r. t_id r = t \<and>
       (case t_assignee_member_id r of
          None \<Rightarrow> False
        | Some m \<Rightarrow> owns_agent db m d \<or> bound_to db d m \<or> seat_of db d m)) (vd_tasks db)"

datatype conflict_kind = Conflict_direct | Conflict_affiliated

definition compileVerdictIndependenceSql :: "verdict_db \<Rightarrow> conflict_kind list \<Rightarrow> string \<Rightarrow> string \<Rightarrow> bool" where
  "compileVerdictIndependenceSql db kinds d t =
     list_ex (\<lambda>k. case k of Conflict_direct \<Rightarrow> directConflictSqlRaw db d t
                          | Conflict_affiliated \<Rightarrow> affiliatedConflictSqlRaw db d t) kinds"

definition findVerdictIndependenceConflict :: "verdict_db \<Rightarrow> string \<Rightarrow> string \<Rightarrow> conflict_kind option" where
  "findVerdictIndependenceConflict db d t =
     (if compileVerdictIndependenceSql db [Conflict_direct] d t then Some Conflict_direct
      else if compileVerdictIndependenceSql db [Conflict_affiliated] d t then Some Conflict_affiliated
      else None)"

text \<open>The placeholders the two fragments bind when the task is a column: one per \<open>@D\<close>.\<close>

definition direct_params :: nat where
  "direct_params = 15"

definition affiliated_params :: nat where
  "affiliated_params = 21"

text \<open>The result of the batched read: a dictionary with an entry per task id.\<close>

definition conflicts_chunk ::
  "verdict_db \<Rightarrow> string \<Rightarrow> (string \<times> conflict_kind option) list \<Rightarrow> string list \<Rightarrow> (string \<times> conflict_kind option) list" where
  "conflicts_chunk db d out chunk =
     (let rows = filter (\<lambda>r. t_id r \<in> set chunk) (vd_tasks db);
          out1 = foldl (\<lambda>m r. AList.update (t_id r)
            (if compileVerdictIndependenceSql db [Conflict_direct] d (t_id r) then Some Conflict_direct
             else if compileVerdictIndependenceSql db [Conflict_affiliated] d (t_id r) then Some Conflict_affiliated
             else None) m) out rows
      in foldl (\<lambda>m i. if map_of m i = None then AList.update i None m else m) out1 chunk)"

definition findVerdictIndependenceConflicts ::
  "verdict_db \<Rightarrow> string \<Rightarrow> string list \<Rightarrow> range_error + (string \<times> conflict_kind option) list" where
  "findVerdictIndependenceConflicts db d ids =
     and_then (chunkForD1InList (unique ids) None (direct_params + affiliated_params))
       (\<lambda>chunks. Inr (foldl (conflicts_chunk db d) [] chunks))"

section \<open>The owner's own authority\<close>

definition member_active :: "verdict_db \<Rightarrow> string \<Rightarrow> bool" where
  "member_active db m = exists_row (\<lambda>(i, st). i = m \<and> st = Member_active) (db_members (vd_gates db))"

definition ownerSelfSqlRaw :: "verdict_db \<Rightarrow> string \<Rightarrow> string \<Rightarrow> bool" where
  "ownerSelfSqlRaw db d t \<longleftrightarrow>
     member_active db d \<and>
     list_all (\<lambda>src. \<not> list_ex (\<lambda>a. memberAffiliatedWithAssigneeSql db d a \<and>
       \<not> (owns_agent db d a \<and> \<not> bound_to db a d)) src) (partyAgentSources db t)"

record submission_binding =
  bi_submissionId :: string
  bi_resultDigest :: string

definition latest_lens :: "verdict_db \<Rightarrow> lens_row \<Rightarrow> bool" where
  "latest_lens db l \<longleftrightarrow>
     \<not> exists_row (\<lambda>l2. ln_task_id l2 = ln_task_id l \<and> ln_submission_id l2 = ln_submission_id l \<and>
       ln_reviewer_id l2 = ln_reviewer_id l \<and> lower (ln_lens l2) = lower (ln_lens l) \<and> ln_rowid l2 > ln_rowid l) (vd_lenses db)"

definition eligible_reviewer :: "verdict_db \<Rightarrow> string \<Rightarrow> string \<Rightarrow> string \<Rightarrow> lens_row \<Rightarrow> bool" where
  "eligible_reviewer db d t gate l \<longleftrightarrow>
     ln_reviewer_id l \<noteq> d \<and>
     \<not> compileVerdictIndependenceSql db [Conflict_direct, Conflict_affiliated] (ln_reviewer_id l) t \<and>
     (case ln_reviewer_kind l of
        P_agent \<Rightarrow> exists_row (\<lambda>a. ag_id a = ln_reviewer_id l \<and> ag_status a = Agent_active) (db_agents (vd_gates db)) \<and>
          \<not> agentLinkedToMemberSql db (ln_reviewer_id l) d
      | P_member \<Rightarrow> member_active db (ln_reviewer_id l)) \<and>
     exists_row (\<lambda>g. gg_capability g = gate \<and> gg_principal_type g = ln_reviewer_kind l \<and>
       gg_principal_id g = ln_reviewer_id l) (gate_grants (vd_gates db))"

definition counted_lenses :: "verdict_db \<Rightarrow> string \<Rightarrow> string \<Rightarrow> string option \<Rightarrow> submission_binding \<Rightarrow> lens_row list" where
  "counted_lenses db d t gate sub =
     filter (\<lambda>l. ln_task_id l = t \<and> ln_submission_id l = bi_submissionId sub \<and> ln_result_digest l = bi_resultDigest sub \<and>
       Some (ln_gate_owner l) = gate \<and> latest_lens db l \<and> eligible_reviewer db d t (ln_gate_owner l) l) (vd_lenses db)"

definition ownerSelfLensesSqlRaw :: "verdict_db \<Rightarrow> string \<Rightarrow> string \<Rightarrow> string option \<Rightarrow> submission_binding \<Rightarrow> bool" where
  "ownerSelfLensesSqlRaw db d t gate sub \<longleftrightarrow>
     (let passes = filter (\<lambda>l. ln_outcome l = Lens_pass) (counted_lenses db d t gate sub) in
      length (unique (map ln_reviewer_id passes)) \<ge> 2 \<and>
      length (unique (map (\<lambda>l. lower (ln_lens l)) passes)) \<ge> 2 \<and>
      \<not> list_ex (\<lambda>l. ln_outcome l = Lens_fail) (counted_lenses db d t gate sub))"

definition holdsOwnerSelfVerdictAuthority :: "verdict_db \<Rightarrow> string \<Rightarrow> string \<Rightarrow> submission_binding option \<Rightarrow> bool" where
  "holdsOwnerSelfVerdictAuthority db d t sub =
     (case sub of
        None \<Rightarrow> False
      | Some s \<Rightarrow>
          (case first_row (\<lambda>r. t_id r = t) (vd_tasks db) of
             None \<Rightarrow> False
           | Some r \<Rightarrow> ownerSelfSqlRaw db d (t_id r) \<and> ownerSelfLensesSqlRaw db d (t_id r) (t_gate_owner r) s))"

section \<open>The batched read\<close>

lemma map_of_update_fold:
  "map_of (foldl (\<lambda>m r. AList.update (k r) (g (k r)) m) out rows) i =
   (if i \<in> k ` set rows then Some (g i) else map_of out i)"
  by (induction rows arbitrary: out) (auto simp: AList.update_conv')

lemma map_of_default_fold:
  "map_of (foldl (\<lambda>m i. if map_of m i = None then AList.update i z m else m) out keys) i =
   (if map_of out i = None \<and> i \<in> set keys then Some z else map_of out i)"
  by (induction keys arbitrary: out) (auto simp: AList.update_conv')

lemma conflicts_chunk_lookup:
  "map_of (conflicts_chunk db d out chunk) i =
   (if i \<in> set chunk \<and> i \<in> t_id ` set (vd_tasks db) then Some (findVerdictIndependenceConflict db d i)
    else if i \<in> set chunk \<and> map_of out i = None then Some None
    else map_of out i)"
proof -
  have eq: "conflicts_chunk db d out chunk =
    foldl (\<lambda>m i. if map_of m i = None then AList.update i None m else m)
      (foldl (\<lambda>m r. AList.update (t_id r) (findVerdictIndependenceConflict db d (t_id r)) m) out
        (filter (\<lambda>r. t_id r \<in> set chunk) (vd_tasks db))) chunk"
    by (simp add: conflicts_chunk_def findVerdictIndependenceConflict_def)
  show ?thesis
    unfolding eq map_of_default_fold map_of_update_fold [where g = "findVerdictIndependenceConflict db d"] by auto
qed

lemma conflicts_fold_lookup:
  "distinct (concat cs) \<Longrightarrow>
   map_of (foldl (conflicts_chunk db d) out cs) i =
   (if i \<in> set (concat cs) \<and> i \<in> t_id ` set (vd_tasks db) then Some (findVerdictIndependenceConflict db d i)
    else if i \<in> set (concat cs) \<and> map_of out i = None then Some None
    else map_of out i)"
  by (induction cs arbitrary: out) (auto simp: conflicts_chunk_lookup)

text \<open>The batched read of conflicts never fails, has an entry for exactly the tasks asked for, whatever their
  order, number and repetitions, and the entry of a task that exists is the answer of the single read, while a task
  that does not exist is reported without conflict.\<close>
theorem batch_conflicts_equal_single:
  "\<exists>m. findVerdictIndependenceConflicts db d ids = Inr m \<and>
     map_of m = (\<lambda>i. if i \<notin> set ids then None
                     else if i \<in> t_id ` set (vd_tasks db) then Some (findVerdictIndependenceConflict db d i)
                     else Some None)"
proof -
  obtain cs where cs: "chunkForD1InList (unique ids) None (direct_params + affiliated_params) = Inr cs"
    by (simp add: chunkForD1InList_def direct_params_def affiliated_params_def)
  then have "concat cs = unique ids"
    by (rule chunkForD1InList_Inr)
  then have "map_of (foldl (conflicts_chunk db d) [] cs) =
    (\<lambda>i. if i \<notin> set ids then None
         else if i \<in> t_id ` set (vd_tasks db) then Some (findVerdictIndependenceConflict db d i) else Some None)"
    by (auto simp: conflicts_fold_lookup fun_eq_iff)
  with cs show ?thesis
    by (simp add: findVerdictIndependenceConflicts_def)
qed

end
