(* ===== verification/Verdict_Write.thy ===== *)
theory Verdict_Write
  imports Verdict_Independence
begin

text \<open>
  Giving a verdict: the submission a verdict binds to (\<^verbatim>\<open>src/tasks/verdict-binding.ts\<close>), the batch of
  the two guarded statements and the write around it (\<^verbatim>\<open>src/tasks/service.ts\<close>), the shared
  pre-check of authority and the route \<open>POST /:id/verdict\<close> (\<^verbatim>\<open>src/tasks/index.ts\<close>), and the predicate
  of a live ask (\<^verbatim>\<open>src/gates/approval-expiry-rule.ts\<close>).

  \<open>writeVerdict\<close> takes three snapshots of the tables: those its checks read, those its batch
  runs on, and those its diagnosis reads. The batch is one transaction. \<open>stamp\<close> is the claim
  timestamp of the call (\<^verbatim>\<open>src/lib/claim-timestamp.ts\<close>) and \<open>now\<close> the database's clock in seconds. The bus
  event, the workflow nudge and the receipt chain after a written verdict change none of these
  tables and are left out; the per-request cache of the pre-check only saves reads.
\<close>

section \<open>A live ask\<close>

definition gate_verdict_days :: int where
  "gate_verdict_days = 14"

definition GATE_ASK_LIVE_PREDICATE :: "verdict_db \<Rightarrow> int \<Rightarrow> gated_task \<Rightarrow> bool" where
  "GATE_ASK_LIVE_PREDICATE db now r \<longleftrightarrow>
     t_gate_owner r = None \<or> t_gate_owner r = Some [] \<or>
     (case vd_datetime db (case gt_review_entered_at r of Some e \<Rightarrow> e | None \<Rightarrow> t_updated_at r) of
        None \<Rightarrow> False
      | Some s \<Rightarrow> s + gate_verdict_days * 86400 > now)"

definition archived :: "verdict_db \<Rightarrow> string \<Rightarrow> bool" where
  "archived db i \<longleftrightarrow> i \<in> set (vd_archived db)"

definition isGateAskExpired :: "verdict_db \<Rightarrow> int \<Rightarrow> string \<Rightarrow> bool" where
  "isGateAskExpired db now i =
     exists_row (\<lambda>r. t_id r = i \<and> t_status r = Review \<and> \<not> GATE_ASK_LIVE_PREDICATE db now r) (vd_tasks db)"

section \<open>The submission a verdict binds to\<close>

definition currentSubmissionConditionsSql :: "verdict_db \<Rightarrow> gated_task \<Rightarrow> submission_row \<Rightarrow> bool" where
  "currentSubmissionConditionsSql db r s \<longleftrightarrow>
     sr_tenant s = vd_tenant db \<and> sr_task_id s = t_id r \<and> sr_text s \<noteq> None \<and> t_result r \<noteq> None \<and> sr_text s = t_result r \<and>
     \<not> exists_row (\<lambda>x. sr_tenant x = vd_tenant db \<and> sr_task_id x = t_id r \<and> sr_seq x > sr_seq s) (vd_submissions db) \<and>
     \<not> exists_row (\<lambda>v. tv_task_id v = t_id r \<and> tv_verdict v = V_rejected \<and> tv_reversed_at v = None \<and>
        (tv_submission_id v = Some (sr_id s) \<or>
         tv_submission_id v = None \<and> take 23 (tv_decided_at v) \<ge> take 23 (sr_created_at s))) (vd_verdicts db)"

definition current_submission :: "verdict_db \<Rightarrow> gated_task \<Rightarrow> submission_row option" where
  "current_submission db r = first_row (currentSubmissionConditionsSql db r) (vd_submissions db)"

definition resolveVerdictSubmission :: "verdict_db \<Rightarrow> string \<Rightarrow> submission_binding option" where
  "resolveVerdictSubmission db i =
     (case first_row (\<lambda>r. t_id r = i) (vd_tasks db) of
        None \<Rightarrow> None
      | Some r \<Rightarrow> map_option (\<lambda>s. \<lparr>bi_submissionId = sr_id s, bi_resultDigest = sr_digest s\<rparr>) (current_submission db r))"

definition latestSubmissionGuardSql :: "verdict_db \<Rightarrow> submission_binding option \<Rightarrow> string option \<Rightarrow> gated_task \<Rightarrow> bool" where
  "latestSubmissionGuardSql db binding taskResult r \<longleftrightarrow>
     (case current_submission db r of Some s \<Rightarrow> sr_id s | None \<Rightarrow> []) =
     (case binding of Some b \<Rightarrow> bi_submissionId b | None \<Rightarrow> []) \<and> t_result r = taskResult"

definition verdictForSubmission :: "verdict_db \<Rightarrow> string \<Rightarrow> string \<Rightarrow> verdict_row option" where
  "verdictForSubmission db i submissionId =
     (case rev (sort_key tv_decided_at (sort_key tv_id
        (filter (\<lambda>v. tv_task_id v = i \<and> tv_submission_id v = Some submissionId \<and> tv_reversed_at v = None) (vd_verdicts db)))) of
        [] \<Rightarrow> None | v # _ \<Rightarrow> Some v)"

definition currentSubmissionApproved :: "verdict_db \<Rightarrow> string \<Rightarrow> bool" where
  "currentSubmissionApproved db i =
     (case resolveVerdictSubmission db i of
        None \<Rightarrow> False
      | Some b \<Rightarrow> (case verdictForSubmission db i (bi_submissionId b) of None \<Rightarrow> False | Some v \<Rightarrow> tv_verdict v = V_approved))"

definition resolveGateVerdictScope :: "verdict_db \<Rightarrow> string \<Rightarrow> bool" where
  "resolveGateVerdictScope db i \<longleftrightarrow> i \<in> set (vd_chain_tasks db)"

section \<open>Errors and inputs\<close>

datatype verdict_error =
    Dedicated_gate_predicate_required
  | Task_archived_error
  | Task_evidence_fence
  | Non_human_verdict_refused
  | Verdict_submission_required
  | Verdict_submission_mismatch
  | Approval_expired_error
  | Verdict_independence conflict_kind
  | Verdict_race

record verdict_input =
  vi_task :: gated_task
  vi_verdict :: verdict_value
  vi_note :: "string option"
  vi_decidedBy :: string
  vi_attested :: bool
  vi_originAgentId :: "string option"
  vi_proposalId :: "string option option"
  vi_expected :: "string option option"
  vi_waiver :: "independence_waiver option"
  vi_attribution :: "verdict_attribution option"

definition assertExpectedSubmission :: "submission_binding option \<Rightarrow> string option option \<Rightarrow> verdict_error option" where
  "assertExpectedSubmission binding expected =
     (case expected of
        None \<Rightarrow> None
      | Some e \<Rightarrow> if e \<noteq> map_option bi_submissionId binding then Some Verdict_submission_mismatch else None)"

definition assertAgentNamedSubmission :: "verdict_db \<Rightarrow> string \<Rightarrow> string option option \<Rightarrow> verdict_error option" where
  "assertAgentNamedSubmission db i expected =
     (if expected \<noteq> None then None
      else if resolveGateVerdictScope db i then Some Verdict_submission_required else None)"

section \<open>The write\<close>

definition GATE_LANE_SELF :: string where
  "GATE_LANE_SELF = ''gate:agent-self-completion''"

definition selfCompletionProducerSql :: "verdict_db \<Rightarrow> string \<Rightarrow> gated_task \<Rightarrow> bool" where
  "selfCompletionProducerSql db d r \<longleftrightarrow>
     t_assignee_agent_id r = Some d \<and> t_result r \<noteq> None \<and>
     exists_row (\<lambda>s. currentSubmissionConditionsSql db r s \<and> sr_agent s = d) (vd_submissions db)"

definition isCurrentSelfCompletionProducer :: "verdict_db \<Rightarrow> string \<Rightarrow> string option \<Rightarrow> string \<Rightarrow> bool" where
  "isCurrentSelfCompletionProducer db i gate d \<longleftrightarrow>
     gate = Some GATE_LANE_SELF \<and>
     exists_row (\<lambda>r. t_id r = i \<and> t_gate_owner r = Some GATE_LANE_SELF \<and> selfCompletionProducerSql db d r) (vd_tasks db)"

definition owner_self_guard :: "verdict_db \<Rightarrow> string \<Rightarrow> submission_binding option \<Rightarrow> gated_task \<Rightarrow> bool" where
  "owner_self_guard db d sub r =
     (case sub of
        None \<Rightarrow> False
      | Some s \<Rightarrow> ownerSelfSqlRaw db d (t_id r) \<and> ownerSelfLensesSqlRaw db d (t_id r) (t_gate_owner r) s)"

text \<open>The conflict the write refuses; with the owner's override there is none.\<close>

definition write_conflict ::
  "verdict_db \<Rightarrow> string \<Rightarrow> independence_waiver option \<Rightarrow> submission_binding option \<Rightarrow> gated_task \<Rightarrow> bool" where
  "write_conflict db d waiver sub r =
     (case waiver of
        None \<Rightarrow> compileVerdictIndependenceSql db [Conflict_direct, Conflict_affiliated] d (t_id r)
      | Some Owner_override \<Rightarrow> False
      | Some Owner_self \<Rightarrow> compileVerdictIndependenceSql db [Conflict_direct] d (t_id r) \<or> \<not> owner_self_guard db d sub r
      | Some Admin_supervisory \<Rightarrow>
          compileVerdictIndependenceSql db [Conflict_direct] d (t_id r) \<or> compilePartyAgentOwnershipSql db d (t_id r))"

definition independence_guard :: "verdict_db \<Rightarrow> verdict_input \<Rightarrow> submission_binding option \<Rightarrow> gated_task \<Rightarrow> bool" where
  "independence_guard db inp sub r =
     (let d = vi_decidedBy inp; lane = (t_gate_owner (vi_task inp) = Some GATE_LANE_SELF) in
      (lane \<longrightarrow> t_gate_owner r = Some GATE_LANE_SELF) \<and>
      (if vi_waiver inp = Some Owner_override then True
       else if lane then selfCompletionProducerSql db d r \<or> \<not> agent_exists db d \<and> \<not> write_conflict db d (vi_waiver inp) sub r
       else \<not> write_conflict db d (vi_waiver inp) sub r))"

definition attached_guard :: "verdict_db \<Rightarrow> verdict_input \<Rightarrow> gated_task \<Rightarrow> bool" where
  "attached_guard db inp r =
     (case vi_attribution inp of
        None \<Rightarrow> True
      | Some att \<Rightarrow>
          attached_write_chain (vd_gates db) (vd_attach db) att (vi_decidedBy inp) \<and>
          t_gate_owner r \<noteq> None \<and> t_gate_owner r = t_gate_owner (vi_task inp) \<and>
          exists_row (\<lambda>g. Some (gg_capability g) = t_gate_owner r \<and> gg_principal_type g = P_agent \<and>
            gg_principal_id g = vi_decidedBy inp) (gate_grants (vd_gates db)) \<and>
          \<not> compileVerdictIndependenceSql db [Conflict_direct, Conflict_affiliated] (att_consentingMemberId att) (t_id r))"

definition verdict_matches :: "verdict_db \<Rightarrow> int \<Rightarrow> verdict_input \<Rightarrow> submission_binding option \<Rightarrow> gated_task \<Rightarrow> bool" where
  "verdict_matches db now inp sub r \<longleftrightarrow>
     t_id r = t_id (vi_task inp) \<and> t_status r = Review \<and> \<not> archived db (t_id r) \<and> GATE_ASK_LIVE_PREDICATE db now r \<and>
     independence_guard db inp sub r \<and> attached_guard db inp r \<and>
     latestSubmissionGuardSql db sub (t_result (vi_task inp)) r"

definition verdict_status :: "verdict_value \<Rightarrow> task_status" where
  "verdict_status v = (case v of V_approved \<Rightarrow> Approved | V_rejected \<Rightarrow> Rejected)"

definition verdict_of ::
  "string \<Rightarrow> string \<Rightarrow> verdict_input \<Rightarrow> submission_binding option \<Rightarrow> gate_principal_type option \<Rightarrow> verdict_row" where
  "verdict_of vid stamp inp sub actor =
     \<lparr>tv_id = vid, tv_task_id = t_id (vi_task inp), tv_verdict = vi_verdict inp, tv_decided_by = vi_decidedBy inp,
      tv_decided_at = stamp, tv_reversed_at = None, tv_note = vi_note inp, tv_attested_origin = vi_attested inp,
      tv_origin_agent_id = vi_originAgentId inp, tv_proposal_id = Option.bind (vi_proposalId inp) id,
      tv_attachment_id = map_option att_attachmentId (vi_attribution inp),
      tv_consenting_member_id = map_option att_consentingMemberId (vi_attribution inp),
      tv_submission_id = map_option bi_submissionId sub, tv_result_digest = map_option bi_resultDigest sub,
      tv_receipt_actor = actor, tv_waiver = vi_waiver inp\<rparr>"

text \<open>The two statements in one transaction, and whether the first changed a row. \<open>extraGuard\<close> is a caller's own
  conjunct on the row.\<close>

definition buildVerdictStatements ::
  "verdict_db \<Rightarrow> int \<Rightarrow> string \<Rightarrow> string \<Rightarrow> verdict_input \<Rightarrow> submission_binding option \<Rightarrow> gate_principal_type option \<Rightarrow>
   (gated_task \<Rightarrow> bool) \<Rightarrow> verdict_db \<times> bool" where
  "buildVerdictStatements db now stamp vid inp sub actor extraGuard =
     (let hit = (\<lambda>r. verdict_matches db now inp sub r \<and> extraGuard r);
          db1 = db\<lparr>vd_tasks := map (\<lambda>r. if hit r then r\<lparr>t_status := verdict_status (vi_verdict inp), t_updated_at := stamp\<rparr> else r)
                     (vd_tasks db)\<rparr>;
          landed = exists_row (\<lambda>r. t_id r = t_id (vi_task inp) \<and> t_status r = verdict_status (vi_verdict inp) \<and>
                     t_updated_at r = stamp \<and> \<not> archived db1 (t_id r)) (vd_tasks db1);
          db2 = (if landed then db1\<lparr>vd_verdicts := vd_verdicts db1 @ [verdict_of vid stamp inp sub actor]\<rparr> else db1)
      in (db2, list_ex hit (vd_tasks db)))"

definition hasProjectWriteForSquads :: "verdict_db \<Rightarrow> string \<Rightarrow> string list \<Rightarrow> range_error + bool" where
  "hasProjectWriteForSquads db p squads =
     (let us = unique squads in
      if us = [] then Inr False
      else and_then (chunkForD1InList us None 1) (\<lambda>chunks.
        let writable = concat (map (\<lambda>c. map (\<lambda>(x, s, l). s) (filter (\<lambda>(x, s, l). x = p \<and> s \<in> set c \<and>
              (l = Access_write \<or> l = Access_admin)) (vd_project_access db))) chunks)
        in Inr (list_all (\<lambda>s. s \<in> set writable) us)))"

definition squadCanWriteProjectEvidence :: "verdict_db \<Rightarrow> string option \<Rightarrow> string \<Rightarrow> bool" where
  "squadCanWriteProjectEvidence db p squad =
     (case p of
        None \<Rightarrow> True
      | Some x \<Rightarrow> (case hasProjectWriteForSquads db x [squad] of Inl e \<Rightarrow> False | Inr b \<Rightarrow> b))"

definition assertVerdictWritable :: "verdict_db \<Rightarrow> gated_task \<Rightarrow> verdict_error option" where
  "assertVerdictWritable db task =
     (if archived db (t_id task) then Some Task_archived_error
      else if \<not> squadCanWriteProjectEvidence db (t_project_id task) (t_squad_id task) then Some Task_evidence_fence
      else None)"

definition waiting_action :: "string \<Rightarrow> routine_action \<Rightarrow> bool" where
  "waiting_action i a \<longleftrightarrow> ra_source_is_task a \<and> ra_source_id a = i \<and> ra_waiting_pending a"

definition controlTaskGatesProjectAccess :: "verdict_db \<Rightarrow> gated_task \<Rightarrow> bool" where
  "controlTaskGatesProjectAccess db task \<longleftrightarrow>
     t_gate_owner task = Some ''gate:routines'' \<and>
     exists_row (\<lambda>a. waiting_action (t_id task) a \<and> ra_kind a = ''project_access'') (vd_actions db)"

definition verdictIsHuman :: "verdict_db \<Rightarrow> string \<Rightarrow> bool \<Rightarrow> bool" where
  "verdictIsHuman db decidedBy attested \<longleftrightarrow>
     attested \<or>
     member_active db decidedBy \<and>
     exists_row (\<lambda>(i, t). i = decidedBy \<and> (t = Some (vd_tenant db) \<or> t = None)) (xd_member_tenants (vd_attach db))"

definition resolveVerdictProposalId :: "verdict_db \<Rightarrow> gated_task \<Rightarrow> string option" where
  "resolveVerdictProposalId db task =
     (if t_gate_owner task \<noteq> Some ''gate:routines'' then None
      else (case rev (sort_key ra_updated_at (sort_key ra_id (filter (waiting_action (t_id task)) (vd_actions db)))) of
              [] \<Rightarrow> None | a # _ \<Rightarrow> Some (ra_id a)))"

definition hasDedicatedGatePredicate :: "string option \<Rightarrow> bool" where
  "hasDedicatedGatePredicate gate \<longleftrightarrow> gate = Some ''gate:office''"

text \<open>\<open>actor\<close> is the acting principal a caller passes, if any.\<close>

definition gateVerdictActor :: "string \<Rightarrow> gate_principal option \<Rightarrow> gate_principal_type" where
  "gateVerdictActor decidedBy actor =
     (case actor of
        None \<Rightarrow> P_member
      | Some a \<Rightarrow> if gp_type a = P_agent \<and> gp_id a = decidedBy then P_agent else P_member)"

text \<open>Why no row matched.\<close>

definition explain_refusal :: "verdict_db \<Rightarrow> int \<Rightarrow> verdict_input \<Rightarrow> submission_binding option \<Rightarrow> verdict_error" where
  "explain_refusal db now inp sub =
     (let i = t_id (vi_task inp); d = vi_decidedBy inp; w = vi_waiver inp in
      if archived db i then Task_archived_error
      else if isGateAskExpired db now i then Approval_expired_error
      else
        (let conflict = (if w \<noteq> Some Owner_override \<and> \<not> isCurrentSelfCompletionProducer db i (t_gate_owner (vi_task inp)) d
                         then findVerdictIndependenceConflict db d i else None) in
         if conflict = Some Conflict_direct \<or>
            conflict = Some Conflict_affiliated \<and> (w \<noteq> Some Admin_supervisory \<or> ownsTaskPartyAgent db d i) \<and>
              \<not> (w = Some Owner_self \<and> holdsOwnerSelfVerdictAuthority db d i sub)
         then Verdict_independence (the conflict)
         else (case Option.bind (vi_attribution inp) (\<lambda>a. findVerdictIndependenceConflict db (att_consentingMemberId a) i) of
                 Some k \<Rightarrow> Verdict_independence k
               | None \<Rightarrow> Verdict_race)))"

definition verdict_checks :: "verdict_db \<Rightarrow> verdict_input \<Rightarrow> gate_principal_type \<Rightarrow> submission_binding option \<Rightarrow> verdict_error option" where
  "verdict_checks db inp decider sub =
     (if hasDedicatedGatePredicate (t_gate_owner (vi_task inp)) then Some Dedicated_gate_predicate_required
      else (case assertVerdictWritable db (vi_task inp) of
              Some e \<Rightarrow> Some e
            | None \<Rightarrow>
                if controlTaskGatesProjectAccess db (vi_task inp) \<and> \<not> verdictIsHuman db (vi_decidedBy inp) (vi_attested inp)
                then Some Non_human_verdict_refused
                else (case (if decider = P_agent then assertAgentNamedSubmission db (t_id (vi_task inp)) (vi_expected inp) else None) of
                        Some e \<Rightarrow> Some e
                      | None \<Rightarrow> assertExpectedSubmission sub (vi_expected inp))))"

definition writeVerdict ::
  "verdict_db \<Rightarrow> verdict_db \<Rightarrow> verdict_db \<Rightarrow> int \<Rightarrow> string \<Rightarrow> string \<Rightarrow> verdict_input \<Rightarrow> gate_principal option \<Rightarrow>
   verdict_db \<times> (verdict_error + gated_task \<times> verdict_row)" where
  "writeVerdict db_read db db_diag now stamp vid inp actor =
     (let decider = gateVerdictActor (vi_decidedBy inp) actor;
          sub = resolveVerdictSubmission db_read (t_id (vi_task inp))
      in case verdict_checks db_read inp decider sub of
           Some e \<Rightarrow> (db, Inl e)
         | None \<Rightarrow>
             (let inp1 = (if vi_proposalId inp \<noteq> None then inp
                          else inp\<lparr>vi_proposalId := Some (resolveVerdictProposalId db_read (vi_task inp))\<rparr>);
                  kind = (if resolveGateVerdictScope db_read (t_id (vi_task inp)) then Some decider else None)
              in case buildVerdictStatements db now stamp vid inp1 sub kind (\<lambda>r. True) of
                   (db', True) \<Rightarrow>
                     (db', Inr ((vi_task inp)\<lparr>t_status := verdict_status (vi_verdict inp), t_updated_at := stamp\<rparr>,
                                verdict_of vid stamp inp1 sub kind))
                 | (db', False) \<Rightarrow> (db', Inl (explain_refusal db_diag now inp sub))))"

section \<open>What a written verdict means\<close>

text \<open>The stamp of a call is its own: no row carries it before the call writes it.\<close>

definition fresh_stamp :: "verdict_db \<Rightarrow> string \<Rightarrow> bool" where
  "fresh_stamp db stamp \<longleftrightarrow> distinct (map t_id (vd_tasks db)) \<and> list_all (\<lambda>r. t_updated_at r \<noteq> stamp) (vd_tasks db)"

lemma build_no_hit:
  assumes "fresh_stamp db stamp" "\<not> list_ex (\<lambda>r. verdict_matches db now inp sub r \<and> g r) (vd_tasks db)"
  shows "buildVerdictStatements db now stamp vid inp sub actor g = (db, False)"
proof -
  have "map (\<lambda>r. if verdict_matches db now inp sub r \<and> g r then f r else r) (vd_tasks db) = vd_tasks db" for f
    using assms(2) by (intro map_idI) (auto simp: list_ex_iff)
  note rows = this
  show ?thesis
    using assms unfolding buildVerdictStatements_def Let_def rows
    by (auto simp: exists_row_iff fresh_stamp_def list_all_iff list_ex_iff)
qed

lemma build_hit:
  assumes "fresh_stamp db stamp" "r \<in> set (vd_tasks db)" "verdict_matches db now inp sub r \<and> g r"
  shows "buildVerdictStatements db now stamp vid inp sub actor g =
    (db\<lparr>vd_tasks := map (\<lambda>x. if x = r then r\<lparr>t_status := verdict_status (vi_verdict inp), t_updated_at := stamp\<rparr> else x) (vd_tasks db),
        vd_verdicts := vd_verdicts db @ [verdict_of vid stamp inp sub actor]\<rparr>, True)"
proof -
  define upd where "upd = (\<lambda>x::gated_task. x\<lparr>t_status := verdict_status (vi_verdict inp), t_updated_at := stamp\<rparr>)"
  have fold: "x\<lparr>t_status := verdict_status (vi_verdict inp), t_updated_at := stamp\<rparr> = upd x" for x
    by (simp add: upd_def)
  have same: "x = r" if "x \<in> set (vd_tasks db)" "verdict_matches db now inp sub x" for x
    using assms that unique_row [of t_id "vd_tasks db" x r] by (auto simp: fresh_stamp_def verdict_matches_def)
  have rows: "map (\<lambda>x. if verdict_matches db now inp sub x \<and> g x then upd x else x) (vd_tasks db) =
      map (\<lambda>x. if x = r then upd r else x) (vd_tasks db)"
    by (rule map_cong) (use same assms(3) in metis)+
  have landed: "exists_row (\<lambda>x. t_id x = t_id (vi_task inp) \<and> t_status x = verdict_status (vi_verdict inp) \<and>
      t_updated_at x = stamp \<and> \<not> archived (db\<lparr>vd_tasks := ts\<rparr>) (t_id x)) (map (\<lambda>x. if x = r then upd r else x) (vd_tasks db))" for ts
  proof -
    have "upd r \<in> set (map (\<lambda>x. if x = r then upd r else x) (vd_tasks db))"
      using assms(2) by force
    moreover have "t_id (upd r) = t_id (vi_task inp)" "\<not> archived (db\<lparr>vd_tasks := ts\<rparr>) (t_id (upd r))"
      using assms(3) by (auto simp: upd_def verdict_matches_def archived_def)
    ultimately show ?thesis unfolding exists_row_iff by (rule_tac bexI [of _ "upd r"]) (simp_all add: upd_def)
  qed
  show ?thesis
    using assms(2,3) unfolding buildVerdictStatements_def Let_def fold rows
    by (simp add: landed list_ex_iff) (use assms in blast)
qed

lemma verdict_matches_proposal:
  "verdict_matches db now (inp\<lparr>vi_proposalId := p\<rparr>) sub = verdict_matches db now inp sub"
  by (simp add: verdict_matches_def independence_guard_def attached_guard_def Let_def fun_eq_iff cong: option.case_cong)

lemma writeVerdict_Inr:
  assumes "fresh_stamp db stamp" and "writeVerdict dbr db dbd now stamp vid inp actor = (db', Inr (t, v))"
  obtains r inp1 sub kind where "r \<in> set (vd_tasks db)" "verdict_matches db now inp sub r"
    "sub = resolveVerdictSubmission dbr (t_id (vi_task inp))" "v = verdict_of vid stamp inp1 sub kind"
    "inp1 = inp \<or> inp1 = inp\<lparr>vi_proposalId := Some (resolveVerdictProposalId dbr (vi_task inp))\<rparr>"
    "t = (vi_task inp)\<lparr>t_status := verdict_status (vi_verdict inp), t_updated_at := stamp\<rparr>"
    "db' = db\<lparr>vd_tasks := map (\<lambda>x. if x = r then r\<lparr>t_status := verdict_status (vi_verdict inp), t_updated_at := stamp\<rparr> else x) (vd_tasks db),
        vd_verdicts := vd_verdicts db @ [v]\<rparr>"
    "verdict_checks dbr inp (gateVerdictActor (vi_decidedBy inp) actor) sub = None"
proof -
  define sub where "sub = resolveVerdictSubmission dbr (t_id (vi_task inp))"
  define inp1 where "inp1 = (if vi_proposalId inp \<noteq> None then inp
      else inp\<lparr>vi_proposalId := Some (resolveVerdictProposalId dbr (vi_task inp))\<rparr>)"
  define kind where "kind = (if resolveGateVerdictScope dbr (t_id (vi_task inp)) then Some (gateVerdictActor (vi_decidedBy inp) actor) else None)"
  have matches: "verdict_matches db now inp1 sub = verdict_matches db now inp sub"
    by (simp add: inp1_def verdict_matches_proposal)
  have vv: "vi_verdict inp1 = vi_verdict inp" by (simp add: inp1_def)
  have checks: "verdict_checks dbr inp (gateVerdictActor (vi_decidedBy inp) actor) sub = None"
    using assms(2) by (auto simp: writeVerdict_def Let_def sub_def split: option.splits)
  then have w: "(case buildVerdictStatements db now stamp vid inp1 sub kind (\<lambda>r. True) of
      (db', True) \<Rightarrow> (db', Inr ((vi_task inp)\<lparr>t_status := verdict_status (vi_verdict inp), t_updated_at := stamp\<rparr>, verdict_of vid stamp inp1 sub kind))
    | (db', False) \<Rightarrow> (db', Inl (explain_refusal dbd now inp sub))) = (db', Inr (t, v))"
    using assms(2) unfolding writeVerdict_def Let_def sub_def [symmetric] inp1_def [symmetric] kind_def [symmetric] by simp
  then have "list_ex (\<lambda>r. verdict_matches db now inp1 sub r \<and> True) (vd_tasks db)"
    using build_no_hit [OF assms(1), of now inp1 sub "\<lambda>r. True" vid kind] by (cases "list_ex (\<lambda>r. verdict_matches db now inp1 sub r \<and> True) (vd_tasks db)") auto
  then obtain r where r: "r \<in> set (vd_tasks db)" "verdict_matches db now inp1 sub r" by (auto simp: list_ex_iff)
  note hit = w [unfolded build_hit [OF assms(1) r(1), of now inp1 sub "\<lambda>r. True" vid kind, OF conjI [OF r(2) TrueI]]]
  show ?thesis
  proof (rule that [of r sub inp1 kind])
    show "verdict_matches db now inp sub r" using r matches by simp
    show "inp1 = inp \<or> inp1 = inp\<lparr>vi_proposalId := Some (resolveVerdictProposalId dbr (vi_task inp))\<rparr>"
      by (simp add: inp1_def)
  qed (use hit r checks in \<open>auto simp: sub_def vv\<close>)
qed

lemma writeVerdict_Inl:
  assumes "fresh_stamp db stamp" and "writeVerdict dbr db dbd now stamp vid inp actor = (db', Inl e)"
  shows "db' = db"
proof -
  have "d = db" if "buildVerdictStatements db now stamp vid i s k (\<lambda>r. True) = (d, False)" for d i s k
    using that build_no_hit [OF assms(1), of now i s "\<lambda>r. True" vid k]
      build_hit [OF assms(1), of _ now i s "\<lambda>r. True" vid k]
    by (cases "\<exists>r \<in> set (vd_tasks db). verdict_matches db now i s r") (auto simp: list_ex_iff)
  then show ?thesis
    using assms(2) unfolding writeVerdict_def Let_def by (auto split: option.splits prod.splits bool.splits)
qed

text \<open>C23: A verdict is written as one unit. Whatever the caller read before, a refused verdict leaves every table as
  it was, and a written one changes exactly the row it decides, which at that moment was in review, not archived and asked
  for within its window, and adds exactly one verdict of the named decider, bound to the submission that was current
  at that moment.\<close>
theorem verdict_write_atomic:
  assumes "fresh_stamp db stamp"
    and "list_all (\<lambda>s. sr_id s \<noteq> []) (vd_submissions db)" "list_all (\<lambda>s. sr_id s \<noteq> []) (vd_submissions dbr)"
    and "writeVerdict dbr db dbd now stamp vid inp actor = (db', res)"
  shows "case res of
      Inl e \<Rightarrow> db' = db
    | Inr (t, v) \<Rightarrow> \<exists>r \<in> set (vd_tasks db).
        t_id r = t_id (vi_task inp) \<and> t_status r = Review \<and> \<not> archived db (t_id r) \<and> GATE_ASK_LIVE_PREDICATE db now r \<and>
        t_result r = t_result (vi_task inp) \<and>
        tv_task_id v = t_id r \<and> tv_verdict v = vi_verdict inp \<and> tv_decided_by v = vi_decidedBy inp \<and>
        tv_submission_id v = map_option sr_id (current_submission db r) \<and>
        db' = db\<lparr>vd_tasks := map (\<lambda>x. if x = r then r\<lparr>t_status := verdict_status (vi_verdict inp), t_updated_at := stamp\<rparr> else x)
                     (vd_tasks db),
                  vd_verdicts := vd_verdicts db @ [v]\<rparr>"
proof (cases res)
  case (Inl e)
  with writeVerdict_Inl assms show ?thesis by auto
next
  case (Inr p)
  obtain t v where p: "p = (t, v)" by force
  show ?thesis
  proof (rule writeVerdict_Inr [OF assms(1), of dbr dbd now vid inp actor db' t v])
    show "writeVerdict dbr db dbd now stamp vid inp actor = (db', Inr (t, v))" using assms Inr p by simp
    fix r inp1 sub kind
    assume r: "r \<in> set (vd_tasks db)" and m: "verdict_matches db now inp sub r"
      and sub: "sub = resolveVerdictSubmission dbr (t_id (vi_task inp))" and v: "v = verdict_of vid stamp inp1 sub kind"
      and i: "inp1 = inp \<or> inp1 = inp\<lparr>vi_proposalId := Some (resolveVerdictProposalId dbr (vi_task inp))\<rparr>"
      and db': "db' = db\<lparr>vd_tasks := map (\<lambda>x. if x = r then r\<lparr>t_status := verdict_status (vi_verdict inp), t_updated_at := stamp\<rparr> else x) (vd_tasks db),
        vd_verdicts := vd_verdicts db @ [v]\<rparr>"
    have "map_option bi_submissionId sub = map_option sr_id (current_submission db r)"
    proof -
      have "bi_submissionId b \<noteq> []" if "sub = Some b" for b
        using that sub assms(3) by (auto simp: resolveVerdictSubmission_def current_submission_def list_all_iff
            dest!: first_row_Some split: option.splits)
      moreover have "sr_id s \<noteq> []" if "current_submission db r = Some s" for s
        using that assms(2) by (auto simp: current_submission_def list_all_iff dest!: first_row_Some)
      moreover have "latestSubmissionGuardSql db sub (t_result (vi_task inp)) r" using m by (simp add: verdict_matches_def)
      ultimately show ?thesis by (auto simp: latestSubmissionGuardSql_def split: option.splits)
    qed
    moreover have "tv_task_id v = t_id (vi_task inp)" "tv_verdict v = vi_verdict inp" "tv_decided_by v = vi_decidedBy inp"
        "tv_submission_id v = map_option bi_submissionId sub"
      using v i by (auto simp: verdict_of_def)
    moreover have "t_id r = t_id (vi_task inp)" "t_status r = Review" "\<not> archived db (t_id r)" "GATE_ASK_LIVE_PREDICATE db now r"
        "t_result r = t_result (vi_task inp)"
      using m by (auto simp: verdict_matches_def latestSubmissionGuardSql_def)
    ultimately show ?thesis using Inr p r db' by auto
  qed
qed

lemma conflict_kinds:
  "compileVerdictIndependenceSql db [Conflict_direct] d t \<longleftrightarrow> directConflictSqlRaw db d t"
  "compileVerdictIndependenceSql db [Conflict_direct, Conflict_affiliated] d t \<longleftrightarrow>
     directConflictSqlRaw db d t \<or> affiliatedConflictSqlRaw db d t"
  by (simp_all add: compileVerdictIndependenceSql_def)

text \<open>C22: Nobody gives a verdict on their own task. At the tables of the write, whatever changed since the caller looked, the
  decider of a written verdict is no party to the work, and acts for no party, except in the four ways the policy
  allows: the organisation owner's recorded override, the assignee closing its own current result on the self-completion
  lane, an owner with passing independent lenses, or an administrator who owns no party's agent. A verdict through an
  attached session also needs the live chain, the agent's own grant, and independence of the human behind it.\<close>
theorem verdict_write_independent:
  assumes "fresh_stamp db stamp"
    and "writeVerdict dbr db dbd now stamp vid inp actor = (db', Inr (t, v))"
    and "d = vi_decidedBy inp"
  shows "\<exists>r \<in> set (vd_tasks db). t_id r = t_id (vi_task inp) \<and>
     (vi_waiver inp = Some Owner_override \<or>
      t_gate_owner r = Some GATE_LANE_SELF \<and> t_assignee_agent_id r = Some d \<and>
        (\<exists>s \<in> set (vd_submissions db). currentSubmissionConditionsSql db r s \<and> sr_agent s = d) \<or>
      \<not> directConflictSqlRaw db d (t_id r) \<and>
      (\<not> affiliatedConflictSqlRaw db d (t_id r) \<or>
       vi_waiver inp = Some Owner_self \<and> owner_self_guard db d (resolveVerdictSubmission dbr (t_id r)) r \<or>
       vi_waiver inp = Some Admin_supervisory \<and> \<not> compilePartyAgentOwnershipSql db d (t_id r))) \<and>
     (case vi_attribution inp of
        None \<Rightarrow> True
      | Some att \<Rightarrow>
          attached_write_chain (vd_gates db) (vd_attach db) att d \<and>
          (\<exists>g \<in> set (gate_grants (vd_gates db)). Some (gg_capability g) = t_gate_owner r \<and> gg_principal_type g = P_agent \<and>
             gg_principal_id g = d) \<and>
          \<not> directConflictSqlRaw db (att_consentingMemberId att) (t_id r) \<and>
          \<not> affiliatedConflictSqlRaw db (att_consentingMemberId att) (t_id r))"
proof (rule writeVerdict_Inr [OF assms(1,2)])
  fix r sub
  assume r: "r \<in> set (vd_tasks db)" and m: "verdict_matches db now inp sub r"
    and sub: "sub = resolveVerdictSubmission dbr (t_id (vi_task inp))"
  have "t_id r = t_id (vi_task inp)" "independence_guard db inp sub r" "attached_guard db inp r"
    using m by (simp_all add: verdict_matches_def)
  then show ?thesis
    using r unfolding assms(3) sub independence_guard_def attached_guard_def
    by (intro bexI [of _ r])
      (auto simp: Let_def write_conflict_def conflict_kinds selfCompletionProducerSql_def exists_row_iff
        split: option.splits independence_waiver.splits if_splits)
qed

lemma length_unique_card: "length (unique xs) = card (set xs)"
  using distinct_card [OF distinct_unique, of xs] by simp

lemma eligible_reviewer_holds:
  assumes "eligible_reviewer db d t gate l"
  shows "hasActiveGateGrant (vd_gates db) gate (ln_reviewer_kind l) (ln_reviewer_id l)"
proof (cases "ln_reviewer_kind l")
  case P_member
  with assms show ?thesis
    unfolding eligible_reviewer_def hasActiveGateGrant_def member_active_def exists_row_iff by force
next
  case P_agent
  with assms show ?thesis
    unfolding eligible_reviewer_def hasActiveGateGrant_def exists_row_iff by (simp, metis)
qed

text \<open>An owner's verdict on the work of an agent it owns needs a review by others. Outside the self-completion lane,
  a verdict written under the owner's own waiver carries at least two passing lenses of at least two reviewers, all given
  on the very submission and text digest the verdict is bound to, by active holders of the gate who are neither the decider nor
  a party to the task nor act for one.\<close>
theorem owner_self_needs_review:
  assumes "fresh_stamp db stamp"
    and "writeVerdict dbr db dbd now stamp vid inp actor = (db', Inr (t, v))"
    and "vi_waiver inp = Some Owner_self" and "t_gate_owner (vi_task inp) \<noteq> Some GATE_LANE_SELF"
  shows "\<exists>P. P \<subseteq> set (vd_lenses db) \<and> card (ln_reviewer_id ` P) \<ge> 2 \<and> card ((\<lambda>l. lower (ln_lens l)) ` P) \<ge> 2 \<and>
     (\<forall>l \<in> P. ln_outcome l = Lens_pass \<and> ln_task_id l = t_id (vi_task inp) \<and>
        tv_submission_id v = Some (ln_submission_id l) \<and> tv_result_digest v = Some (ln_result_digest l) \<and>
        ln_reviewer_id l \<noteq> vi_decidedBy inp \<and>
        hasActiveGateGrant (vd_gates db) (ln_gate_owner l) (ln_reviewer_kind l) (ln_reviewer_id l) \<and>
        \<not> directConflictSqlRaw db (ln_reviewer_id l) (t_id (vi_task inp)) \<and>
        \<not> affiliatedConflictSqlRaw db (ln_reviewer_id l) (t_id (vi_task inp)))"
proof (rule writeVerdict_Inr [OF assms(1,2)])
  fix r inp1 sub kind
  assume m: "verdict_matches db now inp sub r" and v: "v = verdict_of vid stamp inp1 sub kind"
  have tid: "t_id r = t_id (vi_task inp)" and ind: "independence_guard db inp sub r"
    using m by (simp_all add: verdict_matches_def)
  from ind assms(3,4) obtain b where b: "sub = Some b"
      "ownerSelfLensesSqlRaw db (vi_decidedBy inp) (t_id r) (t_gate_owner r) b"
    by (auto simp: independence_guard_def Let_def write_conflict_def owner_self_guard_def split: option.splits)
  define P where "P = set (filter (\<lambda>l. ln_outcome l = Lens_pass) (counted_lenses db (vi_decidedBy inp) (t_id r) (t_gate_owner r) b))"
  have "card (ln_reviewer_id ` P) \<ge> 2" "card ((\<lambda>l. lower (ln_lens l)) ` P) \<ge> 2"
    using b(2) unfolding ownerSelfLensesSqlRaw_def Let_def length_unique_card set_map P_def by blast+
  moreover have "ln_outcome l = Lens_pass \<and> ln_task_id l = t_id (vi_task inp) \<and>
        tv_submission_id v = Some (ln_submission_id l) \<and> tv_result_digest v = Some (ln_result_digest l) \<and>
        ln_reviewer_id l \<noteq> vi_decidedBy inp \<and>
        hasActiveGateGrant (vd_gates db) (ln_gate_owner l) (ln_reviewer_kind l) (ln_reviewer_id l) \<and>
        \<not> directConflictSqlRaw db (ln_reviewer_id l) (t_id (vi_task inp)) \<and>
        \<not> affiliatedConflictSqlRaw db (ln_reviewer_id l) (t_id (vi_task inp)) \<and> l \<in> set (vd_lenses db)" if "l \<in> P" for l
    using that b(1) v eligible_reviewer_holds [of db "vi_decidedBy inp" "t_id r" "ln_gate_owner l" l]
    by (auto simp: P_def counted_lenses_def eligible_reviewer_def conflict_kinds tid verdict_of_def)
  ultimately show ?thesis by blast
qed

section \<open>A sample\<close>

text \<open>The agent \<open>a\<close>, owned by the member \<open>o\<close>, submitted the task; the agent \<open>b\<close> and the member \<open>m\<close> reviewed it.\<close>

definition sample_gated :: gated_task where
  "sample_gated = \<lparr>t_id = ''t1'', t_squad_id = ''s'', t_project_id = None, t_priority = None, t_parent_task_id = None,
     t_title = ''T'', t_body = [], t_status = Review, t_assignee_agent_id = Some ''a'', t_assignee_member_id = None,
     t_result = Some ''r'', t_completed_at = None, t_gate_owner = Some ''gate:ops'', t_done_when = ''w'', t_source_pot = None,
     t_external_source = None, t_created_at = ''c'', t_updated_at = ''u'', gt_review_entered_at = Some ''e'', gt_expired_count = 0\<rparr>"

definition ops_grant :: "string \<Rightarrow> gate_principal_type \<Rightarrow> string \<Rightarrow> gate_grant_row" where
  "ops_grant i k p = \<lparr>gg_id = i, gg_capability = ''gate:ops'', gg_principal_type = k, gg_principal_id = p,
     gg_granted_by = ''root'', gg_created_at = ''c''\<rparr>"

definition sample_lens :: "int \<Rightarrow> string \<Rightarrow> gate_principal_type \<Rightarrow> string \<Rightarrow> lens_row" where
  "sample_lens i lens k p = \<lparr>ln_rowid = i, ln_task_id = ''t1'', ln_submission_id = ''sub'', ln_result_digest = ''dg'',
     ln_gate_owner = ''gate:ops'', ln_lens = lens, ln_reviewer_kind = k, ln_reviewer_id = p, ln_outcome = Lens_pass\<rparr>"

definition sample_vdb :: verdict_db where
  "sample_vdb =
     \<lparr>vd_tasks = [sample_gated], vd_archived = [],
      vd_submissions = [\<lparr>sr_id = ''sub'', sr_tenant = ''t'', sr_task_id = ''t1'', sr_agent = ''a'', sr_text = Some ''r'',
        sr_digest = ''dg'', sr_seq = 1, sr_created_at = ''c'', sr_consenting = None\<rparr>],
      vd_runtime = [\<lparr>rt_task_id = ''t1'', rt_agent = ''a'', rt_member = ''wa'', rt_stage = Runtime_completed, rt_consenting = None\<rparr>],
      vd_verdicts = [],
      vd_gates = sample_gates\<lparr>gate_grants := [ops_grant ''1'' P_member ''o'', ops_grant ''2'' P_member ''m'', ops_grant ''3'' P_agent ''b''],
        db_members := [(''o'', Member_active), (''m'', Member_active), (''wa'', Member_active), (''w'', Member_active)]\<rparr>,
      vd_attach = sample_attach\<lparr>xd_attachments := [], xd_admissions := []\<rparr>,
      vd_owners = [(''a'', ''o'')], vd_keys = [],
      vd_lenses = [sample_lens 1 ''Code'' P_agent ''b'', sample_lens 2 ''Risk'' P_member ''m''],
      vd_actions = [], vd_project_access = [], vd_chain_tasks = [], vd_datetime = (\<lambda>s. Some 0)\<rparr>"

definition sample_verdict :: "string \<Rightarrow> independence_waiver option \<Rightarrow> verdict_input" where
  "sample_verdict d w = \<lparr>vi_task = sample_gated, vi_verdict = V_approved, vi_note = None, vi_decidedBy = d, vi_attested = False,
     vi_originAgentId = None, vi_proposalId = None, vi_expected = Some (Some ''sub''), vi_waiver = w, vi_attribution = None\<rparr>"

definition sample_write :: "string \<Rightarrow> independence_waiver option \<Rightarrow> verdict_db \<times> (verdict_error + gated_task \<times> verdict_row)" where
  "sample_write d w = writeVerdict sample_vdb sample_vdb sample_vdb 5 ''stamp'' ''v1'' (sample_verdict d w) (Some \<lparr>gp_type = P_member, gp_id = d\<rparr>)"

lemma sample_fresh:
  "fresh_stamp sample_vdb ''stamp''" "list_all (\<lambda>s. sr_id s \<noteq> []) (vd_submissions sample_vdb)"
  by code_simp+

lemma sample_writes:
  "map_sum id (\<lambda>(t, v). (t_status t, tv_submission_id v)) (snd (sample_write ''m'' None)) = Inr (Approved, Some ''sub'')"
  "map_sum id (\<lambda>(t, v). t_status t) (snd (sample_write ''o'' (Some Owner_self))) = Inr Approved"
  "snd (sample_write ''o'' None) = Inl (Verdict_independence Conflict_affiliated)"
  "snd (sample_write ''a'' (Some Admin_supervisory)) = Inl (Verdict_independence Conflict_direct)"
  "snd (sample_write ''o'' (Some Admin_supervisory)) = Inl (Verdict_independence Conflict_affiliated)"
  by code_simp+

lemma sample_written:
  obtains t v where "writeVerdict sample_vdb sample_vdb sample_vdb 5 ''stamp'' ''v1'' (sample_verdict ''m'' None)
      (Some \<lparr>gp_type = P_member, gp_id = ''m''\<rparr>) = (fst (sample_write ''m'' None), Inr (t, v))"
  using sample_writes(1) by (cases "snd (sample_write ''m'' None)") (auto simp: sample_write_def prod_eq_iff)

lemma sample_written_owner:
  obtains t v where "writeVerdict sample_vdb sample_vdb sample_vdb 5 ''stamp'' ''v1'' (sample_verdict ''o'' (Some Owner_self))
      (Some \<lparr>gp_type = P_member, gp_id = ''o''\<rparr>) = (fst (sample_write ''o'' (Some Owner_self)), Inr (t, v))"
  using sample_writes(2) by (cases "snd (sample_write ''o'' (Some Owner_self))") (auto simp: sample_write_def prod_eq_iff)

theorem verdict_write_atomic_witness:
  "fst (sample_write ''o'' None) = sample_vdb \<and>
   (\<exists>v. vd_verdicts (fst (sample_write ''m'' None)) = [v] \<and> tv_decided_by v = ''m'' \<and> tv_submission_id v = Some ''sub'')"
proof
  have "sample_write ''o'' None = (fst (sample_write ''o'' None), Inl (Verdict_independence Conflict_affiliated))"
    using sample_writes(3) by (simp add: prod_eq_iff)
  from verdict_write_atomic [OF sample_fresh sample_fresh(2) this [unfolded sample_write_def]]
  show "fst (sample_write ''o'' None) = sample_vdb" by (simp add: sample_write_def)
next
  obtain t v where w: "writeVerdict sample_vdb sample_vdb sample_vdb 5 ''stamp'' ''v1'' (sample_verdict ''m'' None)
      (Some \<lparr>gp_type = P_member, gp_id = ''m''\<rparr>) = (fst (sample_write ''m'' None), Inr (t, v))" by (rule sample_written)
  have "map_option sr_id (current_submission sample_vdb sample_gated) = Some ''sub''" "vd_verdicts sample_vdb = []"
    "vd_tasks sample_vdb = [sample_gated]" "vi_decidedBy (sample_verdict ''m'' None) = ''m''" by code_simp+
  with verdict_write_atomic [OF sample_fresh sample_fresh(2) w]
  show "\<exists>v. vd_verdicts (fst (sample_write ''m'' None)) = [v] \<and> tv_decided_by v = ''m'' \<and> tv_submission_id v = Some ''sub''"
    by auto
qed

theorem verdict_write_independent_witness:
  "\<not> directConflictSqlRaw sample_vdb ''m'' ''t1'' \<and> \<not> affiliatedConflictSqlRaw sample_vdb ''m'' ''t1'' \<and>
   affiliatedConflictSqlRaw sample_vdb ''o'' ''t1'' \<and> owner_self_guard sample_vdb ''o'' (resolveVerdictSubmission sample_vdb ''t1'') sample_gated"
proof -
  have s: "vi_waiver (sample_verdict d w) = w" "vi_decidedBy (sample_verdict d w) = d" "vi_task (sample_verdict d w) = sample_gated"
    "vi_attribution (sample_verdict d w) = None" for d w by (simp_all add: sample_verdict_def)
  have r: "vd_tasks sample_vdb = [sample_gated]" "t_id sample_gated = ''t1''" "t_gate_owner sample_gated \<noteq> Some GATE_LANE_SELF"
    "affiliatedConflictSqlRaw sample_vdb ''o'' ''t1''" by code_simp+
  obtain t v where "writeVerdict sample_vdb sample_vdb sample_vdb 5 ''stamp'' ''v1'' (sample_verdict ''m'' None)
      (Some \<lparr>gp_type = P_member, gp_id = ''m''\<rparr>) = (fst (sample_write ''m'' None), Inr (t, v))" by (rule sample_written)
  from verdict_write_independent [OF sample_fresh(1) this refl]
  have 1: "\<not> directConflictSqlRaw sample_vdb ''m'' ''t1''" "\<not> affiliatedConflictSqlRaw sample_vdb ''m'' ''t1''" using r by (auto simp: s)
  obtain t v where "writeVerdict sample_vdb sample_vdb sample_vdb 5 ''stamp'' ''v1'' (sample_verdict ''o'' (Some Owner_self))
      (Some \<lparr>gp_type = P_member, gp_id = ''o''\<rparr>) = (fst (sample_write ''o'' (Some Owner_self)), Inr (t, v))" by (rule sample_written_owner)
  from verdict_write_independent [OF sample_fresh(1) this refl]
  have "owner_self_guard sample_vdb ''o'' (resolveVerdictSubmission sample_vdb ''t1'') sample_gated" using r by (auto simp: s)
  with 1 r show ?thesis by simp
qed

theorem owner_self_needs_review_witness:
  "\<exists>P. P \<subseteq> set (vd_lenses sample_vdb) \<and> card (ln_reviewer_id ` P) \<ge> 2"
proof -
  obtain t v where w: "writeVerdict sample_vdb sample_vdb sample_vdb 5 ''stamp'' ''v1'' (sample_verdict ''o'' (Some Owner_self))
      (Some \<lparr>gp_type = P_member, gp_id = ''o''\<rparr>) = (fst (sample_write ''o'' (Some Owner_self)), Inr (t, v))" by (rule sample_written_owner)
  have "vi_waiver (sample_verdict ''o'' (Some Owner_self)) = Some Owner_self"
    "t_gate_owner (vi_task (sample_verdict ''o'' (Some Owner_self))) \<noteq> Some GATE_LANE_SELF" by code_simp+
  from owner_self_needs_review [OF sample_fresh(1) w this] show ?thesis by blast
qed

end
