(* ===== verification/Verdict_Gate.thy ===== *)
theory Verdict_Gate
  imports Verdict_Write
begin

text \<open>
  Who may give a verdict (\<^verbatim>\<open>src/tasks/index.ts\<close>): the principal behind a request, the lane of a gate, the
  shared pre-check of the write routes and of the approvals queue, and the route \<open>POST /:id/verdict\<close>.
  The per-request cache of the pre-check only saves reads and is left out, as is the nudge of a parked
  workflow after the write. The route takes one snapshot of the tables for its own reads, and those of
  \<open>writeVerdict\<close>.
\<close>

section \<open>Principals and lanes\<close>

record verdict_principal = gate_principal +
  vp_actor :: "gate_principal option"

definition verdictPrincipal :: "auth_context \<Rightarrow> verdict_principal" where
  "verdictPrincipal auth =
     (case attachedAuthority auth of
        Some att \<Rightarrow> \<lparr>gp_type = P_agent, gp_id = aa_agentId att, vp_actor = Some \<lparr>gp_type = P_agent, gp_id = aa_agentId att\<rparr>\<rparr>
      | None \<Rightarrow>
          (case resolveGatePrincipal auth of
             None \<Rightarrow> \<lparr>gp_type = P_agent, gp_id = userId auth, vp_actor = None\<rparr>
           | Some p \<Rightarrow> \<lparr>gp_type = gp_type p, gp_id = gp_id p, vp_actor = Some p\<rparr>))"

definition callerHoldsGateCapability :: "verdict_db \<Rightarrow> auth_context \<Rightarrow> string \<Rightarrow> bool" where
  "callerHoldsGateCapability db auth gate =
     (if attachedAuthority auth \<noteq> None then
        (case attachedGateAgent (vd_gates db) (vd_attach db) auth of
           None \<Rightarrow> False
         | Some (a, h) \<Rightarrow> hasActiveGateGrant (vd_gates db) gate P_agent a)
      else if legacyOwnerAdmin auth then True
      else
        let p = verdictPrincipal auth in
        if gp_id p = [] then False else hasActiveGateGrant (vd_gates db) gate (gp_type p) (gp_id p))"

record verdict_gate_task =
  vg_id :: string
  vg_gate_owner :: string
  vg_assignee :: "string option"

definition holdsTaskGateLane :: "verdict_db \<Rightarrow> auth_context \<Rightarrow> string \<Rightarrow> string option \<Rightarrow> bool" where
  "holdsTaskGateLane db auth gate assignee =
     (if attachedAuthority auth \<noteq> None then gate \<noteq> GATE_LANE_SELF \<and> callerHoldsGateCapability db auth gate
      else if gate = GATE_LANE_SELF then Some (gp_id (verdictPrincipal auth)) = assignee \<or> legacyOwnerAdmin auth
      else callerHoldsGateCapability db auth gate)"

definition canViewTaskReceipts :: "verdict_db \<Rightarrow> auth_context \<Rightarrow> string option \<Rightarrow> string option \<Rightarrow> bool" where
  "canViewTaskReceipts db auth gate assignee =
     (if truthy (boundAgentId auth) \<and> assignee = boundAgentId auth then True
      else if isOrgAdmin (Some auth) then True
      else if \<not> truthy gate then False
      else holdsTaskGateLane db auth (the gate) assignee)"

section \<open>The pre-check\<close>

datatype verdict_gate_code = No_gate_capability | Missing_surface_cap | Self_verdict

datatype verdict_gate_result = Gate_allowed "independence_waiver option" | Gate_refused verdict_gate_code

definition ownerSelfWithLenses :: "verdict_db \<Rightarrow> string \<Rightarrow> string \<Rightarrow> bool" where
  "ownerSelfWithLenses db m i = holdsOwnerSelfVerdictAuthority db m i (resolveVerdictSubmission db i)"

definition lane_producer :: "verdict_db \<Rightarrow> verdict_principal \<Rightarrow> verdict_gate_task \<Rightarrow> bool" where
  "lane_producer db p task \<longleftrightarrow>
     vg_gate_owner task = GATE_LANE_SELF \<and> gp_type p = P_agent \<and> Some (gp_id p) = vg_assignee task \<and>
     isCurrentSelfCompletionProducer db (vg_id task) (Some (vg_gate_owner task)) (gp_id p)"

text \<open>The rule of independence, for a caller who holds the lane.\<close>

definition gate_independence :: "verdict_db \<Rightarrow> auth_context \<Rightarrow> verdict_gate_task \<Rightarrow> verdict_gate_result" where
  "gate_independence db auth task =
     (let p = verdictPrincipal auth;
          conflict = findVerdictIndependenceConflict db (gp_id p) (vg_id task);
          human_conflict = (case attachedAuthority auth of
            None \<Rightarrow> False
          | Some att \<Rightarrow>
              findVerdictIndependenceConflict db (aa_humanMemberId att) (vg_id task) \<noteq> None \<or>
              (case vg_assignee task of
                 None \<Rightarrow> False
               | Some a \<Rightarrow> isMemberAffiliatedWithAssigneeAgent db (aa_humanMemberId att) a));
          affiliated = (conflict = Some Conflict_affiliated \<or>
            gp_type p = P_member \<and>
            (case vg_assignee task of None \<Rightarrow> False | Some a \<Rightarrow> isMemberAffiliatedWithAssigneeAgent db (gp_id p) a))
      in if Some (gp_id p) = vg_assignee task then Gate_refused Self_verdict
         else if conflict = Some Conflict_direct then Gate_refused Self_verdict
         else if human_conflict then Gate_refused Self_verdict
         else if \<not> affiliated then Gate_allowed None
         else if gp_type p = P_member \<and> ownerSelfWithLenses db (gp_id p) (vg_id task) then Gate_allowed (Some Owner_self)
         else if gp_type p = P_member \<and> isOrgAdmin (Some auth) \<and> \<not> ownsTaskPartyAgent db (gp_id p) (vg_id task)
         then Gate_allowed (Some Admin_supervisory)
         else Gate_refused Self_verdict)"

definition evaluateVerdictGates :: "verdict_db \<Rightarrow> auth_context \<Rightarrow> verdict_gate_task \<Rightarrow> verdict_value \<Rightarrow> verdict_gate_result" where
  "evaluateVerdictGates db auth task verdict =
     (if \<not> holdsTaskGateLane db auth (vg_gate_owner task) (vg_assignee task) then Gate_refused No_gate_capability
      else if vg_gate_owner task = ''gate:loops'' \<and> verdict = V_approved \<and> \<not> hasSurfaceCap (vd_gates db) auth ''outreach:send-gated''
      then Gate_refused Missing_surface_cap
      else if lane_producer db (verdictPrincipal auth) task then Gate_allowed None
      else gate_independence db auth task)"

section \<open>The route\<close>

datatype verdict_response =
    Task_not_found_404
  | Forbidden_need_403 string
  | No_gate_409
  | Not_in_review_409 task_status
  | Invalid_json_400
  | Invalid_verdict_400
  | Invalid_expected_submission_id_400
  | Self_verdict_409 bool
  | Verdict_refused verdict_error
  | Verdict_written_201 gated_task verdict_row

text \<open>The status and the code the route answers for each error of the write.\<close>

fun verdict_error_response :: "verdict_error \<Rightarrow> nat \<times> string" where
  "verdict_error_response Task_archived_error = (409, ''task_archived'')"
| "verdict_error_response Approval_expired_error = (409, ''approval_expired'')"
| "verdict_error_response (Verdict_independence k) = (409, ''self_verdict'')"
| "verdict_error_response Verdict_submission_required = (400, ''expected_submission_id_required'')"
| "verdict_error_response Verdict_submission_mismatch = (409, ''submission_mismatch'')"
| "verdict_error_response Verdict_race = (409, ''verdict_conflict'')"
| "verdict_error_response Task_evidence_fence = (403, ''project_access_forbidden'')"
| "verdict_error_response Non_human_verdict_refused = (409, ''non_human_verdict_refused'')"
| "verdict_error_response Dedicated_gate_predicate_required = (409, ''dedicated_gate_predicate_required'')"

definition override_note :: "string \<Rightarrow> string" where
  "override_note i = ''[self_verdict_override by org owner '' @ i @ '']''"

definition verdict_of_json :: "json option \<Rightarrow> verdict_value option" where
  "verdict_of_json v =
     (if v = Some (JStr ''approved'') then Some V_approved
      else if v = Some (JStr ''rejected'') then Some V_rejected else None)"

text \<open>\<open>expected_submission_id\<close>: absent, null or a string; anything else is refused.\<close>

definition expected_of_json :: "json option \<Rightarrow> string option option option" where
  "expected_of_json v =
     (case v of
        None \<Rightarrow> Some None
      | Some JNull \<Rightarrow> Some (Some None)
      | Some (JStr s) \<Rightarrow> Some (Some (Some s))
      | _ \<Rightarrow> None)"

definition route_input ::
  "auth_context \<Rightarrow> gated_task \<Rightarrow> verdict_value \<Rightarrow> string option \<Rightarrow> string option option \<Rightarrow> independence_waiver option \<Rightarrow> verdict_input" where
  "route_input auth task verdict note expected waiver =
     \<lparr>vi_task = task, vi_verdict = verdict, vi_note = note, vi_decidedBy = gp_id (verdictPrincipal auth), vi_attested = False,
      vi_originAgentId = None, vi_proposalId = None, vi_expected = expected, vi_waiver = waiver,
      vi_attribution = verdictAttribution auth\<rparr>"

definition gate_task_of :: "gated_task \<Rightarrow> verdict_gate_task" where
  "gate_task_of task = \<lparr>vg_id = t_id task, vg_gate_owner = the (t_gate_owner task), vg_assignee = t_assignee_agent_id task\<rparr>"

text \<open>The waiver and the note of the write, or the refusal.\<close>

definition route_waiver ::
  "verdict_db \<Rightarrow> auth_context \<Rightarrow> gated_task \<Rightarrow> verdict_value \<Rightarrow> patch_body \<Rightarrow>
   verdict_response + independence_waiver option \<times> string option" where
  "route_waiver db auth task verdict body =
     (let note = as_string (map_of body ''note'');
          overrideRequested = (map_of body ''override_self_verdict'' = Some (JBool True))
      in case evaluateVerdictGates db auth (gate_task_of task) verdict of
           Gate_allowed w \<Rightarrow> Inr (w, note)
         | Gate_refused No_gate_capability \<Rightarrow>
             Inl (Forbidden_need_403 (if t_gate_owner task = Some GATE_LANE_SELF then ''assignee_or_org_admin'' else the (t_gate_owner task)))
         | Gate_refused Missing_surface_cap \<Rightarrow> Inl (Forbidden_need_403 ''outreach:send-gated'')
         | Gate_refused Self_verdict \<Rightarrow>
             if auth_role auth \<noteq> Role_owner \<or> \<not> overrideRequested then Inl (Self_verdict_409 overrideRequested)
             else let tag = override_note (gp_id (verdictPrincipal auth)) in
               Inr (Some Owner_override, Some (if truthy note then tag @ '' '' @ the note else tag)))"

definition postVerdict ::
  "auth_env \<Rightarrow> verdict_db \<Rightarrow> verdict_db \<Rightarrow> verdict_db \<Rightarrow> verdict_db \<Rightarrow> int \<Rightarrow> string \<Rightarrow> string \<Rightarrow> auth_context \<Rightarrow> string \<Rightarrow>
   patch_body option \<Rightarrow> verdict_db \<times> verdict_response" where
  "postVerdict env db0 dbr db dbd now stamp vid auth i body =
     (case first_row (\<lambda>r. t_id r = i) (vd_tasks db0) of
        None \<Rightarrow> (db, Task_not_found_404)
      | Some task \<Rightarrow>
          if \<not> canActOnSquad env auth (t_squad_id task) Member then (db, Forbidden_need_403 ''member'')
          else if \<not> truthy (t_gate_owner task) then (db, No_gate_409)
          else if t_status task \<noteq> Review then (db, Not_in_review_409 (t_status task))
          else (case body of
            None \<Rightarrow> (db, Invalid_json_400)
          | Some b \<Rightarrow>
              (case verdict_of_json (map_of b ''verdict'') of
                 None \<Rightarrow> (db, Invalid_verdict_400)
               | Some verdict \<Rightarrow>
                   (case expected_of_json (map_of b ''expected_submission_id'') of
                      None \<Rightarrow> (db, Invalid_expected_submission_id_400)
                    | Some expected \<Rightarrow>
                        (case route_waiver db0 auth task verdict b of
                           Inl e \<Rightarrow> (db, e)
                         | Inr (w, note) \<Rightarrow>
                             (case writeVerdict dbr db dbd now stamp vid (route_input auth task verdict note expected w)
                                     (vp_actor (verdictPrincipal auth)) of
                                (db', Inl e) \<Rightarrow> (db', Verdict_refused e)
                              | (db', Inr (t, v)) \<Rightarrow> (db', Verdict_written_201 t v)))))))"

section \<open>The pre-check and the write agree\<close>

lemma find_conflict_None:
  "findVerdictIndependenceConflict db d t = None \<longleftrightarrow> \<not> directConflictSqlRaw db d t \<and> \<not> affiliatedConflictSqlRaw db d t"
  "findVerdictIndependenceConflict db d t = Some Conflict_direct \<longleftrightarrow> directConflictSqlRaw db d t"
  "findVerdictIndependenceConflict db d t = Some Conflict_affiliated \<longleftrightarrow>
     \<not> directConflictSqlRaw db d t \<and> affiliatedConflictSqlRaw db d t"
  by (auto simp: findVerdictIndependenceConflict_def compileVerdictIndependenceSql_def)

lemma read_task:
  "distinct (map t_id (vd_tasks db)) \<Longrightarrow> r \<in> set (vd_tasks db) \<Longrightarrow> first_row (\<lambda>x. t_id x = t_id r) (vd_tasks db) = Some r"
  by (rule first_row_key)

lemma hasActiveGateGrant_row:
  "hasActiveGateGrant g gate k i \<Longrightarrow>
   \<exists>x \<in> set (gate_grants g). gg_capability x = gate \<and> gg_principal_type x = k \<and> gg_principal_id x = i"
  by (auto simp: hasActiveGateGrant_def exists_row_iff split: gate_principal_type.splits)

lemma gate_independence_allowed:
  assumes "distinct (map t_id (vd_tasks db))" "r \<in> set (vd_tasks db)" "t_gate_owner r \<noteq> None"
    and "gate_independence db auth (gate_task_of r) = Gate_allowed w"
  shows "w \<noteq> Some Owner_override" "\<not> write_conflict db (gp_id (verdictPrincipal auth)) w (resolveVerdictSubmission db (t_id r)) r"
    "attachedAuthority auth = Some a \<Longrightarrow> \<not> directConflictSqlRaw db (aa_humanMemberId a) (t_id r) \<and>
      \<not> affiliatedConflictSqlRaw db (aa_humanMemberId a) (t_id r)"
  using assms(4) read_task [OF assms(1,2)]
  by (auto simp: gate_independence_def Let_def gate_task_of_def write_conflict_def conflict_kinds find_conflict_None
      ownerSelfWithLenses_def holdsOwnerSelfVerdictAuthority_def owner_self_guard_def ownsTaskPartyAgent_def
      split: if_splits option.splits)

lemma allowed_attached_guard:
  assumes keys: "distinct (map t_id (vd_tasks db))" "r \<in> set (vd_tasks db)" "t_gate_owner r \<noteq> None"
    and ok: "evaluateVerdictGates db auth (gate_task_of r) verdict = Gate_allowed w"
  shows "attached_guard db (route_input auth r verdict note expected w) r"
proof (cases "attachedAuthority auth")
  case None
  then show ?thesis by (simp add: attached_guard_def route_input_def verdictAttribution_def)
next
  case (Some att)
  then obtain v where v: "verdictAttribution auth = Some v" "att_consentingMemberId v = aa_humanMemberId att"
    by (auto simp: verdictAttribution_def attachedAuthority_def split: option.splits)
  obtain gate where gate: "t_gate_owner r = Some gate" using keys(3) by auto
  have "holdsTaskGateLane db auth gate (t_assignee_agent_id r)"
    using ok gate by (auto simp: evaluateVerdictGates_def gate_task_of_def split: if_splits)
  then obtain a h where a: "attachedGateAgent (vd_gates db) (vd_attach db) auth = Some (a, h)" "gate \<noteq> GATE_LANE_SELF"
      "hasActiveGateGrant (vd_gates db) gate P_agent a"
    using Some by (auto simp: holdsTaskGateLane_def callerHoldsGateCapability_def split: option.splits)
  note w = attached_precheck_implies_write [OF a(1) Some v(1)]
  have "gate_independence db auth (gate_task_of r) = Gate_allowed w"
    using ok a(2) gate by (auto simp: evaluateVerdictGates_def gate_task_of_def lane_producer_def split: if_splits)
  from gate_independence_allowed(3) [OF keys this Some] w gate v hasActiveGateGrant_row [OF a(3)]
  show ?thesis
    by (auto simp: attached_guard_def route_input_def verdictPrincipal_def Some conflict_kinds exists_row_iff)
qed

lemma allowed_independence_guard:
  assumes keys: "distinct (map t_id (vd_tasks db))" "r \<in> set (vd_tasks db)" "t_gate_owner r \<noteq> None"
    and ok: "evaluateVerdictGates db auth (gate_task_of r) verdict = Gate_allowed w"
    and lane: "t_gate_owner r = Some GATE_LANE_SELF \<longrightarrow> t_assignee_agent_id r = Some (gp_id (verdictPrincipal auth)) \<or>
      \<not> agent_exists db (gp_id (verdictPrincipal auth))"
  shows "independence_guard db (route_input auth r verdict note expected w) (resolveVerdictSubmission db (t_id r)) r"
proof (cases "lane_producer db (verdictPrincipal auth) (gate_task_of r)")
  case True
  then have "t_gate_owner r = Some GATE_LANE_SELF" using keys(3) by (auto simp: lane_producer_def gate_task_of_def)
  moreover have "selfCompletionProducerSql db (gp_id (verdictPrincipal auth)) r"
    using True unique_row [OF keys(1) keys(2)]
    by (auto simp: lane_producer_def gate_task_of_def isCurrentSelfCompletionProducer_def exists_row_iff) metis
  ultimately show ?thesis by (simp add: independence_guard_def route_input_def)
next
  case False
  with ok have i: "gate_independence db auth (gate_task_of r) = Gate_allowed w"
    by (auto simp: evaluateVerdictGates_def split: if_splits)
  have "t_assignee_agent_id r \<noteq> Some (gp_id (verdictPrincipal auth))"
    using i by (auto simp: gate_independence_def gate_task_of_def Let_def split: if_splits)
  with lane gate_independence_allowed(1,2) [OF keys i] show ?thesis
    by (auto simp: independence_guard_def route_input_def Let_def)
qed

lemma same_tables_submission:
  assumes "distinct (map t_id (vd_tasks db))" "r \<in> set (vd_tasks db)"
  shows "latestSubmissionGuardSql db (resolveVerdictSubmission db (t_id r)) (t_result r) r"
  using read_task [OF assms] by (auto simp: latestSubmissionGuardSql_def resolveVerdictSubmission_def split: option.splits)

lemma write_outcome:
  assumes "fresh_stamp db stamp" "r \<in> set (vd_tasks db)" "vi_task inp = r"
  shows "(\<exists>db' t v. writeVerdict db db dbd now stamp vid inp actor = (db', Inr (t, v))) \<longleftrightarrow>
    verdict_checks db inp (gateVerdictActor (vi_decidedBy inp) actor) (resolveVerdictSubmission db (t_id r)) = None \<and>
    verdict_matches db now inp (resolveVerdictSubmission db (t_id r)) r"
proof
  assume "\<exists>db' t v. writeVerdict db db dbd now stamp vid inp actor = (db', Inr (t, v))"
  then obtain db' t v where w: "writeVerdict db db dbd now stamp vid inp actor = (db', Inr (t, v))" by blast
  show "verdict_checks db inp (gateVerdictActor (vi_decidedBy inp) actor) (resolveVerdictSubmission db (t_id r)) = None \<and>
    verdict_matches db now inp (resolveVerdictSubmission db (t_id r)) r"
  proof (rule writeVerdict_Inr [OF assms(1) w])
    fix x sub
    assume x: "x \<in> set (vd_tasks db)" "verdict_matches db now inp sub x" "sub = resolveVerdictSubmission db (t_id (vi_task inp))"
      and checks: "verdict_checks db inp (gateVerdictActor (vi_decidedBy inp) actor) sub = None"
    then have "x = r"
      using assms unique_row [of t_id "vd_tasks db" x r] by (simp add: fresh_stamp_def verdict_matches_def)
    with x checks assms(3) show ?thesis by simp
  qed
next
  assume ok: "verdict_checks db inp (gateVerdictActor (vi_decidedBy inp) actor) (resolveVerdictSubmission db (t_id r)) = None \<and>
    verdict_matches db now inp (resolveVerdictSubmission db (t_id r)) r"
  define i where "i = (if vi_proposalId inp \<noteq> None then inp
      else inp\<lparr>vi_proposalId := Some (resolveVerdictProposalId db (vi_task inp))\<rparr>)"
  define k where "k = (if resolveGateVerdictScope db (t_id (vi_task inp)) then Some (gateVerdictActor (vi_decidedBy inp) actor) else None)"
  have "verdict_matches db now i (resolveVerdictSubmission db (t_id r)) r \<and> True"
    using ok by (simp add: i_def verdict_matches_proposal)
  from build_hit [OF assms(1,2) this, of vid k] obtain d where
    "buildVerdictStatements db now stamp vid i (resolveVerdictSubmission db (t_id r)) k (\<lambda>r. True) = (d, True)" by blast
  then show "\<exists>db' t v. writeVerdict db db dbd now stamp vid inp actor = (db', Inr (t, v))"
    using ok unfolding writeVerdict_def Let_def i_def [symmetric] k_def [symmetric] by (simp add: assms(3))
qed

text \<open>C24: The pre-check and the write agree. When nothing changes in between, a verdict the pre-check allows on a task in
  review is written exactly when the write's own checks pass and the ask is still within its window: the independence, the
  attachment and the submission guards inside the statement never refuse it. The one exception is an agent that is not the
  assignee on the self-completion lane, whom the pre-check admits by its role and the write does not.\<close>
theorem precheck_and_write_agree:
  assumes "fresh_stamp db stamp" "r \<in> set (vd_tasks db)" "t_status r = Review" "t_gate_owner r \<noteq> None"
    and "evaluateVerdictGates db auth (gate_task_of r) verdict = Gate_allowed w"
    and "t_gate_owner r = Some GATE_LANE_SELF \<longrightarrow> t_assignee_agent_id r = Some (gp_id (verdictPrincipal auth)) \<or>
      \<not> agent_exists db (gp_id (verdictPrincipal auth))"
    and "inp = route_input auth r verdict note expected w" "actor = vp_actor (verdictPrincipal auth)"
  shows "(\<exists>db' t v. writeVerdict db db dbd now stamp vid inp actor = (db', Inr (t, v))) \<longleftrightarrow>
    verdict_checks db inp (gateVerdictActor (vi_decidedBy inp) actor) (resolveVerdictSubmission db (t_id r)) = None \<and>
    GATE_ASK_LIVE_PREDICATE db now r"
proof -
  have keys: "distinct (map t_id (vd_tasks db))" using assms(1) by (simp add: fresh_stamp_def)
  have task: "vi_task inp = r" by (simp add: assms(7) route_input_def)
  have "independence_guard db inp (resolveVerdictSubmission db (t_id r)) r" "attached_guard db inp r"
    unfolding assms(7) by (rule allowed_independence_guard allowed_attached_guard; use keys assms in simp)+
  then have "verdict_matches db now inp (resolveVerdictSubmission db (t_id r)) r \<longleftrightarrow>
      \<not> archived db (t_id r) \<and> GATE_ASK_LIVE_PREDICATE db now r"
    using same_tables_submission [OF keys assms(2)] assms(3) by (auto simp: verdict_matches_def task)
  moreover have "\<not> archived db (t_id r)"
    if "verdict_checks db inp (gateVerdictActor (vi_decidedBy inp) actor) (resolveVerdictSubmission db (t_id r)) = None"
    using that by (auto simp: verdict_checks_def assertVerdictWritable_def task split: if_splits option.splits)
  ultimately show ?thesis
    using write_outcome [OF assms(1,2) task, of dbd now vid actor] by blast
qed

section \<open>The route\<close>

lemma allowed_no_override:
  "evaluateVerdictGates db auth task verdict = Gate_allowed w \<Longrightarrow> w \<noteq> Some Owner_override"
  by (auto simp: evaluateVerdictGates_def gate_independence_def Let_def split: if_splits)

lemma route_waiver_Inr:
  assumes "route_waiver db auth task verdict body = Inr (w, note)"
  shows "evaluateVerdictGates db auth (gate_task_of task) verdict = Gate_allowed w \<and> w \<noteq> Some Owner_override \<or>
    evaluateVerdictGates db auth (gate_task_of task) verdict = Gate_refused Self_verdict \<and> auth_role auth = Role_owner \<and>
    w = Some Owner_override \<and> (\<exists>rest. note = Some (override_note (gp_id (verdictPrincipal auth)) @ rest))"
  using assms allowed_no_override [of db auth "gate_task_of task" verdict]
  by (auto simp: route_waiver_def Let_def split: verdict_gate_result.splits verdict_gate_code.splits if_splits)

lemma route_waiver_Inl: "route_waiver db auth task verdict body \<noteq> Inl (Verdict_written_201 t v)"
  by (auto simp: route_waiver_def Let_def split: verdict_gate_result.splits verdict_gate_code.splits if_splits)

lemma postVerdict_written:
  assumes "postVerdict env db0 dbr db dbd now stamp vid auth i body = (db', Verdict_written_201 t v)"
  obtains task b verdict expected w nt where
    "first_row (\<lambda>r. t_id r = i) (vd_tasks db0) = Some task" "canActOnSquad env auth (t_squad_id task) Member"
    "truthy (t_gate_owner task)" "t_status task = Review" "route_waiver db0 auth task verdict b = Inr (w, nt)"
    "writeVerdict dbr db dbd now stamp vid (route_input auth task verdict nt expected w) (vp_actor (verdictPrincipal auth)) =
       (db', Inr (t, v))"
  using assms unfolding postVerdict_def
  by (auto simp: route_waiver_Inl split: option.splits if_splits sum.splits prod.splits)

lemma postVerdict_refused:
  assumes "fresh_stamp db stamp" "postVerdict env db0 dbr db dbd now stamp vid auth i body = (db', resp)"
    "\<And>t v. resp \<noteq> Verdict_written_201 t v"
  shows "db' = db"
  using assms(2,3) unfolding postVerdict_def
  by (auto split: option.splits if_splits sum.splits prod.splits dest: writeVerdict_Inl [OF assms(1)])

text \<open>C25: The route writes a verdict only for a caller with standing in the squad, on a task that it read in review and
  gated, and under the caller's own principal: either the pre-check allowed it, and the row records exactly the waiver the
  pre-check gave, never an override; or the pre-check refused it as a self-verdict alone, the caller is the organisation
  owner, and the row records the override, both as the waiver and as the audit tag its note begins with. Every other answer
  leaves all tables as they were.\<close>
theorem verdict_route_authorised:
  assumes "fresh_stamp db stamp" and "postVerdict env db0 dbr db dbd now stamp vid auth i body = (db', resp)"
  shows "case resp of
      Verdict_written_201 t v \<Rightarrow>
        \<exists>task \<in> set (vd_tasks db0). t_id task = i \<and> canActOnSquad env auth (t_squad_id task) Member \<and>
          t_status task = Review \<and> truthy (t_gate_owner task) \<and>
          tv_task_id v = i \<and> tv_decided_by v = gp_id (verdictPrincipal auth) \<and>
          (evaluateVerdictGates db0 auth (gate_task_of task) (tv_verdict v) = Gate_allowed (tv_waiver v) \<and>
             tv_waiver v \<noteq> Some Owner_override \<or>
           evaluateVerdictGates db0 auth (gate_task_of task) (tv_verdict v) = Gate_refused Self_verdict \<and>
             auth_role auth = Role_owner \<and> tv_waiver v = Some Owner_override \<and>
             (\<exists>rest. tv_note v = Some (override_note (gp_id (verdictPrincipal auth)) @ rest)))
    | _ \<Rightarrow> db' = db"
proof (cases "\<exists>t v. resp = Verdict_written_201 t v")
  case True
  then obtain t v where resp: "resp = Verdict_written_201 t v" by blast
  obtain task b verdict expected w nt where r:
    "first_row (\<lambda>r. t_id r = i) (vd_tasks db0) = Some task" "canActOnSquad env auth (t_squad_id task) Member"
    "truthy (t_gate_owner task)" "t_status task = Review" "route_waiver db0 auth task verdict b = Inr (w, nt)"
    "writeVerdict dbr db dbd now stamp vid (route_input auth task verdict nt expected w) (vp_actor (verdictPrincipal auth)) =
       (db', Inr (t, v))"
    using assms(2) unfolding resp by (rule postVerdict_written)
  have v: "tv_task_id v = t_id task" "tv_decided_by v = gp_id (verdictPrincipal auth)" "tv_verdict v = verdict"
      "tv_waiver v = w" "tv_note v = nt"
    by (rule writeVerdict_Inr [OF assms(1) r(6)]; auto simp: verdict_of_def route_input_def)+
  show ?thesis
    using route_waiver_Inr [OF r(5)] first_row_Some [OF r(1)] r(2,3,4) unfolding resp v
    by (auto simp: v intro!: bexI [of _ task])
next
  case False
  with postVerdict_refused [OF assms] have "db' = db" by blast
  with False show ?thesis by (auto split: verdict_response.splits)
qed

section \<open>A sample\<close>

definition sample_squad_env :: auth_env where
  "sample_squad_env = \<lparr>t_capabilities = [], t_channel_grants = [], t_squads = [\<lparr>sq_id = ''s'', sq_department_id = ''d'', sq_kind = Work\<rparr>],
     t_members = [], t_users = [], t_identities = [], now_sql = [], TENANT_SLUG = ''t'', julianday = (\<lambda>s. None),
     hasElevatedAction = (\<lambda>a b c. False)\<rparr>"

definition member_auth :: "string \<Rightarrow> role \<Rightarrow> auth_context" where
  "member_auth m r = \<lparr>userId = ''u'', auth_role = r, memberId = Some m,
     capabilities = Some [\<lparr>g_member_id = m, g_scope_type = Squad, g_scope_id = Some ''s'', g_capability = Member\<rparr>], latentCapabilities = None,
     boundAgentId = None, webSessionIdHash = None, webSessionMemberId = None, seatBinding = None\<rparr>"

definition unlensed :: verdict_db where
  "unlensed = sample_vdb\<lparr>vd_lenses := []\<rparr>"

definition approve_body :: patch_body where
  "approve_body = [(''verdict'', JStr ''approved''), (''note'', JStr ''ok''), (''override_self_verdict'', JBool True)]"

definition sample_post :: "verdict_db \<Rightarrow> auth_context \<Rightarrow> verdict_db \<times> verdict_response" where
  "sample_post db auth = postVerdict sample_squad_env db db db db 5 ''stamp'' ''v1'' auth ''t1'' (Some approve_body)"

definition recorded :: "verdict_response \<Rightarrow> (string \<times> independence_waiver option \<times> string option) option" where
  "recorded resp = (case resp of Verdict_written_201 t v \<Rightarrow> Some (tv_decided_by v, tv_waiver v, tv_note v) | _ \<Rightarrow> None)"

lemma sample_posts:
  "recorded (snd (sample_post sample_vdb (member_auth ''m'' Role_member))) = Some (''m'', None, Some ''ok'')"
  "recorded (snd (sample_post sample_vdb (member_auth ''o'' Role_member))) = Some (''o'', Some Owner_self, Some ''ok'')"
  "recorded (snd (sample_post unlensed (member_auth ''o'' Role_owner))) =
     Some (''o'', Some Owner_override, Some ''[self_verdict_override by org owner o] ok'')"
  "snd (sample_post unlensed (member_auth ''o'' Role_admin)) = Self_verdict_409 True"
  by code_simp+

lemma sample_allowed:
  "evaluateVerdictGates sample_vdb (member_auth ''m'' Role_member) (gate_task_of sample_gated) V_approved = Gate_allowed None"
  by code_simp

theorem precheck_and_write_agree_witness:
  "\<exists>db' t v. writeVerdict sample_vdb sample_vdb sample_vdb 5 ''stamp'' ''v1''
     (route_input (member_auth ''m'' Role_member) sample_gated V_approved None None None)
     (vp_actor (verdictPrincipal (member_auth ''m'' Role_member))) = (db', Inr (t, v))"
proof -
  have r: "sample_gated \<in> set (vd_tasks sample_vdb)" by (simp add: sample_vdb_def)
  have s: "t_status sample_gated = Review" "t_gate_owner sample_gated \<noteq> None" "t_gate_owner sample_gated \<noteq> Some GATE_LANE_SELF"
    "GATE_ASK_LIVE_PREDICATE sample_vdb 5 sample_gated"
    "verdict_checks sample_vdb (route_input (member_auth ''m'' Role_member) sample_gated V_approved None None None)
       (gateVerdictActor (vi_decidedBy (route_input (member_auth ''m'' Role_member) sample_gated V_approved None None None))
         (vp_actor (verdictPrincipal (member_auth ''m'' Role_member))))
       (resolveVerdictSubmission sample_vdb (t_id sample_gated)) = None"
    by code_simp+
  show ?thesis
    using precheck_and_write_agree [OF sample_fresh(1) r s(1,2) sample_allowed _ refl refl] s(3-5) by blast
qed

theorem verdict_route_authorised_witness:
  "(\<exists>v rest. vd_verdicts (fst (sample_post unlensed (member_auth ''o'' Role_owner))) = [v] \<and> tv_waiver v = Some Owner_override \<and>
      tv_note v = Some (override_note ''o'' @ rest)) \<and>
   fst (sample_post unlensed (member_auth ''o'' Role_admin)) = unlensed"
proof -
  have f: "fresh_stamp unlensed ''stamp''" by code_simp
  have p: "sample_post unlensed a = (fst (sample_post unlensed a), snd (sample_post unlensed a))" for a by simp
  note sound = verdict_route_authorised [OF f p [unfolded sample_post_def], folded sample_post_def]
  have "fst (sample_post unlensed (member_auth ''o'' Role_admin)) = unlensed"
    using sound [of "member_auth ''o'' Role_admin"] sample_posts(4) by simp
  moreover obtain t v where tv: "snd (sample_post unlensed (member_auth ''o'' Role_owner)) = Verdict_written_201 t v"
    and w: "tv_waiver v = Some Owner_override"
    using sample_posts(3) by (auto simp: recorded_def split: verdict_response.splits)
  moreover have "gp_id (verdictPrincipal (member_auth ''o'' Role_owner)) = ''o''" by code_simp
  moreover have "map (\<lambda>v. (tv_waiver v, tv_note v)) (vd_verdicts (fst (sample_post unlensed (member_auth ''o'' Role_owner)))) =
    [(Some Owner_override, Some (override_note ''o'' @ '' ok''))]" by code_simp
  moreover have "\<exists>rest. tv_note v = Some (override_note ''o'' @ rest)"
    using sound [of "member_auth ''o'' Role_owner"] w calculation(4) unfolding tv by auto
  ultimately show ?thesis by fastforce
qed

end
