(* ===== verification/Approval_Expiry.thy ===== *)
theory Approval_Expiry
  imports Verdict_Gate
begin

text \<open>
  An unanswered ask expires (\<^verbatim>\<open>src/gates/approval-expiry.ts\<close>): the sweep that moves asks past their window from
  review to blocked, its receipts, notices and digests, the reset of the resubmission cap, and the
  cron's tick, which only reads unless enforcement is on. The rule itself, the predicate of a live ask, is in
  \<open>Verdict_Write\<close>, because the verdict's write embeds it.

  The sweep reads its candidates once and then runs one transaction per candidate. \<open>sweep_world\<close> says what each
  iteration finds: what others did to the tables before it, whether its statement throws, the clock, the fresh
  stamp and receipt id, and what the message bus answers for a digest (the number of entries delivered,
  \<^verbatim>\<open>src/approval-bot/status.ts\<close>). JavaScript's date functions are the arguments \<open>date_parse\<close> and \<open>toISOString\<close>.
  The columns that carry a bounced clock live in triggers of the schema and are not modelled.
\<close>

section \<open>State\<close>

datatype expiry_reason = Approval_expired | Gate_owner_dead | Resubmit_cap_reset

datatype expiry_via = Via_cron | Via_backfill | Via_human

record expiry_receipt =
  er_id :: string
  er_task_id :: string
  er_squad_id :: string
  er_gate_owner :: string
  er_from :: task_status
  er_to :: task_status
  er_reason :: expiry_reason
  er_review_entered_at :: "string option"
  er_expires_at :: "string option"
  er_expired_count_after :: nat
  er_actor :: string
  er_via :: expiry_via
  er_notify_target :: "string option"

record expiry_db =
  ed_db :: verdict_db
  ed_auth :: auth_env
  ed_receipts :: "expiry_receipt list"
  ed_notices :: "(string \<times> string) list"

record sweep_entry =
  sy_task_id :: string
  sy_gate_owner :: string
  sy_reason :: expiry_reason
  sy_receipt_id :: string
  sy_episode :: string
  sy_notice :: string

record sweep_result =
  sw_dry_run :: bool
  sw_scanned :: nat
  sw_expired :: nat
  sw_approval_expired :: nat
  sw_gate_owner_dead :: nat
  sw_notified :: nat
  sw_skipped_claimed :: nat
  sw_errors :: nat
  sw_remaining :: nat
  sw_task_ids :: "string list"

record sweep_world =
  ww_now :: "nat \<Rightarrow> int"
  ww_stamp :: "nat \<Rightarrow> string"
  ww_receipt_id :: "nat \<Rightarrow> string"
  ww_other :: "nat \<Rightarrow> expiry_db \<Rightarrow> expiry_db"
  ww_throws :: "nat \<Rightarrow> bool"
  ww_notice_throws :: "nat \<Rightarrow> bool"
  ww_send :: "string \<Rightarrow> sweep_entry list \<Rightarrow> nat"
  ww_date_parse :: "string \<Rightarrow> int option"
  ww_iso :: "int \<Rightarrow> string"

section \<open>Scan\<close>

definition SWEEPER_ACTOR :: string where
  "SWEEPER_ACTOR = ''system:sweeper''"

definition sweep_batch :: int where "sweep_batch = 50"
definition sweep_batch_max :: int where "sweep_batch_max = 200"

text \<open>\<open>None\<close> is \<open>undefined\<close>, \<open>Some None\<close> a number that is no safe integer.\<close>

definition clampLimit :: "int option option \<Rightarrow> nat" where
  "clampLimit limit =
     nat (case limit of
            None \<Rightarrow> sweep_batch
          | Some None \<Rightarrow> sweep_batch
          | Some (Some n) \<Rightarrow> if n < 1 then sweep_batch else min n sweep_batch_max)"

definition gateAskExpiresAt :: "(string \<Rightarrow> int option) \<Rightarrow> (int \<Rightarrow> string) \<Rightarrow> string \<Rightarrow> string option" where
  "gateAskExpiresAt date_parse toISOString entered = map_option (\<lambda>ms. toISOString (ms + gate_verdict_days * 86400000)) (date_parse entered)"

definition GATE_DEAD_SQL :: "expiry_db \<Rightarrow> gated_task \<Rightarrow> bool" where
  "GATE_DEAD_SQL x r \<longleftrightarrow>
     (let g = vd_gates (ed_db x) in
      \<not> exists_row (\<lambda>gg. Some (gg_capability gg) = t_gate_owner r \<and> holder_active g gg) (gate_grants g) \<and>
      \<not> (\<not> exists_row (\<lambda>gg. Some (gg_capability gg) = t_gate_owner r) (gate_grants g) \<and>
         exists_row (\<lambda>cap. g_scope_type cap = Org \<and> (g_capability cap = Owner \<or> g_capability cap = Admin) \<and>
           member_active (ed_db x) (g_member_id cap) \<and>
           holds (CAPABILITY_LIVE_PREDICATE (ed_auth x) (g_expires_at cap))) (t_capabilities (ed_auth x))))"

definition sweep_where :: "verdict_db \<Rightarrow> int \<Rightarrow> gated_task \<Rightarrow> bool" where
  "sweep_where db now r \<longleftrightarrow>
     t_status r = Review \<and> t_gate_owner r \<noteq> None \<and> t_gate_owner r \<noteq> Some [] \<and> \<not> archived db (t_id r) \<and>
     \<not> GATE_ASK_LIVE_PREDICATE db now r"

definition entered_at :: "gated_task \<Rightarrow> string" where
  "entered_at r = (case gt_review_entered_at r of Some e \<Rightarrow> e | None \<Rightarrow> t_updated_at r)"

definition sweep_candidates :: "expiry_db \<Rightarrow> int \<Rightarrow> nat \<Rightarrow> (gated_task \<times> bool) list" where
  "sweep_candidates x now limit =
     map (\<lambda>r. (r, GATE_DEAD_SQL x r))
       (take limit (sort_key entered_at (sort_key t_id (filter (sweep_where (ed_db x) now) (vd_tasks (ed_db x))))))"

section \<open>One candidate\<close>

definition expire_matches :: "verdict_db \<Rightarrow> int \<Rightarrow> gated_task \<Rightarrow> gated_task \<Rightarrow> bool" where
  "expire_matches db now c r \<longleftrightarrow>
     t_id r = t_id c \<and> t_status r = Review \<and> gt_review_entered_at r = gt_review_entered_at c \<and>
     \<not> GATE_ASK_LIVE_PREDICATE db now r \<and> \<not> archived db (t_id r)"

definition blocked_row :: "string \<Rightarrow> gated_task \<Rightarrow> gated_task" where
  "blocked_row stamp r = r\<lparr>t_status := Blocked, t_updated_at := stamp, gt_expired_count := gt_expired_count r + 1\<rparr>"

definition expiry_receipt_of ::
  "string \<Rightarrow> expiry_reason \<Rightarrow> string option \<Rightarrow> string \<Rightarrow> expiry_via \<Rightarrow> string option \<Rightarrow> gated_task \<Rightarrow> expiry_receipt" where
  "expiry_receipt_of rid reason expires actor via target r =
     \<lparr>er_id = rid, er_task_id = t_id r, er_squad_id = t_squad_id r, er_gate_owner = the (t_gate_owner r), er_from = Review,
      er_to = Blocked, er_reason = reason, er_review_entered_at = gt_review_entered_at r, er_expires_at = expires,
      er_expired_count_after = gt_expired_count r, er_actor = actor, er_via = via, er_notify_target = target\<rparr>"

text \<open>The transaction of one candidate, and whether its first statement changed a row.\<close>

definition expire_batch ::
  "expiry_db \<Rightarrow> int \<Rightarrow> string \<Rightarrow> string \<Rightarrow> string option \<Rightarrow> string \<Rightarrow> expiry_via \<Rightarrow> gated_task \<Rightarrow> expiry_reason \<Rightarrow> expiry_db \<times> bool" where
  "expire_batch x now stamp rid expires actor via c reason =
     (let db = ed_db x;
          rows = map (\<lambda>r. if expire_matches db now c r then blocked_row stamp r else r) (vd_tasks db);
          receipts = map (expiry_receipt_of rid reason expires actor via (t_assignee_agent_id c))
            (filter (\<lambda>r. t_id r = t_id c \<and> t_status r = Blocked \<and> t_updated_at r = stamp) rows)
      in (x\<lparr>ed_db := db\<lparr>vd_tasks := rows\<rparr>, ed_receipts := ed_receipts x @ receipts\<rparr>,
          list_ex (expire_matches db now c) (vd_tasks db)))"

text \<open>The source's text has a dash outside the model's characters, written here as two hyphens.\<close>

definition APPROVAL_EXPIRED_NOTICE :: string where
  "APPROVAL_EXPIRED_NOTICE = ''approval expired unanswered -- resubmit if still needed''"

definition persistGateWakeNotice :: "expiry_db \<Rightarrow> string \<Rightarrow> string \<Rightarrow> expiry_db" where
  "persistGateWakeNotice x i notice =
     (if exists_row (\<lambda>r. t_id r = i \<and> \<not> archived (ed_db x) (t_id r)) (vd_tasks (ed_db x))
      then x\<lparr>ed_notices := AList.update i (take 2000 notice) (ed_notices x)\<rparr> else x)"

definition expiryNotice :: "expiry_db \<Rightarrow> bool \<Rightarrow> gated_task \<Rightarrow> expiry_reason \<Rightarrow> string \<Rightarrow> expiry_db \<times> sweep_entry" where
  "expiryNotice x throws c reason rid =
     (let gate = the (t_gate_owner c);
          notice = (if reason = Gate_owner_dead
                    then APPROVAL_EXPIRED_NOTICE @ '' (gate '' @ gate @ '' had no live holder)'' else APPROVAL_EXPIRED_NOTICE)
      in (if throws then x else persistGateWakeNotice x (t_id c) notice,
          \<lparr>sy_task_id = t_id c, sy_gate_owner = gate, sy_reason = reason, sy_receipt_id = rid, sy_episode = entered_at c,
           sy_notice = notice\<rparr>))"

section \<open>The sweep\<close>

record sweep_state =
  ss_db :: expiry_db
  ss_result :: sweep_result
  ss_digests :: "(string \<times> sweep_entry list) list"

definition count_expired :: "expiry_reason \<Rightarrow> string \<Rightarrow> sweep_result \<Rightarrow> sweep_result" where
  "count_expired reason i res =
     res\<lparr>sw_expired := sw_expired res + 1,
         sw_approval_expired := sw_approval_expired res + (if reason = Approval_expired then 1 else 0),
         sw_gate_owner_dead := sw_gate_owner_dead res + (if reason = Gate_owner_dead then 1 else 0),
         sw_task_ids := sw_task_ids res @ [i]\<rparr>"

definition add_digest :: "string option \<Rightarrow> sweep_entry \<Rightarrow> (string \<times> sweep_entry list) list \<Rightarrow> (string \<times> sweep_entry list) list" where
  "add_digest agent entry ds =
     (if truthy agent
      then AList.update (the agent) ((case map_of ds (the agent) of None \<Rightarrow> [] | Some es \<Rightarrow> es) @ [entry]) ds else ds)"

definition flushNotices :: "sweep_world \<Rightarrow> sweep_state \<Rightarrow> sweep_state" where
  "flushNotices w s =
     s\<lparr>ss_result := (ss_result s)\<lparr>sw_notified := sw_notified (ss_result s) +
           sum_list (map (\<lambda>(agent, entries). ww_send w agent entries) (ss_digests s))\<rparr>,
       ss_digests := []\<rparr>"

definition flush_at_25 :: "sweep_world \<Rightarrow> sweep_state \<Rightarrow> sweep_state" where
  "flush_at_25 w s = (if sw_expired (ss_result s) > 0 \<and> sw_expired (ss_result s) mod 25 = 0 then flushNotices w s else s)"

definition sweep_one :: "sweep_world \<Rightarrow> bool \<Rightarrow> expiry_via \<Rightarrow> string \<Rightarrow> nat \<Rightarrow> gated_task \<times> bool \<Rightarrow> sweep_state \<Rightarrow> sweep_state" where
  "sweep_one w dry via actor n cd s =
     (let c = fst cd; reason = (if snd cd then Gate_owner_dead else Approval_expired);
          res = (ss_result s)\<lparr>sw_scanned := sw_scanned (ss_result s) + 1\<rparr>
      in if dry then s\<lparr>ss_result := count_expired reason (t_id c) res\<rparr>
         else
           let x = ww_other w n (ss_db s) in
           if ww_throws w n then flush_at_25 w (s\<lparr>ss_db := x, ss_result := res\<lparr>sw_errors := sw_errors res + 1\<rparr>\<rparr>)
           else
             (case expire_batch x (ww_now w n) (ww_stamp w n) (ww_receipt_id w n)
                     (gateAskExpiresAt (ww_date_parse w) (ww_iso w) (entered_at c)) actor via c reason of
                (x1, False) \<Rightarrow> s\<lparr>ss_db := x1, ss_result := res\<lparr>sw_skipped_claimed := sw_skipped_claimed res + 1\<rparr>\<rparr>
              | (x1, True) \<Rightarrow>
                  (case expiryNotice x1 (ww_notice_throws w n) c reason (ww_receipt_id w n) of
                     (x2, entry) \<Rightarrow>
                       flush_at_25 w (s\<lparr>ss_db := x2, ss_result := count_expired reason (t_id c) res,
                         ss_digests := add_digest (t_assignee_agent_id c) entry (ss_digests s)\<rparr>))))"

fun sweep_loop :: "sweep_world \<Rightarrow> bool \<Rightarrow> expiry_via \<Rightarrow> string \<Rightarrow> nat \<Rightarrow> (gated_task \<times> bool) list \<Rightarrow> sweep_state \<Rightarrow> sweep_state" where
  "sweep_loop w dry via actor n [] s = s"
| "sweep_loop w dry via actor n (cd # cds) s = sweep_loop w dry via actor (n + 1) cds (sweep_one w dry via actor n cd s)"

definition sweepExpiredApprovals ::
  "sweep_world \<Rightarrow> int \<Rightarrow> bool \<Rightarrow> int option option \<Rightarrow> expiry_via \<Rightarrow> string \<Rightarrow> expiry_db \<Rightarrow> expiry_db \<times> sweep_result" where
  "sweepExpiredApprovals w now dry limit via actor x =
     (let cands = sweep_candidates x now (clampLimit limit);
          total = length (filter (sweep_where (ed_db x) now) (vd_tasks (ed_db x)));
          res = \<lparr>sw_dry_run = dry, sw_scanned = 0, sw_expired = 0, sw_approval_expired = 0, sw_gate_owner_dead = 0, sw_notified = 0,
            sw_skipped_claimed = 0, sw_errors = 0, sw_remaining = total - length cands, sw_task_ids = []\<rparr>;
          s = flushNotices w (sweep_loop w dry via actor 0 cands \<lparr>ss_db = x, ss_result = res, ss_digests = []\<rparr>)
      in (ss_db s, ss_result s))"

definition runApprovalExpiryTick :: "sweep_world \<Rightarrow> int \<Rightarrow> string option \<Rightarrow> expiry_db \<Rightarrow> expiry_db \<times> sweep_result" where
  "runApprovalExpiryTick w now enforce x = sweepExpiredApprovals w now (enforce \<noteq> Some ''1'') None Via_cron SWEEPER_ACTOR x"

section \<open>The resubmission cap\<close>

datatype cap_reset_result = Cap_reset string | Cap_not_found | Cap_archived | Cap_no_cap_to_reset | Cap_lost_race

definition cap_matches :: "verdict_db \<Rightarrow> string \<Rightarrow> gated_task \<Rightarrow> bool" where
  "cap_matches db i r \<longleftrightarrow> t_id r = i \<and> gt_expired_count r > 0 \<and> \<not> archived db (t_id r)"

definition cap_receipt_of :: "string \<Rightarrow> string \<Rightarrow> gated_task \<Rightarrow> expiry_receipt" where
  "cap_receipt_of rid m r =
     \<lparr>er_id = rid, er_task_id = t_id r, er_squad_id = t_squad_id r,
      er_gate_owner = (case t_gate_owner r of Some g \<Rightarrow> g | None \<Rightarrow> []), er_from = t_status r, er_to = t_status r,
      er_reason = Resubmit_cap_reset, er_review_entered_at = None, er_expires_at = None, er_expired_count_after = 0,
      er_actor = m, er_via = Via_human, er_notify_target = None\<rparr>"

text \<open>The tables its first read sees, and those of its batch.\<close>

definition resetResubmitCap :: "expiry_db \<Rightarrow> expiry_db \<Rightarrow> string \<Rightarrow> string \<Rightarrow> string \<Rightarrow> expiry_db \<times> cap_reset_result" where
  "resetResubmitCap x0 x rid i m =
     (case first_row (\<lambda>r. t_id r = i) (vd_tasks (ed_db x0)) of
        None \<Rightarrow> (x, Cap_not_found)
      | Some task \<Rightarrow>
          if gt_expired_count task = 0 then (x, Cap_no_cap_to_reset)
          else
            let db = ed_db x;
                receipts = map (cap_receipt_of rid m) (filter (cap_matches db i) (vd_tasks db));
                x1 = x\<lparr>ed_db := db\<lparr>vd_tasks := map (\<lambda>r. if cap_matches db i r then r\<lparr>gt_expired_count := 0\<rparr> else r) (vd_tasks db)\<rparr>,
                       ed_receipts := ed_receipts x @ receipts\<rparr>
            in if list_ex (cap_matches db i) (vd_tasks db) then (x1, Cap_reset rid)
               else (x1, if archived db i then Cap_archived else Cap_lost_race))"

section \<open>One ask, one answer\<close>

lemma not_live_gated: "\<not> GATE_ASK_LIVE_PREDICATE db now r \<Longrightarrow> t_gate_owner r \<noteq> None \<and> t_gate_owner r \<noteq> Some []"
  by (auto simp: GATE_ASK_LIVE_PREDICATE_def)

lemma blocked_row_simps [simp]:
  "t_id (blocked_row st r) = t_id r" "t_status (blocked_row st r) = Blocked" "t_updated_at (blocked_row st r) = st"
  "t_gate_owner (blocked_row st r) = t_gate_owner r"
  by (simp_all add: blocked_row_def)

lemma blocked_by_stamp:
  assumes "\<forall>y \<in> set ys. t_updated_at y \<noteq> stamp"
  shows "filter (\<lambda>y. t_id y = i \<and> t_status y = Blocked \<and> t_updated_at y = stamp)
      (map (\<lambda>y. if t_id y = i then blocked_row stamp y else y) ys) = map (blocked_row stamp) (filter (\<lambda>y. t_id y = i) ys)"
  using assms by (induction ys) auto

text \<open>The transaction of a candidate, when the row still matches and when it does not.\<close>

lemma expire_batch_hit:
  assumes "fresh_stamp (ed_db x) stamp" "r \<in> set (vd_tasks (ed_db x))" "expire_matches (ed_db x) now c r"
  shows "expire_batch x now stamp rid expires actor via c reason =
    (x\<lparr>ed_db := (ed_db x)\<lparr>vd_tasks := map (\<lambda>y. if t_id y = t_id r then blocked_row stamp y else y) (vd_tasks (ed_db x))\<rparr>,
       ed_receipts := ed_receipts x @ [expiry_receipt_of rid reason expires actor via (t_assignee_agent_id c) (blocked_row stamp r)]\<rparr>, True)"
proof -
  have d: "distinct (map t_id (vd_tasks (ed_db x)))" using assms(1) by (simp add: fresh_stamp_def)
  have same: "expire_matches (ed_db x) now c y \<longleftrightarrow> t_id y = t_id r" if "y \<in> set (vd_tasks (ed_db x))" for y
    using unique_row [OF d that assms(2)] assms(3) by (auto simp: expire_matches_def)
  have rows: "map (\<lambda>y. if expire_matches (ed_db x) now c y then blocked_row stamp y else y) (vd_tasks (ed_db x)) =
      map (\<lambda>y. if t_id y = t_id r then blocked_row stamp y else y) (vd_tasks (ed_db x))"
    by (rule map_cong) (use same in simp_all)
  have c: "t_id c = t_id r" using assms(3) by (simp add: expire_matches_def)
  have "filter (\<lambda>y. t_id y = t_id r) (vd_tasks (ed_db x)) = [r]"
    using filter_key [OF d, of "t_id r" "\<lambda>_. True"] first_row_key [OF d assms(2)] by simp
  then have "filter (\<lambda>y. t_id y = t_id r \<and> t_status y = Blocked \<and> t_updated_at y = stamp)
      (map (\<lambda>y. if t_id y = t_id r then blocked_row stamp y else y) (vd_tasks (ed_db x))) = [blocked_row stamp r]"
    using assms(1) by (simp add: blocked_by_stamp fresh_stamp_def list_all_iff)
  then show ?thesis
    unfolding expire_batch_def Let_def rows using assms(2,3) by (auto simp: list_ex_iff c)
qed

lemma expire_batch_miss:
  assumes "fresh_stamp (ed_db x) stamp" "\<not> list_ex (expire_matches (ed_db x) now c) (vd_tasks (ed_db x))"
  shows "expire_batch x now stamp rid expires actor via c reason = (x, False)"
proof -
  have rows: "map (\<lambda>y. if expire_matches (ed_db x) now c y then blocked_row stamp y else y) (vd_tasks (ed_db x)) = vd_tasks (ed_db x)"
    using assms(2) by (intro map_idI) (auto simp: list_ex_iff)
  have "filter (\<lambda>r. t_id r = t_id c \<and> t_status r = Blocked \<and> t_updated_at r = stamp) (vd_tasks (ed_db x)) = []"
    using assms(1) by (auto simp: fresh_stamp_def list_all_iff filter_empty_conv)
  then show ?thesis unfolding expire_batch_def Let_def rows using assms(2) by simp
qed

text \<open>Every way an ask is answered or its row is touched by these operations.\<close>

inductive ask_step :: "expiry_db \<Rightarrow> expiry_db \<Rightarrow> bool" where
  Give_verdict: "fresh_stamp (ed_db x) stamp \<Longrightarrow> writeVerdict dbr (ed_db x) dbd now stamp vid inp actor = (db', res) \<Longrightarrow>
    ask_step x (x\<lparr>ed_db := db'\<rparr>)"
| Expire: "fresh_stamp (ed_db x) stamp \<Longrightarrow> reason \<noteq> Resubmit_cap_reset \<Longrightarrow>
    expire_batch x now stamp rid expires actor via c reason = (x', hit) \<Longrightarrow> ask_step x x'"
| Notice: "ask_step x (persistGateWakeNotice x i msg)"
| Reset_cap: "resetResubmitCap x0 x rid i m = (x', res) \<Longrightarrow> ask_step x x'"

definition verdicts_of :: "expiry_db \<Rightarrow> string \<Rightarrow> verdict_row list" where
  "verdicts_of x i = filter (\<lambda>v. tv_task_id v = i) (vd_verdicts (ed_db x))"

definition expiries_of :: "expiry_db \<Rightarrow> string \<Rightarrow> expiry_receipt list" where
  "expiries_of x i = filter (\<lambda>e. er_task_id e = i \<and> er_reason e \<noteq> Resubmit_cap_reset) (ed_receipts x)"

definition status_of :: "expiry_db \<Rightarrow> string \<Rightarrow> task_status option" where
  "status_of x i = map_option t_status (first_row (\<lambda>r. t_id r = i) (vd_tasks (ed_db x)))"

lemma status_of_map:
  assumes "\<And>r. t_id (f r) = t_id r"
  shows "map_option t_status (first_row (\<lambda>r. t_id r = i) (map f rows)) =
    map_option (\<lambda>r. t_status (f r)) (first_row (\<lambda>r. t_id r = i) rows)"
  unfolding first_row_def by (induction rows) (auto simp: assms)

text \<open>What one step does to a task's status, verdicts and expiries.\<close>

datatype ask_change = Unanswered | Answered verdict_row | Lapsed expiry_receipt

fun change_ok :: "ask_change \<Rightarrow> string \<Rightarrow> expiry_db \<Rightarrow> expiry_db \<Rightarrow> bool" where
  "change_ok Unanswered i x y \<longleftrightarrow> status_of y i = status_of x i \<and> verdicts_of y i = verdicts_of x i \<and> expiries_of y i = expiries_of x i"
| "change_ok (Answered v) i x y \<longleftrightarrow> status_of x i = Some Review \<and> status_of y i = Some (verdict_status (tv_verdict v)) \<and>
     verdicts_of y i = verdicts_of x i @ [v] \<and> expiries_of y i = expiries_of x i"
| "change_ok (Lapsed e) i x y \<longleftrightarrow> status_of x i = Some Review \<and> status_of y i = Some Blocked \<and>
     verdicts_of y i = verdicts_of x i \<and> expiries_of y i = expiries_of x i @ [e] \<and> er_from e = Review \<and> er_to e = Blocked"

lemma step_verdict:
  assumes "fresh_stamp (ed_db x) stamp" "writeVerdict dbr (ed_db x) dbd now stamp vid inp actor = (db', res)"
  shows "\<exists>c. change_ok c i x (x\<lparr>ed_db := db'\<rparr>)"
proof (cases res)
  case (Inl e)
  with assms writeVerdict_Inl have "db' = ed_db x" by blast
  then have "change_ok Unanswered i x (x\<lparr>ed_db := db'\<rparr>)" by simp
  then show ?thesis by blast
next
  case (Inr p)
  obtain t v where p: "p = (t, v)" by force
  show ?thesis
  proof (rule writeVerdict_Inr [OF assms(1), of dbr dbd now vid inp actor db' t v])
    show "writeVerdict dbr (ed_db x) dbd now stamp vid inp actor = (db', Inr (t, v))" using assms Inr p by simp
    fix r inp1 sub kind
    assume r: "r \<in> set (vd_tasks (ed_db x))" and m: "verdict_matches (ed_db x) now inp sub r" and v: "v = verdict_of vid stamp inp1 sub kind"
      and i1: "inp1 = inp \<or> inp1 = inp\<lparr>vi_proposalId := Some (resolveVerdictProposalId dbr (vi_task inp))\<rparr>"
      and db': "db' = (ed_db x)\<lparr>vd_tasks := map (\<lambda>y. if y = r then r\<lparr>t_status := verdict_status (vi_verdict inp), t_updated_at := stamp\<rparr> else y)
        (vd_tasks (ed_db x)), vd_verdicts := vd_verdicts (ed_db x) @ [v]\<rparr>"
    have v': "tv_task_id v = t_id r" "tv_verdict v = vi_verdict inp"
      using v i1 m by (auto simp: verdict_of_def verdict_matches_def)
    have st: "status_of (x\<lparr>ed_db := db'\<rparr>) i = map_option (\<lambda>y. if y = r then verdict_status (vi_verdict inp) else t_status y)
        (first_row (\<lambda>y. t_id y = i) (vd_tasks (ed_db x)))"
      unfolding status_of_def db' by (simp add: status_of_map if_distrib [of t_status] cong: if_cong)
    show ?thesis
    proof (cases "i = t_id r")
      case True
      have "first_row (\<lambda>y. t_id y = i) (vd_tasks (ed_db x)) = Some r"
        unfolding True by (rule first_row_key) (use assms(1) r in \<open>simp_all add: fresh_stamp_def\<close>)
      then have "change_ok (Answered v) i x (x\<lparr>ed_db := db'\<rparr>)"
        using st m v' True by (simp add: status_of_def verdicts_of_def expiries_of_def db' verdict_matches_def)
      then show ?thesis by blast
    next
      case False
      have "map_option (\<lambda>y. if y = r then verdict_status (vi_verdict inp) else t_status y) (first_row (\<lambda>y. t_id y = i) (vd_tasks (ed_db x))) =
          status_of x i"
        unfolding status_of_def using False by (cases "first_row (\<lambda>y. t_id y = i) (vd_tasks (ed_db x))") (auto dest: first_row_Some)
      then have "change_ok Unanswered i x (x\<lparr>ed_db := db'\<rparr>)"
        using st v' False by (simp add: verdicts_of_def expiries_of_def db')
      then show ?thesis by blast
    qed
  qed
qed

lemma step_expire:
  assumes "fresh_stamp (ed_db x) stamp" "reason \<noteq> Resubmit_cap_reset"
    and "expire_batch x now stamp rid expires actor via c reason = (x', hit)"
  shows "\<exists>c. change_ok c i x x'"
proof (cases "list_ex (expire_matches (ed_db x) now c) (vd_tasks (ed_db x))")
  case False
  with assms expire_batch_miss have "x' = x" by simp
  then have "change_ok Unanswered i x x'" by simp
  then show ?thesis by blast
next
  case True
  then obtain r where r: "r \<in> set (vd_tasks (ed_db x))" "expire_matches (ed_db x) now c r" by (auto simp: list_ex_iff)
  define e where "e = expiry_receipt_of rid reason expires actor via (t_assignee_agent_id c) (blocked_row stamp r)"
  have x': "x' = x\<lparr>ed_db := (ed_db x)\<lparr>vd_tasks := map (\<lambda>y. if t_id y = t_id r then blocked_row stamp y else y) (vd_tasks (ed_db x))\<rparr>,
       ed_receipts := ed_receipts x @ [e]\<rparr>"
    using assms(3) expire_batch_hit [OF assms(1) r, of rid expires actor via reason] by (simp add: e_def)
  have e: "er_task_id e = t_id r" "er_reason e = reason" "er_from e = Review" "er_to e = Blocked"
    by (simp_all add: e_def expiry_receipt_of_def)
  have st: "status_of x' i = map_option (\<lambda>y. if t_id y = t_id r then Blocked else t_status y)
      (first_row (\<lambda>y. t_id y = i) (vd_tasks (ed_db x)))"
    unfolding status_of_def x' by (simp add: status_of_map if_distrib [of t_status] cong: if_cong)
  show ?thesis
  proof (cases "i = t_id r")
    case True
    have "first_row (\<lambda>y. t_id y = i) (vd_tasks (ed_db x)) = Some r"
      unfolding True by (rule first_row_key) (use assms(1) r in \<open>simp_all add: fresh_stamp_def\<close>)
    then have "change_ok (Lapsed e) i x x'"
      using st r(2) e True assms(2) by (simp add: status_of_def verdicts_of_def expiries_of_def x' expire_matches_def)
    then show ?thesis by blast
  next
    case False
    have "map_option (\<lambda>y. if t_id y = t_id r then Blocked else t_status y) (first_row (\<lambda>y. t_id y = i) (vd_tasks (ed_db x))) = status_of x i"
      unfolding status_of_def using False by (cases "first_row (\<lambda>y. t_id y = i) (vd_tasks (ed_db x))") (auto dest: first_row_Some)
    then have "change_ok Unanswered i x x'"
      using st e False by (simp add: verdicts_of_def expiries_of_def x')
    then show ?thesis by blast
  qed
qed

lemma step_reset:
  assumes "resetResubmitCap x0 x rid j m = (x', res)"
  shows "change_ok Unanswered i x x'"
proof -
  have "map_option t_status (first_row (\<lambda>r. t_id r = i) (map (\<lambda>r. if p r then r\<lparr>gt_expired_count := 0\<rparr> else r) rows)) =
      map_option t_status (first_row (\<lambda>r. t_id r = i) rows)" for p and rows :: "gated_task list"
    by (subst status_of_map) (auto simp: if_distrib [of t_status] cong: if_cong)
  moreover have "filter (\<lambda>e. er_task_id e = i \<and> er_reason e \<noteq> Resubmit_cap_reset) (map (cap_receipt_of rid m) rs) = []" for rs
    by (simp add: cap_receipt_of_def filter_empty_conv)
  ultimately show ?thesis
    using assms by (auto simp: resetResubmitCap_def Let_def status_of_def verdicts_of_def expiries_of_def split: option.splits if_splits)
qed

lemma ask_step_change: "ask_step x y \<Longrightarrow> \<exists>c. change_ok c i x y"
proof (induction rule: ask_step.induct)
  case (Notice x j msg)
  have "change_ok Unanswered i x (persistGateWakeNotice x j msg)"
    by (simp add: persistGateWakeNotice_def status_of_def verdicts_of_def expiries_of_def)
  then show ?case by blast
qed (blast intro: step_verdict step_expire step_reset)+

text \<open>C26: One ask, one answer. Over any sequence of verdicts, expiries, notices and cap resets, in any order and whatever
  each of them had read before, a task that was in review is at the end either still in review with nothing recorded; or
  decided, with exactly one new verdict, whose value is its status, and no expiry; or blocked, with exactly one new expiry
  receipt and no verdict. An expiry is never an approval, and a late verdict never lands on an ask already swept.\<close>
theorem one_ask_one_answer:
  assumes "ask_step\<^sup>*\<^sup>* x y" and "status_of x i = Some Review"
  shows "\<exists>c. change_ok c i x y"
  using assms
proof (induction rule: rtranclp_induct)
  case base
  have "change_ok Unanswered i x x" by simp
  then show ?case by blast
next
  case (step y z)
  then obtain c where c: "change_ok c i x y" by blast
  obtain d where d: "change_ok d i y z" using ask_step_change step(2) by blast
  have "change_ok (if c = Unanswered then d else c) i x z"
  proof (cases c)
    case Unanswered
    with c d show ?thesis by (cases d) simp_all
  next
    case (Answered v)
    with c have "status_of y i \<noteq> Some Review" by (cases "tv_verdict v") (simp_all add: verdict_status_def)
    with c d Answered show ?thesis by (cases d) simp_all
  next
    case (Lapsed e)
    with c d show ?thesis by (cases d) simp_all
  qed
  then show ?case by blast
qed

section \<open>The sweep without interference\<close>

text \<open>Nobody else acts, no statement throws, and the clock stands still.\<close>

definition quiet :: "sweep_world \<Rightarrow> int \<Rightarrow> bool" where
  "quiet w now \<longleftrightarrow> (\<forall>n x. ww_other w n x = x \<and> \<not> ww_throws w n \<and> ww_now w n = now)"

definition blocked_all :: "(string \<Rightarrow> string option) \<Rightarrow> gated_task list \<Rightarrow> gated_task list" where
  "blocked_all stamps = map (\<lambda>r. case stamps (t_id r) of None \<Rightarrow> r | Some st \<Rightarrow> blocked_row st r)"

definition stamps_of :: "sweep_world \<Rightarrow> nat \<Rightarrow> gated_task list \<Rightarrow> string \<Rightarrow> string option" where
  "stamps_of w n cs = map_of (zip (map t_id cs) (map (ww_stamp w) [n..<n + length cs]))"

definition receipts_of :: "sweep_world \<Rightarrow> expiry_via \<Rightarrow> string \<Rightarrow> nat \<Rightarrow> (gated_task \<times> bool) list \<Rightarrow> expiry_receipt list" where
  "receipts_of w via actor n cds =
     map (\<lambda>(k, c, dead). expiry_receipt_of (ww_receipt_id w k) (if dead then Gate_owner_dead else Approval_expired)
       (gateAskExpiresAt (ww_date_parse w) (ww_iso w) (entered_at c)) actor via (t_assignee_agent_id c) (blocked_row (ww_stamp w k) c))
     (zip [n..<n + length cds] cds)"

definition swept :: "sweep_world \<Rightarrow> expiry_via \<Rightarrow> string \<Rightarrow> nat \<Rightarrow> (gated_task \<times> bool) list \<Rightarrow> expiry_db \<Rightarrow> expiry_db" where
  "swept w via actor n cds x =
     x\<lparr>ed_db := (ed_db x)\<lparr>vd_tasks := blocked_all (stamps_of w n (map fst cds)) (vd_tasks (ed_db x))\<rparr>,
       ed_receipts := ed_receipts x @ receipts_of w via actor n cds, ed_notices := []\<rparr>"

text \<open>What a candidate needs of the tables, and its one step; notices and delivery counts are set aside.\<close>

lemma flush_core:
  "ss_db (flush_at_25 w s) = ss_db s" "(ss_result (flush_at_25 w s))\<lparr>sw_notified := k\<rparr> = (ss_result s)\<lparr>sw_notified := k\<rparr>"
  by (simp_all add: flush_at_25_def flushNotices_def)

lemma notice_core:
  "fst (expiryNotice x b c reason rid)\<lparr>ed_notices := []\<rparr> = x\<lparr>ed_notices := []\<rparr>"
  by (simp add: expiryNotice_def persistGateWakeNotice_def Let_def)

lemma count_core:
  "(count_expired reason i res)\<lparr>sw_notified := k\<rparr> = (count_expired reason i (res\<lparr>sw_notified := k\<rparr>))\<lparr>sw_notified := k\<rparr>"
  by (simp add: count_expired_def)

lemma sweep_one_core:
  assumes q: "quiet w now" and f: "fresh_stamp (ed_db (ss_db s)) (ww_stamp w n)"
    and c: "c \<in> set (vd_tasks (ed_db (ss_db s)))" "sweep_where (ed_db (ss_db s)) now c"
  shows "(ss_db (sweep_one w False via actor n (c, dead) s))\<lparr>ed_notices := []\<rparr> = swept w via actor n [(c, dead)] (ss_db s)"
    and "(ss_result (sweep_one w False via actor n (c, dead) s))\<lparr>sw_notified := 0\<rparr> =
      (ss_result (sweep_one w' True via actor n (c, dead) s))\<lparr>sw_notified := 0\<rparr>"
proof -
  define reason where "reason = (if dead then Gate_owner_dead else Approval_expired)"
  have m: "expire_matches (ed_db (ss_db s)) now c c" using c by (simp add: sweep_where_def expire_matches_def)
  define x1 where "x1 = fst (expire_batch (ss_db s) now (ww_stamp w n) (ww_receipt_id w n)
      (gateAskExpiresAt (ww_date_parse w) (ww_iso w) (entered_at c)) actor via c reason)"
  have b: "expire_batch (ss_db s) now (ww_stamp w n) (ww_receipt_id w n)
      (gateAskExpiresAt (ww_date_parse w) (ww_iso w) (entered_at c)) actor via c reason = (x1, True)"
    unfolding x1_def using expire_batch_hit [OF f c(1) m] by simp
  have x1: "x1\<lparr>ed_notices := []\<rparr> = swept w via actor n [(c, dead)] (ss_db s)"
    unfolding x1_def reason_def using expire_batch_hit [OF f c(1) m]
    by (simp add: swept_def receipts_of_def blocked_all_def stamps_of_def cong: if_cong)
  define p where "p = expiryNotice x1 (ww_notice_throws w n) c reason (ww_receipt_id w n)"
  have one: "sweep_one w False via actor n (c, dead) s =
      flush_at_25 w (s\<lparr>ss_db := fst p, ss_result := count_expired reason (t_id c) ((ss_result s)\<lparr>sw_scanned := sw_scanned (ss_result s) + 1\<rparr>),
        ss_digests := add_digest (t_assignee_agent_id c) (snd p) (ss_digests s)\<rparr>)"
    using q b unfolding sweep_one_def quiet_def Let_def by (simp add: reason_def [symmetric] p_def [symmetric] split: prod.splits)
  show "(ss_db (sweep_one w False via actor n (c, dead) s))\<lparr>ed_notices := []\<rparr> = swept w via actor n [(c, dead)] (ss_db s)"
    unfolding one by (simp add: flush_core p_def notice_core x1)
  show "(ss_result (sweep_one w False via actor n (c, dead) s))\<lparr>sw_notified := 0\<rparr> =
      (ss_result (sweep_one w' True via actor n (c, dead) s))\<lparr>sw_notified := 0\<rparr>"
    unfolding one by (simp add: flush_core sweep_one_def reason_def Let_def)
qed

lemma stamps_of_Cons: "stamps_of w n (c # cs) = (stamps_of w (Suc n) cs)(t_id c \<mapsto> ww_stamp w n)"
  by (simp add: stamps_of_def upt_conv_Cons del: upt_Suc)

lemma receipts_of_Cons: "receipts_of w via actor n (cd # cds) = receipts_of w via actor n [cd] @ receipts_of w via actor (Suc n) cds"
  by (simp add: receipts_of_def upt_conv_Cons del: upt_Suc split: prod.splits)

lemma stamps_of_None: "i \<notin> t_id ` set cs \<Longrightarrow> stamps_of w n cs i = None"
  by (auto simp: stamps_of_def map_of_eq_None_iff in_set_zip)

lemma swept_Cons:
  assumes "t_id (fst cd) \<notin> t_id ` fst ` set cds"
  shows "swept w via actor (Suc n) cds (swept w via actor n [cd] x) = swept w via actor n (cd # cds) x"
proof -
  have "blocked_all (stamps_of w (Suc n) (map fst cds)) (blocked_all (stamps_of w n [fst cd]) ts) =
      blocked_all (stamps_of w n (fst cd # map fst cds)) ts" for ts
    using stamps_of_None [of "t_id (fst cd)" "map fst cds" w "Suc n"] assms
    by (auto simp: blocked_all_def stamps_of_Cons stamps_of_def [of w _ "[]"] split: option.splits)
  then show ?thesis
    using receipts_of_Cons [of w via actor n cd cds] by (simp add: swept_def)
qed

lemma sweep_where_tasks [simp]: "sweep_where (db\<lparr>vd_tasks := ts\<rparr>) now = sweep_where db now"
  by (simp add: fun_eq_iff sweep_where_def archived_def GATE_ASK_LIVE_PREDICATE_def)

lemma swept_notices: "swept w via actor n cds (x\<lparr>ed_notices := k\<rparr>) = swept w via actor n cds x"
  by (simp add: swept_def)

lemma sweep_one_dry:
  "(ss_result s)\<lparr>sw_notified := 0\<rparr> = (ss_result s')\<lparr>sw_notified := 0\<rparr> \<Longrightarrow>
   (ss_result (sweep_one w True via actor n cd s))\<lparr>sw_notified := 0\<rparr> = (ss_result (sweep_one w True via actor n cd s'))\<lparr>sw_notified := 0\<rparr>"
  by (cases "ss_result s"; cases "ss_result s'") (auto simp: sweep_one_def Let_def count_expired_def)

definition sweep_ready :: "sweep_world \<Rightarrow> int \<Rightarrow> nat \<Rightarrow> (gated_task \<times> bool) list \<Rightarrow> verdict_db \<Rightarrow> bool" where
  "sweep_ready w now n cds db \<longleftrightarrow>
     distinct (map t_id (vd_tasks db)) \<and> distinct (map (\<lambda>cd. t_id (fst cd)) cds) \<and>
     (\<forall>cd \<in> set cds. fst cd \<in> set (vd_tasks db) \<and> sweep_where db now (fst cd)) \<and>
     (\<forall>k \<ge> n. \<forall>r \<in> set (vd_tasks db). t_updated_at r \<noteq> ww_stamp w k)"

lemma sweep_ready_step:
  assumes "sweep_ready w now n (cd # cds) (ed_db x)" "inj (ww_stamp w)"
  shows "sweep_ready w now (Suc n) cds (ed_db (swept w via actor n [cd] x))"
proof -
  define ts where "ts = vd_tasks (ed_db x)"
  define f where "f = (\<lambda>r. if t_id r = t_id (fst cd) then blocked_row (ww_stamp w n) r else r)"
  have e: "ed_db (swept w via actor n [cd] x) = (ed_db x)\<lparr>vd_tasks := map f ts\<rparr>"
    by (auto simp: swept_def blocked_all_def stamps_of_def f_def ts_def)
  have ids: "map t_id (map f ts) = map t_id ts" by (simp add: f_def)
  have keep: "c \<in> set (map f ts)" if "c \<in> set ts" "t_id c \<noteq> t_id (fst cd)" for c
    using that by (auto simp: f_def image_iff intro!: bexI [of _ c])
  have stamps: "t_updated_at r \<noteq> ww_stamp w k" if r: "r \<in> set (map f ts)" and k: "k \<ge> Suc n" for r k
  proof -
    obtain y where y: "y \<in> set ts" "r = f y" using r by auto
    have "\<forall>r \<in> set ts. t_updated_at r \<noteq> ww_stamp w k"
      using assms(1) k unfolding sweep_ready_def ts_def by (meson Suc_leD)
    moreover have "ww_stamp w n \<noteq> ww_stamp w k" using assms(2) k by (auto dest: injD)
    ultimately show ?thesis using y by (simp add: f_def)
  qed
  have "fst cd' \<in> set (map f ts)" if "cd' \<in> set cds" for cd'
  proof (rule keep)
    show "fst cd' \<in> set ts" using assms(1) that by (simp add: sweep_ready_def ts_def)
    have "t_id (fst cd) \<notin> (\<lambda>cd. t_id (fst cd)) ` set cds" using assms(1) by (simp add: sweep_ready_def)
    then show "t_id (fst cd') \<noteq> t_id (fst cd)" using that by (metis (mono_tags, lifting) image_eqI)
  qed
  then show ?thesis
    using assms(1) ids stamps unfolding sweep_ready_def e
    by (simp add: ts_def [symmetric] del: map_map map_eq_conv)
qed

lemma sweep_loop_head:
  assumes "quiet w now" "inj (ww_stamp w)" "sweep_ready w now n (cd # cds) (ed_db (ss_db s))"
  shows "(ss_db (sweep_one w False via actor n cd s))\<lparr>ed_notices := []\<rparr> = swept w via actor n [cd] (ss_db s)"
    and "sweep_ready w now (Suc n) cds (ed_db (ss_db (sweep_one w False via actor n cd s)))"
    and "(ss_result (sweep_one w False via actor n cd s))\<lparr>sw_notified := 0\<rparr> =
      (ss_result (sweep_one w' True via actor n cd s))\<lparr>sw_notified := 0\<rparr>"
proof -
  obtain c dead where cd: "cd = (c, dead)" by force
  have f: "fresh_stamp (ed_db (ss_db s)) (ww_stamp w n)" "c \<in> set (vd_tasks (ed_db (ss_db s)))" "sweep_where (ed_db (ss_db s)) now c"
    using assms(3) by (auto simp: sweep_ready_def fresh_stamp_def list_all_iff cd)
  show one: "(ss_db (sweep_one w False via actor n cd s))\<lparr>ed_notices := []\<rparr> = swept w via actor n [cd] (ss_db s)"
    unfolding cd by (rule sweep_one_core(1) [OF assms(1) f])
  have "ed_db (ss_db (sweep_one w False via actor n cd s)) = ed_db ((ss_db (sweep_one w False via actor n cd s))\<lparr>ed_notices := []\<rparr>)"
    by simp
  then show "sweep_ready w now (Suc n) cds (ed_db (ss_db (sweep_one w False via actor n cd s)))"
    using sweep_ready_step [OF assms(3,2), of via actor] unfolding one by simp
  show "(ss_result (sweep_one w False via actor n cd s))\<lparr>sw_notified := 0\<rparr> =
      (ss_result (sweep_one w' True via actor n cd s))\<lparr>sw_notified := 0\<rparr>"
    unfolding cd by (rule sweep_one_core(2) [OF assms(1) f])
qed

lemma sweep_loop_db:
  assumes "quiet w now" "inj (ww_stamp w)" "sweep_ready w now n cds (ed_db (ss_db s))"
  shows "(ss_db (sweep_loop w False via actor n cds s))\<lparr>ed_notices := []\<rparr> = swept w via actor n cds (ss_db s)"
  using assms(3)
proof (induction cds arbitrary: n s)
  case Nil
  show ?case by (simp add: swept_def receipts_of_def blocked_all_def stamps_of_def)
next
  case (Cons cd cds)
  note head = sweep_loop_head [OF assms(1,2) Cons.prems, of via actor]
  have "(ss_db (sweep_loop w False via actor n (cd # cds) s))\<lparr>ed_notices := []\<rparr> =
      swept w via actor (Suc n) cds ((ss_db (sweep_one w False via actor n cd s))\<lparr>ed_notices := []\<rparr>)"
    using Cons.IH [OF head(2)] by (simp add: swept_notices)
  also have "\<dots> = swept w via actor n (cd # cds) (ss_db s)"
    unfolding head(1) by (rule swept_Cons) (use Cons.prems in \<open>auto simp: sweep_ready_def image_iff\<close>)
  finally show ?case .
qed

lemma sweep_loop_result:
  assumes "quiet w now" "inj (ww_stamp w)" "sweep_ready w now n cds (ed_db (ss_db s))"
    and "(ss_result s)\<lparr>sw_notified := 0\<rparr> = (ss_result s')\<lparr>sw_notified := 0\<rparr>"
  shows "(ss_result (sweep_loop w False via actor n cds s))\<lparr>sw_notified := 0\<rparr> =
      (ss_result (sweep_loop w' True via actor n cds s'))\<lparr>sw_notified := 0\<rparr>"
  using assms(3,4)
proof (induction cds arbitrary: n s s')
  case (Cons cd cds)
  note head = sweep_loop_head [OF assms(1,2) Cons.prems(1), of via actor]
  have "(ss_result (sweep_one w False via actor n cd s))\<lparr>sw_notified := 0\<rparr> =
      (ss_result (sweep_one w' True via actor n cd s'))\<lparr>sw_notified := 0\<rparr>"
    using head(3) [of w'] sweep_one_dry [OF Cons.prems(2), of w' via actor n cd] by simp
  from Cons.IH [OF head(2) this] show ?case by simp
qed simp

lemma sweep_loop_dry:
  "ss_db (sweep_loop w True via actor n cds s) = ss_db s"
  "ss_digests s = [] \<Longrightarrow> ss_digests (sweep_loop w True via actor n cds s) = []"
  "sw_task_ids (ss_result (sweep_loop w True via actor n cds s)) = sw_task_ids (ss_result s) @ map (\<lambda>cd. t_id (fst cd)) cds"
  "sw_expired (ss_result (sweep_loop w True via actor n cds s)) = sw_expired (ss_result s) + length cds"
  "sw_remaining (ss_result (sweep_loop w True via actor n cds s)) = sw_remaining (ss_result s)"
  "sw_notified (ss_result (sweep_loop w True via actor n cds s)) = sw_notified (ss_result s)"
  by (induction cds arbitrary: n s) (simp_all add: sweep_one_def Let_def count_expired_def)

lemma sweep_loop_flag:
  "ss_result s' = (ss_result s)\<lparr>sw_dry_run := d\<rparr> \<Longrightarrow>
   ss_result (sweep_loop w True via actor n cds s') = (ss_result (sweep_loop w True via actor n cds s))\<lparr>sw_dry_run := d\<rparr>"
  by (induction cds arbitrary: n s s') (simp_all add: sweep_one_def Let_def count_expired_def)

lemma sweep_candidates_rows:
  assumes "distinct (map t_id (vd_tasks (ed_db x)))"
  shows "set (map fst (sweep_candidates x now limit)) \<subseteq> {r \<in> set (vd_tasks (ed_db x)). sweep_where (ed_db x) now r}"
    "distinct (map (\<lambda>cd. t_id (fst cd)) (sweep_candidates x now limit))"
    "length (sweep_candidates x now limit) = min limit (length (filter (sweep_where (ed_db x) now) (vd_tasks (ed_db x))))"
proof -
  define rows where "rows = sort_key entered_at (sort_key t_id (filter (sweep_where (ed_db x) now) (vd_tasks (ed_db x))))"
  have c: "sweep_candidates x now limit = map (\<lambda>r. (r, GATE_DEAD_SQL x r)) (take limit rows)"
    by (simp add: sweep_candidates_def rows_def)
  have "set rows = {r \<in> set (vd_tasks (ed_db x)). sweep_where (ed_db x) now r}" by (auto simp: rows_def)
  then show "set (map fst (sweep_candidates x now limit)) \<subseteq> {r \<in> set (vd_tasks (ed_db x)). sweep_where (ed_db x) now r}"
    unfolding c by (auto dest: in_set_takeD)
  have "mset (map t_id rows) = mset (map t_id (filter (sweep_where (ed_db x) now) (vd_tasks (ed_db x))))"
    by (simp add: rows_def)
  moreover have "distinct (map t_id (filter (sweep_where (ed_db x) now) (vd_tasks (ed_db x))))"
    using assms by (rule distinct_map_filter)
  ultimately have "distinct (map t_id rows)" by (metis mset_eq_imp_distinct_iff)
  then show "distinct (map (\<lambda>cd. t_id (fst cd)) (sweep_candidates x now limit))"
    unfolding c by (simp add: comp_def take_map [symmetric])
  show "length (sweep_candidates x now limit) = min limit (length (filter (sweep_where (ed_db x) now) (vd_tasks (ed_db x))))"
    unfolding c by (simp add: rows_def min.commute)
qed

lemma sweep_start_ready:
  assumes "distinct (map t_id (vd_tasks (ed_db x)))" "\<forall>k. \<forall>r \<in> set (vd_tasks (ed_db x)). t_updated_at r \<noteq> ww_stamp w k"
  shows "sweep_ready w now 0 (sweep_candidates x now limit) (ed_db x)"
  using sweep_candidates_rows [OF assms(1), of now limit] assms unfolding sweep_ready_def by auto

lemma sweep_real:
  assumes "quiet w now" "inj (ww_stamp w)" "distinct (map t_id (vd_tasks (ed_db x)))"
    and "\<forall>k. \<forall>r \<in> set (vd_tasks (ed_db x)). t_updated_at r \<noteq> ww_stamp w k"
    and "sweepExpiredApprovals w now False limit via actor x = (x', res)"
  shows "x'\<lparr>ed_notices := []\<rparr> = swept w via actor 0 (sweep_candidates x now (clampLimit limit)) x"
proof -
  define cands where "cands = sweep_candidates x now (clampLimit limit)"
  have "sweep_ready w now 0 cands (ed_db x)" unfolding cands_def by (rule sweep_start_ready [OF assms(3,4)])
  then have "(ss_db (sweep_loop w False via actor 0 cands \<lparr>ss_db = x, ss_result = r, ss_digests = []\<rparr>))\<lparr>ed_notices := []\<rparr> =
      swept w via actor 0 cands x" for r
    using sweep_loop_db [OF assms(1,2), of 0 cands "\<lparr>ss_db = x, ss_result = r, ss_digests = []\<rparr>" via actor] by simp
  then show ?thesis
    using assms(5) unfolding sweepExpiredApprovals_def Let_def flushNotices_def cands_def [symmetric] by auto
qed

lemma sweep_one_remaining: "sw_remaining (ss_result (sweep_one w dry via actor n cd s)) = sw_remaining (ss_result s)"
  by (simp add: sweep_one_def Let_def count_expired_def flush_at_25_def flushNotices_def split: prod.splits bool.splits)

lemma sweep_loop_remaining: "sw_remaining (ss_result (sweep_loop w dry via actor n cds s)) = sw_remaining (ss_result s)"
  by (induction cds arbitrary: n s) (simp_all add: sweep_one_remaining)

lemma clampLimit_bounds: "1 \<le> clampLimit limit" "clampLimit limit \<le> 200"
  by (auto simp: clampLimit_def sweep_batch_def sweep_batch_max_def split: option.splits)

text \<open>C27: A sweep that nobody interferes with does exactly what its dry run reports, up to the deliveries, and a dry run changes
  nothing. It takes the expired, gated, unarchived asks in review, oldest first, at most its limit of them; it moves exactly
  those rows to blocked and counts their expiry, writes one receipt for each in that order, writes no verdict and touches
  nothing else but notices.\<close>
theorem sweep_does_what_it_reports:
  assumes "quiet w now" "inj (ww_stamp w)" "distinct (map t_id (vd_tasks (ed_db x)))"
    and "\<forall>k. \<forall>r \<in> set (vd_tasks (ed_db x)). t_updated_at r \<noteq> ww_stamp w k"
    and "sweepExpiredApprovals w now False limit via actor x = (x', res)"
    and "sweepExpiredApprovals w' now True limit via actor x = (x'', dry)"
    and "cands = sweep_candidates x now (clampLimit limit)"
  shows "x'' = x \<and> res\<lparr>sw_notified := 0, sw_dry_run := True\<rparr> = dry \<and> sw_task_ids dry = map (\<lambda>cd. t_id (fst cd)) cands \<and>
    x'\<lparr>ed_notices := []\<rparr> = x\<lparr>ed_notices := [],
      ed_db := (ed_db x)\<lparr>vd_tasks := blocked_all (stamps_of w 0 (map fst cands)) (vd_tasks (ed_db x))\<rparr>,
      ed_receipts := ed_receipts x @ receipts_of w via actor 0 cands\<rparr>"
proof -
  define r0 where "r0 dry = \<lparr>sw_dry_run = dry, sw_scanned = 0, sw_expired = 0, sw_approval_expired = 0, sw_gate_owner_dead = 0,
    sw_notified = 0, sw_skipped_claimed = 0, sw_errors = 0,
    sw_remaining = length (filter (sweep_where (ed_db x) now) (vd_tasks (ed_db x))) - length cands, sw_task_ids = []\<rparr>" for dry
  define s where "s dry = \<lparr>ss_db = x, ss_result = r0 dry, ss_digests = []\<rparr>" for dry
  have ready: "sweep_ready w now 0 cands (ed_db (ss_db (s False)))"
    using sweep_start_ready [OF assms(3,4)] by (simp add: s_def assms(7))
  have x'': "x'' = x" and dry: "dry = ss_result (sweep_loop w' True via actor 0 cands (s True))"
    using assms(6) unfolding sweepExpiredApprovals_def Let_def assms(7) [symmetric] r0_def [symmetric] s_def [symmetric] flushNotices_def
    by (auto simp: sweep_loop_dry s_def)
  have real: "x' = ss_db (sweep_loop w False via actor 0 cands (s False))"
    "res\<lparr>sw_notified := 0\<rparr> = (ss_result (sweep_loop w False via actor 0 cands (s False)))\<lparr>sw_notified := 0\<rparr>"
    using assms(5) unfolding sweepExpiredApprovals_def Let_def assms(7) [symmetric] r0_def [symmetric] s_def [symmetric] flushNotices_def
    by auto
  have "res\<lparr>sw_notified := 0, sw_dry_run := True\<rparr> =
      (ss_result (sweep_loop w' True via actor 0 cands (s False)))\<lparr>sw_notified := 0, sw_dry_run := True\<rparr>"
    unfolding real(2) sweep_loop_result [OF assms(1,2) ready refl, of via actor w'] ..
  also have "\<dots> = dry\<lparr>sw_notified := 0\<rparr>"
    unfolding dry using sweep_loop_flag [where s' = "s True" and s = "s False" and d = True] by (simp add: s_def r0_def)
  also have "\<dots> = dry" using sweep_loop_dry(6) [of w' via actor 0 cands "s True"] by (simp add: dry s_def r0_def)
  finally have "res\<lparr>sw_notified := 0, sw_dry_run := True\<rparr> = dry" .
  moreover have "sw_task_ids dry = map (\<lambda>cd. t_id (fst cd)) cands"
    unfolding dry sweep_loop_dry by (simp add: s_def r0_def)
  moreover have "x'\<lparr>ed_notices := []\<rparr> = swept w via actor 0 cands x"
    unfolding assms(7) by (rule sweep_real [OF assms(1-5)])
  ultimately show ?thesis using x'' by (simp add: swept_def)
qed

text \<open>Counting the asks a sweep leaves behind.\<close>

lemma count_after_blocked:
  assumes "distinct (map t_id rows)" "set cs \<subseteq> {r \<in> set rows. p r}" "distinct (map t_id cs)"
    and "\<And>st r. \<not> p (blocked_row st r)" "\<And>i. stamps i = None \<longleftrightarrow> i \<notin> t_id ` set cs"
  shows "length (filter p (blocked_all stamps rows)) = length (filter p rows) - length cs"
proof -
  have in_cs: "t_id r \<in> t_id ` set cs \<longleftrightarrow> r \<in> set cs" if "r \<in> set rows" for r
    using unique_row [OF assms(1)] assms(2) that by blast
  have "length (filter p (blocked_all stamps rows)) = length (filter (\<lambda>r. p r \<and> stamps (t_id r) = None) rows)"
    by (induction rows) (auto simp: blocked_all_def assms(4) split: option.splits)
  also have "\<dots> = length (filter (\<lambda>r. p r \<and> r \<notin> set cs) rows)"
    by (rule arg_cong [where f = length], rule filter_cong) (auto simp: assms(5) in_cs)
  also have "\<dots> = card ({r \<in> set rows. p r} - set cs)"
  proof -
    have "distinct rows" using assms(1) by (simp add: distinct_map)
    then have "distinct (filter (\<lambda>r. p r \<and> r \<notin> set cs) rows)" by simp
    then show ?thesis by (simp add: distinct_card [symmetric] set_diff_eq conj_ac)
  qed
  also have "\<dots> = card {r \<in> set rows. p r} - card (set cs)"
    by (rule card_Diff_subset) (use assms(2) in auto)
  also have "card (set cs) = length cs" using assms(3) by (simp add: distinct_map distinct_card)
  also have "card {r \<in> set rows. p r} = length (filter p rows)"
    using assms(1) distinct_card [of "filter p rows"] by (simp add: distinct_map)
  finally show ?thesis .
qed

lemma stamps_of_dom: "stamps_of w n cs i = None \<longleftrightarrow> i \<notin> t_id ` set cs"
  by (simp add: stamps_of_def map_of_zip_is_None)

text \<open>The sweep makes progress and its report of what is left is true: when nobody interferes, the number of expired asks
  after the sweep is exactly what it reports as remaining, which is the number before less the smaller of that number and
  the limit, a limit that is at least one and at most two hundred. So a tick that finds anything leaves strictly less.\<close>
theorem sweep_remaining_is_true:
  assumes "quiet w now" "inj (ww_stamp w)" "distinct (map t_id (vd_tasks (ed_db x)))"
    and "\<forall>k. \<forall>r \<in> set (vd_tasks (ed_db x)). t_updated_at r \<noteq> ww_stamp w k"
    and "sweepExpiredApprovals w now False limit via actor x = (x', res)"
    and "found = length (filter (sweep_where (ed_db x) now) (vd_tasks (ed_db x)))"
  shows "length (filter (sweep_where (ed_db x') now) (vd_tasks (ed_db x'))) = sw_remaining res \<and>
    sw_remaining res = found - min (clampLimit limit) found \<and> 1 \<le> clampLimit limit \<and> clampLimit limit \<le> 200"
proof -
  define cands where "cands = sweep_candidates x now (clampLimit limit)"
  note rows = sweep_candidates_rows [OF assms(3), of now "clampLimit limit", folded cands_def]
  have x': "x'\<lparr>ed_notices := []\<rparr> = swept w via actor 0 cands x"
    unfolding cands_def by (rule sweep_real [OF assms(1-5)])
  have "ed_db x' = ed_db (x'\<lparr>ed_notices := []\<rparr>)" by simp
  then have db': "ed_db x' = (ed_db x)\<lparr>vd_tasks := blocked_all (stamps_of w 0 (map fst cands)) (vd_tasks (ed_db x))\<rparr>"
    unfolding x' by (simp add: swept_def)
  have "length (filter (sweep_where (ed_db x) now) (blocked_all (stamps_of w 0 (map fst cands)) (vd_tasks (ed_db x)))) =
      found - length (map fst cands)"
    unfolding assms(6) by (rule count_after_blocked) (use rows assms(3) in \<open>simp_all add: stamps_of_dom sweep_where_def comp_def\<close>)
  moreover have "sw_remaining res = found - length cands"
    using assms(5) unfolding sweepExpiredApprovals_def Let_def flushNotices_def cands_def [symmetric] assms(6) [symmetric]
    by (auto simp: sweep_loop_remaining)
  ultimately show ?thesis
    unfolding db' using rows(3) clampLimit_bounds [of limit] by (simp add: assms(6) [symmetric])
qed

text \<open>A reset is receipted, and a refused one changes nothing.\<close>

lemma reset_cap_receipted:
  assumes "distinct (map t_id (vd_tasks (ed_db x)))" "resetResubmitCap x0 x rid i m = (x', res)"
  shows "(\<exists>k. res = Cap_reset k) \<and> (\<exists>r \<in> set (vd_tasks (ed_db x)). cap_matches (ed_db x) i r \<and>
      ed_receipts x' = ed_receipts x @ [cap_receipt_of rid m r]) \<or> x' = x"
proof (cases "list_ex (cap_matches (ed_db x) i) (vd_tasks (ed_db x))")
  case True
  then obtain r where r: "r \<in> set (vd_tasks (ed_db x))" "cap_matches (ed_db x) i r" by (auto simp: list_ex_iff)
  have "filter (cap_matches (ed_db x) i) (vd_tasks (ed_db x)) =
      filter (\<lambda>y. t_id y = t_id r \<and> True) (vd_tasks (ed_db x))"
    by (rule filter_cong) (use r unique_row [OF assms(1)] in \<open>auto simp: cap_matches_def\<close>)
  also have "\<dots> = [r]"
    using filter_key [OF assms(1), of "t_id r" "\<lambda>_. True"] first_row_key [OF assms(1) r(1)] by simp
  finally have "filter (cap_matches (ed_db x) i) (vd_tasks (ed_db x)) = [r]" .
  with assms(2) r True show ?thesis
    by (auto simp: resetResubmitCap_def Let_def split: option.splits if_splits)
next
  case False
  have "map (\<lambda>r. if cap_matches (ed_db x) i r then r\<lparr>gt_expired_count := 0\<rparr> else r) (vd_tasks (ed_db x)) = vd_tasks (ed_db x)"
    by (rule map_idI) (use False in \<open>auto simp: list_ex_iff\<close>)
  moreover have "filter (cap_matches (ed_db x) i) (vd_tasks (ed_db x)) = []"
    using False by (auto simp: filter_empty_conv list_ex_iff)
  ultimately show ?thesis
    using assms(2) False by (auto simp: resetResubmitCap_def Let_def split: option.splits if_splits)
qed

section \<open>A sample\<close>

definition sample_expiry :: expiry_db where
  "sample_expiry = \<lparr>ed_db = sample_vdb, ed_auth = sample_squad_env, ed_receipts = [], ed_notices = []\<rparr>"

definition quiet_world :: sweep_world where
  "quiet_world = \<lparr>ww_now = (\<lambda>n. 2000000), ww_stamp = (\<lambda>n. replicate (Suc n) CHR ''z''), ww_receipt_id = (\<lambda>n. replicate (Suc n) CHR ''r''),
     ww_other = (\<lambda>n x. x), ww_throws = (\<lambda>n. False), ww_notice_throws = (\<lambda>n. False), ww_send = (\<lambda>a es. length es),
     ww_date_parse = (\<lambda>s. None), ww_iso = (\<lambda>n. [])\<rparr>"

lemma quiet_sample: "quiet quiet_world 2000000" "inj (ww_stamp quiet_world)"
  "distinct (map t_id (vd_tasks (ed_db sample_expiry)))"
  "\<forall>k. \<forall>r \<in> set (vd_tasks (ed_db sample_expiry)). t_updated_at r \<noteq> ww_stamp quiet_world k"
proof -
  show "quiet quiet_world 2000000" by (simp add: quiet_def quiet_world_def)
  show "inj (ww_stamp quiet_world)"
    unfolding quiet_world_def inj_def by (metis (no_types, lifting) length_replicate nat.inject sweep_world.select_convs(2))
  show "distinct (map t_id (vd_tasks (ed_db sample_expiry)))"
    "\<forall>k. \<forall>r \<in> set (vd_tasks (ed_db sample_expiry)). t_updated_at r \<noteq> ww_stamp quiet_world k"
    by (simp_all add: sample_expiry_def sample_vdb_def sample_gated_def quiet_world_def)
qed

definition sample_sweep :: "bool \<Rightarrow> expiry_db \<times> sweep_result" where
  "sample_sweep dry = sweepExpiredApprovals quiet_world 2000000 dry None Via_cron SWEEPER_ACTOR sample_expiry"

lemma sample_swept:
  "sw_task_ids (snd (sample_sweep True)) = [''t1'']" "status_of (fst (sample_sweep False)) ''t1'' = Some Blocked"
  "map er_reason (ed_receipts (fst (sample_sweep False))) = [Approval_expired]"
  "sw_notified (snd (sample_sweep False)) = 1" "sw_remaining (snd (sample_sweep False)) = 0"
  by code_simp+

theorem sweep_does_what_it_reports_witness:
  "fst (sample_sweep True) = sample_expiry \<and> sw_task_ids (snd (sample_sweep False)) = [''t1'']"
proof -
  have p: "sweepExpiredApprovals quiet_world 2000000 dry None Via_cron SWEEPER_ACTOR sample_expiry =
      (fst (sample_sweep dry), snd (sample_sweep dry))" for dry by (simp add: sample_sweep_def)
  note sound = sweep_does_what_it_reports [OF quiet_sample p p refl]
  have "sw_task_ids (snd (sample_sweep False)) = sw_task_ids ((snd (sample_sweep False))\<lparr>sw_notified := 0, sw_dry_run := True\<rparr>)" by simp
  then show ?thesis using sound sample_swept(1) by simp
qed

theorem sweep_remaining_is_true_witness:
  "filter (sweep_where (ed_db (fst (sample_sweep False))) 2000000) (vd_tasks (ed_db (fst (sample_sweep False)))) = []"
proof -
  have p: "sweepExpiredApprovals quiet_world 2000000 False None Via_cron SWEEPER_ACTOR sample_expiry =
      (fst (sample_sweep False), snd (sample_sweep False))" by (simp add: sample_sweep_def)
  from sweep_remaining_is_true [OF quiet_sample p refl] sample_swept(5) show ?thesis by simp
qed

theorem one_ask_one_answer_witness:
  "\<exists>v. verdicts_of (sample_expiry\<lparr>ed_db := fst (sample_write ''m'' None)\<rparr>) ''t1'' = verdicts_of sample_expiry ''t1'' @ [v] \<and>
     verdict_status (tv_verdict v) = Approved"
proof -
  let ?y = "sample_expiry\<lparr>ed_db := fst (sample_write ''m'' None)\<rparr>"
  have "ask_step sample_expiry ?y"
    by (rule Give_verdict [where stamp = "''stamp''" and res = "snd (sample_write ''m'' None)"])
      (use sample_fresh(1) in \<open>simp_all add: sample_expiry_def sample_write_def\<close>)
  then have "ask_step\<^sup>*\<^sup>* sample_expiry ?y" by blast
  moreover have "status_of sample_expiry ''t1'' = Some Review" "status_of ?y ''t1'' = Some Approved" by code_simp+
  ultimately obtain c where "change_ok c ''t1'' sample_expiry ?y" "status_of sample_expiry ''t1'' = Some Review"
      "status_of ?y ''t1'' = Some Approved" using one_ask_one_answer by blast
  then show ?thesis by (cases c) auto
qed

end
