(* ===== verification/Stall_Watchdog.thy ===== *)
theory Stall_Watchdog
  imports Verdict_Gate
begin

text \<open>
  The watchdog of stalled reviews (\<^verbatim>\<open>src/gates/stall-watchdog.ts\<close>): its settings, its scan, the atomic claim of
  a re-wake, and the sweep. A review episode is named by the task's \<open>updated_at\<close>. The wake itself
  (\<open>wakeGateOwnerOnReview\<close> of \<^verbatim>\<open>src/mcp/index.ts\<close>) sends messages and writes a notice; \<open>stall_world\<close>
  gives its outcome for each iteration, what others did to the tables before it, and which of its statements
  throws, if any. Times are ISO strings compared through SQLite's \<open>datetime\<close>.
\<close>

section \<open>Settings\<close>

definition digit_value :: "char \<Rightarrow> nat option" where
  "digit_value c = (let n = of_char c :: nat in if 48 \<le> n \<and> n \<le> 57 then Some (n - 48) else None)"

fun leading_number :: "nat option \<Rightarrow> string \<Rightarrow> nat option" where
  "leading_number acc [] = acc"
| "leading_number acc (c # cs) =
     (case digit_value c of
        None \<Rightarrow> acc
      | Some d \<Rightarrow> leading_number (Some ((case acc of None \<Rightarrow> 0 | Some n \<Rightarrow> n) * 10 + d)) cs)"

text \<open>\<open>Number.parseInt(raw, 10)\<close>, \<open>None\<close> for NaN.\<close>

definition parseInt10 :: "string \<Rightarrow> int option" where
  "parseInt10 raw =
     (case dropWhile js_space raw of
        [] \<Rightarrow> None
      | c # cs \<Rightarrow>
          if c = CHR ''-'' then map_option (\<lambda>n. - int n) (leading_number None cs)
          else if c = CHR ''+'' then map_option int (leading_number None cs)
          else map_option int (leading_number None (c # cs)))"

definition MAX_SAFE_INTEGER :: int where
  "MAX_SAFE_INTEGER = 9007199254740991"

definition positiveInt :: "string option \<Rightarrow> int \<Rightarrow> int" where
  "positiveInt raw fallback =
     (case Option.bind raw parseInt10 of
        None \<Rightarrow> fallback
      | Some n \<Rightarrow> if n \<le> MAX_SAFE_INTEGER \<and> n > 0 then n else fallback)"

definition DEFAULT_GATE_STALL_THRESHOLD_MINUTES :: int where
  "DEFAULT_GATE_STALL_THRESHOLD_MINUTES = 30"

definition DEFAULT_GATE_STALL_MAX_REWAKES :: int where
  "DEFAULT_GATE_STALL_MAX_REWAKES = 3"

definition SWEEP_LIMIT :: nat where
  "SWEEP_LIMIT = 50"

section \<open>State\<close>

record rewake_row =
  rk_task_id :: string
  rk_review_since :: string
  rk_count :: int
  rk_delivered :: int
  rk_last_at :: string
  rk_outcome :: "string option"

record stall_db =
  sd_db :: verdict_db
  sd_rewakes :: "rewake_row list"

record stall_result =
  sl_scanned :: nat
  sl_rewoken :: nat
  sl_undelivered :: nat
  sl_skipped_claimed :: nat
  sl_errors :: nat

text \<open>\<open>datetime(a) <= datetime(b)\<close>, and its strict and reversed forms; NULL satisfies none of them.\<close>

definition dt_le :: "verdict_db \<Rightarrow> string \<Rightarrow> string \<Rightarrow> bool" where
  "dt_le db a b = (case (vd_datetime db a, vd_datetime db b) of (Some m, Some n) \<Rightarrow> m \<le> n | _ \<Rightarrow> False)"

definition dt_gt :: "verdict_db \<Rightarrow> string \<Rightarrow> string \<Rightarrow> bool" where
  "dt_gt db a b = (case (vd_datetime db a, vd_datetime db b) of (Some m, Some n) \<Rightarrow> m > n | _ \<Rightarrow> False)"

section \<open>The scan and the claim\<close>

definition stalled :: "stall_db \<Rightarrow> string \<Rightarrow> int \<Rightarrow> gated_task \<Rightarrow> bool" where
  "stalled x cutoff maxRewakes t \<longleftrightarrow>
     t_status t = Review \<and> t_gate_owner t \<noteq> None \<and> t_gate_owner t \<noteq> Some [] \<and> \<not> archived (sd_db x) (t_id t) \<and>
     dt_le (sd_db x) (t_updated_at t) cutoff \<and>
     \<not> exists_row (\<lambda>v. tv_task_id v = t_id t \<and> tv_reversed_at v = None \<and> dt_le (sd_db x) (t_updated_at t) (tv_decided_at v))
         (vd_verdicts (sd_db x)) \<and>
     \<not> exists_row (\<lambda>g. rk_task_id g = t_id t \<and> rk_review_since g = t_updated_at t \<and>
         (rk_count g \<ge> maxRewakes \<or> dt_gt (sd_db x) (rk_last_at g) cutoff)) (sd_rewakes x)"

definition stall_candidates :: "stall_db \<Rightarrow> string \<Rightarrow> int \<Rightarrow> gated_task list" where
  "stall_candidates x cutoff maxRewakes =
     take SWEEP_LIMIT (sort_key t_updated_at (filter (stalled x cutoff maxRewakes) (vd_tasks (sd_db x))))"

definition claimable :: "verdict_db \<Rightarrow> string \<Rightarrow> string \<Rightarrow> int \<Rightarrow> rewake_row \<Rightarrow> bool" where
  "claimable db since cutoff maxRewakes g \<longleftrightarrow>
     rk_review_since g \<noteq> since \<or> rk_count g < maxRewakes \<and> dt_le db (rk_last_at g) cutoff"

definition claimed_row :: "string \<Rightarrow> string \<Rightarrow> rewake_row \<Rightarrow> rewake_row" where
  "claimed_row since nowIso g =
     g\<lparr>rk_count := (if rk_review_since g \<noteq> since then 1 else rk_count g + 1),
       rk_delivered := (if rk_review_since g \<noteq> since then 0 else rk_delivered g),
       rk_review_since := since, rk_last_at := nowIso\<rparr>"

text \<open>The upsert, and whether it changed a row.\<close>

definition claim_rewake :: "stall_db \<Rightarrow> string \<Rightarrow> string \<Rightarrow> string \<Rightarrow> string \<Rightarrow> int \<Rightarrow> stall_db \<times> bool" where
  "claim_rewake x i since nowIso cutoff maxRewakes =
     (if archived (sd_db x) i then (x, False)
      else (case first_row (\<lambda>g. rk_task_id g = i) (sd_rewakes x) of
              None \<Rightarrow> (x\<lparr>sd_rewakes := sd_rewakes x @ [\<lparr>rk_task_id = i, rk_review_since = since, rk_count = 1, rk_delivered = 0,
                        rk_last_at = nowIso, rk_outcome = None\<rparr>]\<rparr>, True)
            | Some g \<Rightarrow>
                if claimable (sd_db x) since cutoff maxRewakes g
                then (x\<lparr>sd_rewakes := map (\<lambda>y. if rk_task_id y = i then claimed_row since nowIso y else y) (sd_rewakes x)\<rparr>, True)
                else (x, False)))"

section \<open>The sweep\<close>

datatype wake_status = Wake_delivered | Wake_partial | Wake_queued_to_owner_agent | Wake_other string

fun wake_status_text :: "wake_status \<Rightarrow> string" where
  "wake_status_text Wake_delivered = ''delivered''"
| "wake_status_text Wake_partial = ''partial''"
| "wake_status_text Wake_queued_to_owner_agent = ''queued_to_owner_agent''"
| "wake_status_text (Wake_other s) = s"

record wake_outcome =
  wo_status :: wake_status
  wo_new_sends :: "int option"

definition wake_counts :: "wake_outcome \<Rightarrow> bool" where
  "wake_counts o' \<longleftrightarrow>
     wo_status o' = Wake_delivered \<or> wo_status o' = Wake_partial \<or>
     wo_status o' = Wake_queued_to_owner_agent \<and> (case wo_new_sends o' of None \<Rightarrow> 1 | Some n \<Rightarrow> n) > 0"

definition record_outcome :: "stall_db \<Rightarrow> string \<Rightarrow> wake_outcome \<Rightarrow> stall_db" where
  "record_outcome x i o' =
     x\<lparr>sd_rewakes := map (\<lambda>g. if rk_task_id g = i
         then g\<lparr>rk_outcome := Some (wake_status_text (wo_status o')), rk_delivered := rk_delivered g + (if wake_counts o' then 1 else 0)\<rparr>
         else g) (sd_rewakes x)\<rparr>"

datatype stall_throw = Throw_claim | Throw_wake | Throw_record

record stall_world =
  zw_other :: "nat \<Rightarrow> stall_db \<Rightarrow> stall_db"
  zw_throws :: "nat \<Rightarrow> stall_throw option"
  zw_wake :: "nat \<Rightarrow> gated_task \<Rightarrow> wake_outcome"

definition stall_one ::
  "stall_world \<Rightarrow> string \<Rightarrow> string \<Rightarrow> int \<Rightarrow> nat \<Rightarrow> gated_task \<Rightarrow> stall_db \<times> stall_result \<Rightarrow> stall_db \<times> stall_result" where
  "stall_one w nowIso cutoff maxRewakes n t s =
     (let x = zw_other w n (fst s); res = (snd s)\<lparr>sl_scanned := sl_scanned (snd s) + 1\<rparr>;
          err = res\<lparr>sl_errors := sl_errors res + 1\<rparr>
      in if zw_throws w n = Some Throw_claim then (x, err)
         else (case claim_rewake x (t_id t) (t_updated_at t) nowIso cutoff maxRewakes of
                 (x1, False) \<Rightarrow> (x1, res\<lparr>sl_skipped_claimed := sl_skipped_claimed res + 1\<rparr>)
               | (x1, True) \<Rightarrow>
                   if zw_throws w n \<noteq> None then (x1, err)
                   else let o' = zw_wake w n t in
                     (record_outcome x1 (t_id t) o',
                      if wake_counts o' then res\<lparr>sl_rewoken := sl_rewoken res + 1\<rparr>
                      else res\<lparr>sl_undelivered := sl_undelivered res + 1\<rparr>)))"

fun stall_loop ::
  "stall_world \<Rightarrow> string \<Rightarrow> string \<Rightarrow> int \<Rightarrow> nat \<Rightarrow> gated_task list \<Rightarrow> stall_db \<times> stall_result \<Rightarrow> stall_db \<times> stall_result" where
  "stall_loop w nowIso cutoff maxRewakes n [] s = s"
| "stall_loop w nowIso cutoff maxRewakes n (t # ts) s =
     stall_loop w nowIso cutoff maxRewakes (n + 1) ts (stall_one w nowIso cutoff maxRewakes n t s)"

text \<open>\<open>toISOString\<close> prints an instant in milliseconds.\<close>

definition sweepStalledGateReviews ::
  "stall_world \<Rightarrow> (int \<Rightarrow> string) \<Rightarrow> string option \<Rightarrow> string option \<Rightarrow> int \<Rightarrow> stall_db \<Rightarrow> stall_db \<times> stall_result" where
  "sweepStalledGateReviews w toISOString threshold_var max_var now x =
     (let thresholdMin = positiveInt threshold_var DEFAULT_GATE_STALL_THRESHOLD_MINUTES;
          maxRewakes = positiveInt max_var DEFAULT_GATE_STALL_MAX_REWAKES;
          cutoff = toISOString (now - thresholdMin * 60000)
      in stall_loop w (toISOString now) cutoff maxRewakes 0 (stall_candidates x cutoff maxRewakes)
           (x, \<lparr>sl_scanned = 0, sl_rewoken = 0, sl_undelivered = 0, sl_skipped_claimed = 0, sl_errors = 0\<rparr>))"

section \<open>The bound on re-wakes\<close>

text \<open>The operations on the ledger, by any number of concurrent sweeps, and the claims they win.\<close>

record rewake_claim =
  cl_task :: string
  cl_since :: string
  cl_now :: string
  cl_cutoff :: string

datatype ledger_op = Claim rewake_claim | Outcome string wake_outcome

fun won_claims :: "int \<Rightarrow> ledger_op list \<Rightarrow> stall_db \<Rightarrow> rewake_claim list" where
  "won_claims m [] x = []"
| "won_claims m (Claim c # ops) x =
     (case claim_rewake x (cl_task c) (cl_since c) (cl_now c) (cl_cutoff c) m of
        (x1, won) \<Rightarrow> (if won then [c] else []) @ won_claims m ops x1)"
| "won_claims m (Outcome i o' # ops) x = won_claims m ops (record_outcome x i o')"

text \<open>The ledger's entry of a task, without what only reports.\<close>

definition entry :: "stall_db \<Rightarrow> string \<Rightarrow> (string \<times> int \<times> string) option" where
  "entry x i = map_option (\<lambda>g. (rk_review_since g, rk_count g, rk_last_at g)) (first_row (\<lambda>g. rk_task_id g = i) (sd_rewakes x))"

lemma first_row_map:
  assumes "\<And>g. rk_task_id (f g) = rk_task_id g"
  shows "first_row (\<lambda>g. rk_task_id g = i) (map f gs) = map_option f (first_row (\<lambda>g. rk_task_id g = i) gs)"
  unfolding first_row_def by (induction gs) (auto simp: assms)

lemma entry_outcome [simp]: "entry (record_outcome x j o') i = entry x i"
  by (cases "first_row (\<lambda>g. rk_task_id g = i) (sd_rewakes x)") (simp_all add: entry_def record_outcome_def first_row_map)

lemma sd_db_outcome [simp]: "sd_db (record_outcome x j o') = sd_db x"
  by (simp add: record_outcome_def)

lemma sd_db_claim: "sd_db (fst (claim_rewake x j s n c m)) = sd_db x"
  by (simp add: claim_rewake_def split: option.splits)

lemma first_row_snoc:
  "first_row p (gs @ [g]) = (case first_row p gs of None \<Rightarrow> if p g then Some g else None | Some h \<Rightarrow> Some h)"
  unfolding first_row_def by (induction gs) auto

lemma claimed_row_simps [simp]:
  "rk_task_id (claimed_row s n g) = rk_task_id g" "rk_review_since (claimed_row s n g) = s" "rk_last_at (claimed_row s n g) = n"
  "rk_count (claimed_row s n g) = (if rk_review_since g \<noteq> s then 1 else rk_count g + 1)"
  by (simp_all add: claimed_row_def)

lemma first_row_claimed:
  "first_row (\<lambda>g. rk_task_id g = i) (map (\<lambda>y. if rk_task_id y = j then claimed_row s n y else y) gs) =
   map_option (\<lambda>y. if j = i then claimed_row s n y else y) (first_row (\<lambda>g. rk_task_id g = i) gs)"
proof -
  have "first_row (\<lambda>g. rk_task_id g = i) (map (\<lambda>y. if rk_task_id y = j then claimed_row s n y else y) gs) =
      map_option (\<lambda>y. if rk_task_id y = j then claimed_row s n y else y) (first_row (\<lambda>g. rk_task_id g = i) gs)"
    by (rule first_row_map) simp
  then show ?thesis
    by (cases "first_row (\<lambda>g. rk_task_id g = i) gs") (auto dest: first_row_Some)
qed

lemma entry_claim_other: "j \<noteq> i \<Longrightarrow> entry (fst (claim_rewake x j s n c m)) i = entry x i"
  by (simp add: claim_rewake_def entry_def first_row_snoc first_row_claimed option.map_comp split: option.splits)

lemma entry_claim:
  "snd (claim_rewake x i s n c m) \<Longrightarrow>
     entry (fst (claim_rewake x i s n c m)) i =
       (case entry x i of Some (s', k, l) \<Rightarrow> if s' = s then Some (s, k + 1, n) else Some (s, 1, n) | None \<Rightarrow> Some (s, 1, n)) \<and>
     (\<forall>k l. entry x i = Some (s, k, l) \<longrightarrow> k < m \<and> dt_le (sd_db x) l c)"
  by (cases "first_row (\<lambda>g. rk_task_id g = i) (sd_rewakes x)")
    (auto simp: claim_rewake_def entry_def first_row_snoc first_row_claimed claimable_def split: if_splits)

lemma claim_lost: "\<not> snd (claim_rewake x i s n c m) \<Longrightarrow> fst (claim_rewake x i s n c m) = x"
  by (simp add: claim_rewake_def split: option.splits if_splits)

definition same_episode :: "string \<Rightarrow> string \<Rightarrow> ledger_op \<Rightarrow> bool" where
  "same_episode i s lop = (case lop of Claim c \<Rightarrow> cl_task c = i \<longrightarrow> cl_since c = s | Outcome j o' \<Rightarrow> True)"

definition claims_left :: "int \<Rightarrow> string \<Rightarrow> (string \<times> int \<times> string) option \<Rightarrow> int" where
  "claims_left m s e = (case e of Some (s', k, l) \<Rightarrow> if s' = s then max 0 (m - k) else m | None \<Rightarrow> m)"

lemma claim_uses_one:
  assumes "snd (claim_rewake x i s n c m)" "m \<ge> 1"
  shows "claims_left m s (entry (fst (claim_rewake x i s n c m)) i) \<le> claims_left m s (entry x i) - 1"
  using entry_claim [OF assms(1)] assms(2) by (auto simp: claims_left_def split: option.splits if_splits)

lemma claims_left_nonneg: "m \<ge> 1 \<Longrightarrow> claims_left m s e \<ge> 0"
  by (auto simp: claims_left_def split: option.splits)

lemma won_claims_bound:
  assumes "m \<ge> 1" "list_all (same_episode i s) ops"
  shows "int (length (filter (\<lambda>c. cl_task c = i) (won_claims m ops x))) \<le> claims_left m s (entry x i)"
  using assms(2)
proof (induction ops arbitrary: x)
  case Nil
  show ?case using claims_left_nonneg [OF assms(1)] by simp
next
  case (Cons lop ops)
  show ?case
  proof (cases lop)
    case (Outcome j o')
    with Cons.IH [of "record_outcome x j o'"] Cons.prems show ?thesis by simp
  next
    case (Claim c)
    define x1 where "x1 = fst (claim_rewake x (cl_task c) (cl_since c) (cl_now c) (cl_cutoff c) m)"
    define won where "won = snd (claim_rewake x (cl_task c) (cl_since c) (cl_now c) (cl_cutoff c) m)"
    have w: "won_claims m (lop # ops) x = (if won then [c] else []) @ won_claims m ops x1"
      by (simp add: Claim x1_def won_def split: prod.splits)
    have IH: "int (length (filter (\<lambda>c. cl_task c = i) (won_claims m ops x1))) \<le> claims_left m s (entry x1 i)"
      using Cons.IH [of x1] Cons.prems by simp
    show ?thesis
    proof (cases "cl_task c = i \<and> won")
      case True
      then have "cl_since c = s" using Cons.prems by (simp add: same_episode_def Claim)
      then have x1: "x1 = fst (claim_rewake x i s (cl_now c) (cl_cutoff c) m)" "snd (claim_rewake x i s (cl_now c) (cl_cutoff c) m)"
        using True unfolding x1_def won_def by auto
      have "claims_left m s (entry x1 i) \<le> claims_left m s (entry x i) - 1"
        unfolding x1(1) by (rule claim_uses_one [OF x1(2) assms(1)])
      with True IH show ?thesis unfolding w by simp
    next
      case False
      then have "entry x1 i = entry x i"
        using entry_claim_other [of "cl_task c" i x] claim_lost [of x "cl_task c"] unfolding x1_def won_def by metis
      with False IH show ?thesis unfolding w by auto
    qed
  qed
qed

lemma won_claims_spaced:
  assumes "list_all (same_episode i s) ops"
  shows "successively (\<lambda>a b. dt_le (sd_db x) (cl_now a) (cl_cutoff b)) (filter (\<lambda>c. cl_task c = i) (won_claims m ops x)) \<and>
    (\<forall>k l c cs. entry x i = Some (s, k, l) \<longrightarrow> filter (\<lambda>c. cl_task c = i) (won_claims m ops x) = c # cs \<longrightarrow>
       dt_le (sd_db x) l (cl_cutoff c))"
  using assms
proof (induction ops arbitrary: x)
  case (Cons lop ops)
  show ?case
  proof (cases lop)
    case (Outcome j o')
    with Cons.IH [of "record_outcome x j o'"] Cons.prems show ?thesis by simp
  next
    case (Claim c)
    define x1 where "x1 = fst (claim_rewake x (cl_task c) (cl_since c) (cl_now c) (cl_cutoff c) m)"
    define won where "won = snd (claim_rewake x (cl_task c) (cl_since c) (cl_now c) (cl_cutoff c) m)"
    define W where "W = filter (\<lambda>c. cl_task c = i) (won_claims m ops x1)"
    have w: "filter (\<lambda>c. cl_task c = i) (won_claims m (lop # ops) x) = (if cl_task c = i \<and> won then [c] else []) @ W"
      by (simp add: Claim x1_def won_def W_def split: prod.splits)
    have db: "sd_db x1 = sd_db x" by (simp add: x1_def sd_db_claim)
    have IH: "successively (\<lambda>a b. dt_le (sd_db x) (cl_now a) (cl_cutoff b)) W"
      "\<And>k l c cs. entry x1 i = Some (s, k, l) \<Longrightarrow> W = c # cs \<Longrightarrow> dt_le (sd_db x) l (cl_cutoff c)"
      using Cons.IH [of x1] Cons.prems unfolding db W_def by auto
    show ?thesis
    proof (cases "cl_task c = i \<and> won")
      case True
      then have c: "cl_since c = s" using Cons.prems by (simp add: same_episode_def Claim)
      have e: "\<exists>k. entry x1 i = Some (s, k, cl_now c)" "\<forall>k l. entry x i = Some (s, k, l) \<longrightarrow> dt_le (sd_db x) l (cl_cutoff c)"
        using entry_claim [of x i s "cl_now c" "cl_cutoff c" m] True c
        by (auto simp: x1_def won_def split: option.splits if_splits)
      show ?thesis unfolding w using True e IH by (cases W) (auto simp: successively_Cons)
    next
      case False
      then have "entry x1 i = entry x i"
        using entry_claim_other [of "cl_task c" i x] claim_lost [of x "cl_task c"] unfolding x1_def won_def by metis
      with False IH show ?thesis unfolding w by auto
    qed
  qed
qed simp

lemma positiveInt_pos: "fallback \<ge> 1 \<Longrightarrow> positiveInt raw fallback \<ge> 1"
  by (auto simp: positiveInt_def split: option.splits)

text \<open>C28: A stalled review is re-woken only so often, whatever the setting. Take any history of claims and recorded outcomes, by any
  number of overlapping sweeps, in which the claims on one task belong to one review episode: the claims won on that task are no
  more than the configured cap, which is at least one, and whenever one won claim follows another the earlier one lies
  at or before the later one's cutoff, a whole threshold back.\<close>
theorem stall_rewakes_bounded:
  assumes "m = positiveInt max_var DEFAULT_GATE_STALL_MAX_REWAKES" "list_all (same_episode i s) ops"
    and "\<forall>g \<in> set (sd_rewakes x). rk_count g \<ge> 0" "wins = filter (\<lambda>c. cl_task c = i) (won_claims m ops x)"
  shows "1 \<le> m \<and> int (length wins) \<le> m \<and> successively (\<lambda>a b. dt_le (sd_db x) (cl_now a) (cl_cutoff b)) wins"
proof -
  have m: "m \<ge> 1" unfolding assms(1) by (rule positiveInt_pos) (simp add: DEFAULT_GATE_STALL_MAX_REWAKES_def)
  have "k \<ge> 0" if "entry x i = Some (s', k, l)" for s' k l
    using that assms(3) by (auto simp: entry_def dest!: first_row_Some)
  then have "claims_left m s (entry x i) \<le> m"
    using m by (force simp: claims_left_def split: option.splits)
  then show ?thesis
    using won_claims_bound [OF m assms(2), of x] won_claims_spaced [OF assms(2), of x m] m unfolding assms(4) by linarith
qed

section \<open>A sample\<close>

definition sample_stall :: stall_db where
  "sample_stall = \<lparr>sd_db = sample_vdb\<lparr>vd_datetime := (\<lambda>s. Some (int (length s)))\<rparr>, sd_rewakes = []\<rparr>"

text \<open>Five sweeps that follow each other, a threshold apart.\<close>

definition sample_claims :: "ledger_op list" where
  "sample_claims = map (\<lambda>n. Claim \<lparr>cl_task = ''t1'', cl_since = ''u'', cl_now = replicate (Suc n) CHR ''x'', cl_cutoff = replicate n CHR ''x''\<rparr>)
     [1, 2, 3, 4, 5]"

definition quiet_stall :: stall_world where
  "quiet_stall = \<lparr>zw_other = (\<lambda>n x. x), zw_throws = (\<lambda>n. None), zw_wake = (\<lambda>n t. \<lparr>wo_status = Wake_delivered, wo_new_sends = None\<rparr>)\<rparr>"

lemma sample_stall_sweep:
  "sl_rewoken (snd (sweepStalledGateReviews quiet_stall (\<lambda>n. if n > 50000 then ''xxx'' else ''x'') (Some ''1'') None 60002 sample_stall)) = 1"
  "positiveInt (Some '' 12 days'') 3 = 12" "positiveInt (Some ''-4'') 3 = 3"
  by code_simp+

theorem stall_rewakes_bounded_witness:
  "length (filter (\<lambda>c. cl_task c = ''t1'') (won_claims 3 sample_claims sample_stall)) = 3"
proof -
  have m: "3 = positiveInt None DEFAULT_GATE_STALL_MAX_REWAKES" and e: "list_all (same_episode ''t1'' ''u'') sample_claims"
    and c: "\<forall>g \<in> set (sd_rewakes sample_stall). rk_count g \<ge> 0"
    and l: "length (filter (\<lambda>c. cl_task c = ''t1'') (won_claims 3 sample_claims sample_stall)) \<ge> 3"
    by code_simp+
  show ?thesis using stall_rewakes_bounded [OF m e c refl] l by simp
qed

end
