(* ===== verification/Execution_Brakes.thy ===== *)
theory Execution_Brakes
  imports Verdict_Write
begin

text \<open>
  The brakes on autonomous execution (\<^verbatim>\<open>src/agents/execution-brake-sql.ts\<close>,
  \<^verbatim>\<open>src/agents/execution-brakes.ts\<close>): the pause of an agent or a squad, the counter of refused attempts of
  a task, the hold that takes a task out of every agent's reach, and its release by a human
  (\<^verbatim>\<open>src/agents/execution-release-policy.ts\<close>, \<^verbatim>\<open>src/mcp/execution-pause.ts\<close>).

  \<open>brake_db\<close> adds the tables of migration 0203 and the audit trail to the tables of the verdict path. The
  three columns of \<open>tasks\<close> that only the executor writes are functions of the task id. \<open>bk_julian\<close> is
  SQLite's \<open>julianday\<close> in milliseconds and \<open>vd_datetime\<close> its \<open>strftime('%s')\<close>, \<open>None\<close> where they are NULL.
  The ids an operation draws with \<open>crypto.randomUUID\<close> are its arguments.
\<close>

section \<open>Tables\<close>

datatype pause_scope = Pause_agent | Pause_squad

record pause_row =
  pz_id :: string
  pz_tenant :: string
  pz_scope :: pause_scope
  pz_scope_id :: string
  pz_reason :: string
  pz_paused_by :: string
  pz_paused_at :: string
  pz_resumed_at :: "string option"
  pz_resumed_by :: "string option"
  pz_resume_reason :: "string option"

record attempt_row =
  ea_task_id :: string
  ea_refused_count :: nat
  ea_last_agent :: "string option"
  ea_last_reason :: "string option"
  ea_first_at :: string
  ea_last_at :: string

record hold_row =
  eh_task_id :: string
  eh_escalation_id :: string
  eh_agent_id :: string
  eh_refused_count :: nat
  eh_reason :: "string option"
  eh_held_at :: string
  eh_released_at :: "string option"
  eh_released_by :: "string option"
  eh_release_id :: "string option"
  eh_release_reason :: "string option"

datatype audit_principal = Principal_system | Principal_member

record audit_row =
  au_id :: string
  au_tenant :: string
  au_principal_kind :: audit_principal
  au_principal_id :: string
  au_member_id :: "string option"
  au_agent_id :: "string option"
  au_origin :: string
  au_handler :: string
  au_operation :: string
  au_target_kind :: string
  au_target_id :: string
  au_task_id :: "string option"
  au_request_id :: string
  au_evidence :: json
  au_recorded_at :: string

record receiver_row =
  fl_tenant :: string
  fl_agent_id :: string
  fl_stopped :: bool

record brake_db =
  bk_db :: verdict_db
  bk_receipt :: "string \<Rightarrow> string option"
  bk_lease :: "string \<Rightarrow> int option"
  bk_cost :: "string \<Rightarrow> int"
  bk_pauses :: "pause_row list"
  bk_attempts :: "attempt_row list"
  bk_holds :: "hold_row list"
  bk_audit :: "audit_row list"
  bk_fleet :: "receiver_row list"
  bk_julian :: "string \<Rightarrow> int option"

abbreviation bk_tasks :: "brake_db \<Rightarrow> gated_task list" where
  "bk_tasks k \<equiv> vd_tasks (bk_db k)"

abbreviation bk_gates :: "brake_db \<Rightarrow> gate_db" where
  "bk_gates k \<equiv> vd_gates (bk_db k)"

abbreviation bk_tenant :: "brake_db \<Rightarrow> string" where
  "bk_tenant k \<equiv> vd_tenant (bk_db k)"

text \<open>The primary keys and the partial unique index of migration 0203.\<close>

definition brake_keys :: "brake_db \<Rightarrow> bool" where
  "brake_keys k \<longleftrightarrow>
     distinct (map (\<lambda>p. (pz_scope p, pz_scope_id p)) (filter (\<lambda>p. pz_resumed_at p = None) (bk_pauses k))) \<and>
     distinct (map ea_task_id (bk_attempts k)) \<and> distinct (map eh_task_id (bk_holds k))"

section \<open>The three brakes\<close>

definition EXECUTION_RETRY_CEILING :: nat where
  "EXECUTION_RETRY_CEILING = 3"

datatype brake_reason = Task_held | Execution_paused | Retry_ceiling_reached

definition agent_squad :: "brake_db \<Rightarrow> string \<Rightarrow> string option" where
  "agent_squad k a = map_option ag_squad_id (first_row (\<lambda>r. ag_id r = a) (db_agents (bk_gates k)))"

definition pause_covers :: "brake_db \<Rightarrow> string \<Rightarrow> pause_row \<Rightarrow> bool" where
  "pause_covers k a p \<longleftrightarrow>
     pz_scope p = Pause_agent \<and> pz_scope_id p = a \<or> pz_scope p = Pause_squad \<and> Some (pz_scope_id p) = agent_squad k a"

definition executionPausedSql :: "brake_db \<Rightarrow> string \<Rightarrow> bool" where
  "executionPausedSql k a = exists_row (\<lambda>p. pz_resumed_at p = None \<and> pause_covers k a p) (bk_pauses k)"

text \<open>Timestamps compare as texts here.\<close>

definition executionPausedAtSql :: "brake_db \<Rightarrow> string \<Rightarrow> string \<Rightarrow> bool" where
  "executionPausedAtSql k a at =
     exists_row (\<lambda>p. pz_paused_at p \<le> at \<and> (case pz_resumed_at p of None \<Rightarrow> True | Some r \<Rightarrow> r \<ge> at) \<and> pause_covers k a p)
       (bk_pauses k)"

definition pausedAtOrNow :: "brake_db \<Rightarrow> string \<Rightarrow> string \<Rightarrow> bool" where
  "pausedAtOrNow k a at \<longleftrightarrow> executionPausedSql k a \<or> executionPausedAtSql k a at"

definition PAUSE_RELEASE_AUDIT_HANDLER :: string where
  "PAUSE_RELEASE_AUDIT_HANDLER = ''routine_dispatch_pause_release''"

definition PAUSE_RELEASE_RESULT :: string where
  "PAUSE_RELEASE_RESULT = ''execution_paused: routine dispatch refused by an execution pause; task released''"

definition notReleasedControlOrphanSql :: "brake_db \<Rightarrow> string \<Rightarrow> gated_task \<Rightarrow> bool" where
  "notReleasedControlOrphanSql k tenant r \<longleftrightarrow>
     \<not> (t_status r = Blocked \<and> (case t_result r of None \<Rightarrow> [] | Some s \<Rightarrow> s) = PAUSE_RELEASE_RESULT \<and>
        exists_row (\<lambda>a. au_tenant a = tenant \<and> au_task_id a = Some (t_id r) \<and> au_handler a = PAUSE_RELEASE_AUDIT_HANDLER)
          (bk_audit k))"

definition taskHeldSql :: "brake_db \<Rightarrow> string \<Rightarrow> bool" where
  "taskHeldSql k t = exists_row (\<lambda>h. eh_task_id h = t \<and> eh_released_at h = None) (bk_holds k)"

definition retryCeilingReachedSql :: "brake_db \<Rightarrow> string \<Rightarrow> bool" where
  "retryCeilingReachedSql k t = exists_row (\<lambda>a. ea_task_id a = t \<and> ea_refused_count a \<ge> EXECUTION_RETRY_CEILING) (bk_attempts k)"

definition dispatchBrakesClearSql :: "brake_db \<Rightarrow> string \<Rightarrow> string \<Rightarrow> bool" where
  "dispatchBrakesClearSql k a t \<longleftrightarrow> \<not> taskHeldSql k t \<and> \<not> retryCeilingReachedSql k t \<and> \<not> executionPausedSql k a"

definition diagnoseDispatchBrake :: "brake_db \<Rightarrow> string \<Rightarrow> string \<Rightarrow> brake_reason option" where
  "diagnoseDispatchBrake k a t =
     (if taskHeldSql k t then Some Task_held
      else if executionPausedSql k a then Some Execution_paused
      else if retryCeilingReachedSql k t then Some Retry_ceiling_reached
      else None)"

definition RELEASE_EPOCH_PREFIX :: string where
  "RELEASE_EPOCH_PREFIX = ''release-epoch:''"

definition releasedSinceSql :: "brake_db \<Rightarrow> string \<Rightarrow> string \<Rightarrow> bool \<Rightarrow> bool" where
  "releasedSinceSql k t started secondPrecision =
     exists_row (\<lambda>rel. ea_task_id rel = RELEASE_EPOCH_PREFIX @ t \<and>
        holds (if secondPrecision then sql_gt (vd_datetime (bk_db k) (ea_last_at rel)) (vd_datetime (bk_db k) started)
               else sql_gt (bk_julian k (ea_last_at rel)) (bk_julian k started)))
       (bk_attempts k)"

section \<open>Counting a refused attempt\<close>

definition bump :: "string \<Rightarrow> string \<Rightarrow> string \<Rightarrow> attempt_row \<Rightarrow> attempt_row" where
  "bump agent reason now r =
     r\<lparr>ea_refused_count := ea_refused_count r + 1, ea_last_agent := Some agent, ea_last_reason := Some reason, ea_last_at := now\<rparr>"

definition recordRefusedAttempt ::
  "brake_db \<Rightarrow> string \<Rightarrow> string \<Rightarrow> string \<Rightarrow> string \<Rightarrow> string option \<Rightarrow> brake_db \<times> nat" where
  "recordRefusedAttempt k now agent t reason started =
     (if (case started of None \<Rightarrow> False | Some s \<Rightarrow> releasedSinceSql k t s False) then (k, 0)
      else (case first_row (\<lambda>r. ea_task_id r = t) (bk_attempts k) of
          Some r \<Rightarrow> (k\<lparr>bk_attempts := map (\<lambda>x. if ea_task_id x = t then bump agent (take 500 reason) now x else x) (bk_attempts k)\<rparr>,
             ea_refused_count r + 1)
        | None \<Rightarrow> (k\<lparr>bk_attempts := bk_attempts k @ [\<lparr>ea_task_id = t, ea_refused_count = 1, ea_last_agent = Some agent,
             ea_last_reason = Some (take 500 reason), ea_first_at = now, ea_last_at = now\<rparr>]\<rparr>, 1)))"

section \<open>A human holder of a lane\<close>

definition memberStandingOnSquadSql :: "auth_env \<Rightarrow> string \<Rightarrow> string \<Rightarrow> bool" where
  "memberStandingOnSquadSql env m squad \<longleftrightarrow>
     exists_row (\<lambda>c. g_member_id c = m \<and> holds (CAPABILITY_LIVE_PREDICATE env (g_expires_at c)) \<and>
        g_capability c \<in> {Member, Lead, Admin, Owner} \<and>
        (g_scope_type c = Org \<or>
         g_scope_type c = Squad \<and> g_scope_id c = Some squad \<or>
         g_scope_type c = Department \<and>
           (case loadSquadScope env squad of None \<Rightarrow> False | Some s \<Rightarrow> g_scope_id c = Some (sq_department_id s))))
       (t_capabilities env) \<or>
     exists_row (\<lambda>c. ccg_member_id c = m \<and> ccg_squad_id c = squad \<and> ccg_capability c \<in> {Member, Lead, Admin, Owner})
       (t_channel_grants env)"

definition humanGateHolderExistsSql :: "auth_env \<Rightarrow> verdict_db \<Rightarrow> string option \<Rightarrow> string \<Rightarrow> string \<Rightarrow> bool" where
  "humanGateHolderExistsSql env db lane assignee squad =
     exists_row (\<lambda>g. gg_principal_type g = P_member \<and> Some (gg_capability g) = lane \<and>
        exists_row (\<lambda>m. m_id m = gg_principal_id g \<and> m_active m \<and> m_tenant m = vd_tenant db \<and>
           \<not> exists_row (\<lambda>b. ab_member b = m_id m) (xd_bindings (vd_attach db)) \<and>
           \<not> memberAffiliatedWithAssigneeSql db (m_id m) assignee \<and>
           memberStandingOnSquadSql env (m_id m) squad) (t_members env))
       (gate_grants (vd_gates db))"

section \<open>The hold\<close>

definition GATE_ESCALATION :: string where
  "GATE_ESCALATION = ''gate:escalation''"

definition raisable :: "task_status \<Rightarrow> bool" where
  "raisable st \<longleftrightarrow> st \<in> {Open, Blocked, Rejected}"

definition json_of :: "string option \<Rightarrow> json" where
  "json_of v = (case v of None \<Rightarrow> JNull | Some s \<Rightarrow> JStr s)"

text \<open>The first statement of the batch: a new hold, or a released one taken again.\<close>

definition hold_eligible :: "brake_db \<Rightarrow> string \<Rightarrow> string \<Rightarrow> bool" where
  "hold_eligible k agent t =
     exists_row (\<lambda>r. t_id r = t \<and> (t_assignee_agent_id r = Some agent \<or> t_assignee_agent_id r = None) \<and>
        raisable (t_status r) \<and> \<not> archived (bk_db k) (t_id r)) (bk_tasks k)"

definition place_hold :: "string \<Rightarrow> string \<Rightarrow> string \<Rightarrow> string \<Rightarrow> brake_db \<Rightarrow> brake_db" where
  "place_hold now esc agent t k =
     (case first_row (\<lambda>a. ea_task_id a = t \<and> ea_refused_count a \<ge> EXECUTION_RETRY_CEILING \<and> hold_eligible k agent t) (bk_attempts k) of
        None \<Rightarrow> k
      | Some a \<Rightarrow>
          let new = \<lparr>eh_task_id = t, eh_escalation_id = esc, eh_agent_id = agent, eh_refused_count = ea_refused_count a,
                eh_reason = ea_last_reason a, eh_held_at = now, eh_released_at = None, eh_released_by = None,
                eh_release_id = None, eh_release_reason = None\<rparr>
          in if exists_row (\<lambda>h. eh_task_id h = t) (bk_holds k)
             then k\<lparr>bk_holds := map (\<lambda>h. if eh_task_id h = t \<and> eh_released_at h \<noteq> None then new else h) (bk_holds k)\<rparr>
             else k\<lparr>bk_holds := bk_holds k @ [new]\<rparr>)"

definition escalation_row :: "brake_db \<Rightarrow> string \<Rightarrow> string \<Rightarrow> hold_row option" where
  "escalation_row k t esc = first_row (\<lambda>h. eh_task_id h = t \<and> eh_escalation_id h = esc) (bk_holds k)"

definition audit_hold :: "string \<Rightarrow> string \<Rightarrow> string \<Rightarrow> string \<Rightarrow> string \<Rightarrow> brake_db \<Rightarrow> brake_db" where
  "audit_hold now aid esc agent t k =
     (case escalation_row k t esc of
        None \<Rightarrow> k
      | Some h \<Rightarrow> k\<lparr>bk_audit := bk_audit k @ [\<lparr>au_id = aid, au_tenant = bk_tenant k, au_principal_kind = Principal_system,
          au_principal_id = ''execution_retry_ceiling'', au_member_id = None, au_agent_id = Some agent, au_origin = ''worker_callback'',
          au_handler = ''execution_retry_ceiling'', au_operation = ''escalate_to_human'', au_target_kind = ''task'', au_target_id = t,
          au_task_id = Some t, au_request_id = esc,
          au_evidence = JObj [(''agent_id'', JStr agent), (''task_id'', JStr t), (''refused_count'', JNum (int (eh_refused_count h))),
            (''reason'', json_of (eh_reason h)), (''ceiling'', JNum (int EXECUTION_RETRY_CEILING))],
          au_recorded_at = now\<rparr>]\<rparr>)"

definition raised_gate :: "auth_env \<Rightarrow> brake_db \<Rightarrow> string \<Rightarrow> gated_task \<Rightarrow> string option" where
  "raised_gate env k agent r =
     (if t_gate_owner r = None \<or> t_gate_owner r = Some GATE_AGENT_SELF_COMPLETION then Some GATE_ESCALATION
      else if humanGateHolderExistsSql env (bk_db k) (t_gate_owner r) agent (t_squad_id r) then t_gate_owner r
      else if \<not> exists_row (\<lambda>g. Some (gg_capability g) = t_gate_owner r \<and> gg_principal_type g = P_agent) (gate_grants (bk_gates k))
        then t_gate_owner r
      else Some GATE_ESCALATION)"

definition raise_matches :: "brake_db \<Rightarrow> string \<Rightarrow> string \<Rightarrow> gated_task \<Rightarrow> bool" where
  "raise_matches k t esc r \<longleftrightarrow>
     t_id r = t \<and> raisable (t_status r) \<and> \<not> archived (bk_db k) (t_id r) \<and> escalation_row k t esc \<noteq> None"

definition raised :: "auth_env \<Rightarrow> brake_db \<Rightarrow> string \<Rightarrow> string \<Rightarrow> gated_task \<Rightarrow> gated_task" where
  "raised env k agent now r =
     r\<lparr>t_status := Blocked, t_assignee_agent_id := None, t_gate_owner := raised_gate env k agent r, t_updated_at := now\<rparr>"

definition update_tasks :: "(gated_task \<Rightarrow> bool) \<Rightarrow> (gated_task \<Rightarrow> gated_task) \<Rightarrow> brake_db \<Rightarrow> brake_db" where
  "update_tasks p f k = k\<lparr>bk_db := (bk_db k)\<lparr>vd_tasks := map (\<lambda>r. if p r then f r else r) (bk_tasks k)\<rparr>\<rparr>"

definition escalateRefusedTask ::
  "auth_env \<Rightarrow> brake_db \<Rightarrow> string \<Rightarrow> string \<Rightarrow> string \<Rightarrow> string \<Rightarrow> string \<Rightarrow> brake_db \<times> bool" where
  "escalateRefusedTask env k now esc aid agent t =
     (let k2 = audit_hold now aid esc agent t (place_hold now esc agent t k)
      in (update_tasks (raise_matches k2 t esc) (raised env k2 agent now) k2,
          length (filter (raise_matches k2 t esc) (bk_tasks k2)) = 1))"

section \<open>The release\<close>

datatype release_via = Via_execution_release | Via_human_reassign

fun via_text :: "release_via \<Rightarrow> string" where
  "via_text Via_execution_release = ''execution_release''"
| "via_text Via_human_reassign = ''human_reassign''"

datatype release_outcome = Released | Not_held

record release_input =
  ri_taskId :: string
  ri_memberId :: string
  ri_reason :: string
  ri_via :: release_via

record release_detail =
  rd_outcome :: release_outcome
  rd_clearedCounter :: bool
  rd_liftedAnything :: bool

text \<open>The columns both audit entries of a release share.\<close>

definition release_audit :: "brake_db \<Rightarrow> string \<Rightarrow> string \<Rightarrow> string \<Rightarrow> string \<Rightarrow> release_input \<Rightarrow> json \<Rightarrow> audit_row" where
  "release_audit k now aid relId op i evidence =
     \<lparr>au_id = aid, au_tenant = bk_tenant k, au_principal_kind = Principal_member, au_principal_id = ri_memberId i,
      au_member_id = Some (ri_memberId i), au_agent_id = None, au_origin = ''mcp'', au_handler = ''execution_release'',
      au_operation = op, au_target_kind = ''task'', au_target_id = ri_taskId i, au_task_id = Some (ri_taskId i),
      au_request_id = relId, au_evidence = evidence, au_recorded_at = now\<rparr>"

definition release_hold :: "string \<Rightarrow> string \<Rightarrow> release_input \<Rightarrow> brake_db \<Rightarrow> brake_db" where
  "release_hold now relId i k =
     k\<lparr>bk_holds := map (\<lambda>h. if eh_task_id h = ri_taskId i \<and> eh_released_at h = None
        then h\<lparr>eh_released_at := Some now, eh_released_by := Some (ri_memberId i), eh_release_id := Some relId,
               eh_release_reason := Some (take 2000 (ri_reason i))\<rparr> else h) (bk_holds k)\<rparr>"

definition released_row :: "brake_db \<Rightarrow> string \<Rightarrow> string \<Rightarrow> hold_row option" where
  "released_row k t relId = first_row (\<lambda>h. eh_task_id h = t \<and> eh_release_id h = Some relId) (bk_holds k)"

definition audit_release :: "string \<Rightarrow> string \<Rightarrow> string \<Rightarrow> release_input \<Rightarrow> brake_db \<Rightarrow> brake_db" where
  "audit_release now aid relId i k =
     (case released_row k (ri_taskId i) relId of
        None \<Rightarrow> k
      | Some h \<Rightarrow> k\<lparr>bk_audit := bk_audit k @ [release_audit k now aid relId (via_text (ri_via i)) i
          (JObj [(''task_id'', JStr (ri_taskId i)), (''reason'', json_of (eh_release_reason h)),
            (''via'', JStr (via_text (ri_via i))), (''held_agent_id'', JStr (eh_agent_id h))])]\<rparr>)"

definition drop_attempts :: "(attempt_row \<Rightarrow> bool) \<Rightarrow> brake_db \<Rightarrow> brake_db" where
  "drop_attempts p k = k\<lparr>bk_attempts := filter (\<lambda>a. \<not> p a) (bk_attempts k)\<rparr>"

definition stuck_counter :: "string \<Rightarrow> attempt_row \<Rightarrow> bool" where
  "stuck_counter t a \<longleftrightarrow> ea_task_id a = t \<and> ea_refused_count a \<ge> EXECUTION_RETRY_CEILING"

definition audit_counter :: "string \<Rightarrow> string \<Rightarrow> string \<Rightarrow> release_input \<Rightarrow> brake_db \<Rightarrow> brake_db" where
  "audit_counter now aid relId i k =
     (case first_row (\<lambda>a. stuck_counter (ri_taskId i) a \<and> released_row k (ri_taskId i) relId = None) (bk_attempts k) of
        None \<Rightarrow> k
      | Some a \<Rightarrow> k\<lparr>bk_audit := bk_audit k @ [release_audit k now aid relId ''counter_reset'' i
          (JObj [(''task_id'', JStr (ri_taskId i)), (''reason'', JStr (take 2000 (ri_reason i))),
            (''via'', JStr (via_text (ri_via i))), (''refused_count'', JNum (int (ea_refused_count a))),
            (''last_agent_id'', json_of (ea_last_agent a))])]\<rparr>)"

definition stamp_epoch :: "string \<Rightarrow> string \<Rightarrow> brake_db \<Rightarrow> brake_db" where
  "stamp_epoch now t k =
     (let key = RELEASE_EPOCH_PREFIX @ t in
      if exists_row (\<lambda>a. ea_task_id a = key) (bk_attempts k)
      then k\<lparr>bk_attempts := map (\<lambda>a. if ea_task_id a = key then a\<lparr>ea_last_at := now\<rparr> else a) (bk_attempts k)\<rparr>
      else k\<lparr>bk_attempts := bk_attempts k @ [\<lparr>ea_task_id = key, ea_refused_count = 0, ea_last_agent = None,
        ea_last_reason = Some ''release_epoch'', ea_first_at = now, ea_last_at = now\<rparr>]\<rparr>)"

definition releaseExecutionHoldDetailed ::
  "brake_db \<Rightarrow> string \<Rightarrow> string \<Rightarrow> string \<Rightarrow> string \<Rightarrow> release_input \<Rightarrow> brake_db \<times> release_detail" where
  "releaseExecutionHoldDetailed k now relId aid1 aid2 i =
     (let t = ri_taskId i;
          k1 = release_hold now relId i k;
          k2 = audit_release now aid1 relId i k1;
          k3 = drop_attempts (\<lambda>a. ea_task_id a = t \<and> released_row k2 t relId \<noteq> None) k2;
          k4 = audit_counter now aid2 relId i k3;
          k5 = drop_attempts (stuck_counter t) k4;
          cleared = exists_row (stuck_counter t) (bk_attempts k4);
          out = (if length (filter (\<lambda>h. eh_task_id h = t \<and> eh_released_at h = None) (bk_holds k)) = 1 then Released else Not_held)
      in (stamp_epoch now t k5,
          \<lparr>rd_outcome = out, rd_clearedCounter = cleared, rd_liftedAnything = (out = Released \<or> cleared)\<rparr>))"

definition releaseExecutionHold ::
  "brake_db \<Rightarrow> string \<Rightarrow> string \<Rightarrow> string \<Rightarrow> string \<Rightarrow> release_input \<Rightarrow> brake_db \<times> release_outcome" where
  "releaseExecutionHold k now relId aid1 aid2 i = map_prod id rd_outcome (releaseExecutionHoldDetailed k now relId aid1 aid2 i)"

section \<open>Who may release\<close>

text \<open>The two marks of a harness session that \<open>auth_context\<close> does not carry.\<close>

record harness_marks =
  hm_harnessId :: "string option"
  hm_harnessCredential :: bool

definition releaseActorMemberId :: "auth_context \<Rightarrow> string option" where
  "releaseActorMemberId auth = nullish (memberId auth) (webSessionMemberId auth)"

definition canReleaseExecutionHold :: "auth_env \<Rightarrow> auth_context \<Rightarrow> harness_marks \<Rightarrow> string \<Rightarrow> bool" where
  "canReleaseExecutionHold env auth hm squadId =
     (if truthy (boundAgentId auth) then False
      else if truthy (hm_harnessId hm) \<or> hm_harnessCredential hm \<or> seatBinding auth \<noteq> None then False
      else if \<not> truthy (releaseActorMemberId auth) then False
      else hasWorkspaceAdmin auth \<or> canOnSquadAuth env (Some auth) (By_id squadId) Admin)"

datatype held_reassign_decision = Proceed | Release_first | Refuse_held

definition decideReassignOverHold ::
  "auth_env \<Rightarrow> brake_db \<Rightarrow> auth_context \<Rightarrow> harness_marks \<Rightarrow> string \<Rightarrow> string \<Rightarrow> held_reassign_decision" where
  "decideReassignOverHold env k auth hm t squadId =
     (if \<not> taskHeldSql k t then Proceed
      else if canReleaseExecutionHold env auth hm squadId then Release_first else Refuse_held)"

section \<open>The tools\<close>

datatype tool_failure =
    Operator_principal_required
  | Need_org_admin
  | Need_member_identity
  | Need_squad_admin
  | Bad_scope
  | Id_required
  | Reason_required
  | Invalid_reason
  | Tool_not_found

datatype tool_reply =
    Tool_fail tool_failure
  | Already_paused
  | Pause_written string
  | Not_paused
  | Resume_written string
  | Release_reply release_outcome

definition REASON_MAX :: nat where
  "REASON_MAX = 2000"

definition requireOperatorOrgAdmin :: "auth_context \<Rightarrow> tool_failure option" where
  "requireOperatorOrgAdmin auth =
     (if truthy (boundAgentId auth) then Some Operator_principal_required
      else if \<not> hasWorkspaceAdmin auth then Some Need_org_admin
      else if \<not> truthy (memberId auth) then Some Need_member_identity
      else None)"

definition str :: "json option \<Rightarrow> string option" where
  "str v = (case as_string v of None \<Rightarrow> None | Some s \<Rightarrow> if trim s \<noteq> [] then Some s else None)"

definition isScope :: "json option \<Rightarrow> pause_scope option" where
  "isScope v = (if as_string v = Some ''agent'' then Some Pause_agent
     else if as_string v = Some ''squad'' then Some Pause_squad else None)"

definition parseArgs :: "(string \<times> json) list \<Rightarrow> tool_failure + pause_scope \<times> string \<times> string" where
  "parseArgs args =
     (case isScope (field args ''scope'') of
        None \<Rightarrow> Inl Bad_scope
      | Some scope \<Rightarrow>
          (case str (field args ''id'') of
             None \<Rightarrow> Inl Id_required
           | Some i \<Rightarrow>
               (case str (field args ''reason'') of
                  None \<Rightarrow> Inl Reason_required
                | Some reason \<Rightarrow> if length reason > REASON_MAX then Inl Invalid_reason else Inr (scope, i, reason))))"

definition pause_target_exists :: "auth_env \<Rightarrow> brake_db \<Rightarrow> pause_scope \<Rightarrow> string \<Rightarrow> bool" where
  "pause_target_exists env k scope i =
     (case scope of
        Pause_agent \<Rightarrow> exists_row (\<lambda>r. ag_id r = i) (db_agents (bk_gates k))
      | Pause_squad \<Rightarrow> exists_row (\<lambda>s. sq_id s = i) (t_squads env))"

fun scope_text :: "pause_scope \<Rightarrow> string" where
  "scope_text Pause_agent = ''agent''"
| "scope_text Pause_squad = ''squad''"

definition pause_audit :: "brake_db \<Rightarrow> string \<Rightarrow> string \<Rightarrow> string \<Rightarrow> string \<Rightarrow> string \<Rightarrow> pause_scope \<Rightarrow> string \<Rightarrow> json \<Rightarrow> audit_row" where
  "pause_audit k now aid member op reqId scope i evidence =
     \<lparr>au_id = aid, au_tenant = bk_tenant k, au_principal_kind = Principal_member, au_principal_id = member,
      au_member_id = Some member, au_agent_id = None, au_origin = ''mcp'', au_handler = ''execution_pause'', au_operation = op,
      au_target_kind = scope_text scope, au_target_id = i, au_task_id = None, au_request_id = reqId,
      au_evidence = evidence, au_recorded_at = now\<rparr>"

definition active_pause :: "pause_scope \<Rightarrow> string \<Rightarrow> pause_row \<Rightarrow> bool" where
  "active_pause scope i p \<longleftrightarrow> pz_scope p = scope \<and> pz_scope_id p = i \<and> pz_resumed_at p = None"

definition toolExecutionPause ::
  "auth_env \<Rightarrow> brake_db \<Rightarrow> string \<Rightarrow> string \<Rightarrow> string \<Rightarrow> auth_context \<Rightarrow> (string \<times> json) list \<Rightarrow> brake_db \<times> tool_reply" where
  "toolExecutionPause env k now pauseId aid auth args =
     (case requireOperatorOrgAdmin auth of
        Some e \<Rightarrow> (k, Tool_fail e)
      | None \<Rightarrow>
     (case parseArgs args of
        Inl e \<Rightarrow> (k, Tool_fail e)
      | Inr (scope, i, reason) \<Rightarrow>
          if \<not> pause_target_exists env k scope i then (k, Tool_fail Tool_not_found)
          else if exists_row (active_pause scope i) (bk_pauses k) then (k, Already_paused)
          else (let member = the (memberId auth) in
            (k\<lparr>bk_pauses := bk_pauses k @ [\<lparr>pz_id = pauseId, pz_tenant = bk_tenant k, pz_scope = scope, pz_scope_id = i,
                 pz_reason = reason, pz_paused_by = member, pz_paused_at = now, pz_resumed_at = None, pz_resumed_by = None,
                 pz_resume_reason = None\<rparr>],
               bk_audit := bk_audit k @ [pause_audit k now aid member ''pause'' pauseId scope i
                 (JObj [(''scope'', JStr (scope_text scope)), (''id'', JStr i), (''reason'', JStr reason), (''pause_id'', JStr pauseId)])]\<rparr>,
             Pause_written pauseId))))"

definition toolExecutionResume ::
  "brake_db \<Rightarrow> string \<Rightarrow> string \<Rightarrow> string \<Rightarrow> auth_context \<Rightarrow> (string \<times> json) list \<Rightarrow> brake_db \<times> tool_reply" where
  "toolExecutionResume k now reqId aid auth args =
     (case requireOperatorOrgAdmin auth of
        Some e \<Rightarrow> (k, Tool_fail e)
      | None \<Rightarrow>
     (case parseArgs args of
        Inl e \<Rightarrow> (k, Tool_fail e)
      | Inr (scope, i, reason) \<Rightarrow>
          (let member = the (memberId auth);
               k1 = k\<lparr>bk_pauses := map (\<lambda>p. if active_pause scope i p
                 then p\<lparr>pz_resumed_at := Some now, pz_resumed_by := Some member, pz_resume_reason := Some reason\<rparr> else p) (bk_pauses k)\<rparr>
           in if length (filter (active_pause scope i) (bk_pauses k)) = 1
              then (k1\<lparr>bk_audit := bk_audit k1 @ [pause_audit k1 now aid member ''resume'' reqId scope i
                  (JObj [(''scope'', JStr (scope_text scope)), (''id'', JStr i), (''reason'', JStr reason),
                    (''resume_request_id'', JStr reqId)])]\<rparr>, Resume_written reqId)
              else (k1, Not_paused))))"

definition toolExecutionRelease ::
  "auth_env \<Rightarrow> brake_db \<Rightarrow> string \<Rightarrow> string \<Rightarrow> string \<Rightarrow> string \<Rightarrow> auth_context \<Rightarrow> harness_marks \<Rightarrow> (string \<times> json) list
     \<Rightarrow> brake_db \<times> tool_reply" where
  "toolExecutionRelease env k now relId aid1 aid2 auth hm args =
     (if truthy (boundAgentId auth) then (k, Tool_fail Operator_principal_required)
      else if \<not> truthy (memberId auth) then (k, Tool_fail Need_member_identity)
      else (case str (field args ''task_id'') of
        None \<Rightarrow> (k, Tool_fail Id_required)
      | Some t \<Rightarrow>
     (case str (field args ''reason'') of
        None \<Rightarrow> (k, Tool_fail Reason_required)
      | Some reason \<Rightarrow>
          if length reason > REASON_MAX then (k, Tool_fail Invalid_reason)
          else (case first_row (\<lambda>r. t_id r = t) (bk_tasks k) of
              None \<Rightarrow> (k, Tool_fail Tool_not_found)
            | Some r \<Rightarrow>
                if \<not> canReleaseExecutionHold env auth hm (t_squad_id r) then (k, Tool_fail Need_squad_admin)
                else map_prod id (\<lambda>d. Release_reply (rd_outcome d)) (releaseExecutionHoldDetailed k now relId aid1 aid2
                   \<lparr>ri_taskId = t_id r, ri_memberId = the (memberId auth), ri_reason = reason, ri_via = Via_execution_release\<rparr>)))))"

section \<open>The counter and the hold of a task\<close>

definition refused_count :: "brake_db \<Rightarrow> string \<Rightarrow> nat" where
  "refused_count k t = (case first_row (\<lambda>a. ea_task_id a = t) (bk_attempts k) of None \<Rightarrow> 0 | Some a \<Rightarrow> ea_refused_count a)"

lemma epoch_prefix [simp]: "RELEASE_EPOCH_PREFIX \<noteq> []"
  by (simp add: RELEASE_EPOCH_PREFIX_def)

lemma ceiling_iff:
  assumes "distinct (map ea_task_id (bk_attempts k))"
  shows "retryCeilingReachedSql k t \<longleftrightarrow> EXECUTION_RETRY_CEILING \<le> refused_count k t"
proof
  assume "retryCeilingReachedSql k t"
  then obtain a where "a \<in> set (bk_attempts k)" "ea_task_id a = t" "EXECUTION_RETRY_CEILING \<le> ea_refused_count a"
    by (auto simp: retryCeilingReachedSql_def exists_row_iff)
  then show "EXECUTION_RETRY_CEILING \<le> refused_count k t"
    using first_row_key [OF assms, of a] by (simp add: refused_count_def)
next
  assume "EXECUTION_RETRY_CEILING \<le> refused_count k t"
  then show "retryCeilingReachedSql k t"
    by (auto simp: refused_count_def retryCeilingReachedSql_def exists_row_iff EXECUTION_RETRY_CEILING_def
        dest!: first_row_Some split: option.splits)
qed

text \<open>The guard of every start of work and its diagnosis name the same condition.\<close>

lemma dispatch_clear_iff: "dispatchBrakesClearSql k a t \<longleftrightarrow> diagnoseDispatchBrake k a t = None"
  by (simp add: dispatchBrakesClearSql_def diagnoseDispatchBrake_def)

lemma first_row_map_same:
  assumes "\<And>x. P (f x) = P x"
  shows "first_row P (map f xs) = map_option f (first_row P xs)"
  using assms by (induction xs) (auto simp: first_row_def)

lemma first_row_append: "first_row P (xs @ ys) = (case first_row P xs of None \<Rightarrow> first_row P ys | Some x \<Rightarrow> Some x)"
  by (induction xs) (auto simp: first_row_def)

lemma first_row_single: "first_row P [x] = (if P x then Some x else None)"
  by (simp add: first_row_def)

lemma bump_keys [simp]:
  "map (ea_task_id \<circ> (\<lambda>x. if ea_task_id x = t then bump agent reason now x else x)) xs = map ea_task_id xs"
  by (simp add: bump_def)

lemma first_row_only:
  assumes "exists_row P xs" and "\<And>x. x \<in> set xs \<Longrightarrow> P x \<Longrightarrow> x = v"
  shows "first_row P xs = Some v"
  using assms by (cases "first_row P xs") (auto simp: first_row_None exists_row_iff dest: first_row_Some)

lemma record_count:
  assumes "recordRefusedAttempt k now agent t reason started = (k', n)"
    and "\<not> (case started of None \<Rightarrow> False | Some s \<Rightarrow> releasedSinceSql k t s False)"
  shows "n = refused_count k t + 1" "refused_count k' t = n" "k' = k\<lparr>bk_attempts := bk_attempts k'\<rparr>"
    "t' \<noteq> t \<Longrightarrow> first_row (\<lambda>a. ea_task_id a = t') (bk_attempts k') = first_row (\<lambda>a. ea_task_id a = t') (bk_attempts k)"
    "distinct (map ea_task_id (bk_attempts k)) \<Longrightarrow> distinct (map ea_task_id (bk_attempts k'))"
proof -
  let ?f = "\<lambda>x. if ea_task_id x = t then bump agent (take 500 reason) now x else x"
  have look: "first_row (\<lambda>r. ea_task_id r = u) (map ?f (bk_attempts k)) = map_option ?f (first_row (\<lambda>r. ea_task_id r = u) (bk_attempts k))" for u
    by (rule first_row_map_same) (simp add: bump_def)
  note r = assms [unfolded recordRefusedAttempt_def]
  have "n = refused_count k t + 1 \<and> refused_count k' t = n \<and> k' = k\<lparr>bk_attempts := bk_attempts k'\<rparr> \<and>
    (t' \<noteq> t \<longrightarrow> first_row (\<lambda>a. ea_task_id a = t') (bk_attempts k') = first_row (\<lambda>a. ea_task_id a = t') (bk_attempts k)) \<and>
    (distinct (map ea_task_id (bk_attempts k)) \<longrightarrow> distinct (map ea_task_id (bk_attempts k')))"
  proof (cases "first_row (\<lambda>r. ea_task_id r = t) (bk_attempts k)")
    case None
    then have "t \<notin> set (map ea_task_id (bk_attempts k))" by (auto simp: first_row_None)
    with None r show ?thesis by (auto simp: refused_count_def first_row_append first_row_single split: option.splits)
  next
    case (Some a)
    have "ea_task_id a = t" using first_row_Some [OF Some] by simp
    moreover have "map_option ?f (first_row (\<lambda>r. ea_task_id r = u) (bk_attempts k)) = first_row (\<lambda>r. ea_task_id r = u) (bk_attempts k)"
      if "u \<noteq> t" for u
      using that by (cases "first_row (\<lambda>r. ea_task_id r = u) (bk_attempts k)") (auto dest: first_row_Some)
    ultimately show ?thesis using Some r look by (auto simp: refused_count_def) (simp_all add: bump_def)
  qed
  then show "n = refused_count k t + 1" "refused_count k' t = n" "k' = k\<lparr>bk_attempts := bk_attempts k'\<rparr>"
    "t' \<noteq> t \<Longrightarrow> first_row (\<lambda>a. ea_task_id a = t') (bk_attempts k') = first_row (\<lambda>a. ea_task_id a = t') (bk_attempts k)"
    "distinct (map ea_task_id (bk_attempts k)) \<Longrightarrow> distinct (map ea_task_id (bk_attempts k'))" by blast+
qed

section \<open>What a release does\<close>

definition fresh_release :: "brake_db \<Rightarrow> string \<Rightarrow> bool" where
  "fresh_release k relId = list_all (\<lambda>h. eh_release_id h \<noteq> Some relId) (bk_holds k)"

lemma exists_row_map: "exists_row P (map f xs) \<longleftrightarrow> exists_row (\<lambda>x. P (f x)) xs"
  by (auto simp: exists_row_iff)

lemma exists_row_append: "exists_row P (xs @ ys) \<longleftrightarrow> exists_row P xs \<or> exists_row P ys"
  by (auto simp: exists_row_iff)

lemma first_row_exists: "first_row P xs \<noteq> None \<longleftrightarrow> exists_row P xs"
  by (auto simp: first_row_None exists_row_iff)

lemma released_row_iff:
  assumes "fresh_release k relId"
  shows "released_row (release_hold now relId i k) (ri_taskId i) relId \<noteq> None \<longleftrightarrow> taskHeldSql k (ri_taskId i)"
  using assms unfolding released_row_def first_row_exists release_hold_def taskHeldSql_def
  by (simp add: exists_row_map) (auto simp: fresh_release_def exists_row_iff list_all_iff)

lemma release_hold_held: "taskHeldSql (release_hold now relId i k) u \<longleftrightarrow> u \<noteq> ri_taskId i \<and> taskHeldSql k u"
  by (simp add: release_hold_def taskHeldSql_def exists_row_map) (auto simp: exists_row_iff)

lemma held_length:
  assumes "distinct (map eh_task_id (bk_holds k))"
  shows "length (filter (\<lambda>h. eh_task_id h = t \<and> eh_released_at h = None) (bk_holds k)) = 1 \<longleftrightarrow> taskHeldSql k t"
  using filter_key [OF assms, of t "\<lambda>h. eh_released_at h = None"]
  by (cases "first_row (\<lambda>h. eh_task_id h = t) (bk_holds k)")
    (use first_row_key [OF assms] in \<open>auto simp: taskHeldSql_def exists_row_iff first_row_None dest: first_row_Some\<close>)

lemma audit_release_frame [simp]:
  "bk_holds (audit_release now aid relId i k) = bk_holds k" "bk_attempts (audit_release now aid relId i k) = bk_attempts k"
  "bk_db (audit_release now aid relId i k) = bk_db k" "bk_julian (audit_release now aid relId i k) = bk_julian k"
  "bk_holds (audit_counter now aid relId i k) = bk_holds k" "bk_attempts (audit_counter now aid relId i k) = bk_attempts k"
  "bk_db (audit_counter now aid relId i k) = bk_db k" "bk_julian (audit_counter now aid relId i k) = bk_julian k"
  by (simp_all add: audit_release_def audit_counter_def split: option.splits)

lemma release_frame [simp]:
  "bk_holds (drop_attempts p k) = bk_holds k" "bk_db (drop_attempts p k) = bk_db k" "bk_audit (drop_attempts p k) = bk_audit k"
  "bk_julian (drop_attempts p k) = bk_julian k" "bk_attempts (drop_attempts p k) = filter (\<lambda>a. \<not> p a) (bk_attempts k)"
  "bk_holds (stamp_epoch now t k) = bk_holds k" "bk_db (stamp_epoch now t k) = bk_db k" "bk_audit (stamp_epoch now t k) = bk_audit k"
  "bk_julian (stamp_epoch now t k) = bk_julian k"
  "bk_attempts (release_hold now relId i k) = bk_attempts k" "bk_db (release_hold now relId i k) = bk_db k"
  "bk_audit (release_hold now relId i k) = bk_audit k" "bk_julian (release_hold now relId i k) = bk_julian k"
  by (simp_all add: drop_attempts_def stamp_epoch_def release_hold_def Let_def)

lemma first_row_filter_other:
  assumes "\<And>x. P x \<Longrightarrow> Q x"
  shows "first_row P (filter Q xs) = first_row P xs"
  using assms by (induction xs) (auto simp: first_row_def)

lemma stamp_epoch_lookup:
  assumes "u \<noteq> RELEASE_EPOCH_PREFIX @ t"
  shows "first_row (\<lambda>a. ea_task_id a = u) (bk_attempts (stamp_epoch now t k)) = first_row (\<lambda>a. ea_task_id a = u) (bk_attempts k)"
proof -
  let ?f = "\<lambda>a. if ea_task_id a = RELEASE_EPOCH_PREFIX @ t then a\<lparr>ea_last_at := now\<rparr> else a"
  have "first_row (\<lambda>a. ea_task_id a = u) (map ?f (bk_attempts k)) = map_option ?f (first_row (\<lambda>a. ea_task_id a = u) (bk_attempts k))"
    by (rule first_row_map_same) simp
  moreover have "map_option ?f (first_row (\<lambda>a. ea_task_id a = u) (bk_attempts k)) = first_row (\<lambda>a. ea_task_id a = u) (bk_attempts k)"
    using assms by (cases "first_row (\<lambda>a. ea_task_id a = u) (bk_attempts k)") (auto dest: first_row_Some)
  ultimately show ?thesis
    using assms by (auto simp: stamp_epoch_def Let_def first_row_append first_row_single split: option.splits)
qed

lemma stamp_epoch_ceiling: "retryCeilingReachedSql (stamp_epoch now t k) u \<longleftrightarrow> retryCeilingReachedSql k u"
proof -
  have c: "ea_task_id (if c then x\<lparr>ea_last_at := now\<rparr> else x) = ea_task_id x"
    "ea_refused_count (if c then x\<lparr>ea_last_at := now\<rparr> else x) = ea_refused_count x" for c x by simp_all
  show ?thesis
    by (simp add: retryCeilingReachedSql_def stamp_epoch_def Let_def exists_row_map exists_row_append c)
      (simp add: exists_row_iff EXECUTION_RETRY_CEILING_def)
qed

lemma stamp_epoch_stale:
  assumes "holds (sql_gt (bk_julian k now) (bk_julian k started))"
  shows "releasedSinceSql (stamp_epoch now t k) t started False"
  using assms by (auto simp: releasedSinceSql_def stamp_epoch_def Let_def exists_row_map exists_row_append) (auto simp: exists_row_iff)

text \<open>The attempts and the audit entries after the six statements.\<close>

definition before_epoch :: "brake_db \<Rightarrow> string \<Rightarrow> string \<Rightarrow> string \<Rightarrow> string \<Rightarrow> release_input \<Rightarrow> brake_db" where
  "before_epoch k now relId aid1 aid2 i =
     (let k2 = audit_release now aid1 relId i (release_hold now relId i k)
      in drop_attempts (stuck_counter (ri_taskId i)) (audit_counter now aid2 relId i
           (drop_attempts (\<lambda>a. ea_task_id a = ri_taskId i \<and> released_row k2 (ri_taskId i) relId \<noteq> None) k2)))"

lemma release_split:
  "fst (releaseExecutionHoldDetailed k now relId aid1 aid2 i) = stamp_epoch now (ri_taskId i) (before_epoch k now relId aid1 aid2 i)"
  by (simp add: releaseExecutionHoldDetailed_def before_epoch_def Let_def)

lemma before_epoch_attempts:
  assumes "fresh_release k relId"
  shows "bk_attempts (before_epoch k now relId aid1 aid2 i) =
    filter (\<lambda>a. \<not> stuck_counter (ri_taskId i) a) (filter (\<lambda>a. \<not> (ea_task_id a = ri_taskId i \<and> taskHeldSql k (ri_taskId i))) (bk_attempts k))"
proof -
  have "released_row (audit_release now aid1 relId i (release_hold now relId i k)) (ri_taskId i) relId \<noteq> None \<longleftrightarrow> taskHeldSql k (ri_taskId i)"
    using released_row_iff [OF assms] by (simp add: released_row_def)
  then show ?thesis by (simp add: before_epoch_def Let_def)
qed

lemma before_epoch_frame:
  "bk_db (before_epoch k now relId aid1 aid2 i) = bk_db k" "bk_julian (before_epoch k now relId aid1 aid2 i) = bk_julian k"
  "taskHeldSql (before_epoch k now relId aid1 aid2 i) u \<longleftrightarrow> u \<noteq> ri_taskId i \<and> taskHeldSql k u"
  using release_hold_held [of now relId i k u] by (simp_all add: before_epoch_def Let_def taskHeldSql_def)

lemma release_entries:
  "\<exists>a. au_member_id a = Some (ri_memberId i) \<and> bk_audit (audit_release now aid relId i k) =
    bk_audit k @ (if released_row k (ri_taskId i) relId \<noteq> None then [a] else [])"
  "\<exists>a. au_member_id a = Some (ri_memberId i) \<and> bk_audit (audit_counter now aid relId i k) =
    bk_audit k @ (if released_row k (ri_taskId i) relId = None \<and> exists_row (stuck_counter (ri_taskId i)) (bk_attempts k) then [a] else [])"
proof -
  have m: "au_member_id (release_audit k' now aid relId op i ev) = Some (ri_memberId i)" for k' op ev by (simp add: release_audit_def)
  show "\<exists>a. au_member_id a = Some (ri_memberId i) \<and> bk_audit (audit_release now aid relId i k) =
    bk_audit k @ (if released_row k (ri_taskId i) relId \<noteq> None then [a] else [])"
    using m by (cases "released_row k (ri_taskId i) relId") (auto simp: audit_release_def)
  have ex: "\<exists>a :: audit_row. au_member_id a = Some (ri_memberId i)"
    by (rule exI [where x = "release_audit k now aid relId [] i JNull"]) (rule m)
  show "\<exists>a. au_member_id a = Some (ri_memberId i) \<and> bk_audit (audit_counter now aid relId i k) =
    bk_audit k @ (if released_row k (ri_taskId i) relId = None \<and> exists_row (stuck_counter (ri_taskId i)) (bk_attempts k) then [a] else [])"
  proof (cases "first_row (\<lambda>a. stuck_counter (ri_taskId i) a \<and> released_row k (ri_taskId i) relId = None) (bk_attempts k)")
    case None
    then have "\<not> (released_row k (ri_taskId i) relId = None \<and> exists_row (stuck_counter (ri_taskId i)) (bk_attempts k))"
      by (auto simp: first_row_None exists_row_iff)
    with None ex show ?thesis by (simp add: audit_counter_def)
  next
    case (Some a)
    then have "released_row k (ri_taskId i) relId = None \<and> exists_row (stuck_counter (ri_taskId i)) (bk_attempts k)"
      by (auto simp: exists_row_iff dest: first_row_Some)
    with Some m show ?thesis by (auto simp: audit_counter_def)
  qed
qed

lemma before_epoch_audit:
  assumes "fresh_release k relId"
  shows "\<exists>a. au_member_id a = Some (ri_memberId i) \<and> bk_audit (before_epoch k now relId aid1 aid2 i) =
    bk_audit k @ (if taskHeldSql k (ri_taskId i) \<or> retryCeilingReachedSql k (ri_taskId i) then [a] else [])"
proof -
  let ?t = "ri_taskId i"
  define k1 where "k1 = release_hold now relId i k"
  define k2 where "k2 = audit_release now aid1 relId i k1"
  define k3 where "k3 = drop_attempts (\<lambda>a. ea_task_id a = ?t \<and> released_row k2 ?t relId \<noteq> None) k2"
  have b: "bk_audit (before_epoch k now relId aid1 aid2 i) = bk_audit (audit_counter now aid2 relId i k3)"
    by (simp add: before_epoch_def Let_def k1_def k2_def k3_def)
  have r: "released_row k1 ?t relId \<noteq> None \<longleftrightarrow> taskHeldSql k ?t" unfolding k1_def by (rule released_row_iff [OF assms])
  have same: "released_row k2 ?t relId = released_row k1 ?t relId" "released_row k3 ?t relId = released_row k1 ?t relId"
    by (simp_all add: released_row_def k2_def k3_def)
  have f: "bk_audit k3 = bk_audit k2" "bk_audit k1 = bk_audit k" by (simp_all add: k3_def k1_def)
  have a: "exists_row (stuck_counter ?t) (bk_attempts k3) \<longleftrightarrow> retryCeilingReachedSql k ?t" if "\<not> taskHeldSql k ?t"
  proof -
    have "bk_attempts k3 = bk_attempts k" using r that by (simp add: k3_def same) (simp add: k2_def k1_def)
    then show ?thesis by (simp add: retryCeilingReachedSql_def exists_row_iff stuck_counter_def)
  qed
  show ?thesis
    using release_entries(1) [of i now aid1 relId k1] release_entries(2) [of i now aid2 relId k3] r a
    unfolding b same f k2_def [symmetric] by (cases "taskHeldSql k ?t") auto
qed

text \<open>C21: A release undoes exactly what the brakes did to the task. Afterwards the task is neither held nor at the ceiling,
  the answer says whether a hold was lifted, and the human's name is on exactly one new audit entry if a hold or a stuck
  counter was lifted and on none otherwise. What was lifted starts again from zero, a refused attempt that started before
  the release is never counted, and no other task's hold or counter moves.\<close>
theorem release_restores_execution:
  assumes "brake_keys k" and "fresh_release k relId"
    and "releaseExecutionHoldDetailed k now relId aid1 aid2 i = (k', d)" and "t = ri_taskId i"
  shows "\<not> taskHeldSql k' t \<and> \<not> retryCeilingReachedSql k' t \<and> bk_db k' = bk_db k \<and>
    rd_outcome d = (if taskHeldSql k t then Released else Not_held) \<and>
    (rd_liftedAnything d \<longleftrightarrow> taskHeldSql k t \<or> retryCeilingReachedSql k t) \<and>
    (rd_liftedAnything d \<longrightarrow> refused_count k' t = 0) \<and>
    (\<exists>a. au_member_id a = Some (ri_memberId i) \<and> bk_audit k' = bk_audit k @ (if rd_liftedAnything d then [a] else [])) \<and>
    (\<forall>started now' agent reason. holds (sql_gt (bk_julian k now) (bk_julian k started)) \<longrightarrow>
       recordRefusedAttempt k' now' agent t reason (Some started) = (k', 0)) \<and>
    (\<forall>u. u \<noteq> t \<longrightarrow> taskHeldSql k' u = taskHeldSql k u \<and>
       (u \<noteq> RELEASE_EPOCH_PREFIX @ t \<longrightarrow> refused_count k' u = refused_count k u))"
proof -
  let ?b = "before_epoch k now relId aid1 aid2 i"
  have keys: "distinct (map ea_task_id (bk_attempts k))" "distinct (map eh_task_id (bk_holds k))" using assms(1) by (simp_all add: brake_keys_def)
  have k': "k' = stamp_epoch now t ?b" using release_split assms(3,4) by (metis fst_conv)
  have att: "bk_attempts ?b = filter (\<lambda>a. \<not> stuck_counter t a) (filter (\<lambda>a. \<not> (ea_task_id a = t \<and> taskHeldSql k t)) (bk_attempts k))"
    using before_epoch_attempts [OF assms(2)] assms(4) by simp
  have d: "rd_outcome d = (if taskHeldSql k t then Released else Not_held)"
    "rd_liftedAnything d \<longleftrightarrow> rd_outcome d = Released \<or> rd_clearedCounter d"
    "rd_clearedCounter d \<longleftrightarrow> \<not> taskHeldSql k t \<and> retryCeilingReachedSql k t"
    using assms(3) held_length [OF keys(2), of t] released_row_iff [OF assms(2), of now i] assms(4)
    by (auto simp: releaseExecutionHoldDetailed_def Let_def released_row_def exists_row_iff retryCeilingReachedSql_def stuck_counter_def)
  have ceil: "\<not> retryCeilingReachedSql k' t"
    unfolding k' stamp_epoch_ceiling by (auto simp: retryCeilingReachedSql_def exists_row_iff att stuck_counter_def)
  have zero: "refused_count k' t = 0" if "rd_liftedAnything d"
  proof -
    have "first_row (\<lambda>a. ea_task_id a = t) (bk_attempts ?b) = None"
      using that d ceiling_iff [OF keys(1), of t] first_row_key [OF keys(1)]
      by (auto simp: att first_row_None stuck_counter_def refused_count_def split: if_splits)
    then show ?thesis by (simp add: k' refused_count_def stamp_epoch_lookup)
  qed
  have other: "refused_count k' u = refused_count k u" if "u \<noteq> t" "u \<noteq> RELEASE_EPOCH_PREFIX @ t" for u
  proof -
    have "first_row (\<lambda>a. ea_task_id a = u) (bk_attempts ?b) = first_row (\<lambda>a. ea_task_id a = u) (bk_attempts k)"
      unfolding att by (subst first_row_filter_other, use that(1) in \<open>auto simp: stuck_counter_def\<close>)+
    with that(2) show ?thesis by (simp add: k' refused_count_def stamp_epoch_lookup)
  qed
  have stale: "recordRefusedAttempt k' now' agent t reason (Some started) = (k', 0)"
    if "holds (sql_gt (bk_julian k now) (bk_julian k started))" for started now' agent reason
    using stamp_epoch_stale [of ?b now started t] that by (simp add: recordRefusedAttempt_def k' before_epoch_frame)
  have held: "taskHeldSql k' u \<longleftrightarrow> u \<noteq> t \<and> taskHeldSql k u" for u
    using before_epoch_frame(3) [of k now relId aid1 aid2 i u] assms(4) by (simp add: k' taskHeldSql_def)
  have audit: "\<exists>a. au_member_id a = Some (ri_memberId i) \<and> bk_audit k' = bk_audit k @ (if rd_liftedAnything d then [a] else [])"
    using before_epoch_audit [OF assms(2), of i now aid1 aid2] assms(4) d by (auto simp: k')
  have lifted: "rd_liftedAnything d \<longleftrightarrow> taskHeldSql k t \<or> retryCeilingReachedSql k t" using d by auto
  have same_db: "bk_db k' = bk_db k" by (simp add: k' before_epoch_frame)
  show ?thesis
    by (intro conjI allI impI) (fact ceil same_db d(1) lifted audit | simp add: held | erule zero other stale | rule other; assumption)+
qed

section \<open>Who reaches a release\<close>

text \<open>Only a plain human lifts a hold. A release answered by the tool was asked for by a session with no agent binding,
  no harness and no seat, recorded against a member, with admin authority on the task's squad or the workspace; any other
  answer leaves every table as it was. The other door is the same: assigning a held task to an agent goes ahead only
  for a caller who could release it.\<close>
theorem release_needs_plain_human:
  "(case toolExecutionRelease env k now relId aid1 aid2 auth hm args of
      (k', Release_reply out) \<Rightarrow> \<exists>r \<in> set (bk_tasks k). str (field args ''task_id'') = Some (t_id r) \<and>
         canReleaseExecutionHold env auth hm (t_squad_id r) \<and> truthy (memberId auth) \<and>
         (k', out) = releaseExecutionHold k now relId aid1 aid2 \<lparr>ri_taskId = t_id r, ri_memberId = the (memberId auth),
            ri_reason = the (str (field args ''reason'')), ri_via = Via_execution_release\<rparr>
    | (k', _) \<Rightarrow> k' = k) \<and>
   (canReleaseExecutionHold env auth hm squad \<longrightarrow>
      \<not> truthy (boundAgentId auth) \<and> \<not> truthy (hm_harnessId hm) \<and> \<not> hm_harnessCredential hm \<and> seatBinding auth = None \<and>
      (hasWorkspaceAdmin auth \<or> canOnSquadAuth env (Some auth) (By_id squad) Admin)) \<and>
   (taskHeldSql k t \<longrightarrow> decideReassignOverHold env k auth hm t squad \<noteq> Refuse_held \<longrightarrow> canReleaseExecutionHold env auth hm squad)"
proof (intro conjI)
  show "case toolExecutionRelease env k now relId aid1 aid2 auth hm args of
      (k', Release_reply out) \<Rightarrow> \<exists>r \<in> set (bk_tasks k). str (field args ''task_id'') = Some (t_id r) \<and>
         canReleaseExecutionHold env auth hm (t_squad_id r) \<and> truthy (memberId auth) \<and>
         (k', out) = releaseExecutionHold k now relId aid1 aid2 \<lparr>ri_taskId = t_id r, ri_memberId = the (memberId auth),
            ri_reason = the (str (field args ''reason'')), ri_via = Via_execution_release\<rparr>
    | (k', _) \<Rightarrow> k' = k"
    by (auto simp: toolExecutionRelease_def releaseExecutionHold_def prod_eq_iff dest: first_row_Some split: option.splits prod.splits tool_reply.splits)
qed (auto simp: canReleaseExecutionHold_def decideReassignOverHold_def)

section \<open>What an escalation does\<close>

definition fresh_escalation :: "brake_db \<Rightarrow> string \<Rightarrow> bool" where
  "fresh_escalation k esc = list_all (\<lambda>h. eh_escalation_id h \<noteq> esc) (bk_holds k)"

definition can_escalate :: "brake_db \<Rightarrow> string \<Rightarrow> string \<Rightarrow> bool" where
  "can_escalate k agent t \<longleftrightarrow> \<not> taskHeldSql k t \<and> EXECUTION_RETRY_CEILING \<le> refused_count k t \<and> hold_eligible k agent t"

lemma place_hold_attempt:
  assumes "distinct (map ea_task_id (bk_attempts k))"
  shows "first_row (\<lambda>a. ea_task_id a = t \<and> EXECUTION_RETRY_CEILING \<le> ea_refused_count a \<and> hold_eligible k agent t) (bk_attempts k) \<noteq> None
    \<longleftrightarrow> EXECUTION_RETRY_CEILING \<le> refused_count k t \<and> hold_eligible k agent t"
  using ceiling_iff [OF assms, of t] unfolding first_row_exists retryCeilingReachedSql_def by (auto simp: exists_row_iff)

lemma place_hold_miss:
  assumes "distinct (map ea_task_id (bk_attempts k))" "distinct (map eh_task_id (bk_holds k))" "\<not> can_escalate k agent t"
  shows "place_hold now esc agent t k = k"
proof (cases "first_row (\<lambda>a. ea_task_id a = t \<and> EXECUTION_RETRY_CEILING \<le> ea_refused_count a \<and> hold_eligible k agent t) (bk_attempts k)")
  case None
  then show ?thesis by (simp add: place_hold_def)
next
  case (Some a)
  with place_hold_attempt [OF assms(1), of t agent] assms(3) have "taskHeldSql k t" by (auto simp: can_escalate_def)
  then obtain h where h: "h \<in> set (bk_holds k)" "eh_task_id h = t" "eh_released_at h = None"
    by (auto simp: taskHeldSql_def exists_row_iff)
  then have "x = h" if "x \<in> set (bk_holds k)" "eh_task_id x = t" for x
    using that assms(2) by (metis inj_on_eq_iff distinct_map)
  then have "map (\<lambda>x. if eh_task_id x = t \<and> eh_released_at x \<noteq> None then new else x) (bk_holds k) = bk_holds k" for new
    using h(3) by (intro map_idI) auto
  with Some h show ?thesis by (auto simp: place_hold_def Let_def exists_row_iff)
qed

lemma escalation_row_fresh:
  assumes "fresh_escalation k esc"
  shows "escalation_row k t esc = None"
  using assms by (auto simp: fresh_escalation_def escalation_row_def first_row_None list_all_iff)

lemma escalate_miss:
  assumes "brake_keys k" "fresh_escalation k esc" "\<not> can_escalate k agent t"
  shows "escalateRefusedTask env k now esc aid agent t = (k, False)"
  using assms by (simp add: escalateRefusedTask_def place_hold_miss brake_keys_def audit_hold_def escalation_row_fresh
      raise_matches_def update_tasks_def Let_def)

lemma place_hold_hit:
  assumes "brake_keys k" "fresh_escalation k esc" "can_escalate k agent t"
  shows "\<exists>h. bk_holds (place_hold now esc agent t k) \<noteq> [] \<and> escalation_row (place_hold now esc agent t k) t esc = Some h \<and>
      eh_released_at h = None \<and> eh_agent_id h = agent \<and> eh_refused_count h = refused_count k t"
    "place_hold now esc agent t k = k\<lparr>bk_holds := bk_holds (place_hold now esc agent t k)\<rparr>"
    "u \<noteq> t \<Longrightarrow> taskHeldSql (place_hold now esc agent t k) u = taskHeldSql k u"
    "distinct (map eh_task_id (bk_holds (place_hold now esc agent t k)))"
proof -
  have d: "distinct (map ea_task_id (bk_attempts k))" "distinct (map eh_task_id (bk_holds k))" using assms(1) by (simp_all add: brake_keys_def)
  obtain a where a: "first_row (\<lambda>a. ea_task_id a = t \<and> EXECUTION_RETRY_CEILING \<le> ea_refused_count a \<and> hold_eligible k agent t) (bk_attempts k) = Some a"
    using place_hold_attempt [OF d(1), of t agent] assms(3) by (auto simp: can_escalate_def)
  have ra: "ea_refused_count a = refused_count k t"
    using first_row_Some [OF a] first_row_key [OF d(1), of a] by (auto simp: refused_count_def)
  define new where "new = \<lparr>eh_task_id = t, eh_escalation_id = esc, eh_agent_id = agent, eh_refused_count = ea_refused_count a,
                eh_reason = ea_last_reason a, eh_held_at = now, eh_released_at = None, eh_released_by = None,
                eh_release_id = None, eh_release_reason = None\<rparr>"
  let ?f = "\<lambda>h. if eh_task_id h = t \<and> eh_released_at h \<noteq> None then new else h"
  have nh: "eh_released_at h \<noteq> None" if "h \<in> set (bk_holds k)" "eh_task_id h = t" for h
    using assms(3) that by (auto simp: can_escalate_def taskHeldSql_def exists_row_iff)
  have p: "place_hold now esc agent t k = k\<lparr>bk_holds := (if exists_row (\<lambda>h. eh_task_id h = t) (bk_holds k) then map ?f (bk_holds k) else bk_holds k @ [new])\<rparr>"
    by (simp add: place_hold_def a new_def Let_def cong: if_cong)
  have e: "fresh_escalation k esc" by (rule assms(2))
  have "escalation_row (place_hold now esc agent t k) t esc = Some new"
  proof (cases "exists_row (\<lambda>h. eh_task_id h = t) (bk_holds k)")
    case True
    then obtain h where h: "h \<in> set (bk_holds k)" "eh_task_id h = t" by (auto simp: exists_row_iff)
    then have hr: "eh_released_at h \<noteq> None" using nh by blast
    have "escalation_row (k\<lparr>bk_holds := map ?f (bk_holds k)\<rparr>) t esc = Some new"
      unfolding escalation_row_def
    proof (rule first_row_only)
      show "exists_row (\<lambda>x. eh_task_id x = t \<and> eh_escalation_id x = esc) (bk_holds (k\<lparr>bk_holds := map ?f (bk_holds k)\<rparr>))"
        using h hr by (simp add: exists_row_map) (auto simp: exists_row_iff new_def intro!: bexI [of _ h])
      show "x = new" if "x \<in> set (bk_holds (k\<lparr>bk_holds := map ?f (bk_holds k)\<rparr>))" "eh_task_id x = t \<and> eh_escalation_id x = esc" for x
        using that e by (auto simp: fresh_escalation_def list_all_iff split: if_splits)
    qed
    then show ?thesis using True by (simp add: p)
  next
    case False
    then show ?thesis using escalation_row_fresh [OF e, of t]
      by (simp add: p escalation_row_def first_row_append first_row_single new_def)
  qed
  moreover have "escalation_row k' t esc = Some new \<Longrightarrow> bk_holds k' \<noteq> []" for k' by (auto simp: escalation_row_def first_row_def)
  ultimately show "\<exists>h. bk_holds (place_hold now esc agent t k) \<noteq> [] \<and> escalation_row (place_hold now esc agent t k) t esc = Some h \<and>
      eh_released_at h = None \<and> eh_agent_id h = agent \<and> eh_refused_count h = refused_count k t"
    using ra by (auto simp: new_def)
  show "place_hold now esc agent t k = k\<lparr>bk_holds := bk_holds (place_hold now esc agent t k)\<rparr>" by (simp add: p)
  have "exists_row (\<lambda>x. eh_task_id (?f x) = u \<and> eh_released_at (?f x) = None) (bk_holds k)
      = exists_row (\<lambda>x. eh_task_id x = u \<and> eh_released_at x = None) (bk_holds k)" if "u \<noteq> t"
    using that by (auto simp: exists_row_iff new_def)
  then show "taskHeldSql (place_hold now esc agent t k) u = taskHeldSql k u" if "u \<noteq> t"
    using that by (simp add: taskHeldSql_def p exists_row_map exists_row_append) (simp add: exists_row_iff new_def)
  have keys: "map (eh_task_id \<circ> ?f) (bk_holds k) = map eh_task_id (bk_holds k)" by (simp add: new_def)
  have "t \<notin> eh_task_id ` set (bk_holds k)" if "\<not> exists_row (\<lambda>h. eh_task_id h = t) (bk_holds k)"
    using that by (auto simp: exists_row_iff)
  then show "distinct (map eh_task_id (bk_holds (place_hold now esc agent t k)))"
    using d(2) by (simp add: p keys del: not_None_eq) (simp add: new_def)
qed

definition human_lane :: "auth_env \<Rightarrow> brake_db \<Rightarrow> string \<Rightarrow> string \<Rightarrow> string option \<Rightarrow> bool" where
  "human_lane env k agent squad lane \<longleftrightarrow>
     lane = Some GATE_ESCALATION \<or>
     lane \<noteq> None \<and> lane \<noteq> Some GATE_AGENT_SELF_COMPLETION \<and>
       (humanGateHolderExistsSql env (bk_db k) lane agent squad \<or>
        \<not> exists_row (\<lambda>g. Some (gg_capability g) = lane \<and> gg_principal_type g = P_agent) (gate_grants (bk_gates k)))"

lemma raised_gate_human: "human_lane env k agent (t_squad_id r) (raised_gate env k agent r)"
  by (auto simp: human_lane_def raised_gate_def)

text \<open>A task is handed to a human once. The escalation acts exactly when the task is not held, its counter is at the
  ceiling and it is still the agent's to raise; any other call changes nothing. When it acts the task is held from then on,
  blocked and nobody's, in a lane no agent alone decides; one audit entry of the system names the agent; no other task's
  row or hold moves.\<close>
theorem escalation_hands_over_once:
  assumes "brake_keys k" and "fresh_escalation k esc" and "distinct (map t_id (bk_tasks k))"
    and "escalateRefusedTask env k now esc aid agent t = (k', acted)"
  shows "(acted \<longleftrightarrow> can_escalate k agent t) \<and> (\<not> acted \<longrightarrow> k' = k) \<and>
    (acted \<longrightarrow> taskHeldSql k' t \<and> \<not> can_escalate k' agent t \<and> (\<forall>u. u \<noteq> t \<longrightarrow> taskHeldSql k' u = taskHeldSql k u) \<and>
       (\<exists>a. au_agent_id a = Some agent \<and> au_principal_kind a = Principal_system \<and> bk_audit k' = bk_audit k @ [a]) \<and>
       (\<exists>r \<in> set (bk_tasks k). t_id r = t \<and> raisable (t_status r) \<and>
          (\<exists>lane. human_lane env k' agent (t_squad_id r) lane \<and>
             bk_tasks k' = map (\<lambda>x. if t_id x = t then r\<lparr>t_status := Blocked, t_assignee_agent_id := None, t_gate_owner := lane,
                t_updated_at := now\<rparr> else x) (bk_tasks k))))"
proof (cases "can_escalate k agent t")
  case False
  with escalate_miss [OF assms(1,2)] assms(4) show ?thesis by auto
next
  case True
  define k1 where "k1 = place_hold now esc agent t k"
  define k2 where "k2 = audit_hold now aid esc agent t k1"
  obtain h where h: "escalation_row k1 t esc = Some h" "eh_released_at h = None"
    using place_hold_hit(1) [OF assms(1,2) True, of now] by (auto simp: k1_def)
  have f: "bk_db k1 = bk_db k" "bk_audit k1 = bk_audit k" "bk_attempts k1 = bk_attempts k"
    using arg_cong [OF place_hold_hit(2) [OF assms(1,2) True, of now], of bk_db]
      arg_cong [OF place_hold_hit(2) [OF assms(1,2) True, of now], of bk_audit]
      arg_cong [OF place_hold_hit(2) [OF assms(1,2) True, of now], of bk_attempts] by (simp_all add: k1_def)
  have f2: "bk_db k2 = bk_db k" "bk_holds k2 = bk_holds k1" by (simp_all add: k2_def audit_hold_def h f)
  have audit: "\<exists>a. au_agent_id a = Some agent \<and> au_principal_kind a = Principal_system \<and> bk_audit k2 = bk_audit k @ [a]"
    by (simp add: k2_def audit_hold_def h f)
  have e2: "escalation_row k2 t esc \<noteq> None" using h by (simp add: escalation_row_def f2)
  obtain r where r: "r \<in> set (bk_tasks k)" "t_id r = t" "raisable (t_status r)" "\<not> archived (bk_db k) t"
    using True by (auto simp: can_escalate_def hold_eligible_def exists_row_iff)
  have only: "x = r" if "x \<in> set (bk_tasks k)" "t_id x = t" for x
    using that r assms(3) by (metis inj_on_eq_iff distinct_map)
  have m: "raise_matches k2 t esc x \<longleftrightarrow> t_id x = t" if "x \<in> set (bk_tasks k)" for x
    using that only [of x] r e2 by (cases "t_id x = t") (simp_all add: raise_matches_def f2)
  have tasks: "map (\<lambda>x. if raise_matches k2 t esc x then raised env k2 agent now x else x) (bk_tasks k) =
      map (\<lambda>x. if t_id x = t then r\<lparr>t_status := Blocked, t_assignee_agent_id := None, t_gate_owner := raised_gate env k2 agent r,
         t_updated_at := now\<rparr> else x) (bk_tasks k)"
    by (intro map_cong refl) (use m only in \<open>simp add: raised_def\<close>)
  have "filter (raise_matches k2 t esc) (bk_tasks k) = filter (\<lambda>x. t_id x = t) (bk_tasks k)" using m by (rule filter_cong [OF refl])
  also have "... = [r]" using filter_key [OF assms(3), of t "\<lambda>x. True"] first_row_key [OF assms(3) r(1)] r(2) by simp
  finally have acted: "k' = update_tasks (raise_matches k2 t esc) (raised env k2 agent now) k2" "acted"
    using assms(4) by (auto simp: escalateRefusedTask_def Let_def k1_def [symmetric] k2_def [symmetric] f2)
  have held: "taskHeldSql k' t" "taskHeldSql k' u = taskHeldSql k u" if "u \<noteq> t" for u
    using h place_hold_hit(3) [OF assms(1,2) True that, of now]
    by (auto simp: acted(1) update_tasks_def taskHeldSql_def f2 k1_def [symmetric] exists_row_iff escalation_row_def dest: first_row_Some)
  have held_t: "taskHeldSql k' t" using h
    by (auto simp: acted(1) update_tasks_def taskHeldSql_def f2 exists_row_iff escalation_row_def dest: first_row_Some)
  have lane: "human_lane env k' agent (t_squad_id r) (raised_gate env k2 agent r)"
    using raised_gate_human [of env k2 agent r]
    by (simp add: human_lane_def humanGateHolderExistsSql_def memberAffiliatedWithAssigneeSql_def agent_exists_def bound_to_def seat_of_def acted(1) update_tasks_def)
  have "bk_tasks k' = map (\<lambda>x. if t_id x = t then r\<lparr>t_status := Blocked, t_assignee_agent_id := None,
      t_gate_owner := raised_gate env k2 agent r, t_updated_at := now\<rparr> else x) (bk_tasks k)"
    by (simp add: acted(1) update_tasks_def f2 tasks)
  with r lane have row: "\<exists>r \<in> set (bk_tasks k). t_id r = t \<and> raisable (t_status r) \<and>
          (\<exists>lane. human_lane env k' agent (t_squad_id r) lane \<and>
             bk_tasks k' = map (\<lambda>x. if t_id x = t then r\<lparr>t_status := Blocked, t_assignee_agent_id := None, t_gate_owner := lane,
                t_updated_at := now\<rparr> else x) (bk_tasks k))" by blast
  have "bk_audit k' = bk_audit k2" by (simp add: acted(1) update_tasks_def)
  with audit have audit': "\<exists>a. au_agent_id a = Some agent \<and> au_principal_kind a = Principal_system \<and> bk_audit k' = bk_audit k @ [a]" by simp
  have "\<not> can_escalate k' agent t" using held_t by (simp add: can_escalate_def)
  then have not_again: "\<not> can_escalate k' agent t" .
  have decided: "acted \<longleftrightarrow> can_escalate k agent t" "\<not> acted \<longrightarrow> k' = k" using True acted(2) by simp_all
  show ?thesis
    by (intro conjI, rule decided(1), rule decided(2), intro impI conjI allI, rule held_t, rule not_again,
        erule held(2), rule audit', rule row)
qed

section \<open>A sample: a task refused three times\<close>

definition sample_refused :: "nat \<Rightarrow> attempt_row" where
  "sample_refused n = \<lparr>ea_task_id = ''t1'', ea_refused_count = n, ea_last_agent = Some ''a'', ea_last_reason = Some ''why'',
     ea_first_at = ''0'', ea_last_at = ''1''\<rparr>"

definition sample_brakes :: brake_db where
  "sample_brakes = \<lparr>bk_db = sample_vdb\<lparr>vd_tasks := [sample_gated\<lparr>t_status := Blocked, t_gate_owner := None\<rparr>]\<rparr>,
     bk_receipt = (\<lambda>_. None), bk_lease = (\<lambda>_. None), bk_cost = (\<lambda>_. 0), bk_pauses = [],
     bk_attempts = [sample_refused 3], bk_holds = [], bk_audit = [], bk_fleet = [],
     bk_julian = (\<lambda>s. Some (if s = ''late'' then 2 else 1))\<rparr>"

definition sample_raised :: brake_db where
  "sample_raised = fst (escalateRefusedTask sample_env sample_brakes ''2'' ''esc'' ''au1'' ''a'' ''t1'')"

definition sample_release :: release_input where
  "sample_release = \<lparr>ri_taskId = ''t1'', ri_memberId = ''bob'', ri_reason = ''fixed'', ri_via = Via_execution_release\<rparr>"

definition no_harness :: harness_marks where
  "no_harness = \<lparr>hm_harnessId = None, hm_harnessCredential = False\<rparr>"

lemma sample_brakes_ok:
  "brake_keys sample_brakes" "fresh_escalation sample_brakes ''esc''" "distinct (map t_id (bk_tasks sample_brakes))"
  "can_escalate sample_brakes ''a'' ''t1''" "brake_keys sample_raised" "fresh_release sample_raised ''rel''" "taskHeldSql sample_raised ''t1''"
  by code_simp+

theorem escalation_hands_over_once_witness:
  "taskHeldSql sample_raised ''t1'' \<and> length (bk_audit sample_raised) = 1 \<and>
   (\<exists>r lane. bk_tasks sample_raised = [r] \<and> t_status r = Blocked \<and> t_gate_owner r = lane \<and> lane \<noteq> None)"
proof -
  obtain k' acted where e: "escalateRefusedTask sample_env sample_brakes ''2'' ''esc'' ''au1'' ''a'' ''t1'' = (k', acted)" by force
  then have k: "k' = sample_raised" by (simp add: sample_raised_def)
  have b: "bk_audit sample_brakes = []" "\<exists>x. bk_tasks sample_brakes = [x] \<and> t_id x = ''t1''"
    by (simp_all add: sample_brakes_def sample_gated_def)
  note all = escalation_hands_over_once [OF sample_brakes_ok(1-3) e]
  have acted using conjunct1 [OF all] sample_brakes_ok(4) by simp
  note held = mp [OF conjunct2 [OF conjunct2 [OF all]] this, unfolded k]
  note rest = conjunct2 [OF conjunct2 [OF conjunct2 [OF held]]]
  obtain x where x: "bk_tasks sample_brakes = [x]" "t_id x = ''t1''" using b(2) by blast
  obtain a where "bk_audit sample_raised = bk_audit sample_brakes @ [a]" using conjunct1 [OF rest] by blast
  moreover obtain r lane where "human_lane sample_env sample_raised ''a'' (t_squad_id r) lane"
    "bk_tasks sample_raised = [r\<lparr>t_status := Blocked, t_assignee_agent_id := None, t_gate_owner := lane, t_updated_at := ''2''\<rparr>]"
    using conjunct2 [OF rest] x by auto
  moreover from this(1) have "lane \<noteq> None" by (auto simp: human_lane_def)
  ultimately show ?thesis using conjunct1 [OF held] b(1) by simp
qed

theorem release_restores_execution_witness:
  "\<not> taskHeldSql (fst (releaseExecutionHoldDetailed sample_raised ''late'' ''rel'' ''x'' ''y'' sample_release)) ''t1'' \<and>
   rd_outcome (snd (releaseExecutionHoldDetailed sample_raised ''late'' ''rel'' ''x'' ''y'' sample_release)) = Released"
proof -
  obtain k' d where r: "releaseExecutionHoldDetailed sample_raised ''late'' ''rel'' ''x'' ''y'' sample_release = (k', d)" by force
  have "''t1'' = ri_taskId sample_release" by (simp add: sample_release_def)
  from release_restores_execution [OF sample_brakes_ok(5,6) r this] sample_brakes_ok(7) show ?thesis by (simp add: r)
qed

theorem release_needs_plain_human_witness:
  "hasWorkspaceAdmin bob_auth \<or> canOnSquadAuth sample_env (Some bob_auth) (By_id ''s'') Admin"
proof -
  have "taskHeldSql sample_raised ''t1''" "decideReassignOverHold sample_env sample_raised bob_auth no_harness ''t1'' ''s'' \<noteq> Refuse_held"
    by (fact sample_brakes_ok(7), code_simp)
  with release_needs_plain_human [where env = sample_env and k = sample_raised and auth = bob_auth and hm = no_harness
      and squad = "''s''" and t = "''t1''"]
  show ?thesis by blast
qed

end
