(* ===== verification/Execution_Meter.thy ===== *)
theory Execution_Meter
  imports Prelude
begin

text \<open>
  What a model call costs and whether an agent may make one: \<^verbatim>\<open>src/agents/cost.ts\<close>, the price table of
  \<^verbatim>\<open>src/economy/prices.ts\<close>, and the meter of dispatches, tokens and dollars of \<^verbatim>\<open>src/agents/meter.ts\<close>.

  Money is in millionths of a dollar and rates are exact fractions: where the sources multiply doubles and round,
  the definitions round the exact product. Tokens and counts are integers, so a cap that an environment variable gives as
  a fraction enters as the next integer. Instants are milliseconds since 1970 as natural numbers. The meter awaits several statements; the argument \<open>race\<close> is what others do to the table before each of them.
\<close>

section \<open>What a call costs\<close>

text \<open>Dollars per million tokens, in tenths.\<close>

definition MODEL_RATE_USD_PER_M :: "(string \<times> int) list" where
  "MODEL_RATE_USD_PER_M =
    [(''@cf/meta/llama-3.3-70b-instruct-fp8-fast'', 5), (''claude-sonnet-4-5'', 90), (''gpt-4o-mini'', 4), (''gemini-2.5-flash'', 3)]"

definition FAMILY_CEILING_USD_PER_M :: "(string \<times> int) list" where
  "FAMILY_CEILING_USD_PER_M = [(''claude-opus'', 300), (''claude-'', 150), (''gpt-4'', 100), (''gpt-'', 50), (''gemini-'', 50)]"

definition FALLBACK_RATE_USD_PER_M :: int where
  "FALLBACK_RATE_USD_PER_M = 150"

definition rateUsdPerMillion :: "string option \<Rightarrow> int" where
  "rateUsdPerMillion model =
     (case model of None \<Rightarrow> FALLBACK_RATE_USD_PER_M
      | Some m \<Rightarrow>
         if m = [] then FALLBACK_RATE_USD_PER_M
         else (case map_of MODEL_RATE_USD_PER_M m of Some r \<Rightarrow> r
               | None \<Rightarrow> (case find (\<lambda>(family, rate). prefix family m) FAMILY_CEILING_USD_PER_M of
                    Some (family, rate) \<Rightarrow> rate | None \<Rightarrow> FALLBACK_RATE_USD_PER_M)))"

text \<open>\<open>Math.round\<close> of a fraction.\<close>

definition js_round :: "int \<Rightarrow> int \<Rightarrow> int" where
  "js_round num den = (2 * num + den) div (2 * den)"

definition costMicroUsd :: "string option \<Rightarrow> int \<Rightarrow> int" where
  "costMicroUsd model tokens = (if tokens \<le> 0 then 0 else js_round (tokens * rateUsdPerMillion model) 10)"

record token_usage =
  us_input :: int
  us_output :: int
  us_cacheRead :: "int option"
  us_cacheWrite :: "int option"

record model_price =
  mp_input :: int
  mp_output :: int
  mp_cacheRead :: "int option"
  mp_cacheWrite :: "int option"

definition MODEL_PRICES :: "(string \<times> model_price) list" where
  "MODEL_PRICES =
    [(''deepseek-v4-flash'', \<lparr>mp_input = 140000, mp_output = 280000, mp_cacheRead = Some 2800, mp_cacheWrite = None\<rparr>),
     (''deepseek-v4-pro'', \<lparr>mp_input = 435000, mp_output = 870000, mp_cacheRead = Some 3625, mp_cacheWrite = None\<rparr>),
     (''claude-opus-4'', \<lparr>mp_input = 15000000, mp_output = 75000000, mp_cacheRead = None, mp_cacheWrite = None\<rparr>),
     (''claude-sonnet-4.6'', \<lparr>mp_input = 3000000, mp_output = 15000000, mp_cacheRead = None, mp_cacheWrite = None\<rparr>)]"

definition or_else :: "int option \<Rightarrow> int \<Rightarrow> int" where
  "or_else v d = (case v of Some n \<Rightarrow> n | None \<Rightarrow> d)"

definition priceUsage :: "string option \<Rightarrow> token_usage \<Rightarrow> int option" where
  "priceUsage model u =
     (case (case model of None \<Rightarrow> None | Some m \<Rightarrow> map_of MODEL_PRICES m) of None \<Rightarrow> None
      | Some p \<Rightarrow>
         if us_input u < 0 \<or> us_output u < 0 \<or> or_else (us_cacheRead u) 0 < 0 \<or> or_else (us_cacheWrite u) 0 < 0 then None
         else Some (js_round
           (us_input u * mp_input p + us_output u * mp_output p +
            or_else (us_cacheRead u) 0 * or_else (mp_cacheRead p) (mp_input p) +
            or_else (us_cacheWrite u) 0 * or_else (mp_cacheWrite p) (mp_input p)) 1000000))"

definition costUsageMicroUsd :: "string option \<Rightarrow> token_usage \<Rightarrow> int option" where
  "costUsageMicroUsd model u = priceUsage model u"

text \<open>The estimate an execution is admitted with, and what it records (\<^verbatim>\<open>src/agents/execute.ts\<close>).\<close>

definition EXECUTE_MAX_TOKENS :: int where
  "EXECUTE_MAX_TOKENS = 2048"

definition cycleCostMicroUsd :: "string option \<Rightarrow> int" where
  "cycleCostMicroUsd model = costMicroUsd model EXECUTE_MAX_TOKENS"

definition recordedCostMicroUsd :: "string option \<Rightarrow> token_usage option \<Rightarrow> int" where
  "recordedCostMicroUsd model usage =
     (case usage of None \<Rightarrow> cycleCostMicroUsd model | Some u \<Rightarrow> or_else (costUsageMicroUsd model u) (cycleCostMicroUsd model))"

section \<open>Days and windows\<close>

definition leap :: "nat \<Rightarrow> bool" where
  "leap y \<longleftrightarrow> y mod 4 = 0 \<and> (y mod 100 \<noteq> 0 \<or> y mod 400 = 0)"

definition month_days :: "nat \<Rightarrow> nat \<Rightarrow> nat" where
  "month_days y m = (if m = 2 then (if leap y then 29 else 28) else if m \<in> {4, 6, 9, 11} then 30 else 31)"

fun next_date :: "nat \<times> nat \<times> nat \<Rightarrow> nat \<times> nat \<times> nat" where
  "next_date (y, m, d) = (if d < month_days y m then (y, m, d + 1) else if m < 12 then (y, m + 1, 1) else (y + 1, 1, 1))"

text \<open>The calendar date of a day, counted from 1 January 1970.\<close>

definition date_of :: "nat \<Rightarrow> nat \<times> nat \<times> nat" where
  "date_of day = (next_date ^^ day) (1970, 1, 1)"

definition pad2 :: "nat \<Rightarrow> string" where
  "pad2 n = (if n < 10 then CHR ''0'' # digits_of n else digits_of n)"

fun iso_text :: "nat \<times> nat \<times> nat \<Rightarrow> string" where
  "iso_text (y, m, d) = digits_of y @ ''-'' @ pad2 m @ ''-'' @ pad2 d"

definition isoDateUtc :: "nat \<Rightarrow> string" where
  "isoDateUtc day = iso_text (date_of day)"

definition DAY_MS :: nat where
  "DAY_MS = 86400000"

definition day_at :: "nat \<Rightarrow> nat" where
  "day_at now = now div DAY_MS"

definition window_prefix :: "string \<Rightarrow> string \<Rightarrow> string" where
  "window_prefix tenant agent = tenant @ '':'' @ agent @ '':''"

definition window_key :: "string \<Rightarrow> string \<Rightarrow> nat \<Rightarrow> string" where
  "window_key tenant agent day = window_prefix tenant agent @ isoDateUtc day"

definition buildWindowKey :: "string \<Rightarrow> string \<Rightarrow> nat \<Rightarrow> string" where
  "buildWindowKey tenant agent now = window_key tenant agent (day_at now)"

definition secondsUntilNextUtcMidnight :: "nat \<Rightarrow> nat" where
  "secondsUntilNextUtcMidnight now = max 1 (((day_at now + 1) * DAY_MS - now) div 1000)"

section \<open>The meter\<close>

record meter_row =
  mr_key :: string
  mr_count :: int
  mr_tokens :: int
  mr_cost :: int
  mr_cache_read :: int
  mr_cache_miss :: int
  mr_output :: int
  mr_start :: nat

definition window_row :: "meter_row list \<Rightarrow> string \<Rightarrow> meter_row option" where
  "window_row rows key = first_row (\<lambda>r. mr_key r = key) rows"

text \<open>The trailing seven days: a lexical range over the keys.\<close>

definition sumWeekCostMicroUsd :: "string \<Rightarrow> string \<Rightarrow> nat \<Rightarrow> meter_row list \<Rightarrow> int" where
  "sumWeekCostMicroUsd tenant agent now rows =
     (let lo = window_key tenant agent (day_at now - 6); hi = window_key tenant agent (day_at now) in
      sum_list (map mr_cost (filter (\<lambda>r. lo \<le> mr_key r \<and> mr_key r \<le> hi) rows)))"

datatype meter_reason = Rate_limited | Budget_exhausted | Budget_cap_exceeded

datatype cost_window = Per_day | Per_week

record meter_block =
  mb_reason :: meter_reason
  mb_windowKey :: string
  mb_count :: int
  mb_tokens :: int
  mb_retryAfterSec :: int

record meter_pass =
  mk_windowKey :: string
  mk_count :: int
  mk_tokens :: int

datatype meter_throw = Invalid_meter_estimate | Authorized_execution_tenant_mismatch

datatype meter_result = Meter_ok meter_pass | Meter_blocked meter_block

definition MICRO_USD_PER_CENT :: int where
  "MICRO_USD_PER_CENT = 10000"

definition isEnforceableCap :: "int option \<Rightarrow> bool" where
  "isEnforceableCap cap \<longleftrightarrow> (case cap of Some c \<Rightarrow> 0 < c | None \<Rightarrow> False)"

text \<open>The environment: the two caps as numbers, absent when the variable is not set or no finite number.\<close>

record meter_env =
  me_tenant :: string
  me_maxDispatch :: "int option"
  me_maxTokens :: "int option"

definition parseCap :: "int option \<Rightarrow> int \<Rightarrow> int" where
  "parseCap raw fallback = (case raw of Some n \<Rightarrow> if 0 < n then n else fallback | None \<Rightarrow> fallback)"

record authorized_execution =
  ax_tenant :: string
  ax_subject :: string
  ax_squad :: string
  ax_project :: "string option"
  ax_maxDispatch :: int
  ax_maxTokens :: int
  ax_maxCost :: int
  ax_window :: cost_window
  ax_estimate :: int

record meter_policy =
  pl_subject :: string
  pl_squad :: string
  pl_project :: "string option"
  pl_maxCost :: int
  pl_window :: cost_window
  pl_estimate :: "int option"

definition buildAuthorizedMeterExecution :: "meter_env \<Rightarrow> meter_policy \<Rightarrow> meter_throw + authorized_execution" where
  "buildAuthorizedMeterExecution env p =
     (case pl_estimate p of None \<Rightarrow> Inl Invalid_meter_estimate
      | Some e \<Rightarrow> Inr \<lparr>ax_tenant = me_tenant env, ax_subject = pl_subject p, ax_squad = pl_squad p, ax_project = pl_project p,
          ax_maxDispatch = parseCap (me_maxDispatch env) 200, ax_maxTokens = parseCap (me_maxTokens env) 200000,
          ax_maxCost = pl_maxCost p, ax_window = pl_window p, ax_estimate = (if 0 < e then e else 0)\<rparr>)"

record metered_agent =
  ma_id :: string
  ma_squad :: string
  ma_cap_cents :: "int option"
  ma_window :: string

definition buildAuthorizedExecution ::
  "meter_env \<Rightarrow> metered_agent \<Rightarrow> string option \<Rightarrow> int option \<Rightarrow> meter_throw + authorized_execution" where
  "buildAuthorizedExecution env a project estimate =
     buildAuthorizedMeterExecution env
       \<lparr>pl_subject = ma_id a, pl_squad = ma_squad a, pl_project = project,
        pl_maxCost = (if isEnforceableCap (ma_cap_cents a) then or_else (ma_cap_cents a) 0 * MICRO_USD_PER_CENT else 0),
        pl_window = (if ma_window a = ''week'' then Per_week else Per_day), pl_estimate = estimate\<rparr>"

text \<open>The two decisions of \<open>checkAndReserve\<close>, and its write.\<close>

definition counters :: "meter_row option \<Rightarrow> int \<times> int \<times> int" where
  "counters r = (case r of None \<Rightarrow> (0, 0, 0) | Some r \<Rightarrow> (mr_count r, mr_tokens r, mr_cost r))"

definition quota_block :: "authorized_execution \<Rightarrow> int \<Rightarrow> int \<Rightarrow> meter_reason option" where
  "quota_block ax dispatches toks =
     (if ax_maxDispatch ax \<le> dispatches then Some Rate_limited
      else if ax_maxTokens ax \<le> toks then Some Budget_exhausted else None)"

definition cost_blocked :: "authorized_execution \<Rightarrow> int \<Rightarrow> bool" where
  "cost_blocked ax spanCost \<longleftrightarrow>
     isEnforceableCap (Some (ax_maxCost ax)) \<and> (ax_maxCost ax \<le> spanCost \<or> ax_maxCost ax < spanCost + ax_estimate ax)"

definition reserve_slot :: "string \<Rightarrow> nat \<Rightarrow> meter_row list \<Rightarrow> meter_row list" where
  "reserve_slot key now rows =
     (if exists_row (\<lambda>r. mr_key r = key) rows
      then map (\<lambda>r. if mr_key r = key then r\<lparr>mr_count := mr_count r + 1\<rparr> else r) rows
      else rows @ [\<lparr>mr_key = key, mr_count = 1, mr_tokens = 0, mr_cost = 0, mr_cache_read = 0, mr_cache_miss = 0, mr_output = 0,
                     mr_start = now\<rparr>])"

datatype meter_point = At_week | At_reserve | At_read_back

definition checkAndReserve ::
  "(meter_point \<Rightarrow> meter_row list \<Rightarrow> meter_row list) \<Rightarrow> meter_env \<Rightarrow> authorized_execution \<Rightarrow> nat \<Rightarrow> nat \<Rightarrow> meter_row list \<Rightarrow>
   meter_row list \<times> (meter_throw + meter_result)" where
  "checkAndReserve race env ax now later rows =
     (if ax_tenant ax \<noteq> me_tenant env then (rows, Inl Authorized_execution_tenant_mismatch)
      else
        (let key = buildWindowKey (ax_tenant ax) (ax_subject ax) now;
             (dispatches, toks, spent) = counters (window_row rows key);
             block = (\<lambda>reason. Inr (Meter_blocked \<lparr>mb_reason = reason, mb_windowKey = key, mb_count = dispatches, mb_tokens = toks,
                        mb_retryAfterSec = int (secondsUntilNextUtcMidnight later)\<rparr>)) in
         case quota_block ax dispatches toks of Some reason \<Rightarrow> (rows, block reason)
         | None \<Rightarrow>
             (let weekly = isEnforceableCap (Some (ax_maxCost ax)) \<and> ax_window ax = Per_week;
                  rows1 = (if weekly then race At_week rows else rows);
                  spanCost = (if weekly then sumWeekCostMicroUsd (ax_tenant ax) (ax_subject ax) later rows1 else spent) in
              if cost_blocked ax spanCost then (rows1, block Budget_cap_exceeded)
              else
                (let rows2 = reserve_slot key now (race At_reserve rows1); rows3 = race At_read_back rows2 in
                 (rows3, Inr (Meter_ok
                    (case window_row rows3 key of
                       Some r \<Rightarrow> \<lparr>mk_windowKey = key, mk_count = mr_count r, mk_tokens = mr_tokens r\<rparr>
                     | None \<Rightarrow> \<lparr>mk_windowKey = key, mk_count = dispatches + 1, mk_tokens = 0\<rparr>)))))))"

record tokens_usage =
  tu_input :: "int option"
  tu_output :: "int option"
  tu_cacheRead :: "int option"

definition positive :: "int option \<Rightarrow> int" where
  "positive v = (case v of Some n \<Rightarrow> if 0 < n then n else 0 | None \<Rightarrow> 0)"

definition add_spend :: "string \<Rightarrow> int \<Rightarrow> int \<Rightarrow> int \<Rightarrow> int \<Rightarrow> int \<Rightarrow> nat \<Rightarrow> meter_row list \<Rightarrow> meter_row list" where
  "add_spend key tok cost cacheRead cacheMiss output now rows =
     (if exists_row (\<lambda>r. mr_key r = key) rows
      then map (\<lambda>r. if mr_key r = key
             then r\<lparr>mr_tokens := mr_tokens r + tok, mr_cost := mr_cost r + cost, mr_cache_read := mr_cache_read r + cacheRead,
                     mr_cache_miss := mr_cache_miss r + cacheMiss, mr_output := mr_output r + output\<rparr> else r) rows
      else rows @ [\<lparr>mr_key = key, mr_count = 0, mr_tokens = tok, mr_cost = cost, mr_cache_read = cacheRead, mr_cache_miss = cacheMiss,
                     mr_output = output, mr_start = now\<rparr>])"

definition recordTokens :: "string \<Rightarrow> string \<Rightarrow> int \<Rightarrow> int \<Rightarrow> tokens_usage option \<Rightarrow> nat \<Rightarrow> meter_row list \<Rightarrow> meter_row list" where
  "recordTokens tenant agent tokens costMicro usage now rows =
     (let tok = max tokens 0; cost = max costMicro 0;
          cacheRead = positive (case usage of None \<Rightarrow> None | Some u \<Rightarrow> tu_cacheRead u);
          input = positive (case usage of None \<Rightarrow> None | Some u \<Rightarrow> tu_input u);
          cacheMiss = (if 0 < input then max (input - cacheRead) 0 else 0);
          output = positive (case usage of None \<Rightarrow> None | Some u \<Rightarrow> tu_output u) in
      if tok = 0 \<and> cost = 0 \<and> cacheRead = 0 \<and> output = 0 then rows
      else add_spend (buildWindowKey tenant agent now) tok cost cacheRead cacheMiss output now rows)"

text \<open>\<open>getAuthorizedMeterStatus\<close>; whether and for which agent the caller may read is the argument \<open>decision\<close>.\<close>

record meter_status =
  ms_agent :: string
  ms_windowKey :: string
  ms_dispatches :: int
  ms_tokens :: int
  ms_cost_day :: int
  ms_cost_week :: int

datatype meter_denial = Status_forbidden | Status_refused string | Status_unavailable

record execution_decision =
  ed_tenant :: string
  ed_agent :: "string option"

definition getAuthorizedMeterStatus ::
  "(string \<Rightarrow> meter_denial + execution_decision) \<Rightarrow> string option \<Rightarrow> string option \<Rightarrow> nat \<Rightarrow> meter_row list \<Rightarrow> meter_denial + meter_status" where
  "getAuthorizedMeterStatus decide agentId bound now rows =
     (case nullish agentId bound of None \<Rightarrow> Inl Status_forbidden
      | Some target \<Rightarrow>
         if target = [] then Inl Status_forbidden
         else (case decide target of Inl e \<Rightarrow> Inl e
         | Inr d \<Rightarrow>
            if \<not> truthy (ed_agent d) then Inl Status_unavailable
            else
              (let agent = the (ed_agent d); key = buildWindowKey (ed_tenant d) agent now; (dispatches, toks, spent) = counters (window_row rows key) in
               Inr \<lparr>ms_agent = agent, ms_windowKey = key, ms_dispatches = dispatches, ms_tokens = toks, ms_cost_day = spent,
                    ms_cost_week = sumWeekCostMicroUsd (ed_tenant d) agent now rows\<rparr>)))"

end
