(* ===== verification/Task_Execution.thy ===== *)
theory Task_Execution
  imports Execution_Brakes Execution_Meter
begin

text \<open>
  An agent does a task (\<^verbatim>\<open>src/agents/execute.ts\<close>): the pre-checks, the guarded claim, the work, and the
  landing in \<open>review\<close> or \<open>blocked\<close>; around it the counting of refused attempts and the hold at the ceiling; and the
  detection of a publishing request (\<^verbatim>\<open>src/agents/content-intent.ts\<close>).

  One call makes several separate database accesses. \<open>xw_race\<close> is what other requests do to the tables before
  each of them, so every statement about a run holds under interleaving unless it restricts \<open>xw_race\<close>. The other
  fields of \<open>exec_world\<close> are the answers of code this development does not model: the department kernel, the
  answer of the meter (\<open>Execution_Meter\<close>), the model, the evidence check of \<^verbatim>\<open>src/tasks/evidence.ts\<close>, SHA-256, and the clock at the points
  the code reads it. Of failing database calls only the counter's is modelled, which the code catches. Bus events, memory writes and token records change no table of the model and are left out.
\<close>

section \<open>Publishing requests\<close>

datatype content_executor = Inkwell_content | Mcpwp

record content_intent =
  ci_executor :: content_executor
  ci_title :: string
  ci_content :: string

fun strip_word :: "string \<Rightarrow> string \<Rightarrow> string option" where
  "strip_word [] s = Some s"
| "strip_word (w # ws) [] = None"
| "strip_word (w # ws) (c # cs) = (if lower_char c = w then strip_word ws cs else None)"

text \<open>What follows a keyword, optional white space and a colon.\<close>

definition after_label :: "string \<Rightarrow> string \<Rightarrow> string option" where
  "after_label w s =
     (case strip_word w s of
        None \<Rightarrow> None
      | Some rest \<Rightarrow> (case dropWhile js_space rest of c # cs \<Rightarrow> if c = CHR '':'' then Some cs else None | [] \<Rightarrow> None))"

fun split_lines :: "string \<Rightarrow> string list" where
  "split_lines [] = [[]]"
| "split_lines (c # cs) =
     (if c = CHR 0x0A then [] # split_lines cs
      else (case split_lines cs of l # ls \<Rightarrow> (c # l) # ls | [] \<Rightarrow> [[c]]))"

definition executor_line :: "string \<Rightarrow> content_executor option" where
  "executor_line l =
     (case after_label ''executor'' (trim l) of
        None \<Rightarrow> None
      | Some rest \<Rightarrow>
          if lower (trim rest) = ''inkwell-content'' then Some Inkwell_content
          else if lower (trim rest) = ''mcpwp'' then Some Mcpwp
          else None)"

definition detectContentIntent :: "gated_task \<Rightarrow> content_intent option" where
  "detectContentIntent t =
     (case after_label ''publish'' (t_title t) of
        None \<Rightarrow> None
      | Some rest \<Rightarrow>
          if trim rest = [] then None
          else (let body = split_lines (t_body t);
                    found = executor_line (hd body);
                    ex = (case found of None \<Rightarrow> Inkwell_content | Some e \<Rightarrow> e);
                    content = trim (join [CHR 0x0A] (if found = None then body else tl body))
                in if content = [] then None
                   else Some \<lparr>ci_executor = ex, ci_title = trim rest, ci_content = content\<rparr>))"

section \<open>The run and its surroundings\<close>

datatype exec_point = At_load | At_claim | At_diagnose | At_reload | At_finish | At_count | At_escalate

datatype task_evidence = Verified string string | Unverified string "string option"

record propose_error =
  pe_code :: "string option"
  pe_message :: string

record execute_result =
  xr_ok :: bool
  xr_task_id :: string
  xr_decided :: string
  xr_task_status :: "task_status option"
  xr_error :: "string option"
  xr_outage :: bool

record exec_world =
  xw_race :: "exec_point \<Rightarrow> brake_db \<Rightarrow> brake_db"
  xw_env :: auth_env
  xw_bar :: bar_env
  xw_agentMember :: "string \<Rightarrow> string option"
  xw_started :: string
  xw_claimed_at :: string
  xw_now_ms :: int
  xw_finished_at :: string
  xw_counted_at :: string
  xw_held_at :: string
  xw_dispatch_receipt :: "string option"
  xw_fresh_receipt :: string
  xw_escalation_id :: string
  xw_audit_id :: string
  xw_submission_id :: string
  xw_submitted_at :: string
  xw_registered :: bool
  xw_propose :: "gated_task \<Rightarrow> content_intent \<Rightarrow> propose_error + string"
  xw_meter :: "gated_task \<Rightarrow> meter_block option"
  xw_cost_window :: cost_window
  xw_cycle_cost :: int
  xw_charter :: "gated_task \<Rightarrow> string + string option"
  xw_model :: "gated_task \<Rightarrow> string option \<Rightarrow> string + string \<times> int option"
  xw_evidence :: "string \<Rightarrow> string + task_evidence"
  xw_sha256 :: "string \<Rightarrow> string"
  xw_ellipsis :: char
  xw_count_throws :: bool

definition MAX_RESULT_CHARS :: nat where
  "MAX_RESULT_CHARS = 16 * 1024"

definition EXECUTION_CLAIM_LEASE_MS :: int where
  "EXECUTION_CLAIM_LEASE_MS = 15 * 60000"

definition capResult :: "exec_world \<Rightarrow> string \<Rightarrow> string" where
  "capResult w text = (if length text \<le> MAX_RESULT_CHARS then text else take (MAX_RESULT_CHARS - 1) text @ [xw_ellipsis w])"

definition executionReceiptId :: "exec_world \<Rightarrow> string" where
  "executionReceiptId w = (case xw_dispatch_receipt w of Some r \<Rightarrow> r | None \<Rightarrow> xw_fresh_receipt w)"

fun meter_error :: "meter_reason \<Rightarrow> string" where
  "meter_error Rate_limited = ''rate_limited''"
| "meter_error Budget_exhausted = ''budget_exhausted''"
| "meter_error Budget_cap_exceeded = ''budget_cap_exceeded''"

definition METER_REFUSAL_ERRORS :: "string list" where
  "METER_REFUSAL_ERRORS = [''rate_limited'', ''budget_exhausted'', ''budget_cap_exceeded'']"

definition meterBlockNote :: "meter_block \<Rightarrow> cost_window \<Rightarrow> string" where
  "meterBlockNote b costWindow =
     (let window = ''(window '' @ mb_windowKey b @ '')'' in
      case mb_reason b of
        Rate_limited \<Rightarrow> ''dispatch_rate_limited: daily dispatch cap reached '' @ window @ ''. Retry after '' @
          print_int (mb_retryAfterSec b) @ ''s (next UTC day resets the dispatch window).''
      | Budget_exhausted \<Rightarrow> ''token_budget_exhausted: daily token cap reached '' @ window @ ''. Retry after '' @
          print_int (mb_retryAfterSec b) @ ''s (next UTC day resets the token window).''
      | Budget_cap_exceeded \<Rightarrow>
          (if costWindow = Per_week
           then ''cost_budget_exhausted: trailing 7-day cost cap reached. '' @
             ''Recheck as older spend leaves the trailing 7-day window. Meter subject window: '' @ mb_windowKey b @ ''.''
           else ''cost_budget_exhausted: daily cost cap reached '' @ window @ ''. Retry after '' @
             print_int (mb_retryAfterSec b) @ ''s (next UTC day resets the cost window).''))"

section \<open>Who may execute\<close>

definition loadTaskById :: "brake_db \<Rightarrow> string \<Rightarrow> gated_task option" where
  "loadTaskById k t = first_row (\<lambda>r. t_id r = t) (bk_tasks k)"

definition canAgentExecuteTask :: "exec_world \<Rightarrow> brake_db \<Rightarrow> agent_row \<Rightarrow> gated_task \<Rightarrow> bool" where
  "canAgentExecuteTask w k agent r =
     (if t_assignee_agent_id r = None then
        (if isExternallySourced (task.truncate r) then False
         else if t_assignee_member_id r \<noteq> None then False
         else t_squad_id r = ag_squad_id agent)
      else if t_assignee_agent_id r \<noteq> Some (ag_id agent) then False
      else (case snd (resolveTaskAssignee (xw_bar w) (bk_gates k) (xw_agentMember w) [] (Some (JStr (ag_id agent))) (t_squad_id r) None) of
              Inl _ \<Rightarrow> False
            | Inr v \<Rightarrow> v = Some (ag_id agent)))"

definition agent_slug :: "brake_db \<Rightarrow> string \<Rightarrow> string option" where
  "agent_slug k a = map_option ag_slug (first_row (\<lambda>r. ag_id r = a) (db_agents (bk_gates k)))"

definition slug_unique :: "brake_db \<Rightarrow> string \<Rightarrow> bool" where
  "slug_unique k slug \<longleftrightarrow>
     length (filter (\<lambda>x. ag_slug x = slug \<and> \<not> exists_row (\<lambda>c. ag_id c = slug) (db_agents (bk_gates k))) (db_agents (bk_gates k))) = 1"

definition receiverNotStoppedSql :: "brake_db \<Rightarrow> string \<Rightarrow> bool" where
  "receiverNotStoppedSql k a \<longleftrightarrow>
     \<not> exists_row (\<lambda>fa. fl_tenant fa = bk_tenant k \<and> fl_stopped fa \<and>
        (fl_agent_id fa = a \<or>
         \<not> exists_row (\<lambda>fx. fl_tenant fx = bk_tenant k \<and> fl_agent_id fx = a) (bk_fleet k) \<and>
         (case agent_slug k a of None \<Rightarrow> False | Some slug \<Rightarrow> fl_agent_id fa = slug \<and> slug_unique k slug)))
       (bk_fleet k)"

section \<open>The claim\<close>

definition agent_active :: "brake_db \<Rightarrow> string \<Rightarrow> bool" where
  "agent_active k a = exists_row (\<lambda>r. ag_id r = a \<and> ag_status r = Agent_active) (db_agents (bk_gates k))"

text \<open>The \<open>WHERE\<close> of the claim of a task as the caller read it, \<open>seen\<close>.\<close>

definition claim_matches :: "brake_db \<Rightarrow> gated_task \<Rightarrow> agent_row \<Rightarrow> bool \<Rightarrow> gated_task \<Rightarrow> bool" where
  "claim_matches k seen agent fence r \<longleftrightarrow>
     t_id r = t_id seen \<and> t_status r = t_status seen \<and>
     (if t_assignee_agent_id seen = None
      then t_squad_id r = ag_squad_id agent \<and> t_assignee_agent_id r = None \<and> t_assignee_member_id r = None
      else t_squad_id r = t_squad_id seen \<and> t_assignee_agent_id r = Some (ag_id agent)) \<and>
     \<not> archived (bk_db k) (t_id r) \<and>
     (t_status seen = In_progress \<longrightarrow> bk_receipt k (t_id r) = None) \<and>
     agent_active k (ag_id agent) \<and>
     \<not> executionPausedSql k (ag_id agent) \<and> \<not> retryCeilingReachedSql k (t_id r) \<and> \<not> taskHeldSql k (t_id r) \<and>
     (fence \<longrightarrow> receiverNotStoppedSql k (ag_id agent))"

definition claimed :: "string \<Rightarrow> agent_row \<Rightarrow> gated_task \<Rightarrow> gated_task" where
  "claimed now agent r =
     r\<lparr>t_status := In_progress, t_assignee_agent_id := Some (ag_id agent), t_updated_at := now,
       t_result := (if t_status r = Rejected then None else t_result r)\<rparr>"

definition claimTaskProgress ::
  "brake_db \<Rightarrow> gated_task \<Rightarrow> agent_row \<Rightarrow> string \<Rightarrow> string \<Rightarrow> int \<Rightarrow> bool \<Rightarrow> brake_db \<times> bool" where
  "claimTaskProgress k seen agent now receipt expires fence =
     (let p = claim_matches k seen agent fence in
      if list_ex p (bk_tasks k)
      then ((update_tasks p (claimed now agent) k)\<lparr>bk_receipt := (bk_receipt k)(t_id seen := Some receipt),
              bk_lease := (bk_lease k)(t_id seen := Some expires)\<rparr>,
            length (filter p (bk_tasks k)) = 1)
      else (k, False))"

section \<open>The landing\<close>

definition AGENT_SELF_COMPLETION_GATE_OWNER :: string where
  "AGENT_SELF_COMPLETION_GATE_OWNER = ''gate:agent-self-completion''"

definition CONTENT_GATE_OWNER :: string where
  "CONTENT_GATE_OWNER = ''gate:content''"

datatype finish_outcome = Finish_landed | Finish_lost | Finish_threw

definition finish_matches :: "brake_db \<Rightarrow> string \<Rightarrow> string \<Rightarrow> string \<Rightarrow> gated_task \<Rightarrow> bool" where
  "finish_matches k t agent receipt r \<longleftrightarrow>
     t_id r = t \<and> t_assignee_agent_id r = Some agent \<and> bk_receipt k t = Some receipt \<and> t_status r = In_progress \<and>
     \<not> archived (bk_db k) (t_id r)"

definition landed :: "task_status \<Rightarrow> string \<Rightarrow> string \<Rightarrow> string option \<Rightarrow> gated_task \<Rightarrow> gated_task" where
  "landed st result now fallback r =
     r\<lparr>t_status := st, t_result := Some result, t_completed_at := Some now, t_updated_at := now,
       t_gate_owner := nullish (t_gate_owner r) fallback\<rparr>"

definition next_seq :: "submission_row list \<Rightarrow> int" where
  "next_seq subs = foldl max 0 (map sr_seq subs) + 1"

definition submit_result :: "exec_world \<Rightarrow> string \<Rightarrow> string \<Rightarrow> string \<Rightarrow> string \<Rightarrow> string \<Rightarrow> brake_db \<Rightarrow> brake_db" where
  "submit_result w t agent receipt result now k =
     (if list_ex (\<lambda>r. t_id r = t \<and> t_status r = Review \<and> t_updated_at r = now \<and> t_assignee_agent_id r = Some agent \<and>
           bk_receipt k t = Some receipt) (bk_tasks k)
      then k\<lparr>bk_db := (bk_db k)\<lparr>vd_submissions := vd_submissions (bk_db k) @ [\<lparr>sr_id = xw_submission_id w, sr_tenant = bk_tenant k,
             sr_task_id = t, sr_agent = agent, sr_text = Some result, sr_digest = xw_sha256 w result,
             sr_seq = next_seq (vd_submissions (bk_db k)), sr_created_at = xw_submitted_at w, sr_consenting = None\<rparr>]\<rparr>\<rparr>
      else k)"

text \<open>\<open>submission\<close> is the path and digest of the evidence, which the ledger row also keeps and no modelled code reads.\<close>

definition finishTask ::
  "exec_world \<Rightarrow> brake_db \<Rightarrow> string \<Rightarrow> string \<Rightarrow> task_status \<Rightarrow> string \<Rightarrow> int \<Rightarrow> string option \<Rightarrow> (string \<times> string) option
     \<Rightarrow> brake_db \<times> finish_outcome" where
  "finishTask w k t agent st result cost fallback submission =
     (if assigneeSelfClose (Some agent) In_progress (Some agent) st then (k, Finish_threw)
      else (let receipt = executionReceiptId w; now = xw_finished_at w; p = finish_matches k t agent receipt;
                k1 = (if list_ex p (bk_tasks k)
                      then (update_tasks p (landed st result now fallback) k)\<lparr>bk_lease := (bk_lease k)(t := None),
                             bk_cost := (bk_cost k)(t := max 0 cost)\<rparr>
                      else k);
                out = (if length (filter p (bk_tasks k)) = 1 then Finish_landed else Finish_lost)
            in (if st \<noteq> Review \<or> submission = None then k1 else submit_result w t agent receipt result now k1, out)))"

definition finishContentProposalWrite :: "exec_world \<Rightarrow> brake_db \<Rightarrow> string \<Rightarrow> string \<Rightarrow> string \<Rightarrow> brake_db \<times> finish_outcome" where
  "finishContentProposalWrite w k t agent result =
     (let p = finish_matches k t agent (executionReceiptId w)
      in (if list_ex p (bk_tasks k)
          then (update_tasks p (landed Review result (xw_finished_at w) (Some CONTENT_GATE_OWNER)) k)\<lparr>bk_lease := (bk_lease k)(t := None)\<rparr>
          else k,
          if length (filter p (bk_tasks k)) = 1 then Finish_landed else Finish_lost))"

section \<open>One attempt\<close>

datatype attempt_end = Returned execute_result | Threw

definition refusal :: "string \<Rightarrow> string \<Rightarrow> string \<Rightarrow> execute_result" where
  "refusal t decided err =
     \<lparr>xr_ok = False, xr_task_id = t, xr_decided = decided, xr_task_status = None, xr_error = Some err, xr_outage = False\<rparr>"

definition blocked_result :: "string \<Rightarrow> string \<Rightarrow> string \<Rightarrow> bool \<Rightarrow> execute_result" where
  "blocked_result t decided err outage =
     \<lparr>xr_ok = False, xr_task_id = t, xr_decided = decided, xr_task_status = Some Blocked, xr_error = Some err, xr_outage = outage\<rparr>"

definition success :: "string \<Rightarrow> string \<Rightarrow> execute_result" where
  "success t decided =
     \<lparr>xr_ok = True, xr_task_id = t, xr_decided = decided, xr_task_status = Some Review, xr_error = None, xr_outage = False\<rparr>"

definition no_op :: "string \<Rightarrow> task_status \<Rightarrow> execute_result" where
  "no_op t st =
     \<lparr>xr_ok = True, xr_task_id = t,
      xr_decided = ''no_op:'' @ (case find (\<lambda>p. snd p = st) ALL_TASK_STATUSES of Some p \<Rightarrow> fst p | None \<Rightarrow> []),
      xr_task_status = Some st, xr_error = None, xr_outage = False\<rparr>"

definition claim_lost :: "string \<Rightarrow> execute_result" where
  "claim_lost t = refusal t [] ''task_claim_lost''"

text \<open>What a call of \<open>finishTask\<close> that must not throw answers with.\<close>

fun finished :: "string \<Rightarrow> execute_result \<Rightarrow> brake_db \<times> finish_outcome \<Rightarrow> brake_db \<times> attempt_end" where
  "finished t res (k, Finish_landed) = (k, Returned res)"
| "finished t res (k, Finish_lost) = (k, Returned (claim_lost t))"
| "finished t res (k, Finish_threw) = (k, Threw)"

definition WORKABLE :: "task_status list" where
  "WORKABLE = [Open, Blocked, Rejected]"

definition brake_error :: "brake_reason \<Rightarrow> string" where
  "brake_error b = (case b of Task_held \<Rightarrow> ''task_held'' | Execution_paused \<Rightarrow> ''execution_paused''
     | Retry_ceiling_reached \<Rightarrow> ''retry_ceiling_reached'')"

text \<open>Why a claim was refused. At the ceiling without a hold it places the hold.\<close>

definition explain_claim :: "exec_world \<Rightarrow> brake_db \<Rightarrow> agent_row \<Rightarrow> string \<Rightarrow> brake_db \<times> execute_result" where
  "explain_claim w k agent t =
     (if xw_dispatch_receipt w \<noteq> None \<and> \<not> receiverNotStoppedSql k (ag_id agent) then (k, refusal t [] ''receiver_not_live'')
      else if taskHeldSql k t then (k, refusal t [] (brake_error Task_held))
      else if executionPausedSql k (ag_id agent) then (k, refusal t [] (brake_error Execution_paused))
      else if retryCeilingReachedSql k t then
        (fst (escalateRefusedTask (xw_env w) k (xw_held_at w) (xw_escalation_id w) (xw_audit_id w) (ag_id agent) t),
         refusal t [] (brake_error Retry_ceiling_reached))
      else if archived (bk_db k) t then (k, refusal t [] ''task_archived'')
      else (k, claim_lost t))"

text \<open>In the notes a dash stands for the em dash of the code.\<close>

definition in_quotes :: "string \<Rightarrow> string" where
  "in_quotes s = [CHR 0x22] @ s @ [CHR 0x22]"

definition NOT_REGISTERED_NOTE :: string where
  "NOT_REGISTERED_NOTE = ''content_proposal_failed: department '' @ [CHR 0x27] @ ''growth'' @ [CHR 0x27] @ '' is not registered - cannot propose a content-publish gate.''"

fun executor_text :: "content_executor \<Rightarrow> string" where
  "executor_text Inkwell_content = ''inkwell-content''"
| "executor_text Mcpwp = ''mcpwp''"

text \<open>The note of a proposal; its dash is written as a hyphen.\<close>

definition proposal_result :: "exec_world \<Rightarrow> content_intent \<Rightarrow> string" where
  "proposal_result w intent = capResult w (''Proposed content-publish ('' @ in_quotes (ci_title intent) @ '') to '' @
     executor_text (ci_executor intent) @ '' - awaiting approval at /approvals.'')"

definition finishContentProposal :: "exec_world \<Rightarrow> brake_db \<Rightarrow> gated_task \<Rightarrow> agent_row \<Rightarrow> content_intent \<Rightarrow> brake_db \<times> attempt_end" where
  "finishContentProposal w k r agent intent =
     (let t = t_id r; a = ag_id agent in
      if \<not> xw_registered w then
        finished t (blocked_result t [] ''department_not_registered'' False)
          (finishTask w k t a Blocked (capResult w NOT_REGISTERED_NOTE) 0 None None)
      else (case xw_propose w r intent of
          Inl e \<Rightarrow> finished t (blocked_result t [] (case pe_code e of Some c \<Rightarrow> c | None \<Rightarrow> ''propose_failed'') False)
            (finishTask w k t a Blocked (capResult w (''content_proposal_failed: '' @ pe_message e)) 0 None None)
        | Inr gateId \<Rightarrow> finished t (success t (''content_proposed: '' @ ci_title intent))
            (finishContentProposalWrite w k gateId a (proposal_result w intent))))"

definition EVIDENCE_HINT :: string where
  "EVIDENCE_HINT = ''. A completion must carry evidence: '' @ in_quotes ''Artifact: <path>'' @ '' + '' @ in_quotes ''SHA256: <64-hex>'' @
     '' (required at the strictest level), or a repository/PR URL with a full commit id, or a '' @ in_quotes ''Snapshot: <label>'' @
     '' with content - prose describing intended work is not evidence of work done.''"

text \<open>The landing of a model's answer: the completion contract of an ungated task, then the evidence. \<open>Inl\<close> is a throw with the
  cost recorded so far and whether the model was unavailable.\<close>

definition judge_result ::
  "exec_world \<Rightarrow> brake_db \<Rightarrow> gated_task \<Rightarrow> string \<Rightarrow> int \<Rightarrow> string \<Rightarrow> (string \<times> int \<times> bool) + (brake_db \<times> attempt_end)" where
  "judge_result w k r a cost result =
     (let t = t_id r in
      if \<not> truthy (t_gate_owner r) \<and> assertCompletableDoneWhen (t_done_when r) \<noteq> None then
        Inr (finished t (blocked_result t ''done_when_placeholder'' ''done_when_placeholder'' False)
          (finishTask w k t a Blocked (capResult w (''done_when_placeholder: cannot mark done - done_when is a placeholder sentinel ('' @
             in_quotes (trim (t_done_when r)) @ ''). Update done_when to a real, checkable predicate before retrying.'')) cost None None))
      else (case xw_evidence w result of
          Inl msg \<Rightarrow> Inl (msg, cost, False)
        | Inr (Unverified reason path) \<Rightarrow>
            Inr (finished t (blocked_result t ''artifact_verification_failed'' ''artifact_verification_failed'' False)
              (finishTask w k t a Blocked (capResult w (''artifact_verification_failed: '' @ reason @
                 (case path of None \<Rightarrow> [] | Some p \<Rightarrow> if p = [] then [] else '' (path: '' @ p @ '')'') @ EVIDENCE_HINT)) cost None None))
        | Inr (Verified path sha) \<Rightarrow>
            (case finishTask w k t a Review result cost (Some AGENT_SELF_COMPLETION_GATE_OWNER) (Some (path, sha)) of
               (k', Finish_threw) \<Rightarrow> Inl (''agent_self_close_forbidden'', cost, False)
             | landing \<Rightarrow> Inr (finished t (success t (''completed: '' @ t_title r)) landing))))"

definition do_work :: "exec_world \<Rightarrow> brake_db \<Rightarrow> gated_task \<Rightarrow> string \<Rightarrow> (string \<times> int \<times> bool) + (brake_db \<times> attempt_end)" where
  "do_work w k r a =
     (case xw_charter w r of
        Inl msg \<Rightarrow> Inl (msg, xw_cycle_cost w, False)
      | Inr charter \<Rightarrow>
     (case xw_model w r charter of
        Inl msg \<Rightarrow> Inl (msg, xw_cycle_cost w, True)
      | Inr (answer, usage) \<Rightarrow>
          judge_result w k r a (case usage of Some c \<Rightarrow> c | None \<Rightarrow> xw_cycle_cost w) (capResult w answer)))"

definition execute_claimed :: "exec_world \<Rightarrow> brake_db \<Rightarrow> gated_task \<Rightarrow> agent_row \<Rightarrow> brake_db \<times> attempt_end" where
  "execute_claimed w k r agent =
     (let t = t_id r; a = ag_id agent in
      case (if isExternallySourced (task.truncate r) then None else detectContentIntent r) of
        Some intent \<Rightarrow> finishContentProposal w k r agent intent
      | None \<Rightarrow>
     (case xw_meter w r of
        Some b \<Rightarrow> finished t (blocked_result t [] (meter_error (mb_reason b)) False)
          (finishTask w k t a Blocked (capResult w (meterBlockNote b (xw_cost_window w))) 0 None None)
      | None \<Rightarrow>
     (case do_work w k r a of
        Inr out \<Rightarrow> out
      | Inl (msg, cost, outage) \<Rightarrow> finished t (blocked_result t [] msg outage)
          (finishTask w k t a Blocked (capResult w (''Execution failed: '' @ msg)) cost None None))))"

definition runTaskExecutionAttempt :: "exec_world \<Rightarrow> brake_db \<Rightarrow> agent_row \<Rightarrow> string \<Rightarrow> brake_db \<times> attempt_end" where
  "runTaskExecutionAttempt w k0 agent t =
     (let k = xw_race w At_load k0 in
      case loadTaskById k t of
        None \<Rightarrow> (k, Returned (refusal t (''task '' @ t @ '' not found'') ''task_not_found''))
      | Some seen \<Rightarrow>
          if taskHeldSql k t then (k, Returned (refusal t [] (brake_error Task_held)))
          else if \<not> canAgentExecuteTask w k agent seen then
            (k, Returned (refusal t (''task '' @ t @ '' not found'') ''task_not_found''))
          else if t_status seen \<notin> set WORKABLE \<and> \<not> (t_status seen = In_progress \<and> \<not> truthy (bk_receipt k t))
            then (k, Returned (no_op t (t_status seen)))
          else (case claimTaskProgress (xw_race w At_claim k) seen agent (xw_claimed_at w) (executionReceiptId w)
                      (xw_now_ms w + EXECUTION_CLAIM_LEASE_MS) (xw_dispatch_receipt w \<noteq> None) of
              (k1, False) \<Rightarrow> map_prod id Returned (explain_claim w (xw_race w At_diagnose k1) agent t)
            | (k1, True) \<Rightarrow>
                (let k2 = xw_race w At_reload k1 in
                 case loadTaskById k2 t of
                   None \<Rightarrow> (k2, Returned (claim_lost t))
                 | Some r \<Rightarrow>
                     if \<not> canAgentExecuteTask w k2 agent r then (k2, Returned (claim_lost t))
                     else execute_claimed w (xw_race w At_finish k2) r agent)))"

section \<open>The run, its counter and its hold\<close>

definition counts :: "execute_result \<Rightarrow> bool" where
  "counts res \<longleftrightarrow>
     xr_task_status res = Some Blocked \<and> \<not> xr_ok res \<and> \<not> xr_outage res \<and>
     \<not> (truthy (xr_error res) \<and> the (xr_error res) \<in> set METER_REFUSAL_ERRORS)"

definition refusal_reason :: "execute_result \<Rightarrow> string" where
  "refusal_reason res =
     (if truthy (xr_error res) then the (xr_error res)
      else if xr_decided res \<noteq> [] then xr_decided res else ''execution_failed'')"

definition runTaskExecution :: "exec_world \<Rightarrow> brake_db \<Rightarrow> agent_row \<Rightarrow> string \<Rightarrow> brake_db \<times> attempt_end" where
  "runTaskExecution w k0 agent t =
     (case runTaskExecutionAttempt w k0 agent t of
        (k, Threw) \<Rightarrow> (k, Threw)
      | (k, Returned res) \<Rightarrow>
          if \<not> counts res then (k, Returned res)
          else if xw_count_throws w then (k, Returned res)
          else (case recordRefusedAttempt (xw_race w At_count k) (xw_counted_at w) (ag_id agent) (xr_task_id res)
                      (refusal_reason res) (Some (xw_started w)) of
              (k1, n) \<Rightarrow>
                if n < EXECUTION_RETRY_CEILING then (k1, Returned res)
                else (fst (escalateRefusedTask (xw_env w) (xw_race w At_escalate k1) (xw_held_at w) (xw_escalation_id w)
                        (xw_audit_id w) (ag_id agent) (xr_task_id res)), Returned res)))"

section \<open>Settling the dispatch\<close>

datatype settle_stage = Settle_completed | Settle_failed

definition inWorkerSettleStage :: "execute_result \<Rightarrow> settle_stage option" where
  "inWorkerSettleStage r =
     (if xr_error r = Some ''task_claim_lost'' \<or> xr_error r = Some ''task_not_found'' then None
      else if take 6 (xr_decided r) = ''no_op:'' then None
      else if xr_task_status r = Some Blocked then Some Settle_failed
      else if xr_ok r \<and> (xr_task_status r = Some Review \<or> xr_task_status r = Some Done) then Some Settle_completed
      else None)"

record settle_call =
  sc_receipt :: string
  sc_task :: string
  sc_agent :: string
  sc_stage :: settle_stage
  sc_reason :: string
  sc_delivered_none :: bool

text \<open>The settlement a dispatched run asks for, if any.\<close>

definition runDispatchedTaskExecution :: "exec_world \<Rightarrow> brake_db \<Rightarrow> agent_row \<Rightarrow> string \<Rightarrow> brake_db \<times> attempt_end \<times> settle_call option" where
  "runDispatchedTaskExecution w k agent t =
     (case runTaskExecution w k agent t of
        (k', Threw) \<Rightarrow> (k', Threw, None)
      | (k', Returned r) \<Rightarrow>
          (k', Returned r,
           case xw_dispatch_receipt w of
             None \<Rightarrow> None
           | Some i \<Rightarrow>
               if i = [] then None
               else if xr_error r \<in> Some ` {''receiver_not_live'', ''execution_paused'', ''retry_ceiling_reached'', ''task_held''} then
                 Some \<lparr>sc_receipt = i, sc_task = xr_task_id r, sc_agent = ag_id agent, sc_stage = Settle_failed,
                   sc_reason = the (xr_error r), sc_delivered_none = True\<rparr>
               else (case inWorkerSettleStage r of
                   None \<Rightarrow> None
                 | Some st \<Rightarrow> Some \<lparr>sc_receipt = i, sc_task = xr_task_id r, sc_agent = ag_id agent, sc_stage = st,
                     sc_reason = (if st = Settle_failed
                       then (case xr_error r of Some e \<Rightarrow> e | None \<Rightarrow> if xr_decided r \<noteq> [] then xr_decided r else ''execution_failed'')
                       else if xr_decided r \<noteq> [] then xr_decided r else ''completed''),
                     sc_delivered_none = False\<rparr>)))"

section \<open>Runs among other requests\<close>

lemma update_tasks_frame [simp]:
  "bk_attempts (update_tasks p f k) = bk_attempts k" "bk_holds (update_tasks p f k) = bk_holds k"
  "bk_julian (update_tasks p f k) = bk_julian k" "bk_receipt (update_tasks p f k) = bk_receipt k"
  "bk_tasks (update_tasks p f k) = map (\<lambda>r. if p r then f r else r) (bk_tasks k)"
  "vd_archived (bk_db (update_tasks p f k)) = vd_archived (bk_db k)" "bk_gates (update_tasks p f k) = bk_gates k"
  by (simp_all add: update_tasks_def)

text \<open>The tables of the brakes: only counting, escalating and releasing write them.\<close>

definition same_brakes :: "brake_db \<Rightarrow> brake_db \<Rightarrow> bool" where
  "same_brakes k k' \<longleftrightarrow> bk_attempts k' = bk_attempts k \<and> bk_holds k' = bk_holds k \<and> bk_julian k' = bk_julian k"

lemma claim_brakes: "same_brakes k (fst (claimTaskProgress k seen agent now receipt expires fence))"
  by (simp add: claimTaskProgress_def same_brakes_def Let_def)

lemma submit_brakes: "same_brakes k1 (submit_result w t agent receipt result now k) \<longleftrightarrow> same_brakes k1 k"
  by (simp add: submit_result_def same_brakes_def)

lemma finish_brakes: "same_brakes k (fst (finishTask w k t agent st result cost fallback submission))"
  by (simp add: finishTask_def Let_def submit_brakes) (simp add: same_brakes_def)

lemma content_brakes: "same_brakes k (fst (finishContentProposalWrite w k t agent result))"
  by (simp add: finishContentProposalWrite_def Let_def same_brakes_def)

lemma fst_finished [simp]: "fst (finished t res x) = fst x"
  by (cases "(t, res, x)" rule: finished.cases) simp_all

lemma finished_id: "snd (finished t res x) = Returned r \<Longrightarrow> xr_task_id res = t \<Longrightarrow> xr_task_id r = t"
  by (cases "(t, res, x)" rule: finished.cases) (auto simp: claim_lost_def refusal_def)

lemma result_ids [simp]:
  "xr_task_id (refusal t d e) = t" "xr_task_id (blocked_result t d e b) = t" "xr_task_id (success t d) = t"
  "xr_task_id (no_op t st) = t" "xr_task_id (claim_lost t) = t"
  by (simp_all add: refusal_def blocked_result_def success_def no_op_def claim_lost_def)

lemma judge_brakes:
  assumes "judge_result w k r a cost result = Inr out"
  shows "same_brakes k (fst out) \<and> (snd out = Returned res \<longrightarrow> xr_task_id res = t_id r)"
proof -
  have f: "same_brakes k k'" if "finishTask w k t a st x c g s = (k', out)" for t st x c g s k' out
    using finish_brakes [of k w t a st x c g s] that by simp
  show ?thesis
    using assms f finish_brakes
    by (auto simp: judge_result_def Let_def dest: finished_id split: sum.splits prod.splits task_evidence.splits if_splits finish_outcome.splits)
qed

lemma do_work_judge: "do_work w k r a = Inr out \<Longrightarrow> \<exists>cost result. judge_result w k r a cost result = Inr out"
  by (auto simp: do_work_def split: sum.splits prod.splits)

lemma do_work_brakes:
  assumes "do_work w k r a = Inr out"
  shows "same_brakes k (fst out)" "snd out = Returned res \<Longrightarrow> xr_task_id res = t_id r"
  using do_work_judge [OF assms] judge_brakes by blast+

lemma execute_claimed_brakes:
  "same_brakes k (fst (execute_claimed w k r agent))"
  "snd (execute_claimed w k r agent) = Returned res \<Longrightarrow> xr_task_id res = t_id r"
proof -
  have c: "same_brakes k (fst (finishContentProposal w k r agent i))"
    "snd (finishContentProposal w k r agent i) = Returned res \<Longrightarrow> xr_task_id res = t_id r" for i
    using finish_brakes content_brakes
    by (auto simp: finishContentProposal_def Let_def dest: finished_id split: sum.splits if_splits)
  show "same_brakes k (fst (execute_claimed w k r agent))"
    "snd (execute_claimed w k r agent) = Returned res \<Longrightarrow> xr_task_id res = t_id r"
    using c finish_brakes do_work_brakes
    by (auto simp: execute_claimed_def Let_def dest: finished_id split: option.splits sum.splits)
qed

text \<open>What every step of a run keeps, it keeps as a whole: the laws are a reflexive and transitive relation that the writes
  of the run satisfy. Other requests are assumed to satisfy it between them.\<close>

locale kept =
  fixes R :: "brake_db \<Rightarrow> brake_db \<Rightarrow> bool" and t :: string
  assumes same: "same_brakes k k' \<Longrightarrow> R k k'"
    and trans: "R k1 k2 \<Longrightarrow> R k2 k3 \<Longrightarrow> R k1 k3"
    and counted: "R k (fst (recordRefusedAttempt k now agent t reason started))"
    and escalated: "R k (fst (escalateRefusedTask env k now esc aid agent t))"
begin

lemma explain_kept: "R k (fst (explain_claim w k agent t))"
  using same [of k k] escalated by (auto simp: explain_claim_def same_brakes_def)

lemma claimed_kept: "claimTaskProgress k seen agent now receipt expires fence = (k', b) \<Longrightarrow> R k k'"
  using same [OF claim_brakes [of k seen agent now receipt expires fence]] by simp

lemma attempt_kept:
  assumes quiet: "\<And>p k. R k (xw_race w p k)"
  shows "R k (fst (runTaskExecutionAttempt w k agent t))"
proof -
  have step: "R k (xw_race w p k')" if "R k k'" for k k' p using trans [OF that quiet] .
  define k1 where "k1 = xw_race w At_load k"
  have 1: "R k k1" unfolding k1_def by (rule quiet)
  have 2: "R k k'" if "claimTaskProgress (xw_race w At_claim k1) seen agent now receipt expires fence = (k', b)" for seen now receipt expires fence k' b
    using trans [OF step [OF 1] claimed_kept [OF that]] .
  have 3: "R k (fst (explain_claim w (xw_race w At_diagnose k') agent t))" if "R k k'" for k'
    using trans [OF step [OF that] explain_kept] .
  have 4: "R k (xw_race w At_reload k')" if "R k k'" for k' using step [OF that] .
  have 5: "R k (fst (execute_claimed w (xw_race w At_finish k') r agent))" if "R k k'" for k' r
    using trans [OF step [OF that] same [OF execute_claimed_brakes(1)]] .
  show ?thesis
    unfolding runTaskExecutionAttempt_def k1_def [symmetric]
    by (auto simp: Let_def 1 intro: 3 5 4 dest: 2 split: option.splits prod.splits bool.splits)
qed

lemma attempt_id:
  assumes "snd (runTaskExecutionAttempt w k agent t) = Returned res"
  shows "xr_task_id res = t"
proof -
  have "xr_task_id (snd (explain_claim w k' agent t)) = t" for k' by (simp add: explain_claim_def)
  moreover have "t_id r = t" if "loadTaskById k' t = Some r" for k' r using that by (auto simp: loadTaskById_def dest: first_row_Some)
  ultimately show ?thesis
    using assms by (auto simp: runTaskExecutionAttempt_def Let_def dest: execute_claimed_brakes(2) split: option.splits prod.splits bool.splits if_splits)
qed

lemma run_kept:
  assumes quiet: "\<And>p k. R k (xw_race w p k)"
  shows "R k (fst (runTaskExecution w k agent t))"
proof -
  have step: "R k (xw_race w p k')" if "R k k'" for k' p using trans [OF that quiet] .
  obtain k1 e where a: "runTaskExecutionAttempt w k agent t = (k1, e)" by force
  have 1: "R k k1" using attempt_kept [OF quiet, of k agent] a by simp
  have 2: "R k (fst (recordRefusedAttempt (xw_race w At_count k1) now a t reason started))" for now a reason started
    using trans [OF step [OF 1] counted] .
  have 3: "R k (fst (escalateRefusedTask env (xw_race w At_escalate k') now esc aid a t))" if "R k k'" for k' env now esc aid a
    using trans [OF step [OF that] escalated] .
  have "xr_task_id res = t" if "e = Returned res" for res using attempt_id [of w k agent res] a that by simp
  then show ?thesis
    using 1 2 3 unfolding runTaskExecution_def a
    by (auto split: attempt_end.splits prod.splits) (metis fst_conv)+
qed

end

section \<open>The retry budget\<close>

lemma escalate_attempts [simp]:
  "bk_attempts (fst (escalateRefusedTask env k now esc aid agent t)) = bk_attempts k"
  "bk_julian (fst (escalateRefusedTask env k now esc aid agent t)) = bk_julian k"
  by (simp_all add: escalateRefusedTask_def audit_hold_def place_hold_def Let_def split: option.splits)

lemma releasedSince_cong:
  "bk_attempts k' = bk_attempts k \<Longrightarrow> bk_julian k' = bk_julian k \<Longrightarrow> releasedSinceSql k' t s False = releasedSinceSql k t s False"
  by (simp add: releasedSinceSql_def)

lemma record_stale:
  "releasedSinceSql (fst (recordRefusedAttempt k now agent t reason started)) t s False = releasedSinceSql k t s False"
proof -
  define Q :: "attempt_row \<Rightarrow> bool" where "Q = (\<lambda>rel. ea_task_id rel = RELEASE_EPOCH_PREFIX @ t \<and>
    holds (sql_gt (bk_julian k (ea_last_at rel)) (bk_julian k s)))"
  have "Q (if ea_task_id x = t then bump agent r now x else x) \<longleftrightarrow> Q x" for x r
    by (cases "ea_task_id x = t") (simp_all add: Q_def bump_def)
  then have "exists_row Q (map (\<lambda>x. if ea_task_id x = t then bump agent r now x else x) xs) = exists_row Q xs" for r xs
    by (simp add: exists_row_map)
  moreover have "\<not> Q \<lparr>ea_task_id = t, ea_refused_count = 1, ea_last_agent = a, ea_last_reason = r, ea_first_at = now, ea_last_at = now\<rparr>" for a r
    by (simp add: Q_def)
  then have "exists_row Q (xs @ [\<lparr>ea_task_id = t, ea_refused_count = 1, ea_last_agent = a, ea_last_reason = r, ea_first_at = now,
      ea_last_at = now\<rparr>]) = exists_row Q xs" for xs a r by (simp add: exists_row_append) (simp add: exists_row_iff)
  ultimately show ?thesis
    by (simp add: recordRefusedAttempt_def releasedSinceSql_def Q_def [symmetric] split: option.split)
qed

definition counter_grows :: "string \<Rightarrow> brake_db \<Rightarrow> brake_db \<Rightarrow> bool" where
  "counter_grows t k k' \<longleftrightarrow>
     (distinct (map ea_task_id (bk_attempts k)) \<longrightarrow>
        distinct (map ea_task_id (bk_attempts k')) \<and> refused_count k t \<le> refused_count k' t \<and>
        (\<forall>s. releasedSinceSql k' t s False = releasedSinceSql k t s False))"

lemma record_grows: "counter_grows t k (fst (recordRefusedAttempt k now agent t reason started))"
proof (cases "case started of None \<Rightarrow> False | Some s \<Rightarrow> releasedSinceSql k t s False")
  case True
  then show ?thesis by (simp add: recordRefusedAttempt_def counter_grows_def)
next
  case False
  obtain k' n where r: "recordRefusedAttempt k now agent t reason started = (k', n)" by force
  note c = record_count [OF r False]
  show ?thesis using c(1,2,5) record_stale [of k now agent t reason started] by (simp add: r counter_grows_def)
qed

interpretation counter: kept "counter_grows t" t for t
proof
  show "counter_grows t k k'" if "same_brakes k k'" for k k'
    using that releasedSince_cong [of k' k t] by (auto simp: same_brakes_def counter_grows_def refused_count_def)
  show "counter_grows t k1 k3" if "counter_grows t k1 k2" "counter_grows t k2 k3" for k1 k2 k3
    using that unfolding counter_grows_def by (blast intro: le_trans)
  show "counter_grows t k (fst (escalateRefusedTask env k now esc aid agent t))" for env k now esc aid agent
    using releasedSince_cong [of "fst (escalateRefusedTask env k now esc aid agent t)" k t] by (simp add: counter_grows_def refused_count_def)
qed (rule record_grows)

lemma claim_wins:
  assumes "claimTaskProgress k seen agent now receipt expires fence = (k', True)"
  shows "\<exists>r \<in> set (bk_tasks k). claim_matches k seen agent fence r"
  using assms by (auto simp: claimTaskProgress_def Let_def list_ex_iff split: if_splits)

lemma uncounted [simp]: "\<not> counts (refusal t d e)" "\<not> counts (no_op t st)" "\<not> counts (claim_lost t)"
  by (simp_all add: counts_def refusal_def no_op_def claim_lost_def)

lemma explain_uncounted: "\<not> counts (snd (explain_claim w k agent t))"
  by (simp add: explain_claim_def)

lemma explained_uncounted: "map_prod id Returned (explain_claim w k agent t) = (k', Returned res) \<Longrightarrow> \<not> counts res"
  using explain_uncounted [of w k agent t] by (cases "explain_claim w k agent t") auto

lemma counted_attempt_claimed:
  assumes "runTaskExecutionAttempt w k agent t = (k', Returned res)" and "counts res"
  shows "\<not> retryCeilingReachedSql (xw_race w At_claim (xw_race w At_load k)) t"
    "\<not> taskHeldSql (xw_race w At_claim (xw_race w At_load k)) t"
proof -
  let ?k = "xw_race w At_load k"
  obtain seen k1 where s: "loadTaskById ?k t = Some seen"
    and c: "claimTaskProgress (xw_race w At_claim ?k) seen agent (xw_claimed_at w) (executionReceiptId w)
                      (xw_now_ms w + EXECUTION_CLAIM_LEASE_MS) (xw_dispatch_receipt w \<noteq> None) = (k1, True)"
    using assms by (auto simp: runTaskExecutionAttempt_def Let_def dest!: explained_uncounted split: option.splits if_splits prod.splits bool.splits)
  have "t_id seen = t" using s by (auto simp: loadTaskById_def dest: first_row_Some)
  with claim_wins [OF c] show "\<not> retryCeilingReachedSql (xw_race w At_claim ?k) t" "\<not> taskHeldSql (xw_race w At_claim ?k) t"
    by (auto simp: claim_matches_def)
qed

lemma counted_run:
  assumes quiet: "\<And>p k. counter_grows t k (xw_race w p k)"
    and keys: "distinct (map ea_task_id (bk_attempts k))" and fresh: "\<not> releasedSinceSql k t (xw_started w) False"
    and "\<not> xw_count_throws w"
    and run: "runTaskExecution w k agent t = (k', Returned res)" and counted: "counts res"
  shows "refused_count k t < EXECUTION_RETRY_CEILING" "refused_count k t < refused_count k' t"
proof -
  obtain k1 e where a: "runTaskExecutionAttempt w k agent t = (k1, e)" by force
  have e: "e = Returned res" using run by (auto simp: runTaskExecution_def a split: attempt_end.splits if_splits prod.splits)
  have id: "xr_task_id res = t" using counter.attempt_id a e by (metis snd_conv)
  have "counter_grows t k (xw_race w At_claim (xw_race w At_load k))"
    using counter.trans [OF quiet quiet] .
  then have c: "distinct (map ea_task_id (bk_attempts (xw_race w At_claim (xw_race w At_load k))))"
      "refused_count k t \<le> refused_count (xw_race w At_claim (xw_race w At_load k)) t"
    using keys by (auto simp: counter_grows_def)
  show "refused_count k t < EXECUTION_RETRY_CEILING"
    using counted_attempt_claimed(1) [OF a [unfolded e] counted] ceiling_iff [OF c(1), of t] c(2) by linarith
  define k2 where "k2 = xw_race w At_count k1"
  have "counter_grows t k k1" using counter.attempt_kept [OF quiet, of k agent] a by simp
  from counter.trans [OF this quiet] have 2: "counter_grows t k k2" unfolding k2_def .
  obtain k3 n where r: "recordRefusedAttempt k2 (xw_counted_at w) (ag_id agent) t (refusal_reason res) (Some (xw_started w)) = (k3, n)" by force
  have "\<not> releasedSinceSql k2 t (xw_started w) False" using 2 keys fresh by (auto simp: counter_grows_def)
  then have n: "refused_count k3 t = refused_count k2 t + 1" using record_count [OF r] by simp
  have d3: "distinct (map ea_task_id (bk_attempts k3))" using record_grows [of t k2] 2 keys r by (auto simp: counter_grows_def) (metis fst_conv)
  have "refused_count k3 t \<le> refused_count k' t"
  proof (cases "n < EXECUTION_RETRY_CEILING")
    case True
    then show ?thesis using run counted assms(4) id by (simp add: runTaskExecution_def a e k2_def [symmetric] r)
  next
    case False
    then have "k' = fst (escalateRefusedTask (xw_env w) (xw_race w At_escalate k3) (xw_held_at w) (xw_escalation_id w) (xw_audit_id w) (ag_id agent) t)"
      using run counted assms(4) id by (simp add: runTaskExecution_def a e k2_def [symmetric] r)
    moreover have "refused_count (xw_race w At_escalate k3) t \<ge> refused_count k3 t" using quiet [of k3] d3 by (simp add: counter_grows_def)
    ultimately show ?thesis by (simp add: refused_count_def)
  qed
  with n 2 keys show "refused_count k t < refused_count k' t" by (simp add: counter_grows_def)
qed

text \<open>A sequence of runs, each by some agent on some task.\<close>

fun runs :: "(exec_world \<times> agent_row \<times> string) list \<Rightarrow> brake_db \<Rightarrow> brake_db \<times> attempt_end list" where
  "runs [] k = (k, [])"
| "runs ((w, agent, t) # rs) k =
     (case runTaskExecution w k agent t of (k1, e) \<Rightarrow> (case runs rs k1 of (k2, es) \<Rightarrow> (k2, e # es)))"

definition counted_end :: "attempt_end \<Rightarrow> bool" where
  "counted_end e = (case e of Returned res \<Rightarrow> counts res | Threw \<Rightarrow> False)"

text \<open>C18: An agent loop is cut after three refusals. Whatever agents run a task, however often, and whatever other requests do
  between their steps, as long as nobody lowers the task's counter or moves its release epoch past the start of an attempt,
  at most as many runs end in a counted refusal as the ceiling leaves, and none once the ceiling is reached.\<close>
theorem refused_runs_bounded:
  assumes "runs rs k = (k', es)" and "distinct (map ea_task_id (bk_attempts k))"
    and "\<forall>(w, agent, u) \<in> set rs. u = t \<and> \<not> xw_count_throws w \<and> \<not> releasedSinceSql k t (xw_started w) False \<and>
           (\<forall>p x. counter_grows t x (xw_race w p x))"
  shows "length (filter counted_end es) \<le> EXECUTION_RETRY_CEILING - refused_count k t"
  using assms
proof (induction rs k arbitrary: k' es rule: runs.induct)
  case (1 k)
  then show ?case by simp
next
  case (2 w agent u rs k)
  obtain k1 e where run: "runTaskExecution w k agent u = (k1, e)" by force
  obtain k2 es' where rest: "runs rs k1 = (k2, es')" by force
  have u: "u = t" and quiet: "\<And>p x. counter_grows t x (xw_race w p x)" using "2.prems"(3) by auto
  have grows: "counter_grows t k k1" using counter.run_kept [OF quiet, of k agent] run u by simp
  then have keys: "distinct (map ea_task_id (bk_attempts k1))" and le: "refused_count k t \<le> refused_count k1 t"
    using "2.prems"(2) by (simp_all add: counter_grows_def)
  have others: "\<forall>(w, agent, u) \<in> set rs. u = t \<and> \<not> xw_count_throws w \<and> \<not> releasedSinceSql k1 t (xw_started w) False \<and>
           (\<forall>p x. counter_grows t x (xw_race w p x))"
    using "2.prems"(2,3) grows by (auto simp: counter_grows_def)
  have ih: "length (filter counted_end es') \<le> EXECUTION_RETRY_CEILING - refused_count k1 t"
    by (rule "2.IH" [OF run [symmetric] rest keys others])
  have "refused_count k t < EXECUTION_RETRY_CEILING \<and> refused_count k t < refused_count k1 t" if "counted_end e"
  proof (cases e)
    case (Returned res)
    with that have "counts res" by (simp add: counted_end_def)
    with counted_run [OF quiet "2.prems"(2) _ _ run [unfolded u Returned]] "2.prems"(3) show ?thesis by simp
  next
    case Threw
    with that show ?thesis by (simp add: counted_end_def)
  qed
  with ih le "2.prems"(1) show ?case by (auto simp: run rest) (use ih in linarith)+
qed

section \<open>A hold lasts until a release\<close>

definition hold_kept :: "string \<Rightarrow> brake_db \<Rightarrow> brake_db \<Rightarrow> bool" where
  "hold_kept t k k' \<longleftrightarrow> (taskHeldSql k t \<longrightarrow> taskHeldSql k' t)"

lemma place_hold_keeps: "taskHeldSql k t \<Longrightarrow> taskHeldSql (place_hold now esc agent u k) t"
  by (auto simp: place_hold_def taskHeldSql_def exists_row_iff Let_def split: option.splits)

lemma escalate_keeps: "taskHeldSql k t \<Longrightarrow> taskHeldSql (fst (escalateRefusedTask env k now esc aid agent u)) t"
  using place_hold_keeps [of k t now esc agent u]
  by (simp add: escalateRefusedTask_def audit_hold_def Let_def taskHeldSql_def split: option.splits)

interpretation hold: kept "hold_kept t" u for t u
  by unfold_locales
    (auto simp: hold_kept_def same_brakes_def taskHeldSql_def recordRefusedAttempt_def split: option.splits
      intro: escalate_keeps [unfolded taskHeldSql_def])

lemma held_run:
  assumes "\<And>p k. hold_kept t k (xw_race w p k)" and "taskHeldSql k t" and "runTaskExecution w k agent t = (k', e)"
  shows "\<exists>d err. e = Returned (refusal t d err) \<and> err \<in> {''task_held'', ''task_not_found''}"
proof -
  have "taskHeldSql (xw_race w At_load k) t" using assms(1,2) by (simp add: hold_kept_def)
  then obtain k1 d err where a: "runTaskExecutionAttempt w k agent t = (k1, Returned (refusal t d err))" "err \<in> {''task_held'', ''task_not_found''}"
    by (cases "loadTaskById (xw_race w At_load k) t") (simp_all add: runTaskExecutionAttempt_def Let_def brake_error_def)
  then show ?thesis using assms(3) by (auto simp: runTaskExecution_def)
qed

text \<open>C20: A held task stays out of every agent's reach. Through any sequence of runs, by any agents on any tasks, with any
  interleaving in which nobody releases it, the task stays held, and each run on it ends in a refusal that
  names the hold (or a missing task) and did no work.\<close>
theorem hold_stops_execution:
  assumes "runs rs k = (k', es)" and "taskHeldSql k t"
    and "\<forall>(w, agent, u) \<in> set rs. \<forall>p x. hold_kept t x (xw_race w p x)"
  shows "taskHeldSql k' t \<and>
    (\<forall>((w, agent, u), e) \<in> set (zip rs es). u = t \<longrightarrow>
       (\<exists>d err. e = Returned (refusal t d err) \<and> err \<in> {''task_held'', ''task_not_found''}))"
  using assms
proof (induction rs k arbitrary: k' es rule: runs.induct)
  case (1 k)
  then show ?case by simp
next
  case (2 w agent u rs k)
  obtain k1 e where run: "runTaskExecution w k agent u = (k1, e)" by force
  obtain k2 es' where rest: "runs rs k1 = (k2, es')" by force
  have quiet: "\<And>p x. hold_kept t x (xw_race w p x)" using "2.prems"(3) by auto
  have held: "taskHeldSql k1 t"
    using hold.run_kept [OF quiet, of k agent u] run "2.prems"(2) by (simp add: hold_kept_def)
  have others: "\<forall>(w, agent, u) \<in> set rs. \<forall>p x. hold_kept t x (xw_race w p x)" using "2.prems"(3) by auto
  note ih = "2.IH" [OF run [symmetric] rest held others]
  have "\<exists>d err. e = Returned (refusal t d err) \<and> err \<in> {''task_held'', ''task_not_found''}" if "u = t"
    using held_run [OF quiet "2.prems"(2) run [unfolded that]] .
  with ih "2.prems"(1) show ?case by (auto simp: run rest)
qed

section \<open>Where a run leaves its task\<close>

definition row_of :: "brake_db \<Rightarrow> string \<Rightarrow> gated_task list" where
  "row_of k t = filter (\<lambda>r. t_id r = t) (bk_tasks k)"

text \<open>What other requests must leave alone: the task's row, its receipt and archive mark, and the gate tables.\<close>

definition undisturbed :: "string \<Rightarrow> brake_db \<Rightarrow> brake_db \<Rightarrow> bool" where
  "undisturbed t k k' \<longleftrightarrow> row_of k' t = row_of k t \<and> bk_receipt k' t = bk_receipt k t \<and>
     archived (bk_db k') t = archived (bk_db k) t \<and> bk_gates k' = bk_gates k"

lemma undisturbedD:
  assumes "undisturbed t k k'"
  shows "row_of k' t = row_of k t" "bk_receipt k' t = bk_receipt k t" "archived (bk_db k') t = archived (bk_db k) t" "bk_gates k' = bk_gates k"
  using assms by (simp_all add: undisturbed_def)










definition publishing :: "gated_task \<Rightarrow> bool" where
  "publishing r \<longleftrightarrow> \<not> isExternallySourced (task.truncate r) \<and> detectContentIntent r \<noteq> None"

text \<open>A publishing request that was proposed to a registered department: the answer and the row name the proposal.\<close>

definition proposed :: "exec_world \<Rightarrow> gated_task \<Rightarrow> execute_result \<Rightarrow> gated_task \<Rightarrow> bool" where
  "proposed w r0 res r \<longleftrightarrow> xw_registered w \<and>
     (\<exists>i. detectContentIntent r0 = Some i \<and> xr_decided res = ''content_proposed: '' @ ci_title i \<and> t_result r = Some (proposal_result w i))"





lemma finished_landed [simp]: "snd x = Finish_landed \<Longrightarrow> snd (finished t res x) = Returned res"
  by (cases "(t, res, x)" rule: finished.cases) simp_all





lemma claimed_simps [simp]:
  "t_id (claimed now agent r) = t_id r" "t_assignee_agent_id (claimed now agent r) = Some (ag_id agent)"
  "t_squad_id (claimed now agent r) = t_squad_id r" "t_status (claimed now agent r) = In_progress"
  "t_title (claimed now agent r) = t_title r" "t_body (claimed now agent r) = t_body r"
  "t_source_pot (claimed now agent r) = t_source_pot r" "t_external_source (claimed now agent r) = t_external_source r"
  by (simp_all add: claimed_def)

lemma claimed_intent [simp]: "detectContentIntent (claimed now agent r) = detectContentIntent r"
  unfolding detectContentIntent_def claimed_simps by (rule refl)

lemma claimed_publishing [simp]:
  "publishing (claimed now agent r) = publishing r" "proposed w (claimed now agent r) res r' = proposed w r res r'"
  by (simp_all add: publishing_def proposed_def isExternallySourced_def task.truncate_def)







section \<open>A sample: agents on one task\<close>

definition sample_agent :: agent_row where
  "sample_agent = \<lparr>ag_id = ''a'', ag_slug = ''ay'', ag_squad_id = ''s'', ag_status = Agent_active\<rparr>"

text \<open>A model whose prose is refused as evidence, and one whose answer is accepted.\<close>

definition sample_world :: "bool \<Rightarrow> exec_world" where
  "sample_world good = \<lparr>xw_race = (\<lambda>_ k. k), xw_env = sample_env, xw_bar = sample_bar, xw_agentMember = (\<lambda>_. None),
     xw_started = ''2'', xw_claimed_at = ''3'', xw_now_ms = 0, xw_finished_at = ''4'', xw_counted_at = ''5'', xw_held_at = ''6'',
     xw_dispatch_receipt = None, xw_fresh_receipt = ''rc'', xw_escalation_id = ''esc'', xw_audit_id = ''au'', xw_submission_id = ''s2'',
     xw_submitted_at = ''4'', xw_registered = True, xw_propose = (\<lambda>r i. Inr (t_id r)), xw_meter = (\<lambda>_. None),
     xw_cost_window = Per_day, xw_cycle_cost = 1, xw_charter = (\<lambda>_. Inr None), xw_model = (\<lambda>_ _. Inr (''done'', None)),
     xw_evidence = (\<lambda>_. Inr (if good then Verified ''p'' ''sha'' else Unverified ''no_artifact_claimed'' None)),
     xw_sha256 = (\<lambda>s. s), xw_ellipsis = CHR ''.'', xw_count_throws = False\<rparr>"

definition sample_fresh_brakes :: brake_db where
  "sample_fresh_brakes = sample_brakes\<lparr>bk_attempts := []\<rparr>"

lemma sample_world_simps [simp]:
  "xw_race (sample_world g) p k = k" "xw_count_throws (sample_world g) = False" "xw_propose (sample_world g) r i = Inr (t_id r)"
  by (simp_all add: sample_world_def)

theorem refused_runs_bounded_witness:
  "length (filter counted_end (snd (runs (replicate 5 (sample_world False, sample_agent, ''t1'')) sample_fresh_brakes))) \<le> 3"
proof -
  obtain k' es where r: "runs (replicate 5 (sample_world False, sample_agent, ''t1'')) sample_fresh_brakes = (k', es)" by force
  have "refused_count sample_fresh_brakes ''t1'' = 0" "distinct (map ea_task_id (bk_attempts sample_fresh_brakes))"
    "\<not> releasedSinceSql sample_fresh_brakes ''t1'' s False" for s
    by (simp_all add: sample_fresh_brakes_def refused_count_def first_row_def releasedSinceSql_def exists_row_def)
  then show ?thesis
    using refused_runs_bounded [OF r, of "''t1''"] by (simp add: r counter_grows_def EXECUTION_RETRY_CEILING_def)
qed

theorem hold_stops_execution_witness:
  "taskHeldSql (fst (runs [(sample_world True, sample_agent, ''t1''), (sample_world False, sample_agent, ''t2'')] sample_raised)) ''t1''"
proof -
  obtain k' es where r: "runs [(sample_world True, sample_agent, ''t1''), (sample_world False, sample_agent, ''t2'')] sample_raised = (k', es)" by force
  have "taskHeldSql sample_raised ''t1''" by (rule sample_brakes_ok)
  from hold_stops_execution [OF r this] show ?thesis by (simp add: r hold_kept_def del: runs.simps)
qed


end
