(* ===== verification/Agent_Inbox.thy ===== *)
theory Agent_Inbox
  imports Prelude
begin

text \<open>
  The durable inbox of an agent (\<^verbatim>\<open>src/agents/messages.ts\<close>): sending, reading, leasing, acknowledging and
  dead-lettering of messages, lease attempts that a client can repeat after a lost answer, and the fence that
  gives an inbox to one transport; with \<^verbatim>\<open>src/agents/reply-expectation.ts\<close> and
  \<^verbatim>\<open>src/agents/system-senders.ts\<close> for the annotations of a message.

  \<open>inbox_db\<close> holds \<open>agent_messages\<close>, \<open>agent_inbox_lease_attempts\<close>, \<open>agent_inbox_fences\<close> and
  \<open>agent_attachment_handled\<close>; \<open>ib_next\<close> is the AUTOINCREMENT counter of \<open>seq\<close>. Instants are integers, in
  milliseconds: every writer of \<open>lease_expires_at\<close> stamps ISO-8601, on which both the textual comparison
  and \<open>julianday\<close> are the order of the instants. A D1 batch is one step, a function of the tables; where a function
  runs several separate statements, \<open>inbox_race\<close> is what other requests do before each of them. Messages of the proof protocol of
  migration 0128 (with a \<open>fenced_delivery_id\<close>) are left out, and so are failing database calls and the error
  details. SHA-256 is the argument \<open>sha\<close>.
\<close>

section \<open>Tables\<close>

record message_row =
  mg_seq :: int
  mg_id :: string
  mg_tenant :: string
  mg_to :: string
  mg_from :: string
  mg_member :: string
  mg_kind :: string
  mg_body :: string
  mg_request :: "string option"
  mg_reply_to :: "string option"
  mg_created :: int
  mg_read :: "int option"
  mg_project :: "string option"
  mg_attempts :: nat
  mg_lease :: "int option"
  mg_dead :: "int option"
  mg_dead_reason :: "string option"
  mg_seat :: "string option"
  mg_length :: "int option"
  mg_checksum :: "string option"
  mg_stamp :: "string option"

datatype fence_mode = Bearer_only | Signed_only

record fence_row =
  fn_tenant :: string
  fn_agent :: string
  fn_mode :: fence_mode
  fn_generation :: int
  fn_key :: "string option"

text \<open>The primary key of a lease attempt; the seat key is empty for the agent's shared inbox.\<close>

record attempt_scope =
  sc_tenant :: string
  sc_agent :: string
  sc_seat :: string
  sc_attempt :: string

datatype attempt_state = At_opening | At_leased | At_empty | At_cancelled | At_expired | At_acked

record lease_attempt =
  la_scope :: attempt_scope
  la_digest :: string
  la_state :: attempt_state
  la_message :: "string option"
  la_terminal :: "string option"
  la_seq :: "int option"
  la_delivery :: "nat option"
  la_lease :: "int option"
  la_created :: int
  la_resolved :: "int option"

record inbox_db =
  ib_messages :: "message_row list"
  ib_leases :: "lease_attempt list"
  ib_fences :: "fence_row list"
  ib_handled :: "(string \<times> string) list"
  ib_next :: int

definition update_messages :: "(message_row \<Rightarrow> bool) \<Rightarrow> (message_row \<Rightarrow> message_row) \<Rightarrow> inbox_db \<Rightarrow> inbox_db" where
  "update_messages p f x = x\<lparr>ib_messages := map (\<lambda>m. if p m then f m else m) (ib_messages x)\<rparr>"

definition update_leases :: "(lease_attempt \<Rightarrow> bool) \<Rightarrow> (lease_attempt \<Rightarrow> lease_attempt) \<Rightarrow> inbox_db \<Rightarrow> inbox_db" where
  "update_leases p f x = x\<lparr>ib_leases := map (\<lambda>a. if p a then f a else a) (ib_leases x)\<rparr>"

text \<open>\<open>ORDER BY seq ASC LIMIT n\<close>.\<close>

definition oldest :: "nat \<Rightarrow> (message_row \<Rightarrow> bool) \<Rightarrow> inbox_db \<Rightarrow> message_row list" where
  "oldest n p x = take n (sort_key mg_seq (filter p (ib_messages x)))"

definition count_messages :: "(message_row \<Rightarrow> bool) \<Rightarrow> inbox_db \<Rightarrow> nat" where
  "count_messages p x = length (filter p (ib_messages x))"

section \<open>Annotations of a message\<close>

definition SYSTEM_SENDERS :: "(string \<times> string option) list" where
  "SYSTEM_SENDERS =
    [(''mupot-review-gate'', Some ''task_verdict''), (''mupot-decision-card'', None), (''mupot-flights'', Some ''flight_land''),
     (''mupot-dispatch'', Some ''task_dispatch_runtime_receipt''), (''mupot-approval-sweeper'', None), (''mupot-secure-drop'', None),
     (''mupot-wake-router'', None), (''mupot-assignment-wake'', None), (''mupot-onboarding'', None), (''mupot-task-reclaim'', None),
     (''mupot-routines'', Some ''routine_proposal_submit'')]"

definition isSystemSender :: "string \<Rightarrow> bool" where
  "isSystemSender ref = (map_of SYSTEM_SENDERS ref \<noteq> None)"

definition systemSenderReplyVia :: "string \<Rightarrow> string option" where
  "systemSenderReplyVia ref = (case map_of SYSTEM_SENDERS ref of Some via \<Rightarrow> via | None \<Rightarrow> None)"

definition rid_char :: "char \<Rightarrow> bool" where
  "rid_char c \<longleftrightarrow>
     (let n = of_char c :: nat in 65 \<le> n \<and> n \<le> 90 \<or> 97 \<le> n \<and> n \<le> 122 \<or> 48 \<le> n \<and> n \<le> 57) \<or> c \<in> set ''_.:-''"

definition RID_RE :: "string \<Rightarrow> bool" where
  "RID_RE s \<longleftrightarrow> 1 \<le> length s \<and> length s \<le> 128 \<and> list_all rid_char s"

text \<open>\<open>BODY_REQUEST_ID_RE\<close> at the start of a text; \<open>letters\<close> is a literal matched without case.\<close>

fun letters :: "string \<Rightarrow> string \<Rightarrow> string option" where
  "letters [] s = Some s"
| "letters (w # ws) [] = None"
| "letters (w # ws) (c # cs) = (if lower_char c = w then letters ws cs else None)"

definition request_token :: "string \<Rightarrow> bool" where
  "request_token s =
     (case letters ''['' s of None \<Rightarrow> False
      | Some s1 \<Rightarrow> (case letters ''request_id'' (dropWhile js_space s1) of None \<Rightarrow> False
      | Some s2 \<Rightarrow> (case letters '':'' (dropWhile js_space s2) of None \<Rightarrow> False
      | Some s3 \<Rightarrow> (let s4 = dropWhile js_space s3; rid = takeWhile rid_char s4; s5 = dropWhile js_space (drop (length rid) s4) in
          1 \<le> length rid \<and> length rid \<le> 128 \<and> letters '']'' s5 \<noteq> None))))"

fun BODY_REQUEST_ID_RE :: "string \<Rightarrow> bool" where
  "BODY_REQUEST_ID_RE [] = False"
| "BODY_REQUEST_ID_RE (c # cs) = (request_token (c # cs) \<or> BODY_REQUEST_ID_RE cs)"

datatype reply_basis = System_sender | Ack_is_terminal | Request_id_field | Body_token | No_signal

definition evaluateReplyExpectation :: "string \<Rightarrow> string option \<Rightarrow> string \<Rightarrow> string \<Rightarrow> bool \<times> reply_basis" where
  "evaluateReplyExpectation kind request body from =
     (if isSystemSender from then (False, System_sender)
      else if kind = ''ack'' then (False, Ack_is_terminal)
      else if trim (case request of Some r \<Rightarrow> r | None \<Rightarrow> []) \<noteq> [] then (True, Request_id_field)
      else if BODY_REQUEST_ID_RE body then (True, Body_token)
      else (False, No_signal))"

definition hex_lower :: "char \<Rightarrow> bool" where
  "hex_lower c \<longleftrightarrow> (let n = of_char c :: nat in 48 \<le> n \<and> n \<le> 57 \<or> 97 \<le> n \<and> n \<le> 102)"

definition hex64 :: "string \<Rightarrow> bool" where
  "hex64 s \<longleftrightarrow> length s = 64 \<and> list_all hex_lower s"

text \<open>What a read adds to a row; \<open>vm_via\<close> is absent unless the sender is a system sender.\<close>

record message_view =
  vm_row :: message_row
  vm_length :: "int option"
  vm_checksum :: "string option"
  vm_intact :: "bool option"
  vm_expects :: bool
  vm_basis :: reply_basis
  vm_via :: "string option option"

definition annotateMessage :: "(string \<Rightarrow> string) \<Rightarrow> message_row \<Rightarrow> message_view" where
  "annotateMessage sha m =
     (let len = (case mg_length m of Some n \<Rightarrow> if 0 \<le> n then Some n else None | None \<Rightarrow> None);
          sum = (case mg_checksum m of Some c \<Rightarrow> if hex64 c then Some c else None | None \<Rightarrow> None);
          reply = evaluateReplyExpectation (mg_kind m) (mg_request m) (mg_body m) (mg_from m) in
      \<lparr>vm_row = m, vm_length = len, vm_checksum = sum,
       vm_intact = (case (len, sum) of
           (Some n, Some c) \<Rightarrow> Some (int (length (mg_body m)) = n \<and> sha (mg_body m) = c)
         | _ \<Rightarrow> None),
       vm_expects = fst reply, vm_basis = snd reply,
       vm_via = (if snd reply = System_sender then Some (systemSenderReplyVia (mg_from m)) else None)\<rparr>)"

definition annotateMessages :: "(string \<Rightarrow> string) \<Rightarrow> message_row list \<Rightarrow> message_view list" where
  "annotateMessages sha ms = map (annotateMessage sha) ms"

section \<open>The fence, seats and leases\<close>

definition fence_of :: "inbox_db \<Rightarrow> string \<Rightarrow> string \<Rightarrow> fence_row option" where
  "fence_of x tenant agent = first_row (\<lambda>f. fn_tenant f = tenant \<and> fn_agent f = agent) (ib_fences x)"

definition bearerFencePredicate :: "inbox_db \<Rightarrow> string \<Rightarrow> string \<Rightarrow> bool" where
  "bearerFencePredicate x tenant agent \<longleftrightarrow>
     (case fence_of x tenant agent of None \<Rightarrow> True | Some f \<Rightarrow> fn_mode f = Bearer_only)"

definition bearerFenceBlocks :: "inbox_db \<Rightarrow> string \<Rightarrow> string \<Rightarrow> bool" where
  "bearerFenceBlocks x tenant agent \<longleftrightarrow>
     (case fence_of x tenant agent of None \<Rightarrow> Bearer_only | Some f \<Rightarrow> fn_mode f) \<noteq> Bearer_only"

definition signed_fence :: "inbox_db \<Rightarrow> string \<Rightarrow> string \<Rightarrow> string \<Rightarrow> bool" where
  "signed_fence x tenant agent key =
     exists_row (\<lambda>f. fn_tenant f = tenant \<and> fn_agent f = agent \<and> fn_mode f = Signed_only \<and> fn_key f = Some key) (ib_fences x)"

text \<open>The write of \<open>set_agent_inbox_consumer\<close> (\<^verbatim>\<open>src/mcp/index.ts\<close>); an update needs the generation the caller expects.\<close>

definition write_fence :: "string \<Rightarrow> string \<Rightarrow> fence_mode \<Rightarrow> string option \<Rightarrow> int \<Rightarrow> inbox_db \<Rightarrow> inbox_db" where
  "write_fence tenant agent mode key expected x =
     (if exists_row (\<lambda>f. fn_tenant f = tenant \<and> fn_agent f = agent) (ib_fences x) then
        x\<lparr>ib_fences := map (\<lambda>f. if fn_tenant f = tenant \<and> fn_agent f = agent \<and> fn_generation f = expected
            then f\<lparr>fn_mode := mode, fn_generation := fn_generation f + 1, fn_key := key\<rparr> else f) (ib_fences x)\<rparr>
      else x\<lparr>ib_fences := ib_fences x @ [\<lparr>fn_tenant = tenant, fn_agent = agent, fn_mode = mode, fn_generation = 1, fn_key = key\<rparr>]\<rparr>)"

definition LEASE_LIVE_PREDICATE :: "int option \<Rightarrow> int \<Rightarrow> bool" where
  "LEASE_LIVE_PREDICATE lease now \<longleftrightarrow> (case lease of None \<Rightarrow> False | Some e \<Rightarrow> now < e)"

definition leaseAvailableClause :: "bool \<Rightarrow> int \<Rightarrow> message_row \<Rightarrow> bool" where
  "leaseAvailableClause allowAttemptHeld now m \<longleftrightarrow>
     \<not> LEASE_LIVE_PREDICATE (mg_lease m) now \<or>
     allowAttemptHeld \<and> mg_stamp m \<noteq> None \<and> mg_from m \<noteq> ''mupot-dispatch''"

text \<open>The lease condition of the attempt path and of the counts, \<open>lease_expires_at IS NULL OR lease_expires_at <= now\<close>.\<close>

definition lease_over :: "int \<Rightarrow> message_row \<Rightarrow> bool" where
  "lease_over now m \<longleftrightarrow> (case mg_lease m of None \<Rightarrow> True | Some e \<Rightarrow> e \<le> now)"

definition seat_sees :: "string option \<Rightarrow> message_row \<Rightarrow> bool" where
  "seat_sees seat m \<longleftrightarrow> mg_seat m = None \<or> seat \<noteq> None \<and> mg_seat m = seat"

definition unread_of :: "string \<Rightarrow> string \<Rightarrow> message_row \<Rightarrow> bool" where
  "unread_of tenant agent m \<longleftrightarrow> mg_tenant m = tenant \<and> mg_to m = agent \<and> mg_read m = None"

definition isRef :: "string \<Rightarrow> bool" where
  "isRef v \<longleftrightarrow> 0 < length v \<and> length v \<le> 128"

definition MAX_DELIVERY_ATTEMPTS :: nat where
  "MAX_DELIVERY_ATTEMPTS = 5"

text \<open>A \<open>limit\<close> argument: absent, not a finite number (\<open>Some None\<close>), or a number given by its floor.\<close>

definition inbox_limit :: "int option option \<Rightarrow> nat option" where
  "inbox_limit limit =
     (case limit of None \<Rightarrow> Some 20 | Some None \<Rightarrow> None | Some (Some n) \<Rightarrow> Some (nat (min 100 (max 1 n))))"

definition lease_seconds_of :: "int option option \<Rightarrow> int option" where
  "lease_seconds_of s =
     (case s of None \<Rightarrow> Some 300 | Some None \<Rightarrow> None | Some (Some n) \<Rightarrow> Some (min 3600 (max 1 n)))"

definition trimmed_seat :: "string option \<Rightarrow> string option" where
  "trimmed_seat seat = (case seat of Some s \<Rightarrow> if trim s \<noteq> [] then Some (trim s) else None | None \<Rightarrow> None)"

section \<open>Plain leases\<close>

datatype inbox_refusal =
    No_tenant | Invalid_agent | Invalid_limit | Invalid_lease | Invalid_attempt | Invalid_ids
  | Attempt_conflict | Consumer_fenced | Inbox_db_error

definition leasable :: "string \<Rightarrow> string \<Rightarrow> int \<Rightarrow> string option \<Rightarrow> message_row \<Rightarrow> bool" where
  "leasable tenant agent now seat m \<longleftrightarrow>
     unread_of tenant agent m \<and> mg_dead m = None \<and> leaseAvailableClause False now m \<and> seat_sees seat m"

definition dead_lettered :: "int \<Rightarrow> message_row \<Rightarrow> message_row" where
  "dead_lettered now m =
     m\<lparr>mg_dead := Some now, mg_dead_reason := Some (''max_delivery_attempts_exceeded:'' @ digits_of (mg_attempts m)), mg_stamp := None\<rparr>"

text \<open>Step 1 of a lease: rows handed out too often are parked.\<close>

definition reap_poisoned :: "string \<Rightarrow> string \<Rightarrow> int \<Rightarrow> string option \<Rightarrow> inbox_db \<Rightarrow> inbox_db" where
  "reap_poisoned tenant agent now seat x =
     update_messages
       (\<lambda>m. leasable tenant agent now seat m \<and> MAX_DELIVERY_ATTEMPTS \<le> mg_attempts m \<and> bearerFencePredicate x tenant agent)
       (dead_lettered now) x"

text \<open>Step 2: the oldest rows are stamped and returned by one statement.\<close>

definition handed_out :: "int \<Rightarrow> string option \<Rightarrow> message_row \<Rightarrow> message_row" where
  "handed_out expires stamp m = m\<lparr>mg_attempts := mg_attempts m + 1, mg_lease := Some expires, mg_stamp := stamp\<rparr>"

definition hand_out :: "string \<Rightarrow> string \<Rightarrow> int \<Rightarrow> string option \<Rightarrow> nat \<Rightarrow> int \<Rightarrow> inbox_db \<Rightarrow> inbox_db \<times> message_row list" where
  "hand_out tenant agent now seat limit expires x =
     (let picked = map mg_seq (oldest limit (\<lambda>m. leasable tenant agent now seat m \<and> bearerFencePredicate x tenant agent) x);
          x' = update_messages (\<lambda>m. mg_seq m \<in> set picked) (handed_out expires None) x in
      (x', sort_key mg_seq (filter (\<lambda>m. mg_seq m \<in> set picked) (ib_messages x'))))"

record lease_result =
  lr_messages :: "message_view list"
  lr_remaining :: nat
  lr_complete :: bool
  lr_dead :: nat
  lr_seconds :: int

datatype inbox_point = At_hand_out | At_fence | At_count

type_synonym inbox_race = "inbox_point \<Rightarrow> inbox_db \<Rightarrow> inbox_db"

text \<open>\<open>leaseAgentInbox\<close> without an attempt, after its validation.\<close>

definition leasePlain ::
  "(string \<Rightarrow> string) \<Rightarrow> inbox_race \<Rightarrow> string \<Rightarrow> string \<Rightarrow> nat \<Rightarrow> int \<Rightarrow> int \<Rightarrow> string option \<Rightarrow> inbox_db \<Rightarrow>
   inbox_db \<times> (inbox_refusal + lease_result)" where
  "leasePlain sha race tenant agent limit secs now seat x =
     (let x1 = race At_hand_out (reap_poisoned tenant agent now seat x);
          (x2, rows) = hand_out tenant agent now seat limit (now + secs * 1000) x1;
          x3 = race At_fence x2 in
      if rows = [] \<and> bearerFenceBlocks x3 tenant agent then (x3, Inl Consumer_fenced)
      else
        (let x4 = race At_count x3;
             left = count_messages (\<lambda>m. unread_of tenant agent m \<and> seat_sees seat m \<and> mg_dead m = None \<and> lease_over now m) x4;
             dead = count_messages (\<lambda>m. unread_of tenant agent m \<and> seat_sees seat m \<and> mg_dead m \<noteq> None) x4 in
         (x4, Inr \<lparr>lr_messages = annotateMessages sha rows, lr_remaining = left, lr_complete = (left = 0), lr_dead = dead,
                  lr_seconds = secs\<rparr>)))"

section \<open>Lease attempts\<close>

definition CANCELLED_ATTEMPT_DIGEST :: string where
  "CANCELLED_ATTEMPT_DIGEST = replicate 64 (CHR ''0'')"

definition attempt_char :: "char \<Rightarrow> bool" where
  "attempt_char c \<longleftrightarrow> rid_char c \<and> c \<noteq> CHR ''.'' \<and> c \<noteq> CHR '':''"

definition validAttemptId :: "string \<Rightarrow> bool" where
  "validAttemptId s \<longleftrightarrow> 16 \<le> length s \<and> length s \<le> 128 \<and> list_all attempt_char s"

definition attemptDigest :: "(string \<Rightarrow> string) \<Rightarrow> int \<Rightarrow> string \<Rightarrow> string" where
  "attemptDigest sha secs key =
     sha (stringify (JObj [(''lease_seconds'', JNum secs), (''effectiveSeat'', JStr key), (''protocolVersion'', JNum 1)]))"

definition attemptStamp :: "(string \<Rightarrow> string) \<Rightarrow> attempt_scope \<Rightarrow> string" where
  "attemptStamp sha sc =
     sha (stringify (JObj [(''tenant'', JStr (sc_tenant sc)), (''agent'', JStr (sc_agent sc)), (''effectiveSeat'', JStr (sc_seat sc)),
       (''attemptId'', JStr (sc_attempt sc)), (''protocolVersion'', JNum 1)]))"

definition seat_key_sees :: "bool \<Rightarrow> string \<Rightarrow> message_row \<Rightarrow> bool" where
  "seat_key_sees exact key m \<longleftrightarrow>
     (if exact then mg_seat m = Some key \<and> key \<noteq> [] else seat_sees (if key = [] then None else Some key) m)"

text \<open>\<open>exactMessageSeat\<close>: no condition unless the attempt is confined to its seat.\<close>

definition exact_seat :: "bool \<Rightarrow> string \<Rightarrow> message_row \<Rightarrow> bool" where
  "exact_seat exact key m \<longleftrightarrow> (exact \<longrightarrow> mg_seat m = Some key \<and> key \<noteq> [])"

definition to_scope :: "attempt_scope \<Rightarrow> message_row \<Rightarrow> bool" where
  "to_scope sc m \<longleftrightarrow> mg_tenant m = sc_tenant sc \<and> mg_to m = sc_agent sc"

abbreviation fence_open :: "inbox_db \<Rightarrow> attempt_scope \<Rightarrow> bool" where
  "fence_open x sc \<equiv> bearerFencePredicate x (sc_tenant sc) (sc_agent sc)"

definition insert_attempt :: "attempt_scope \<Rightarrow> string \<Rightarrow> attempt_state \<Rightarrow> int \<Rightarrow> int option \<Rightarrow> inbox_db \<Rightarrow> inbox_db" where
  "insert_attempt sc digest st now resolved x =
     (if fence_open x sc \<and> \<not> exists_row (\<lambda>a. la_scope a = sc) (ib_leases x) then
        x\<lparr>ib_leases := ib_leases x @ [\<lparr>la_scope = sc, la_digest = digest, la_state = st, la_message = None, la_terminal = None,
            la_seq = None, la_delivery = None, la_lease = None, la_created = now, la_resolved = resolved\<rparr>]\<rparr>
      else x)"

definition is_opening :: "attempt_scope \<Rightarrow> string \<Rightarrow> lease_attempt \<Rightarrow> bool" where
  "is_opening sc digest a \<longleftrightarrow> la_scope a = sc \<and> la_digest a = digest \<and> la_state a = At_opening"

definition attemptOpening :: "attempt_scope \<Rightarrow> string \<Rightarrow> inbox_db \<Rightarrow> bool" where
  "attemptOpening sc digest x = exists_row (is_opening sc digest) (ib_leases x)"

text \<open>The message an attempt was given, as long as the attempt still holds it.\<close>

definition holds_message :: "attempt_scope \<Rightarrow> string \<Rightarrow> bool \<Rightarrow> lease_attempt \<Rightarrow> message_row \<Rightarrow> bool" where
  "holds_message sc stamp exact a m \<longleftrightarrow>
     Some (mg_id m) = la_message a \<and> to_scope sc m \<and> exact_seat exact (sc_seat sc) m \<and> Some (mg_seq m) = la_seq a \<and>
     Some (mg_attempts m) = la_delivery a \<and> mg_stamp m = Some stamp \<and> mg_lease m \<noteq> None \<and> mg_lease m = la_lease a \<and>
     mg_read m = None"

definition leased_in :: "attempt_scope \<Rightarrow> lease_attempt \<Rightarrow> bool" where
  "leased_in sc a \<longleftrightarrow> la_scope a = sc \<and> la_state a = At_leased"

definition terminal :: "attempt_state \<Rightarrow> int \<Rightarrow> lease_attempt \<Rightarrow> lease_attempt" where
  "terminal st now a = a\<lparr>la_state := st, la_terminal := la_message a, la_message := None, la_resolved := Some now\<rparr>"

text \<open>The two statements that end an attempt whose message was read, or is no longer held.\<close>

definition mark_acked :: "attempt_scope \<Rightarrow> bool \<Rightarrow> int \<Rightarrow> inbox_db \<Rightarrow> inbox_db" where
  "mark_acked sc exact now x =
     update_leases
       (\<lambda>a. leased_in sc a \<and>
            exists_row (\<lambda>m. Some (mg_id m) = la_message a \<and> to_scope sc m \<and> exact_seat exact (sc_seat sc) m \<and> mg_read m \<noteq> None)
              (ib_messages x) \<and>
            fence_open x sc)
       (terminal At_acked now) x"

definition mark_expired :: "attempt_scope \<Rightarrow> string \<Rightarrow> bool \<Rightarrow> int \<Rightarrow> inbox_db \<Rightarrow> inbox_db" where
  "mark_expired sc stamp exact now x =
     update_leases
       (\<lambda>a. leased_in sc a \<and>
            \<not> exists_row (\<lambda>m. holds_message sc stamp exact a m \<and> LEASE_LIVE_PREDICATE (mg_lease m) now) (ib_messages x) \<and>
            fence_open x sc)
       (terminal At_expired now) x"

text \<open>\<open>attemptResultSelect\<close>: the attempt and the message it holds.\<close>

definition attemptResultSelect ::
  "attempt_scope \<Rightarrow> string \<Rightarrow> bool \<Rightarrow> inbox_db \<Rightarrow> (lease_attempt \<times> message_row option) option" where
  "attemptResultSelect sc stamp exact x =
     (if fence_open x sc then
        (case first_row (\<lambda>a. la_scope a = sc) (ib_leases x) of None \<Rightarrow> None
         | Some a \<Rightarrow> Some (a, if la_state a = At_leased then first_row (holds_message sc stamp exact a) (ib_messages x) else None))
      else None)"

record attempt_result =
  ar_scope :: attempt_scope
  ar_state :: attempt_state
  ar_lease :: "int option"
  ar_messages :: "message_view list"

definition materializeAttempt ::
  "(string \<Rightarrow> string) \<Rightarrow> lease_attempt \<times> message_row option \<Rightarrow> inbox_refusal + attempt_result" where
  "materializeAttempt sha row =
     (case row of (a, m) \<Rightarrow>
        (if la_state a = At_opening then Inl Inbox_db_error
         else if la_state a = At_leased then
           (case m of None \<Rightarrow> Inl Inbox_db_error
            | Some r \<Rightarrow> Inr \<lparr>ar_scope = la_scope a, ar_state = At_leased, ar_lease = la_lease a, ar_messages = annotateMessages sha [r]\<rparr>)
         else Inr \<lparr>ar_scope = la_scope a, ar_state = la_state a, ar_lease = None, ar_messages = []\<rparr>))"

text \<open>No row came back: the fence, as a later read sees it, or a receipt that is missing.\<close>

definition no_receipt :: "inbox_race \<Rightarrow> attempt_scope \<Rightarrow> inbox_db \<Rightarrow> inbox_db \<times> (inbox_refusal + 'a)" where
  "no_receipt race sc x =
     (let x' = race At_fence x in (x', Inl (if bearerFenceBlocks x' (sc_tenant sc) (sc_agent sc) then Consumer_fenced else Inbox_db_error)))"

text \<open>The statements of the batch of \<open>leaseAgentInboxWithAttempt\<close> that claim a message, in their order.\<close>

definition attempt_reap :: "attempt_scope \<Rightarrow> string \<Rightarrow> bool \<Rightarrow> int \<Rightarrow> inbox_db \<Rightarrow> inbox_db" where
  "attempt_reap sc digest exact now x =
     update_messages
       (\<lambda>m. unread_of (sc_tenant sc) (sc_agent sc) m \<and> mg_dead m = None \<and> lease_over now m \<and>
            MAX_DELIVERY_ATTEMPTS \<le> mg_attempts m \<and> seat_key_sees exact (sc_seat sc) m \<and> attemptOpening sc digest x \<and> fence_open x sc)
       (dead_lettered now) x"

definition attempt_claimable :: "attempt_scope \<Rightarrow> bool \<Rightarrow> int \<Rightarrow> message_row \<Rightarrow> bool" where
  "attempt_claimable sc exact now m \<longleftrightarrow>
     unread_of (sc_tenant sc) (sc_agent sc) m \<and> mg_dead m = None \<and> lease_over now m \<and> mg_attempts m < MAX_DELIVERY_ATTEMPTS \<and>
     seat_key_sees exact (sc_seat sc) m"

definition attempt_claim :: "attempt_scope \<Rightarrow> string \<Rightarrow> string \<Rightarrow> bool \<Rightarrow> int \<Rightarrow> int \<Rightarrow> inbox_db \<Rightarrow> inbox_db" where
  "attempt_claim sc digest stamp exact now expires x =
     update_messages
       (\<lambda>m. mg_seq m \<in> set (map mg_seq (oldest 1 (\<lambda>m. attempt_claimable sc exact now m \<and> fence_open x sc) x)) \<and>
            attemptOpening sc digest x \<and> fence_open x sc)
       (handed_out expires (Some stamp)) x"

text \<open>The message this batch has just stamped.\<close>

definition claimed_by :: "attempt_scope \<Rightarrow> string \<Rightarrow> int \<Rightarrow> message_row \<Rightarrow> bool" where
  "claimed_by sc stamp expires m \<longleftrightarrow> to_scope sc m \<and> mg_stamp m = Some stamp \<and> mg_lease m = Some expires"

definition attempt_bind :: "attempt_scope \<Rightarrow> string \<Rightarrow> string \<Rightarrow> int \<Rightarrow> int \<Rightarrow> inbox_db \<Rightarrow> inbox_db" where
  "attempt_bind sc digest stamp now expires x =
     (case first_row (claimed_by sc stamp expires) (ib_messages x) of
        None \<Rightarrow> x
      | Some m \<Rightarrow> update_leases (\<lambda>a. is_opening sc digest a \<and> fence_open x sc)
          (\<lambda>a. a\<lparr>la_state := At_leased, la_message := Some (mg_id m), la_seq := Some (mg_seq m), la_delivery := Some (mg_attempts m),
                  la_lease := Some expires, la_resolved := Some now\<rparr>) x)"

definition attempt_none :: "attempt_scope \<Rightarrow> string \<Rightarrow> string \<Rightarrow> int \<Rightarrow> int \<Rightarrow> inbox_db \<Rightarrow> inbox_db" where
  "attempt_none sc digest stamp now expires x =
     update_leases
       (\<lambda>a. is_opening sc digest a \<and> \<not> exists_row (claimed_by sc stamp expires) (ib_messages x) \<and> fence_open x sc)
       (\<lambda>a. a\<lparr>la_state := At_empty, la_resolved := Some now\<rparr>) x"

text \<open>The hand-out is taken back if the fence closed inside the batch.\<close>

definition attempt_rollback :: "attempt_scope \<Rightarrow> string \<Rightarrow> string \<Rightarrow> int \<Rightarrow> inbox_db \<Rightarrow> inbox_db" where
  "attempt_rollback sc digest stamp expires x =
     update_messages
       (\<lambda>m. claimed_by sc stamp expires m \<and> attemptOpening sc digest x \<and> \<not> fence_open x sc)
       (\<lambda>m. m\<lparr>mg_attempts := mg_attempts m - 1, mg_lease := None, mg_stamp := None\<rparr>) x"

definition attempt_cancel :: "attempt_scope \<Rightarrow> string \<Rightarrow> int \<Rightarrow> inbox_db \<Rightarrow> inbox_db" where
  "attempt_cancel sc digest now x =
     update_leases (is_opening sc digest) (\<lambda>a. a\<lparr>la_state := At_cancelled, la_resolved := Some now\<rparr>) x"

definition attempt_batch :: "attempt_scope \<Rightarrow> string \<Rightarrow> string \<Rightarrow> bool \<Rightarrow> int \<Rightarrow> int \<Rightarrow> inbox_db \<Rightarrow> inbox_db" where
  "attempt_batch sc digest stamp exact now expires x =
     (mark_expired sc stamp exact now \<circ> mark_acked sc exact now \<circ> attempt_cancel sc digest now \<circ>
      attempt_rollback sc digest stamp expires \<circ> attempt_none sc digest stamp now expires \<circ>
      attempt_bind sc digest stamp now expires \<circ> attempt_claim sc digest stamp exact now expires \<circ>
      attempt_reap sc digest exact now \<circ> insert_attempt sc digest At_opening now None) x"

definition leaseAgentInboxWithAttempt ::
  "(string \<Rightarrow> string) \<Rightarrow> inbox_race \<Rightarrow> attempt_scope \<Rightarrow> int \<Rightarrow> bool \<Rightarrow> int \<Rightarrow> inbox_db \<Rightarrow> inbox_db \<times> (inbox_refusal + attempt_result)" where
  "leaseAgentInboxWithAttempt sha race sc secs exact now x =
     (let digest = attemptDigest sha secs (sc_seat sc); stamp = attemptStamp sha sc;
          x' = attempt_batch sc digest stamp exact now (now + secs * 1000) x in
      case attemptResultSelect sc stamp exact x' of
        None \<Rightarrow> no_receipt race sc x'
      | Some row \<Rightarrow>
          (x', if la_state (fst row) \<noteq> At_cancelled \<and> la_digest (fst row) \<noteq> digest then Inl Attempt_conflict
               else materializeAttempt sha row))"

text \<open>\<open>leaseAgentInbox\<close>: the validation, then one of the two modes.\<close>

datatype lease_answer = Leased lease_result | Attempted attempt_result

fun map_answer :: "('a \<Rightarrow> 'b) \<Rightarrow> 'e + 'a \<Rightarrow> 'e + 'b" where
  "map_answer f (Inl e) = Inl e"
| "map_answer f (Inr a) = Inr (f a)"

record lease_input =
  li_agent :: string
  li_limit :: "int option option"
  li_seconds :: "int option option"
  li_seat :: "string option"
  li_attempt :: "string option"
  li_exact :: bool

definition leaseAgentInbox ::
  "(string \<Rightarrow> string) \<Rightarrow> inbox_race \<Rightarrow> string \<Rightarrow> lease_input \<Rightarrow> int \<Rightarrow> inbox_db \<Rightarrow> inbox_db \<times> (inbox_refusal + lease_answer)" where
  "leaseAgentInbox sha race tenant i now x =
     (if tenant = [] then (x, Inl No_tenant)
      else if \<not> isRef (li_agent i) then (x, Inl Invalid_agent)
      else if li_exact i \<and> (trimmed_seat (li_seat i) = None \<or> \<not> truthy (li_attempt i)) then (x, Inl Invalid_attempt)
      else (case inbox_limit (li_limit i) of None \<Rightarrow> (x, Inl Invalid_limit) | Some limit \<Rightarrow>
        (if li_attempt i \<noteq> None \<and> limit \<noteq> 1 then (x, Inl Invalid_limit)
         else if \<not> (case li_attempt i of None \<Rightarrow> True | Some a \<Rightarrow> validAttemptId a) then (x, Inl Invalid_attempt)
         else (case lease_seconds_of (li_seconds i) of None \<Rightarrow> (x, Inl Invalid_lease) | Some secs \<Rightarrow>
           (let seat = trimmed_seat (li_seat i) in
            case li_attempt i of
              None \<Rightarrow> apsnd (map_answer Leased) (leasePlain sha race tenant (li_agent i) limit secs now seat x)
            | Some a \<Rightarrow> apsnd (map_answer Attempted)
                (leaseAgentInboxWithAttempt sha race
                  \<lparr>sc_tenant = tenant, sc_agent = li_agent i, sc_seat = (case seat of Some s \<Rightarrow> s | None \<Rightarrow> []), sc_attempt = a\<rparr>
                  secs (li_exact i) now x))))))"

text \<open>Input of the two calls that name an attempt.\<close>

definition attempt_scope_of :: "string \<Rightarrow> string \<Rightarrow> string option \<Rightarrow> string \<Rightarrow> attempt_scope" where
  "attempt_scope_of tenant agent seat attempt =
     \<lparr>sc_tenant = tenant, sc_agent = agent, sc_seat = (case seat of Some s \<Rightarrow> trim s | None \<Rightarrow> []), sc_attempt = attempt\<rparr>"

definition attempt_refusal :: "string \<Rightarrow> string \<Rightarrow> string \<Rightarrow> inbox_refusal option" where
  "attempt_refusal tenant agent attempt =
     (if tenant = [] then Some No_tenant
      else if \<not> isRef agent then Some Invalid_agent
      else if \<not> validAttemptId attempt then Some Invalid_attempt
      else None)"

definition reconcile_batch :: "attempt_scope \<Rightarrow> string \<Rightarrow> bool \<Rightarrow> int \<Rightarrow> inbox_db \<Rightarrow> inbox_db" where
  "reconcile_batch sc stamp exact now x =
     (mark_expired sc stamp exact now \<circ> mark_acked sc exact now \<circ>
      insert_attempt sc CANCELLED_ATTEMPT_DIGEST At_cancelled now (Some now)) x"

definition reconcileAgentInboxLeaseAttempt ::
  "(string \<Rightarrow> string) \<Rightarrow> inbox_race \<Rightarrow> string \<Rightarrow> string \<Rightarrow> string option \<Rightarrow> string \<Rightarrow> bool \<Rightarrow> int \<Rightarrow> inbox_db \<Rightarrow>
   inbox_db \<times> (inbox_refusal + attempt_result)" where
  "reconcileAgentInboxLeaseAttempt sha race tenant agent seat attempt exact now x =
     (case attempt_refusal tenant agent attempt of Some r \<Rightarrow> (x, Inl r) | None \<Rightarrow>
        (let sc = attempt_scope_of tenant agent seat attempt; stamp = attemptStamp sha sc;
             x' = reconcile_batch sc stamp exact now x in
         case attemptResultSelect sc stamp exact x' of
           None \<Rightarrow> no_receipt race sc x'
         | Some row \<Rightarrow> (x', materializeAttempt sha row)))"

section \<open>Acknowledging\<close>

text \<open>The statements of \<open>ackAgentInboxLeaseAttempt\<close>, in their order.\<close>

definition ack_read :: "attempt_scope \<Rightarrow> string \<Rightarrow> bool \<Rightarrow> int \<Rightarrow> inbox_db \<Rightarrow> inbox_db" where
  "ack_read sc stamp exact now x =
     update_messages
       (\<lambda>m. LEASE_LIVE_PREDICATE (mg_lease m) now \<and> seat_key_sees exact (sc_seat sc) m \<and> fence_open x sc \<and>
            exists_row (\<lambda>a. leased_in sc a \<and> holds_message sc stamp exact a m) (ib_leases x))
       (\<lambda>m. m\<lparr>mg_read := Some now, mg_lease := None\<rparr>) x"

definition ack_bound :: "attempt_scope \<Rightarrow> lease_attempt \<Rightarrow> message_row \<Rightarrow> bool" where
  "ack_bound sc a m \<longleftrightarrow> to_scope sc m \<and> Some (mg_seq m) = la_seq a \<and> Some (mg_attempts m) = la_delivery a"

definition ack_settle :: "attempt_scope \<Rightarrow> string \<Rightarrow> bool \<Rightarrow> int \<Rightarrow> inbox_db \<Rightarrow> inbox_db" where
  "ack_settle sc stamp exact now x =
     update_leases
       (\<lambda>a. leased_in sc a \<and> fence_open x sc \<and>
            exists_row (\<lambda>m. Some (mg_id m) = la_message a \<and> exact_seat exact (sc_seat sc) m \<and> ack_bound sc a m \<and> mg_read m \<noteq> None \<and>
              (mg_stamp m = Some stamp \<or> mg_stamp m = None)) (ib_messages x))
       (terminal At_acked now) x"

definition ack_restore :: "attempt_scope \<Rightarrow> string \<Rightarrow> bool \<Rightarrow> int \<Rightarrow> inbox_db \<Rightarrow> inbox_db" where
  "ack_restore sc stamp exact now x =
     x\<lparr>ib_messages := map (\<lambda>m.
        (case first_row (\<lambda>a. leased_in sc a \<and> Some (mg_id m) = la_message a \<and> ack_bound sc a m) (ib_leases x) of
           None \<Rightarrow> m
         | Some a \<Rightarrow>
             (if exact_seat exact (sc_seat sc) m \<and> mg_read m = Some now \<and> mg_lease m = None \<and> mg_stamp m = Some stamp \<and>
                 seat_key_sees exact (sc_seat sc) m \<and> \<not> fence_open x sc
              then m\<lparr>mg_read := None, mg_lease := la_lease a\<rparr> else m))) (ib_messages x)\<rparr>"

definition ack_unstamp :: "attempt_scope \<Rightarrow> string \<Rightarrow> bool \<Rightarrow> inbox_db \<Rightarrow> inbox_db" where
  "ack_unstamp sc stamp exact x =
     update_messages
       (\<lambda>m. exact_seat exact (sc_seat sc) m \<and> mg_stamp m = Some stamp \<and> mg_read m \<noteq> None \<and> seat_key_sees exact (sc_seat sc) m \<and>
            fence_open x sc \<and>
            exists_row (\<lambda>a. la_scope a = sc \<and> la_state a = At_acked \<and> la_terminal a = Some (mg_id m) \<and> ack_bound sc a m) (ib_leases x))
       (\<lambda>m. m\<lparr>mg_stamp := None\<rparr>) x"

definition ack_batch :: "attempt_scope \<Rightarrow> string \<Rightarrow> bool \<Rightarrow> int \<Rightarrow> inbox_db \<Rightarrow> inbox_db" where
  "ack_batch sc stamp exact now x =
     (ack_unstamp sc stamp exact \<circ> ack_restore sc stamp exact now \<circ> mark_expired sc stamp exact now \<circ>
      ack_settle sc stamp exact now \<circ> ack_read sc stamp exact now \<circ>
      insert_attempt sc CANCELLED_ATTEMPT_DIGEST At_cancelled now (Some now)) x"

record attempt_ack_result =
  aa_scope :: attempt_scope
  aa_state :: attempt_state
  aa_consumed :: bool

definition ackAgentInboxLeaseAttempt ::
  "(string \<Rightarrow> string) \<Rightarrow> inbox_race \<Rightarrow> string \<Rightarrow> string \<Rightarrow> string option \<Rightarrow> string \<Rightarrow> bool \<Rightarrow> int \<Rightarrow> inbox_db \<Rightarrow>
   inbox_db \<times> (inbox_refusal + attempt_ack_result)" where
  "ackAgentInboxLeaseAttempt sha race tenant agent seat attempt exact now x =
     (case attempt_refusal tenant agent attempt of Some r \<Rightarrow> (x, Inl r) | None \<Rightarrow>
        (let sc = attempt_scope_of tenant agent seat attempt; x' = ack_batch sc (attemptStamp sha sc) exact now x in
         case (if fence_open x' sc then
                 first_row (\<lambda>a. la_scope a = sc \<and> la_state a \<in> {At_empty, At_cancelled, At_expired, At_acked}) (ib_leases x')
               else None) of
           None \<Rightarrow> no_receipt race sc x'
         | Some a \<Rightarrow> (x', Inr \<lparr>aa_scope = la_scope a, aa_state = la_state a, aa_consumed = (la_state a = At_acked)\<rparr>)))"

text \<open>\<open>ackAgentMessages\<close>: one batch over the chunks of the ids, then one read for what did not move.\<close>

record ack_result =
  ak_acked :: "string list"
  ak_already_read :: "string list"
  ak_refused :: "string list"

definition ack_moves :: "string \<Rightarrow> string \<Rightarrow> string list \<Rightarrow> inbox_db \<Rightarrow> message_row \<Rightarrow> bool" where
  "ack_moves tenant agent chunk x m \<longleftrightarrow> unread_of tenant agent m \<and> mg_id m \<in> set chunk \<and> bearerFencePredicate x tenant agent"

definition ack_chunk :: "string \<Rightarrow> string \<Rightarrow> int \<Rightarrow> string list \<Rightarrow> inbox_db \<times> string list \<Rightarrow> inbox_db \<times> string list" where
  "ack_chunk tenant agent now chunk st =
     (case st of (x, acked) \<Rightarrow>
        (update_messages (ack_moves tenant agent chunk x) (\<lambda>m. m\<lparr>mg_read := Some now, mg_lease := None, mg_stamp := None\<rparr>) x,
         acked @ map mg_id (filter (ack_moves tenant agent chunk x) (ib_messages x))))"

definition ack_all :: "string \<Rightarrow> string \<Rightarrow> int \<Rightarrow> string list list \<Rightarrow> inbox_db \<Rightarrow> inbox_db \<times> string list" where
  "ack_all tenant agent now cs x = foldl (\<lambda>st chunk. ack_chunk tenant agent now chunk st) (x, []) cs"

definition read_among :: "string \<Rightarrow> string \<Rightarrow> string list \<Rightarrow> inbox_db \<Rightarrow> string list" where
  "read_among tenant agent chunk x =
     map mg_id (filter (\<lambda>m. mg_tenant m = tenant \<and> mg_to m = agent \<and> mg_read m \<noteq> None \<and> mg_id m \<in> set chunk) (ib_messages x))"

definition ackAgentMessages ::
  "inbox_race \<Rightarrow> string \<Rightarrow> string \<Rightarrow> string list \<Rightarrow> int \<Rightarrow> inbox_db \<Rightarrow> inbox_db \<times> (inbox_refusal + ack_result)" where
  "ackAgentMessages race tenant agent input now x =
     (if tenant = [] then (x, Inl No_tenant)
      else if \<not> isRef agent then (x, Inl Invalid_agent)
      else if input = [] \<or> 100 < length input \<or> \<not> list_all isRef input then (x, Inl Invalid_ids)
      else
        (let ids = unique input;
             (x1, acked) = ack_all tenant agent now (chunks 90 ids) x;
             x2 = (if acked = [] then race At_fence x1 else x1) in
         if acked = [] \<and> bearerFenceBlocks x2 tenant agent then (x2, Inl Consumer_fenced)
         else
           (let rest = filter (\<lambda>i. i \<notin> set acked) ids;
                x3 = race At_count x2;
                known = concat (map (\<lambda>c. read_among tenant agent c x3) (chunks 90 rest)) in
            (x3, Inr \<lparr>ak_acked = filter (\<lambda>i. i \<in> set acked) ids, ak_already_read = filter (\<lambda>i. i \<in> set known) rest,
                     ak_refused = filter (\<lambda>i. i \<notin> set known) rest\<rparr>))))"

section \<open>Reading\<close>

datatype inbox_reader = Bearer | Signed "string option"

record read_input =
  ri_agent :: string
  ri_limit :: "int option option"
  ri_peek :: bool
  ri_since :: "int option"
  ri_seat :: "string option"
  ri_attachment :: "string option"
  ri_skip_remaining :: bool

text \<open>A cursor argument is given by its floor, \<open>None\<close> when it is absent or not a finite number.\<close>

definition since_seq :: "read_input \<Rightarrow> int" where
  "since_seq i = (case ri_since i of Some n \<Rightarrow> max 0 n | None \<Rightarrow> 0)"

text \<open>\<open>readerCanRead\<close> on the fence row as it is read.\<close>

definition readerCanRead :: "fence_row option \<Rightarrow> inbox_reader \<Rightarrow> bool" where
  "readerCanRead f reader \<longleftrightarrow>
     (let mode = (case f of None \<Rightarrow> Bearer_only | Some r \<Rightarrow> fn_mode r) in
      case reader of
        Bearer \<Rightarrow> mode = Bearer_only
      | Signed key \<Rightarrow> (case f of None \<Rightarrow> None | Some r \<Rightarrow> fn_key r) = key \<and> mode = Signed_only)"

definition fence_admits :: "inbox_reader \<Rightarrow> inbox_db \<Rightarrow> string \<Rightarrow> string \<Rightarrow> bool" where
  "fence_admits reader x tenant agent \<longleftrightarrow>
     (case reader of Bearer \<Rightarrow> bearerFencePredicate x tenant agent
      | Signed key \<Rightarrow> (case key of None \<Rightarrow> False | Some k \<Rightarrow> signed_fence x tenant agent k))"

definition handledHide :: "inbox_db \<Rightarrow> string option \<Rightarrow> message_row \<Rightarrow> bool" where
  "handledHide x attachment m \<longleftrightarrow> truthy attachment \<and> (case attachment of Some a \<Rightarrow> (a, mg_id m) \<in> set (ib_handled x) | None \<Rightarrow> False)"

definition hides :: "inbox_reader \<Rightarrow> read_input \<Rightarrow> inbox_db \<Rightarrow> message_row \<Rightarrow> bool" where
  "hides reader i x m \<longleftrightarrow> reader = Bearer \<and> handledHide x (ri_attachment i) m"

definition peek_page :: "inbox_reader \<Rightarrow> string \<Rightarrow> read_input \<Rightarrow> nat \<Rightarrow> inbox_db \<Rightarrow> message_row list" where
  "peek_page reader tenant i limit x =
     oldest limit (\<lambda>m. unread_of tenant (ri_agent i) m \<and> since_seq i < mg_seq m \<and> seat_sees (trimmed_seat (ri_seat i)) m \<and>
       \<not> hides reader i x m \<and> fence_admits reader x tenant (ri_agent i)) x"

definition consumable :: "string \<Rightarrow> string \<Rightarrow> int \<Rightarrow> string option \<Rightarrow> message_row \<Rightarrow> bool" where
  "consumable tenant agent now seat m \<longleftrightarrow> unread_of tenant agent m \<and> leaseAvailableClause True now m \<and> seat_sees seat m"

definition consume ::
  "inbox_reader \<Rightarrow> string \<Rightarrow> string \<Rightarrow> string option \<Rightarrow> nat \<Rightarrow> int \<Rightarrow> inbox_db \<Rightarrow> inbox_db \<times> message_row list" where
  "consume reader tenant agent seat limit now x =
     (let picked = map mg_seq (oldest limit (\<lambda>m. consumable tenant agent now seat m \<and> fence_admits reader x tenant agent) x);
          x' = update_messages (\<lambda>m. mg_seq m \<in> set picked) (\<lambda>m. m\<lparr>mg_read := Some now\<rparr>) x in
      (x', sort_key mg_seq (filter (\<lambda>m. mg_seq m \<in> set picked) (ib_messages x'))))"

record inbox_result =
  ir_messages :: "message_view list"
  ir_remaining :: nat
  ir_complete :: bool
  ir_skipped :: bool

text \<open>The count has the cursor and hides what the page hides, on both paths.\<close>

definition remaining_rows :: "inbox_reader \<Rightarrow> string \<Rightarrow> read_input \<Rightarrow> inbox_db \<Rightarrow> nat" where
  "remaining_rows reader tenant i x =
     count_messages (\<lambda>m. unread_of tenant (ri_agent i) m \<and> seat_sees (trimmed_seat (ri_seat i)) m \<and>
       (0 < since_seq i \<longrightarrow> since_seq i < mg_seq m) \<and> \<not> hides reader i x m \<and> fence_admits reader x tenant (ri_agent i)) x"

definition readAgentInboxForReader ::
  "(string \<Rightarrow> string) \<Rightarrow> inbox_race \<Rightarrow> string \<Rightarrow> read_input \<Rightarrow> inbox_reader \<Rightarrow> int \<Rightarrow> inbox_db \<Rightarrow>
   inbox_db \<times> (inbox_refusal + inbox_result)" where
  "readAgentInboxForReader sha race tenant i reader now x =
     (if tenant = [] then (x, Inl No_tenant)
      else if \<not> isRef (ri_agent i) then (x, Inl Invalid_agent)
      else (case inbox_limit (ri_limit i) of None \<Rightarrow> (x, Inl Invalid_limit) | Some limit \<Rightarrow>
        (let reader' = (case reader of Bearer \<Rightarrow> Bearer
               | Signed key \<Rightarrow> Signed (case key of Some k \<Rightarrow> if hex64 k then Some k else None | None \<Rightarrow> None)) in
         if reader' = Signed None then (x, Inl Consumer_fenced)
         else
           (let (x1, rows) = (if ri_peek i then (x, peek_page reader' tenant i limit x)
                              else consume reader' tenant (ri_agent i) (trimmed_seat (ri_seat i)) limit now x) in
            if ri_peek i \<and> ri_skip_remaining i then
              (x1, Inr \<lparr>ir_messages = annotateMessages sha rows, ir_remaining = 0, ir_complete = False, ir_skipped = True\<rparr>)
            else
              (let x2 = race At_fence x1 in
               if rows = [] \<and> \<not> readerCanRead (fence_of x2 tenant (ri_agent i)) reader' then (x2, Inl Consumer_fenced)
               else
                 (let x3 = race At_count x2; remaining = remaining_rows reader' tenant i x3;
                      left = (if ri_peek i then remaining - length rows else remaining) in
                  (x3, Inr \<lparr>ir_messages = annotateMessages sha rows, ir_remaining = left, ir_complete = (left = 0),
                           ir_skipped = False\<rparr>)))))))"

definition agentUnreadTotal :: "string \<Rightarrow> string \<Rightarrow> inbox_db \<Rightarrow> nat" where
  "agentUnreadTotal tenant agent x = count_messages (unread_of tenant agent) x"

section \<open>Dead letters and the loopback message\<close>

record dead_letters =
  dl_messages :: "message_view list"
  dl_total :: nat

definition dead_unread :: "string \<Rightarrow> string \<Rightarrow> inbox_db \<Rightarrow> message_row \<Rightarrow> bool" where
  "dead_unread tenant agent x m \<longleftrightarrow> unread_of tenant agent m \<and> mg_dead m \<noteq> None \<and> bearerFencePredicate x tenant agent"

definition listDeadLetteredMessages ::
  "(string \<Rightarrow> string) \<Rightarrow> inbox_race \<Rightarrow> string \<Rightarrow> string \<Rightarrow> int option option \<Rightarrow> inbox_db \<Rightarrow>
   inbox_db \<times> (inbox_refusal + dead_letters)" where
  "listDeadLetteredMessages sha race tenant agent limit x =
     (if tenant = [] then (x, Inl No_tenant)
      else if \<not> isRef agent then (x, Inl Invalid_agent)
      else (case inbox_limit limit of None \<Rightarrow> (x, Inl Invalid_limit) | Some n \<Rightarrow>
        (let rows = oldest n (dead_unread tenant agent x) x; x2 = (if rows = [] then race At_fence x else x) in
         if rows = [] \<and> bearerFenceBlocks x2 tenant agent then (x2, Inl Consumer_fenced)
         else (let x3 = race At_count x2 in
           (x3, Inr \<lparr>dl_messages = annotateMessages sha rows, dl_total = count_messages (dead_unread tenant agent x3) x3\<rparr>)))))"

record dead_summary =
  ds_agent :: string
  ds_count :: nat
  ds_oldest :: int
  ds_attempts :: nat

definition dead_agents :: "string \<Rightarrow> inbox_db \<Rightarrow> message_row list" where
  "dead_agents tenant x = filter (\<lambda>m. mg_tenant m = tenant \<and> mg_read m = None \<and> mg_dead m \<noteq> None) (ib_messages x)"

definition dead_group :: "message_row list \<Rightarrow> string \<Rightarrow> dead_summary" where
  "dead_group rows agent =
     (let mine = filter (\<lambda>m. mg_to m = agent) rows; times = List.map_filter mg_dead mine in
      \<lparr>ds_agent = agent, ds_count = length mine, ds_oldest = foldl min (hd times) times, ds_attempts = foldl max 0 (map mg_attempts mine)\<rparr>)"

definition summarizeDeadLetters :: "string \<Rightarrow> int \<Rightarrow> inbox_db \<Rightarrow> inbox_refusal + dead_summary list" where
  "summarizeDeadLetters tenant limit x =
     (if tenant = [] then Inl No_tenant
      else
        (let rows = dead_agents tenant x; groups = map (dead_group rows) (sort (unique (map mg_to rows))) in
         Inr (take (nat (min 100 (max 1 limit))) (sort_key (\<lambda>g. - int (ds_count g)) groups))))"

text \<open>Receipts that own the exact loopback row are ended first; another live receipt on the row makes the delete fail,
  and the batch is rolled back.\<close>

definition loopback :: "string \<Rightarrow> string \<Rightarrow> string \<Rightarrow> string \<Rightarrow> message_row \<Rightarrow> bool" where
  "loopback tenant mid agent request m \<longleftrightarrow>
     mg_tenant m = tenant \<and> mg_id m = mid \<and> mg_to m = agent \<and> mg_from m = agent \<and> mg_request m = Some request"

definition release_receipts :: "string \<Rightarrow> string \<Rightarrow> string \<Rightarrow> string \<Rightarrow> int \<Rightarrow> inbox_db \<Rightarrow> inbox_db" where
  "release_receipts tenant mid agent request now x =
     update_leases
       (\<lambda>a. sc_tenant (la_scope a) = tenant \<and> sc_agent (la_scope a) = agent \<and> la_message a = Some mid \<and> la_state a = At_leased \<and>
            exists_row (loopback tenant mid agent request) (ib_messages x))
       (terminal (if exists_row (\<lambda>m. mg_tenant m = tenant \<and> mg_id m = mid \<and> mg_read m \<noteq> None) (ib_messages x)
                  then At_acked else At_expired) now) x"

datatype delete_refusal = Message_not_found | Delete_db_error

definition deleteAgentConnectionMessage ::
  "string \<Rightarrow> string \<Rightarrow> string \<Rightarrow> string \<Rightarrow> int \<Rightarrow> inbox_db \<Rightarrow> inbox_db \<times> (delete_refusal + unit)" where
  "deleteAgentConnectionMessage tenant mid agent request now x =
     (let x1 = release_receipts tenant mid agent request now x;
          gone = filter (loopback tenant mid agent request) (ib_messages x1) in
      if gone \<noteq> [] \<and> exists_row (\<lambda>a. la_message a = Some mid) (ib_leases x1) then (x, Inl Delete_db_error)
      else (x1\<lparr>ib_messages := filter (\<lambda>m. \<not> loopback tenant mid agent request m) (ib_messages x1)\<rparr>,
            if length gone = 1 then Inr () else Inl Message_not_found))"

section \<open>Sending\<close>

datatype send_refusal =
    Send_no_tenant | Send_invalid_from | Send_invalid_to | Send_invalid_body | Send_invalid_kind | Send_invalid_request_id
  | Send_invalid_in_reply_to | Send_refused_by string | Send_target_not_visible | Send_system_sender | Send_request_id_conflict
  | Send_inbox_full | Send_db_error

record send_input =
  sn_from :: string
  sn_member :: string
  sn_to :: string
  sn_body :: string
  sn_kind :: "string option"
  sn_request :: "string option"
  sn_reply_to :: "string option"
  sn_project :: "string option"
  sn_seat :: "string option"

record send_result =
  sr_id :: string
  sr_seq :: int
  sr_duplicate :: bool

text \<open>
  What a send asks of tables outside the inbox: the access to its project and the live token of its target seat before the
  write; the optional fences inside the insert (guest visibility, project access, receiver, brakes, replies, routine run) as
  one condition at the tables of the write; and the reason the code names when a fence refused, which is the first of its
  diagnoses that applies, before and after the second look for a duplicate.
\<close>

record send_env =
  se_access :: "string \<Rightarrow> string option"
  se_seat_live :: "string \<Rightarrow> bool"
  se_routine_mismatch :: bool
  se_fences :: "inbox_db \<Rightarrow> bool"
  se_dispatch_fenced :: "inbox_db \<Rightarrow> bool"
  se_diagnosis :: "inbox_db \<Rightarrow> string option"

definition kind_of :: "send_input \<Rightarrow> string" where
  "kind_of i = (case sn_kind i of Some k \<Rightarrow> k | None \<Rightarrow> ''message'')"

definition send_checks :: "string \<Rightarrow> send_input \<Rightarrow> send_refusal option" where
  "send_checks tenant i =
     (if tenant = [] then Some Send_no_tenant
      else if \<not> isRef (sn_from i) \<or> \<not> isRef (sn_member i) then Some Send_invalid_from
      else if \<not> isRef (sn_to i) then Some Send_invalid_to
      else if isSystemSender (sn_to i) then Some Send_system_sender
      else if sn_body i = [] \<or> 8000 < length (sn_body i) then Some Send_invalid_body
      else if kind_of i \<notin> {''message'', ''request'', ''ack''} then Some Send_invalid_kind
      else if \<not> (case sn_request i of None \<Rightarrow> True | Some r \<Rightarrow> RID_RE r) then Some Send_invalid_request_id
      else if \<not> (case sn_reply_to i of None \<Rightarrow> True | Some r \<Rightarrow> RID_RE r) then Some Send_invalid_in_reply_to
      else None)"

definition send_context :: "send_env \<Rightarrow> send_input \<Rightarrow> send_refusal option" where
  "send_context e i =
     (case (case sn_project i of None \<Rightarrow> None | Some p \<Rightarrow> if isRef p then se_access e p else Some ''project_not_found'') of
        Some reason \<Rightarrow> Some (Send_refused_by reason)
      | None \<Rightarrow>
         (case sn_seat i of
            Some s \<Rightarrow> if \<not> isRef s then Some Send_invalid_body
                      else if \<not> se_seat_live e s then Some Send_target_not_visible
                      else if se_routine_mismatch e then Some (Send_refused_by ''dispatch_fenced'') else None
          | None \<Rightarrow> if se_routine_mismatch e then Some (Send_refused_by ''dispatch_fenced'') else None))"

definition findBySenderRequestId :: "inbox_db \<Rightarrow> string \<Rightarrow> string \<Rightarrow> string \<Rightarrow> message_row option" where
  "findBySenderRequestId x tenant from request =
     first_row (\<lambda>m. mg_tenant m = tenant \<and> mg_from m = from \<and> mg_request m = Some request) (ib_messages x)"

definition idempotentOrConflict :: "message_row \<Rightarrow> send_input \<Rightarrow> send_refusal + send_result" where
  "idempotentOrConflict m i =
     (if mg_to m = sn_to i \<and> mg_kind m = kind_of i \<and> mg_body m = sn_body i \<and> mg_reply_to m = sn_reply_to i \<and>
         mg_project m = sn_project i \<and> mg_seat m = sn_seat i
      then Inr \<lparr>sr_id = mg_id m, sr_seq = mg_seq m, sr_duplicate = True\<rparr>
      else Inl Send_request_id_conflict)"

definition duplicate_of :: "inbox_db \<Rightarrow> string \<Rightarrow> send_input \<Rightarrow> message_row option" where
  "duplicate_of x tenant i = (case sn_request i of None \<Rightarrow> None | Some r \<Rightarrow> findBySenderRequestId x tenant (sn_from i) r)"

definition sent_row :: "(string \<Rightarrow> string) \<Rightarrow> string \<Rightarrow> send_input \<Rightarrow> string \<Rightarrow> int \<Rightarrow> int \<Rightarrow> message_row" where
  "sent_row sha tenant i mid now seq =
     \<lparr>mg_seq = seq, mg_id = mid, mg_tenant = tenant, mg_to = sn_to i, mg_from = sn_from i, mg_member = sn_member i,
      mg_kind = kind_of i, mg_body = sn_body i, mg_request = sn_request i, mg_reply_to = sn_reply_to i, mg_created = now,
      mg_read = None, mg_project = sn_project i, mg_attempts = 0, mg_lease = None, mg_dead = None, mg_dead_reason = None,
      mg_seat = sn_seat i, mg_length = Some (int (length (sn_body i))), mg_checksum = Some (sha (sn_body i)), mg_stamp = None\<rparr>"

text \<open>The insert: the unread cap and the fences decide inside it, the unique keys make it throw.\<close>

datatype insert_outcome = Insert_refused | Insert_throws | Insert_landed inbox_db

definition insert_message ::
  "(string \<Rightarrow> string) \<Rightarrow> send_env \<Rightarrow> string \<Rightarrow> send_input \<Rightarrow> string \<Rightarrow> int \<Rightarrow> nat \<Rightarrow> inbox_db \<Rightarrow> insert_outcome" where
  "insert_message sha e tenant i mid now cap x =
     (if \<not> (agentUnreadTotal tenant (sn_to i) x < cap \<and> se_fences e x) then Insert_refused
      else if exists_row (\<lambda>m. mg_id m = mid) (ib_messages x) \<or> duplicate_of x tenant i \<noteq> None then Insert_throws
      else Insert_landed (x\<lparr>ib_messages := ib_messages x @ [sent_row sha tenant i mid now (ib_next x)], ib_next := ib_next x + 1\<rparr>))"

text \<open>\<open>sendAgentMessage\<close>. The event and the doorbell of a landed message change no table of the model.\<close>

definition sendAgentMessage ::
  "(string \<Rightarrow> string) \<Rightarrow> inbox_race \<Rightarrow> send_env \<Rightarrow> string \<Rightarrow> send_input \<Rightarrow> string \<Rightarrow> int \<Rightarrow> nat \<Rightarrow> inbox_db \<Rightarrow>
   inbox_db \<times> (send_refusal + send_result)" where
  "sendAgentMessage sha race e tenant i mid now cap x =
     (case send_checks tenant i of Some r \<Rightarrow> (x, Inl r) | None \<Rightarrow>
      (case send_context e i of Some r \<Rightarrow> (x, Inl r) | None \<Rightarrow>
      (case duplicate_of x tenant i of Some m \<Rightarrow> (x, idempotentOrConflict m i) | None \<Rightarrow>
        (let x1 = race At_hand_out x in
         case insert_message sha e tenant i mid now cap x1 of
           Insert_landed x2 \<Rightarrow> (x2, Inr \<lparr>sr_id = mid, sr_seq = ib_next x1, sr_duplicate = False\<rparr>)
         | Insert_refused \<Rightarrow>
             (let x2 = race At_fence x1 in
              if se_dispatch_fenced e x2 then (x2, Inl (Send_refused_by ''dispatch_fenced''))
              else (case duplicate_of x2 tenant i of Some m \<Rightarrow> (x2, idempotentOrConflict m i)
                | None \<Rightarrow> (case se_diagnosis e x2 of Some r \<Rightarrow> (x2, Inl (Send_refused_by r)) | None \<Rightarrow> (x2, Inl Send_inbox_full))))
         | Insert_throws \<Rightarrow>
             (let x2 = race At_fence x1 in
              if se_dispatch_fenced e x2 then (x2, Inl (Send_refused_by ''dispatch_fenced''))
              else (case duplicate_of x2 tenant i of Some m \<Rightarrow> (x2, idempotentOrConflict m i) | None \<Rightarrow> (x2, Inl Send_db_error)))))))"

text \<open>\<open>getSenderMessage\<close>.\<close>

datatype read_back_refusal = Rb_no_tenant | Rb_invalid_from | Rb_invalid_args | Rb_not_found

definition getSenderMessage ::
  "string \<Rightarrow> string \<Rightarrow> string option \<Rightarrow> string option \<Rightarrow> inbox_db \<Rightarrow> read_back_refusal + message_row" where
  "getSenderMessage tenant from mid request x =
     (let id' = trimmed_seat mid; rid = trimmed_seat request in
      if tenant = [] then Inl Rb_no_tenant
      else if \<not> isRef from then Inl Rb_invalid_from
      else if (id' = None) = (rid = None) then Inl Rb_invalid_args
      else if \<not> (case id' of None \<Rightarrow> True | Some v \<Rightarrow> isRef v) \<or> \<not> (case rid of None \<Rightarrow> True | Some v \<Rightarrow> RID_RE v) then Inl Rb_invalid_args
      else
        (case (case id' of Some v \<Rightarrow> first_row (\<lambda>m. mg_tenant m = tenant \<and> mg_from m = from \<and> mg_id m = v) (ib_messages x)
               | None \<Rightarrow> (case rid of Some v \<Rightarrow> findBySenderRequestId x tenant from v | None \<Rightarrow> None)) of
           None \<Rightarrow> Inl Rb_not_found
         | Some m \<Rightarrow> Inr m))"

section \<open>Writers of the inbox outside it\<close>

text \<open>
  \<^verbatim>\<open>src/tasks/runtime-receipts.ts\<close> writes message rows too. What its statements ask of the tables of tasks, dispatches and runtime
  receipts, which are not part of \<open>inbox_db\<close>, is the argument \<open>supported\<close>, the value of those conditions inside the statement.
\<close>

definition MAX_LEASE_SECONDS :: int where
  "MAX_LEASE_SECONDS = 3600"

definition DISPATCH_INBOX_PREFIX :: string where
  "DISPATCH_INBOX_PREFIX = ''dispatch-inbox:''"

text \<open>A runner that settles a dispatch it was paired with takes the lease of a pristine message; the result says whether it did.\<close>

definition pristine :: "message_row \<Rightarrow> bool" where
  "pristine m \<longleftrightarrow> mg_attempts m = 0 \<and> mg_lease m = None \<and> mg_read m = None \<and> mg_dead m = None"

definition claimUnleasedForPairSettlement :: "string \<Rightarrow> string \<Rightarrow> string \<Rightarrow> bool \<Rightarrow> int \<Rightarrow> inbox_db \<Rightarrow> inbox_db \<times> bool" where
  "claimUnleasedForPairSettlement tenant mid caller supported now x =
     (let p = (\<lambda>m. mg_tenant m = tenant \<and> mg_id m = mid \<and> pristine m \<and> bearerFencePredicate x tenant caller \<and> supported) in
      (update_messages p (\<lambda>m. m\<lparr>mg_attempts := 1, mg_lease := Some (now + MAX_LEASE_SECONDS * 1000)\<rparr>) x, count_messages p x = 1))"

text \<open>A dispatch envelope that was read before its runner took custody gets a lease again; it stays read.\<close>

definition recoverable :: "string \<Rightarrow> string \<Rightarrow> string \<Rightarrow> nat \<Rightarrow> int \<Rightarrow> message_row \<Rightarrow> bool" where
  "recoverable tenant mid dispatch attempt now m \<longleftrightarrow>
     mg_tenant m = tenant \<and> mg_id m = mid \<and> mg_from m = ''mupot-dispatch'' \<and> mg_request m = Some (DISPATCH_INBOX_PREFIX @ dispatch) \<and>
     mg_read m \<noteq> None \<and> mg_dead m = None \<and> \<not> LEASE_LIVE_PREDICATE (mg_lease m) now \<and>
     (mg_attempts m = attempt \<or> mg_attempts m = 0 \<and> attempt = 1)"

definition claimReadEnvelopeForRecovery :: "string \<Rightarrow> string \<Rightarrow> string \<Rightarrow> string \<Rightarrow> nat \<Rightarrow> bool \<Rightarrow> int \<Rightarrow> inbox_db \<Rightarrow> inbox_db" where
  "claimReadEnvelopeForRecovery tenant mid dispatch caller attempt supported now x =
     update_messages
       (\<lambda>m. recoverable tenant mid dispatch attempt now m \<and> bearerFencePredicate x tenant caller \<and> supported)
       (\<lambda>m. m\<lparr>mg_attempts := attempt, mg_lease := Some (now + MAX_LEASE_SECONDS * 1000)\<rparr>) x"

text \<open>The lease update of an operator's \<open>task_dispatch_lease_reset\<close>. \<open>override\<close> is \<open>useOverride\<close>: the lease was live when the call read it
  and the operator said so; \<open>consumed\<close> is whether a \<open>runtime_consumed\<close> receipt of the dispatch exists.\<close>

definition reset_lease :: "bool \<Rightarrow> int \<Rightarrow> message_row \<Rightarrow> message_row" where
  "reset_lease terminate now m =
     m\<lparr>mg_attempts := 0, mg_lease := None, mg_stamp := None, mg_read := (if terminate then Some now else mg_read m)\<rparr>"

definition adminResetDispatchLease :: "string \<Rightarrow> string \<Rightarrow> bool \<Rightarrow> bool \<Rightarrow> bool \<Rightarrow> int \<Rightarrow> inbox_db \<Rightarrow> inbox_db" where
  "adminResetDispatchLease tenant mid override terminate consumed now x =
     update_messages
       (\<lambda>m. mg_tenant m = tenant \<and> mg_id m = mid \<and> mg_read m = None \<and> mg_dead m = None \<and>
            (LEASE_LIVE_PREDICATE (mg_lease m) now \<longleftrightarrow> override) \<and> (terminate \<or> \<not> consumed))
       (reset_lease terminate now) x"

text \<open>The assignment wake consumes its own stale doorbells (\<^verbatim>\<open>src/agents/assignment-wake.ts\<close>), the command channel records what it
  could not send (\<^verbatim>\<open>src/channels/index.ts\<close>), and an attachment hides messages it has handled (\<^verbatim>\<open>src/members/attached-handled.ts\<close>).\<close>

definition consume_doorbells :: "string \<Rightarrow> string \<Rightarrow> int \<Rightarrow> inbox_db \<Rightarrow> inbox_db" where
  "consume_doorbells tenant agent now x =
     update_messages (\<lambda>m. unread_of tenant agent m \<and> mg_from m = ''mupot-assignment-wake'' \<and> lease_over now m)
       (\<lambda>m. m\<lparr>mg_read := Some now\<rparr>) x"

definition bus_row :: "(string \<Rightarrow> string) \<Rightarrow> string \<Rightarrow> string \<Rightarrow> string \<Rightarrow> string \<Rightarrow> int \<Rightarrow> int \<Rightarrow> message_row" where
  "bus_row sha tenant target body mid now seq =
     (let text = ''[sos-bus] '' @ body in
      \<lparr>mg_seq = seq, mg_id = mid, mg_tenant = tenant, mg_to = target, mg_from = ''central-command'', mg_member = ''system'',
       mg_kind = ''message'', mg_body = text, mg_request = None, mg_reply_to = None, mg_created = now, mg_read = None, mg_project = None,
       mg_attempts = 0, mg_lease = None, mg_dead = None, mg_dead_reason = None, mg_seat = None,
       mg_length = Some (int (length text)), mg_checksum = Some (sha text), mg_stamp = None\<rparr>)"

definition sosBusSend :: "(string \<Rightarrow> string) \<Rightarrow> string \<Rightarrow> string \<Rightarrow> string \<Rightarrow> string \<Rightarrow> int \<Rightarrow> inbox_db \<Rightarrow> inbox_db option" where
  "sosBusSend sha tenant target body mid now x =
     (if exists_row (\<lambda>m. mg_id m = mid) (ib_messages x) then None
      else Some (x\<lparr>ib_messages := ib_messages x @ [bus_row sha tenant target body mid now (ib_next x)], ib_next := ib_next x + 1\<rparr>))"

text \<open>\<open>INSERT OR IGNORE\<close> over the key of an attachment and a message; \<open>attached\<close> is the live attachment of the agent.\<close>

definition mark_handled :: "string \<Rightarrow> string \<Rightarrow> string \<Rightarrow> string option \<Rightarrow> string list \<Rightarrow> bool \<Rightarrow> inbox_db \<Rightarrow> inbox_db" where
  "mark_handled tenant attachment agent seat ids attached x =
     (let new = map (\<lambda>m. (attachment, mg_id m)) (filter (\<lambda>m. unread_of tenant agent m \<and> mg_id m \<in> set ids \<and> seat_sees seat m \<and>
            bearerFencePredicate x tenant agent \<and> attached) (ib_messages x)) in
      x\<lparr>ib_handled := ib_handled x @ filter (\<lambda>h. h \<notin> set (ib_handled x)) new\<rparr>)"

end
