(* ===== verification/Inbox_Safety.thy ===== *)
theory Inbox_Safety
  imports Agent_Inbox
begin

text \<open>
  What the inbox promises over any interleaving of its statements. \<open>inbox_op\<close> is one statement or batch by any caller at any
  clock, with the writers of the table outside \<^verbatim>\<open>src/agents/messages.ts\<close>: the two claims of runtime receipts, the
  lease reset of an operator, the consumption of stale doorbells, the audit row of the command channel and the marks of attachments.
  \<open>apply_op\<close> is its effect on the tables and \<open>op_hands\<close> the messages whose bodies it returns to a consumer. \<open>row_step\<close> is
  everything an operation may do to one message. An operator's reset takes back deliveries and, with an override, a live lease: where
  a property does not survive it, its statement excludes it by \<open>is_reset\<close> or \<open>is_override\<close>.
\<close>

section \<open>Operations\<close>

datatype inbox_op =
    Op_send send_env string send_input string int nat
  | Op_reap string string int "string option"
  | Op_hand_out string string int "string option" nat int
  | Op_attempt attempt_scope int bool int
  | Op_reconcile attempt_scope bool int
  | Op_ack_attempt attempt_scope bool int
  | Op_ack string string int "string list list"
  | Op_consume inbox_reader string string "string option" nat int
  | Op_delete string string string string int
  | Op_fence string string fence_mode "string option" int
  | Op_settle string string string bool int
  | Op_recover string string string string nat bool int
  | Op_reset string string bool bool bool int
  | Op_doorbells string string int
  | Op_bus string string string string int
  | Op_handled string string string "string option" "string list" bool

fun apply_op :: "(string \<Rightarrow> string) \<Rightarrow> inbox_op \<Rightarrow> inbox_db \<Rightarrow> inbox_db" where
  "apply_op sha (Op_send e tenant i mid now cap) x =
     (case insert_message sha e tenant i mid now cap x of Insert_landed x' \<Rightarrow> x' | _ \<Rightarrow> x)"
| "apply_op sha (Op_reap tenant agent now seat) x = reap_poisoned tenant agent now seat x"
| "apply_op sha (Op_hand_out tenant agent now seat limit secs) x = fst (hand_out tenant agent now seat limit (now + secs * 1000) x)"
| "apply_op sha (Op_attempt sc secs exact now) x =
     attempt_batch sc (attemptDigest sha secs (sc_seat sc)) (attemptStamp sha sc) exact now (now + secs * 1000) x"
| "apply_op sha (Op_reconcile sc exact now) x = reconcile_batch sc (attemptStamp sha sc) exact now x"
| "apply_op sha (Op_ack_attempt sc exact now) x = ack_batch sc (attemptStamp sha sc) exact now x"
| "apply_op sha (Op_ack tenant agent now cs) x = fst (ack_all tenant agent now cs x)"
| "apply_op sha (Op_consume reader tenant agent seat limit now) x = fst (consume reader tenant agent seat limit now x)"
| "apply_op sha (Op_delete tenant mid agent request now) x = fst (deleteAgentConnectionMessage tenant mid agent request now x)"
| "apply_op sha (Op_fence tenant agent mode key expected) x = write_fence tenant agent mode key expected x"
| "apply_op sha (Op_settle tenant mid caller supported now) x = fst (claimUnleasedForPairSettlement tenant mid caller supported now x)"
| "apply_op sha (Op_recover tenant mid dispatch caller attempt supported now) x =
     claimReadEnvelopeForRecovery tenant mid dispatch caller attempt supported now x"
| "apply_op sha (Op_reset tenant mid override terminate consumed now) x = adminResetDispatchLease tenant mid override terminate consumed now x"
| "apply_op sha (Op_doorbells tenant agent now) x = consume_doorbells tenant agent now x"
| "apply_op sha (Op_bus tenant target body mid now) x =
     (case sosBusSend sha tenant target body mid now x of Some x' \<Rightarrow> x' | None \<Rightarrow> x)"
| "apply_op sha (Op_handled tenant attachment agent seat ids attached) x = mark_handled tenant attachment agent seat ids attached x"

text \<open>The seqs of the messages whose bodies an operation returns to a consumer that then works on them.\<close>

definition select_hands :: "attempt_scope \<Rightarrow> string \<Rightarrow> bool \<Rightarrow> inbox_db \<Rightarrow> int list" where
  "select_hands sc stamp exact x =
     (case attemptResultSelect sc stamp exact x of Some (a, Some m) \<Rightarrow> [mg_seq m] | _ \<Rightarrow> [])"

fun op_hands :: "(string \<Rightarrow> string) \<Rightarrow> inbox_op \<Rightarrow> inbox_db \<Rightarrow> int list" where
  "op_hands sha (Op_hand_out tenant agent now seat limit secs) x =
     map mg_seq (snd (hand_out tenant agent now seat limit (now + secs * 1000) x))"
| "op_hands sha (Op_attempt sc secs exact now) x =
     select_hands sc (attemptStamp sha sc) exact (apply_op sha (Op_attempt sc secs exact now) x)"
| "op_hands sha (Op_reconcile sc exact now) x =
     select_hands sc (attemptStamp sha sc) exact (apply_op sha (Op_reconcile sc exact now) x)"
| "op_hands sha (Op_consume reader tenant agent seat limit now) x = map mg_seq (snd (consume reader tenant agent seat limit now x))"
| "op_hands sha _ x = []"

definition run_ops :: "(string \<Rightarrow> string) \<Rightarrow> inbox_op list \<Rightarrow> inbox_db \<Rightarrow> inbox_db" where
  "run_ops sha ops x = foldl (\<lambda>x op. apply_op sha op x) x ops"

lemma run_ops_simps [simp]:
  "run_ops sha [] x = x" "run_ops sha (op # ops) x = run_ops sha ops (apply_op sha op x)"
  "run_ops sha (xs @ ys) x = run_ops sha ys (run_ops sha xs x)"
  by (simp_all add: run_ops_def)

text \<open>The clock an operation compares leases with.\<close>

fun op_clock :: "inbox_op \<Rightarrow> int option" where
  "op_clock (Op_reap _ _ now _) = Some now"
| "op_clock (Op_hand_out _ _ now _ _ _) = Some now"
| "op_clock (Op_attempt _ _ _ now) = Some now"
| "op_clock (Op_reconcile _ _ now) = Some now"
| "op_clock (Op_ack_attempt _ _ now) = Some now"
| "op_clock (Op_consume _ _ _ _ _ now) = Some now"
| "op_clock (Op_recover _ _ _ _ _ _ now) = Some now"
| "op_clock (Op_reset _ _ _ _ _ now) = Some now"
| "op_clock (Op_doorbells _ _ now) = Some now"
| "op_clock _ = None"

definition happens_before :: "int \<Rightarrow> inbox_op \<Rightarrow> bool" where
  "happens_before e op \<longleftrightarrow> (case op_clock op of None \<Rightarrow> True | Some now \<Rightarrow> now < e)"

fun is_plain :: "inbox_op \<Rightarrow> bool" where
  "is_plain (Op_hand_out _ _ _ _ _ _) = True"
| "is_plain _ = False"

text \<open>An operator's reset, and one that overrides a live lease.\<close>

fun is_reset :: "inbox_op \<Rightarrow> bool" where
  "is_reset (Op_reset _ _ _ _ _ _) = True"
| "is_reset _ = False"

fun is_override :: "inbox_op \<Rightarrow> bool" where
  "is_override (Op_reset _ _ override _ _ _) = override"
| "is_override _ = False"

section \<open>What may happen to a message\<close>

text \<open>What an operation may do beyond the guarded steps: a hand-out without a look at the number of attempts, as the second statement
  of a plain lease makes it, a reset of a lease that is over, and a reset of any lease.\<close>

datatype power = Guarded | Uncounted | Resetting | Overriding

definition op_power :: "inbox_op \<Rightarrow> power" where
  "op_power op = (if is_plain op then Uncounted else if is_override op then Overriding else if is_reset op then Resetting else Guarded)"

lemma op_power_simps [simp]:
  "op_power op = Uncounted \<longleftrightarrow> is_plain op" "op_power op = Overriding \<longleftrightarrow> is_override op" "is_override op \<Longrightarrow> is_reset op"
  "op_power op = Resetting \<longleftrightarrow> is_reset op \<and> \<not> is_override op"
  by (simp_all add: op_power_def) (cases op; simp)+

inductive row_step :: "power \<Rightarrow> int option \<Rightarrow> message_row \<Rightarrow> message_row \<Rightarrow> bool" where
  Same: "row_step b c m m"
| Dead: "mg_read m = None \<Longrightarrow> mg_dead m = None \<Longrightarrow> lease_over now m \<Longrightarrow> MAX_DELIVERY_ATTEMPTS \<le> mg_attempts m \<Longrightarrow>
    row_step b (Some now) m (dead_lettered now m)"
| Handed: "mg_read m = None \<Longrightarrow> mg_dead m = None \<Longrightarrow> lease_over now m \<Longrightarrow> b = Uncounted \<or> mg_attempts m < MAX_DELIVERY_ATTEMPTS \<Longrightarrow>
    row_step b (Some now) m (handed_out e s m)"
| Consumed: "mg_read m = None \<Longrightarrow> leaseAvailableClause True now m \<Longrightarrow> row_step b (Some now) m (m\<lparr>mg_read := Some now\<rparr>)"
| Acked: "mg_read m = None \<Longrightarrow> row_step b c m (m\<lparr>mg_read := Some t, mg_lease := None, mg_stamp := None\<rparr>)"
| Unstamped: "mg_read m \<noteq> None \<Longrightarrow> row_step b c m (m\<lparr>mg_stamp := None\<rparr>)"
| Settled: "pristine m \<Longrightarrow> row_step b c m (m\<lparr>mg_attempts := 1, mg_lease := Some e\<rparr>)"
| Recovered: "mg_read m \<noteq> None \<Longrightarrow> mg_dead m = None \<Longrightarrow> k = mg_attempts m \<or> mg_attempts m = 0 \<and> k = 1 \<Longrightarrow>
    row_step b c m (m\<lparr>mg_attempts := k, mg_lease := Some e\<rparr>)"
| Reset: "mg_read m = None \<Longrightarrow> mg_dead m = None \<Longrightarrow> b = Overriding \<or> b = Resetting \<and> lease_over now m \<Longrightarrow>
    row_step b (Some now) m (reset_lease t now m)"

lemma lease_over_iff: "lease_over now m \<longleftrightarrow> \<not> LEASE_LIVE_PREDICATE (mg_lease m) now"
  by (auto simp: lease_over_def LEASE_LIVE_PREDICATE_def split: option.splits)

lemma available_iff: "leaseAvailableClause False now m \<longleftrightarrow> lease_over now m"
  by (simp add: leaseAvailableClause_def lease_over_iff)

text \<open>The columns that no operation changes.\<close>

definition identity :: "message_row \<Rightarrow> message_row" where
  "identity m = m\<lparr>mg_read := None, mg_attempts := 0, mg_lease := None, mg_dead := None, mg_dead_reason := None, mg_stamp := None\<rparr>"

lemma row_step_unstamped: "mg_read m = Some t \<Longrightarrow> row_step b c m (m\<lparr>mg_stamp := None\<rparr>)"
  by (rule row_step.Unstamped) simp

lemma row_step_identity: "row_step b c m m' \<Longrightarrow> identity m' = identity m"
  by (erule row_step.cases) (simp_all add: identity_def dead_lettered_def handed_out_def reset_lease_def)

lemma identity_fields:
  assumes "identity m' = identity m"
  shows "mg_seq m' = mg_seq m" "mg_id m' = mg_id m" "mg_tenant m' = mg_tenant m" "mg_to m' = mg_to m" "mg_from m' = mg_from m"
    "mg_kind m' = mg_kind m" "mg_body m' = mg_body m" "mg_request m' = mg_request m" "mg_reply_to m' = mg_reply_to m"
    "mg_project m' = mg_project m" "mg_seat m' = mg_seat m"
  using arg_cong [OF assms, of mg_seq] arg_cong [OF assms, of mg_id] arg_cong [OF assms, of mg_tenant] arg_cong [OF assms, of mg_to]
    arg_cong [OF assms, of mg_from] arg_cong [OF assms, of mg_kind] arg_cong [OF assms, of mg_body] arg_cong [OF assms, of mg_request]
    arg_cong [OF assms, of mg_reply_to] arg_cong [OF assms, of mg_project] arg_cong [OF assms, of mg_seat]
  by (simp_all add: identity_def)

lemma row_step_read: "row_step b c m m' \<Longrightarrow> mg_read m \<noteq> None \<Longrightarrow> mg_read m' = mg_read m"
  by (erule row_step.cases) simp_all

text \<open>While a lease lasts, its message is as it was or it is read.\<close>

lemma row_step_leased:
  assumes "row_step b c m m'" "mg_read m = None" "mg_lease m = Some e" "\<And>now. c = Some now \<Longrightarrow> now < e" "b \<noteq> Overriding"
  shows "m' = m \<or> mg_read m' \<noteq> None"
proof -
  have "\<And>now. c = Some now \<Longrightarrow> \<not> lease_over now m" using assms(3,4) by (force simp: lease_over_iff LEASE_LIVE_PREDICATE_def)
  with assms(1) show ?thesis by cases (simp_all add: assms(2,3,5) pristine_def)
qed

section \<open>Well-formed inboxes\<close>

text \<open>A stamp without a lease exists only inside the batch that acknowledges an attempt, and a parked message has none.\<close>

definition stamp_leased :: "message_row \<Rightarrow> bool" where
  "stamp_leased m \<longleftrightarrow> (mg_stamp m \<noteq> None \<longrightarrow> mg_lease m \<noteq> None \<and> mg_dead m = None)"

lemma row_step_stamp: "row_step b c m m' \<Longrightarrow> stamp_leased m \<Longrightarrow> stamp_leased m'"
  by (erule row_step.cases) (simp_all add: stamp_leased_def dead_lettered_def handed_out_def pristine_def reset_lease_def)

definition inbox_wf :: "inbox_db \<Rightarrow> bool" where
  "inbox_wf x \<longleftrightarrow>
     distinct (map mg_seq (ib_messages x)) \<and> distinct (map mg_id (ib_messages x)) \<and> (\<forall>m \<in> set (ib_messages x). mg_seq m < ib_next x) \<and>
     (\<forall>m \<in> set (ib_messages x). stamp_leased m) \<and>
     distinct (map la_scope (ib_leases x)) \<and> (\<forall>a \<in> set (ib_leases x). la_state a \<noteq> At_opening)"


section \<open>Every operation is made of these steps\<close>

lemma update_messages_rows [simp]: "ib_messages (update_messages p f x) = map (\<lambda>m. if p m then f m else m) (ib_messages x)"
  by (simp add: update_messages_def)

lemma update_messages_frame [simp]:
  "ib_leases (update_messages p f x) = ib_leases x" "ib_fences (update_messages p f x) = ib_fences x"
  "ib_handled (update_messages p f x) = ib_handled x" "ib_next (update_messages p f x) = ib_next x"
  by (simp_all add: update_messages_def)

lemma update_leases_rows [simp]: "ib_leases (update_leases p f x) = map (\<lambda>a. if p a then f a else a) (ib_leases x)"
  by (simp add: update_leases_def)

lemma update_leases_frame [simp]:
  "ib_messages (update_leases p f x) = ib_messages x" "ib_fences (update_leases p f x) = ib_fences x"
  "ib_handled (update_leases p f x) = ib_handled x" "ib_next (update_leases p f x) = ib_next x"
  by (simp_all add: update_leases_def)

lemma fence_cong: "ib_fences x' = ib_fences x \<Longrightarrow> bearerFencePredicate x' t a = bearerFencePredicate x t a"
  by (simp add: bearerFencePredicate_def fence_of_def)

lemma blocks_iff: "bearerFenceBlocks x t a \<longleftrightarrow> \<not> bearerFencePredicate x t a"
  by (simp add: bearerFenceBlocks_def bearerFencePredicate_def split: option.splits)

lemma oldest_in: "m \<in> set (oldest n p x) \<Longrightarrow> m \<in> set (ib_messages x) \<and> p m"
  unfolding oldest_def by (drule in_set_takeD) simp

lemma same_seq: "distinct (map k xs) \<Longrightarrow> a \<in> set xs \<Longrightarrow> b \<in> set xs \<Longrightarrow> k a = k b \<Longrightarrow> a = b"
  by (meson distinct_map inj_onD)

text \<open>A row whose seq was picked is the row that was picked.\<close>

lemma picked_row:
  assumes "distinct (map mg_seq (ib_messages x))" "m \<in> set (ib_messages x)" "mg_seq m \<in> set (map mg_seq (oldest n p x))"
  shows "p m"
  using assms oldest_in [of _ n p x] same_seq [of mg_seq "ib_messages x" m] by auto

lemma insert_attempt_frame [simp]:
  "ib_messages (insert_attempt sc d st now r x) = ib_messages x" "ib_fences (insert_attempt sc d st now r x) = ib_fences x"
  "ib_next (insert_attempt sc d st now r x) = ib_next x" "ib_handled (insert_attempt sc d st now r x) = ib_handled x"
  by (simp_all add: insert_attempt_def)

lemma attempt_bind_frame [simp]:
  "ib_messages (attempt_bind sc d s now e x) = ib_messages x" "ib_fences (attempt_bind sc d s now e x) = ib_fences x"
  "ib_next (attempt_bind sc d s now e x) = ib_next x"
  by (simp_all add: attempt_bind_def split: option.splits)

lemmas attempt_stages =
  mark_acked_def mark_expired_def attempt_cancel_def attempt_rollback_def attempt_none_def attempt_claim_def attempt_reap_def

text \<open>The batch of an attempt changes messages by its reap and its claim; nothing is rolled back where no fence closes inside it.\<close>

lemma opening_needs_fence:
  assumes "inbox_wf x" "\<not> fence_open x sc"
  shows "\<not> attemptOpening sc d (insert_attempt sc d At_opening now r x)"
  using assms by (auto simp: attemptOpening_def insert_attempt_def exists_row_iff is_opening_def inbox_wf_def)


definition fresh_row :: "inbox_db \<Rightarrow> message_row \<Rightarrow> bool" where
  "fresh_row x m \<longleftrightarrow>
     mg_seq m = ib_next x \<and> mg_id m \<notin> mg_id ` set (ib_messages x) \<and> mg_read m = None \<and> mg_attempts m = 0 \<and> mg_lease m = None \<and>
     mg_dead m = None \<and> mg_stamp m = None"

definition rows_map :: "power \<Rightarrow> int option \<Rightarrow> inbox_db \<Rightarrow> inbox_db \<Rightarrow> bool" where
  "rows_map b c x x' \<longleftrightarrow>
     (\<exists>g. ib_messages x' = map g (ib_messages x) \<and> (\<forall>m \<in> set (ib_messages x). row_step b c m (g m))) \<and> ib_next x' = ib_next x"

lemma rows_mapI:
  assumes "ib_messages x' = map g (ib_messages x)" "ib_next x' = ib_next x" "\<And>m. m \<in> set (ib_messages x) \<Longrightarrow> row_step b c m (g m)"
  shows "rows_map b c x x'"
  using assms unfolding rows_map_def by blast

lemma rows_map_id: "ib_messages x' = ib_messages x \<Longrightarrow> ib_next x' = ib_next x \<Longrightarrow> rows_map b c x x'"
  unfolding rows_map_def by (auto intro!: exI [of _ "\<lambda>m. m"] row_step.Same)

lemma rows_map_update:
  assumes "\<And>m. m \<in> set (ib_messages x) \<Longrightarrow> p m \<Longrightarrow> row_step b c m (f m)"
  shows "rows_map b c x (update_messages p f x)"
  unfolding rows_map_def using assms by (auto intro!: exI [of _ "\<lambda>m. if p m then f m else m"] row_step.Same)

lemma reap_rows: "rows_map b (Some now) x (reap_poisoned tenant agent now seat x)"
  unfolding reap_poisoned_def
  by (rule rows_map_update) (auto simp: leasable_def unread_of_def available_iff intro: row_step.Dead)

lemma hand_out_rows:
  assumes "inbox_wf x"
  shows "rows_map Uncounted (Some now) x (fst (hand_out tenant agent now seat limit e x))"
  unfolding hand_out_def Let_def fst_conv
proof (rule rows_map_update)
  fix m assume m: "m \<in> set (ib_messages x)"
    and p: "mg_seq m \<in> set (map mg_seq (oldest limit (\<lambda>m. leasable tenant agent now seat m \<and> bearerFencePredicate x tenant agent) x))"
  from picked_row [OF _ m p] assms have "leasable tenant agent now seat m" by (simp add: inbox_wf_def)
  then show "row_step Uncounted (Some now) m (handed_out e None m)"
    by (auto simp: leasable_def unread_of_def available_iff intro: row_step.Handed)
qed

lemma consume_rows:
  assumes "inbox_wf x"
  shows "rows_map b (Some now) x (fst (consume reader tenant agent seat limit now x))"
  unfolding consume_def Let_def fst_conv
proof (rule rows_map_update)
  fix m assume m: "m \<in> set (ib_messages x)"
    and p: "mg_seq m \<in> set (map mg_seq (oldest limit (\<lambda>m. consumable tenant agent now seat m \<and> fence_admits reader x tenant agent) x))"
  from picked_row [OF _ m p] assms have "consumable tenant agent now seat m" by (simp add: inbox_wf_def)
  then show "row_step b (Some now) m (m\<lparr>mg_read := Some now\<rparr>)"
    by (auto simp: consumable_def unread_of_def intro: row_step.Consumed)
qed

lemma still_opening:
  assumes "attemptOpening sc d (attempt_none sc d s now e (attempt_bind sc d s now e x))"
  shows "attemptOpening sc d x"
  using assms
  by (auto simp: attemptOpening_def exists_row_iff is_opening_def attempt_none_def attempt_bind_def split: option.splits if_splits)

text \<open>The messages after the batch of an attempt: those after its reap and claim.\<close>

lemma attempt_batch_messages:
  assumes "inbox_wf x"
  shows "ib_messages (attempt_batch sc d s ex now e x) =
    ib_messages (attempt_claim sc d s ex now e (attempt_reap sc d ex now (insert_attempt sc d At_opening now None x)))"
proof -
  define y where "y = attempt_claim sc d s ex now e (attempt_reap sc d ex now (insert_attempt sc d At_opening now None x))"
  define z where "z = attempt_none sc d s now e (attempt_bind sc d s now e y)"
  have y: "ib_leases y = ib_leases (insert_attempt sc d At_opening now None x)" "ib_fences y = ib_fences x"
    by (simp_all add: y_def attempt_claim_def attempt_reap_def)
  have "\<not> (attemptOpening sc d z \<and> \<not> fence_open z sc)"
  proof
    assume a: "attemptOpening sc d z \<and> \<not> fence_open z sc"
    have "ib_fences z = ib_fences x" by (simp add: z_def y attempt_none_def)
    with a have "\<not> fence_open x sc" using fence_cong by blast
    moreover have "attemptOpening sc d (insert_attempt sc d At_opening now None x)"
      using still_opening [of sc d s now e y] a y(1) unfolding z_def attemptOpening_def by simp
    ultimately show False using opening_needs_fence [OF assms] by blast
  qed
  then have "ib_messages (attempt_rollback sc d s e z) = ib_messages z"
    by (auto simp: attempt_rollback_def map_idI)
  then show ?thesis
    by (simp add: attempt_batch_def y_def [symmetric] z_def [symmetric] mark_expired_def mark_acked_def attempt_cancel_def)
      (simp add: z_def attempt_none_def)
qed

lemma attempt_rows:
  assumes "inbox_wf x"
  shows "rows_map b (Some now) x (attempt_batch sc d s ex now e x)"
proof -
  define x0 where "x0 = insert_attempt sc d At_opening now None x"
  define x1 where "x1 = attempt_reap sc d ex now x0"
  define f where "f = (\<lambda>m :: message_row. if unread_of (sc_tenant sc) (sc_agent sc) m \<and> mg_dead m = None \<and> lease_over now m \<and>
            MAX_DELIVERY_ATTEMPTS \<le> mg_attempts m \<and> seat_key_sees ex (sc_seat sc) m \<and> attemptOpening sc d x0 \<and> fence_open x0 sc
          then dead_lettered now m else m)"
  define p where "p = (\<lambda>m :: message_row. mg_seq m \<in> set (map mg_seq (oldest 1 (\<lambda>m. attempt_claimable sc ex now m \<and> fence_open x1 sc) x1)) \<and>
            attemptOpening sc d x1 \<and> fence_open x1 sc)"
  have x1: "ib_messages x1 = map f (ib_messages x)"
    by (simp add: x1_def attempt_reap_def f_def x0_def)
  have seqs: "distinct (map mg_seq (ib_messages x1))"
    using assms by (simp add: x1 f_def dead_lettered_def inbox_wf_def o_def if_distrib cong: if_cong)
  have claim: "attempt_claimable sc ex now m" if "m \<in> set (ib_messages x1)" "p m" for m
    using picked_row [OF seqs that(1)] that(2) unfolding p_def by blast
  have step: "row_step b (Some now) m (if p (f m) then handed_out e (Some s) (f m) else f m)" if m: "m \<in> set (ib_messages x)" for m
  proof (cases "p (f m)")
    case True
    from claim [of "f m"] m True have c: "attempt_claimable sc ex now (f m)" by (simp add: x1)
    then have "mg_dead (f m) \<noteq> Some now" by (simp add: attempt_claimable_def)
    then have "f m = m" unfolding f_def by (auto simp: dead_lettered_def)
    with c True show ?thesis by (auto simp: attempt_claimable_def unread_of_def intro: row_step.Handed)
  next
    case False
    then show ?thesis by (auto simp: f_def unread_of_def intro: row_step.Same row_step.Dead)
  qed
  have "ib_messages (attempt_batch sc d s ex now e x) = map (\<lambda>m. if p (f m) then handed_out e (Some s) (f m) else f m) (ib_messages x)"
    by (simp add: attempt_batch_messages [OF assms] attempt_claim_def x0_def [symmetric] x1_def [symmetric] p_def x1)
  moreover have "ib_next (attempt_batch sc d s ex now e x) = ib_next x"
    by (simp add: attempt_batch_def attempt_stages)
  ultimately show ?thesis using step by (rule rows_mapI)
qed


lemma reconcile_messages: "ib_messages (reconcile_batch sc s ex now x) = ib_messages x" "ib_next (reconcile_batch sc s ex now x) = ib_next x"
  by (simp_all add: reconcile_batch_def attempt_stages)

definition acked_row :: "int \<Rightarrow> message_row \<Rightarrow> message_row" where
  "acked_row now m = m\<lparr>mg_read := Some now, mg_lease := None, mg_stamp := None\<rparr>"

lemma ack_all_messages:
  "\<exists>g. ib_messages (fst (foldl (\<lambda>st chunk. ack_chunk tenant agent now chunk st) (x, acked) cs)) = map g (ib_messages x) \<and>
     (\<forall>m. g m = m \<or> mg_read m = None \<and> g m = acked_row now m)"
proof (induction cs arbitrary: x acked)
  case Nil
  show ?case by (intro exI [of _ "\<lambda>m. m"]) simp
next
  case (Cons c cs)
  define x' where "x' = fst (ack_chunk tenant agent now c (x, acked))"
  obtain acked' where a: "ack_chunk tenant agent now c (x, acked) = (x', acked')" by (cases "ack_chunk tenant agent now c (x, acked)") (simp add: x'_def)
  define f where "f = (\<lambda>m. if ack_moves tenant agent c x m then acked_row now m else m)"
  have x': "ib_messages x' = map f (ib_messages x)" by (simp add: x'_def ack_chunk_def f_def acked_row_def)
  from Cons.IH [of x' acked'] obtain g where g: "ib_messages (fst (foldl (\<lambda>st chunk. ack_chunk tenant agent now chunk st) (x', acked') cs)) =
      map g (ib_messages x')" "\<And>m. g m = m \<or> mg_read m = None \<and> g m = acked_row now m" by blast
  have "(g \<circ> f) m = m \<or> mg_read m = None \<and> (g \<circ> f) m = acked_row now m" for m
    using g(2) [of "f m"] by (auto simp: f_def ack_moves_def unread_of_def acked_row_def)
  then show ?case using g(1) by (intro exI [of _ "g \<circ> f"]) (simp add: a x')
qed

lemma ack_all_next: "ib_next (fst (foldl (\<lambda>st chunk. ack_chunk tenant agent now chunk st) st cs)) = ib_next (fst st)"
  by (induction cs arbitrary: st) (auto simp: ack_chunk_def split: prod.splits)

lemma ack_all_rows: "rows_map b c x (fst (ack_all tenant agent now cs x))"
proof -
  obtain g where g: "ib_messages (fst (ack_all tenant agent now cs x)) = map g (ib_messages x)"
      "\<And>m. g m = m \<or> mg_read m = None \<and> g m = acked_row now m"
    unfolding ack_all_def using ack_all_messages [of tenant agent now x "[]" cs] by blast
  show ?thesis
  proof (rule rows_mapI [OF g(1)])
    show "row_step b c m (g m)" for m
      using g(2) [of m] by (auto simp: acked_row_def intro: row_step.Same row_step.Acked)
  qed (simp add: ack_all_def ack_all_next)
qed

text \<open>The batch that acknowledges an attempt: under an open fence the acknowledged message also loses its stamp, and under a
  closed one nothing happens.\<close>

definition ack_hit :: "attempt_scope \<Rightarrow> string \<Rightarrow> bool \<Rightarrow> int \<Rightarrow> inbox_db \<Rightarrow> message_row \<Rightarrow> bool" where
  "ack_hit sc s ex now x m \<longleftrightarrow>
     LEASE_LIVE_PREDICATE (mg_lease m) now \<and> seat_key_sees ex (sc_seat sc) m \<and> fence_open x sc \<and>
     exists_row (\<lambda>a. leased_in sc a \<and> holds_message sc s ex a m) (ib_leases x)"

lemma insert_cancelled_leased:
  "exists_row (\<lambda>a. leased_in sc a \<and> P a) (ib_leases (insert_attempt sc d At_cancelled now r x)) \<longleftrightarrow>
   exists_row (\<lambda>a. leased_in sc a \<and> P a) (ib_leases x)"
  by (auto simp: insert_attempt_def exists_row_iff leased_in_def)

lemma exact_of_seat: "seat_key_sees ex k m \<Longrightarrow> exact_seat ex k m"
  by (auto simp: seat_key_sees_def exact_seat_def split: if_splits)

lemma ack_open_rows:
  assumes wf: "inbox_wf x" and op: "fence_open x sc" and m: "m \<in> set (ib_messages x)" and hit: "ack_hit sc s ex now x m"
    and x2: "x2 = mark_expired sc s ex now (ack_settle sc s ex now (ack_read sc s ex now (insert_attempt sc d At_cancelled now r x)))"
  shows "exists_row (\<lambda>a. la_scope a = sc \<and> la_state a = At_acked \<and> la_terminal a = Some (mg_id m) \<and> ack_bound sc a m) (ib_leases x2)"
proof -
  define x0 where "x0 = insert_attempt sc d At_cancelled now r x"
  define x1 where "x1 = ack_read sc s ex now x0"
  have sub: "set (ib_leases x) \<subseteq> set (ib_leases x0)" by (auto simp: x0_def insert_attempt_def)
  from hit obtain a where "a \<in> set (ib_leases x)" "leased_in sc a" "holds_message sc s ex a m"
    unfolding ack_hit_def by (auto simp: exists_row_iff)
  with sub have a: "a \<in> set (ib_leases x0)" "leased_in sc a" "holds_message sc s ex a m" by blast+
  have frame: "ib_leases x1 = ib_leases x0" "ib_fences x1 = ib_fences x"
    by (simp_all add: x1_def ack_read_def x0_def)
  then have f1: "fence_open x1 sc" using op fence_cong by blast
  have "m\<lparr>mg_read := Some now, mg_lease := None\<rparr> \<in> set (ib_messages x1)"
    using m hit by (auto simp: x1_def ack_read_def x0_def ack_hit_def insert_cancelled_leased fence_cong [of "insert_attempt sc d At_cancelled now r x" x] intro!: image_eqI [of _ _ m])
  moreover have "Some (mg_id m) = la_message a" "exact_seat ex (sc_seat sc) m" "ack_bound sc a m" "mg_stamp m = Some s"
    using a(3) by (simp_all add: holds_message_def ack_bound_def)
  ultimately have settled: "terminal At_acked now a \<in> set (ib_leases (ack_settle sc s ex now x1))"
    using a f1 unfolding ack_settle_def frame
    by (auto simp: exists_row_iff frame exact_seat_def ack_bound_def to_scope_def intro!: image_eqI [of _ _ a] bexI [of _ "m\<lparr>mg_read := Some now, mg_lease := None\<rparr>"])
  then have "terminal At_acked now a \<in> set (ib_leases x2)"
    unfolding x2 x0_def [symmetric] x1_def [symmetric] mark_expired_def
    by (auto simp: leased_in_def terminal_def intro!: image_eqI [of _ _ "terminal At_acked now a"])
  then show ?thesis
    using a by (auto simp: exists_row_iff terminal_def leased_in_def holds_message_def ack_bound_def intro!: bexI [of _ "terminal At_acked now a"])
qed


lemma ack_closed:
  assumes "inbox_wf x" "\<not> fence_open x sc"
  shows "ack_batch sc s ex now x = x"
proof -
  have "insert_attempt sc d st now r x = x" for d st r using assms by (simp add: insert_attempt_def)
  moreover have "ack_read sc s ex now x = x" "ack_settle sc s ex now x = x" "mark_expired sc s ex now x = x" "ack_unstamp sc s ex x = x"
    using assms by (simp_all add: ack_read_def ack_settle_def mark_expired_def ack_unstamp_def update_messages_def update_leases_def)
  moreover have "ack_restore sc s ex now x = x"
  proof -
    have stamp: "mg_stamp m \<noteq> Some s" if "m \<in> set (ib_messages x)" "mg_lease m = None" for m
      using assms(1) that by (auto simp: inbox_wf_def stamp_leased_def)
    then show ?thesis unfolding ack_restore_def
      by (auto intro!: inbox_db.equality map_idI split: option.splits dest: stamp)
  qed
  ultimately show ?thesis by (simp add: ack_batch_def)
qed

text \<open>What the batch does to one message under an open fence.\<close>

definition ack_effect :: "attempt_scope \<Rightarrow> string \<Rightarrow> bool \<Rightarrow> int \<Rightarrow> inbox_db \<Rightarrow> message_row \<Rightarrow> message_row \<Rightarrow> bool" where
  "ack_effect sc s ex now x m m' \<longleftrightarrow>
     (if ack_hit sc s ex now x m then m' = acked_row now m else m' = m \<or> mg_read m \<noteq> None \<and> m' = m\<lparr>mg_stamp := None\<rparr>)"

lemma ack_open:
  assumes wf: "inbox_wf x" and op: "fence_open x sc"
  shows "\<exists>g. ib_messages (ack_batch sc s ex now x) = map g (ib_messages x) \<and> (\<forall>m \<in> set (ib_messages x). ack_effect sc s ex now x m (g m))"
proof -
  define x0 where "x0 = insert_attempt sc CANCELLED_ATTEMPT_DIGEST At_cancelled now (Some now) x"
  define x2 where "x2 = mark_expired sc s ex now (ack_settle sc s ex now (ack_read sc s ex now x0))"
  have op0: "fence_open x0 sc" using op fence_cong [of x0 x] by (simp add: x0_def)
  define f where "f = (\<lambda>m :: message_row. if ack_hit sc s ex now x m then m\<lparr>mg_read := Some now, mg_lease := None\<rparr> else m)"
  have m2: "ib_messages x2 = map f (ib_messages x)" 
    using op op0 by (simp add: x2_def mark_expired_def ack_settle_def ack_read_def f_def ack_hit_def x0_def insert_cancelled_leased)
  have op2: "fence_open x2 sc" using op fence_cong [of x2 x] by (simp add: x2_def mark_expired_def ack_settle_def ack_read_def x0_def)
  have r: "ack_restore sc s ex now x2 = x2"
    unfolding ack_restore_def using op2 by (auto intro!: inbox_db.equality map_idI split: option.splits)
  define u where "u = (\<lambda>m :: message_row. exact_seat ex (sc_seat sc) m \<and> mg_stamp m = Some s \<and> mg_read m \<noteq> None \<and> seat_key_sees ex (sc_seat sc) m \<and>
            fence_open x2 sc \<and>
            exists_row (\<lambda>a. la_scope a = sc \<and> la_state a = At_acked \<and> la_terminal a = Some (mg_id m) \<and> ack_bound sc a m) (ib_leases x2))"
  have all: "ib_messages (ack_batch sc s ex now x) = map (\<lambda>m. if u (f m) then f m\<lparr>mg_stamp := None\<rparr> else f m) (ib_messages x)"
    unfolding ack_batch_def comp_apply x0_def [symmetric] x2_def [symmetric] r ack_unstamp_def update_messages_rows m2 u_def [symmetric]
    by simp
  have "ack_effect sc s ex now x m (if u (f m) then f m\<lparr>mg_stamp := None\<rparr> else f m)" if m: "m \<in> set (ib_messages x)" for m
  proof (cases "ack_hit sc s ex now x m")
    case True
    have "exists_row (\<lambda>a. la_scope a = sc \<and> la_state a = At_acked \<and> la_terminal a = Some (mg_id m) \<and> ack_bound sc a m) (ib_leases x2)"
      by (rule ack_open_rows [OF wf op m True x2_def [unfolded x0_def]])
    moreover have "seat_key_sees ex (sc_seat sc) m" "mg_stamp m = Some s"
      using True by (auto simp: ack_hit_def exists_row_iff holds_message_def)
    ultimately have "u (f m)"
      using True op2 exact_of_seat [of ex "sc_seat sc" m]
      by (auto simp: u_def f_def exact_seat_def seat_key_sees_def seat_sees_def ack_bound_def to_scope_def split: if_splits)
    with True show ?thesis by (simp add: ack_effect_def f_def acked_row_def)
  next
    case False
    then show ?thesis by (auto simp: ack_effect_def f_def u_def)
  qed
  with all show ?thesis by blast
qed

lemma ack_batch_next: "ib_next (ack_batch sc s ex now x) = ib_next x"
  by (simp add: ack_batch_def ack_unstamp_def ack_restore_def mark_expired_def ack_settle_def ack_read_def)

lemma ack_rows:
  assumes "inbox_wf x"
  shows "rows_map b c x (ack_batch sc s ex now x)"
proof (cases "fence_open x sc")
  case True
  from ack_open [OF assms True] obtain g where g: "ib_messages (ack_batch sc s ex now x) = map g (ib_messages x)"
    "\<And>m. m \<in> set (ib_messages x) \<Longrightarrow> ack_effect sc s ex now x m (g m)" by blast
  show ?thesis
  proof (rule rows_mapI [OF g(1) ack_batch_next])
    show "row_step b c m (g m)" if "m \<in> set (ib_messages x)" for m
      using g(2) [OF that]
      by (auto simp: ack_effect_def acked_row_def ack_hit_def exists_row_iff holds_message_def split: if_splits
          intro: row_step.Same row_step.Acked row_step_unstamped)
  qed
next
  case False
  then show ?thesis using ack_closed [OF assms] by (simp add: rows_map_id)
qed

text \<open>The writers outside the inbox.\<close>

lemma settle_rows: "rows_map b c x (fst (claimUnleasedForPairSettlement tenant mid caller supported now x))"
  unfolding claimUnleasedForPairSettlement_def Let_def fst_conv by (rule rows_map_update) (elim conjE, rule row_step.Settled)

lemma recover_rows: "rows_map b c x (claimReadEnvelopeForRecovery tenant mid dispatch caller attempt supported now x)"
  unfolding claimReadEnvelopeForRecovery_def
  by (rule rows_map_update) (auto simp: recoverable_def intro!: row_step.Recovered)

lemma reset_rows:
  assumes "b = (if override then Overriding else Resetting)"
  shows "rows_map b (Some now) x (adminResetDispatchLease tenant mid override terminate consumed now x)"
  unfolding adminResetDispatchLease_def
  by (rule rows_map_update) (use assms in \<open>auto simp: lease_over_iff intro!: row_step.Reset\<close>)

lemma doorbell_rows: "rows_map b (Some now) x (consume_doorbells tenant agent now x)"
  unfolding consume_doorbells_def
  by (rule rows_map_update) (auto simp: unread_of_def lease_over_iff leaseAvailableClause_def intro: row_step.Consumed)

lemma handled_frame [simp]:
  "ib_messages (mark_handled tenant attachment agent seat ids attached x) = ib_messages x"
  "ib_leases (mark_handled tenant attachment agent seat ids attached x) = ib_leases x"
  "ib_next (mark_handled tenant attachment agent seat ids attached x) = ib_next x"
  by (simp_all add: mark_handled_def Let_def)

text \<open>An operation evolves the messages one step each, adds at most one fresh message and removes at most a loopback message.\<close>

definition op_evolves :: "power \<Rightarrow> int option \<Rightarrow> inbox_db \<Rightarrow> inbox_db \<Rightarrow> bool" where
  "op_evolves b c x x' \<longleftrightarrow>
     (\<exists>g keep new. ib_messages x' = map g (filter keep (ib_messages x)) @ new \<and> (\<forall>m \<in> set (ib_messages x). row_step b c m (g m)) \<and>
        (new = [] \<and> ib_next x' = ib_next x \<or> (\<exists>m. new = [m] \<and> fresh_row x m \<and> ib_next x' = ib_next x + 1)))"

lemma op_evolvesI:
  assumes "ib_messages x' = map g (filter keep (ib_messages x))" "\<And>m. m \<in> set (ib_messages x) \<Longrightarrow> row_step b c m (g m)"
    "ib_next x' = ib_next x"
  shows "op_evolves b c x x'"
  unfolding op_evolves_def using assms by (intro exI [of _ g] exI [of _ keep] exI [of _ "[]"]) simp

lemma rows_map_evolves:
  assumes "rows_map b c x x'"
  shows "op_evolves b c x x'"
proof -
  from assms obtain g where g: "ib_messages x' = map g (filter (\<lambda>m. True) (ib_messages x))"
    "\<And>m. m \<in> set (ib_messages x) \<Longrightarrow> row_step b c m (g m)" and "ib_next x' = ib_next x" by (auto simp: rows_map_def)
  then show ?thesis by (rule op_evolvesI)
qed

lemma op_evolves_row:
  assumes "op_evolves b c x x'" "m' \<in> set (ib_messages x')"
  shows "fresh_row x m' \<or> (\<exists>m \<in> set (ib_messages x). row_step b c m m')"
  using assms unfolding op_evolves_def by (auto, blast, blast)

lemma op_evolves_next: "op_evolves b c x x' \<Longrightarrow> ib_next x \<le> ib_next x'"
  unfolding op_evolves_def by auto

lemma insert_landed:
  assumes "insert_message sha e tenant i mid now cap x = Insert_landed x'"
  shows "x' = x\<lparr>ib_messages := ib_messages x @ [sent_row sha tenant i mid now (ib_next x)], ib_next := ib_next x + 1\<rparr>"
    "mid \<notin> mg_id ` set (ib_messages x)" "duplicate_of x tenant i = None" "agentUnreadTotal tenant (sn_to i) x < cap"
  using assms by (auto simp: insert_message_def exists_row_iff split: if_splits)

lemma sent_fresh: "mid \<notin> mg_id ` set (ib_messages x) \<Longrightarrow> fresh_row x (sent_row sha tenant i mid now (ib_next x))"
  by (simp add: fresh_row_def sent_row_def)

lemma delete_evolves: "op_evolves b c x (fst (deleteAgentConnectionMessage tenant mid agent request now x))"
proof (cases "ib_messages (fst (deleteAgentConnectionMessage tenant mid agent request now x)) = ib_messages x")
  case True
  show ?thesis
    by (rule op_evolvesI [where g = "\<lambda>m. m" and keep = "\<lambda>m. True"])
      (simp_all add: True row_step.Same, simp add: deleteAgentConnectionMessage_def Let_def release_receipts_def)
next
  case False
  then show ?thesis
    by (intro op_evolvesI [where g = "\<lambda>m. m" and keep = "\<lambda>m. \<not> loopback tenant mid agent request m"])
      (auto simp: deleteAgentConnectionMessage_def Let_def release_receipts_def row_step.Same split: if_splits)
qed

lemma write_fence_messages [simp]:
  "ib_messages (write_fence tenant agent mode key g x) = ib_messages x" "ib_next (write_fence tenant agent mode key g x) = ib_next x"
  "ib_leases (write_fence tenant agent mode key g x) = ib_leases x"
  by (simp_all add: write_fence_def)

lemma send_evolves:
  assumes "insert_message sha e tenant i mid now cap x = Insert_landed x'"
  shows "op_evolves b c x x'"
  unfolding op_evolves_def using insert_landed [OF assms] sent_fresh [of mid x sha tenant i now]
  by (intro exI [of _ "\<lambda>m. m"] exI [of _ "\<lambda>m. True"] exI [of _ "[sent_row sha tenant i mid now (ib_next x)]"]) (simp add: row_step.Same)

lemma bus_lands:
  assumes "sosBusSend sha tenant target body mid now x = Some x'"
  shows "x' = x\<lparr>ib_messages := ib_messages x @ [bus_row sha tenant target body mid now (ib_next x)], ib_next := ib_next x + 1\<rparr>"
    "fresh_row x (bus_row sha tenant target body mid now (ib_next x))"
  using assms by (auto simp: sosBusSend_def exists_row_iff fresh_row_def bus_row_def Let_def split: if_splits)

lemma bus_evolves:
  assumes "sosBusSend sha tenant target body mid now x = Some x'"
  shows "op_evolves b c x x'"
  unfolding op_evolves_def using bus_lands [OF assms]
  by (intro exI [of _ "\<lambda>m. m"] exI [of _ "\<lambda>m. True"] exI [of _ "[bus_row sha tenant target body mid now (ib_next x)]"])
    (simp add: row_step.Same)

lemma op_evolves_refl: "ib_messages x' = ib_messages x \<Longrightarrow> ib_next x' = ib_next x \<Longrightarrow> op_evolves b c x x'"
  by (intro rows_map_evolves rows_map_id)

lemma apply_op_evolves:
  assumes "inbox_wf x"
  shows "op_evolves (op_power op) (op_clock op) x (apply_op sha op x)"
proof (cases op)
  case (Op_send e tenant i mid now cap)
  then show ?thesis
    by (cases "insert_message sha e tenant i mid now cap x") (simp_all add: send_evolves op_evolves_refl)
next
  case (Op_bus tenant target body mid now)
  then show ?thesis
    by (cases "sosBusSend sha tenant target body mid now x") (simp_all add: bus_evolves op_evolves_refl)
qed (simp_all add: op_power_def reap_rows hand_out_rows [OF assms] attempt_rows [OF assms] ack_rows [OF assms] ack_all_rows
  consume_rows [OF assms] settle_rows recover_rows reset_rows doorbell_rows delete_evolves rows_map_evolves op_evolves_refl reconcile_messages)

section \<open>Receipts\<close>

text \<open>A receipt that is terminal never changes again.\<close>

definition receipt_step :: "lease_attempt \<Rightarrow> lease_attempt \<Rightarrow> bool" where
  "receipt_step a a' \<longleftrightarrow>
     a' = a \<or> la_state a \<in> {At_opening, At_leased} \<and> la_scope a' = la_scope a \<and> la_digest a' = la_digest a"

definition receipts_evolve :: "inbox_db \<Rightarrow> inbox_db \<Rightarrow> bool" where
  "receipts_evolve x x' \<longleftrightarrow>
     (\<exists>h new. ib_leases x' = map h (ib_leases x) @ new \<and> (\<forall>a \<in> set (ib_leases x). receipt_step a (h a)) \<and>
        distinct (map la_scope new) \<and> la_scope ` set new \<inter> la_scope ` set (ib_leases x) = {})"

lemma receipt_scope: "receipt_step a a' \<Longrightarrow> la_scope a' = la_scope a"
  by (auto simp: receipt_step_def)

lemma receipt_trans: "receipt_step a b \<Longrightarrow> receipt_step b c \<Longrightarrow> receipt_step a c"
  unfolding receipt_step_def by (elim disjE conjE) simp_all

lemma receipts_evolve_refl [intro, simp]: "ib_leases x' = ib_leases x \<Longrightarrow> receipts_evolve x x'"
  unfolding receipts_evolve_def by (intro exI [of _ "\<lambda>a. a"] exI [of _ "[]"]) (simp add: receipt_step_def)

lemma receipts_evolve_trans:
  assumes "receipts_evolve x y" "receipts_evolve y z"
  shows "receipts_evolve x z"
proof -
  from assms(1) obtain h n where h: "ib_leases y = map h (ib_leases x) @ n" "\<forall>a \<in> set (ib_leases x). receipt_step a (h a)"
    "distinct (map la_scope n)" "la_scope ` set n \<inter> la_scope ` set (ib_leases x) = {}"
    unfolding receipts_evolve_def by blast
  from assms(2) obtain k l where k: "ib_leases z = map k (ib_leases y) @ l" "\<forall>a \<in> set (ib_leases y). receipt_step a (k a)"
    "distinct (map la_scope l)" "la_scope ` set l \<inter> la_scope ` set (ib_leases y) = {}"
    unfolding receipts_evolve_def by blast
  have kn: "map la_scope (map k n) = map la_scope n" using k(2) h(1) by (simp add: receipt_scope)
  have hs: "la_scope ` set (ib_leases y) = la_scope ` set (ib_leases x) \<union> la_scope ` set n"
  proof -
    have "(\<lambda>a. la_scope (h a)) ` set (ib_leases x) = la_scope ` set (ib_leases x)"
      by (rule image_cong) (use h(2) in \<open>simp_all add: receipt_scope\<close>)
    then show ?thesis by (simp add: h(1) image_Un image_image)
  qed
  have step: "receipt_step a (k (h a))" if a: "a \<in> set (ib_leases x)" for a
    by (rule receipt_trans [of a "h a"]) (use h(1,2) k(2) a in simp_all)
  have sn: "la_scope ` set (map k n) = la_scope ` set n" using arg_cong [OF kn, of set] by (simp only: set_map [symmetric])
  have disj: "la_scope ` set l \<inter> la_scope ` set n = {}" "la_scope ` set l \<inter> la_scope ` set (ib_leases x) = {}"
    using k(4) unfolding hs by blast+
  have "distinct (map la_scope (map k n @ l))"
    unfolding map_append kn distinct_append set_map using h(3) k(3) disj(1) by blast
  moreover have "la_scope ` set (map k n @ l) \<inter> la_scope ` set (ib_leases x) = {}"
    unfolding set_append image_Un sn using h(4) disj(2) by blast
  ultimately show ?thesis
    unfolding receipts_evolve_def using h(1) k(1) step by (intro exI [of _ "k \<circ> h"] exI [of _ "map k n @ l"]) simp
qed

lemma receipts_update:
  assumes "\<And>a. p a \<Longrightarrow> receipt_step a (f a)"
  shows "receipts_evolve x (update_leases p f x)"
  unfolding receipts_evolve_def using assms
  by (intro exI [of _ "\<lambda>a. if p a then f a else a"] exI [of _ "[]"]) (simp add: receipt_step_def)

lemma receipts_insert: "receipts_evolve x (insert_attempt sc d st now r x)"
  unfolding receipts_evolve_def insert_attempt_def
  by (intro exI [of _ "\<lambda>a. a"] exI [of _ "if fence_open x sc \<and> \<not> exists_row (\<lambda>a. la_scope a = sc) (ib_leases x) then _ else []"])
    (auto simp: receipt_step_def exists_row_iff)


lemma terminal_step: "leased_in sc a \<Longrightarrow> receipt_step a (terminal st now a)"
  by (simp add: receipt_step_def leased_in_def terminal_def)

lemma opening_step: "is_opening sc d a \<Longrightarrow> la_scope a' = la_scope a \<Longrightarrow> la_digest a' = la_digest a \<Longrightarrow> receipt_step a a'"
  by (simp add: receipt_step_def is_opening_def)

lemma receipts_stages:
  "receipts_evolve x (mark_acked sc ex now x)" "receipts_evolve x (mark_expired sc s ex now x)"
  "receipts_evolve x (ack_settle sc s ex now x)" "receipts_evolve x (attempt_none sc d s now e x)"
  "receipts_evolve x (attempt_cancel sc d now x)" "receipts_evolve x (attempt_bind sc d s now e x)"
  "receipts_evolve x (attempt_reap sc d ex now x)" "receipts_evolve x (attempt_claim sc d s ex now e x)"
  "receipts_evolve x (attempt_rollback sc d s e x)" "receipts_evolve x (ack_read sc s ex now x)"
  "receipts_evolve x (ack_restore sc s ex now x)" "receipts_evolve x (ack_unstamp sc s ex x)"
  unfolding mark_acked_def mark_expired_def ack_settle_def attempt_none_def attempt_cancel_def attempt_bind_def
  by (auto intro!: receipts_update terminal_step split: option.splits)
    (auto intro: opening_step simp: attempt_reap_def attempt_claim_def attempt_rollback_def ack_read_def ack_restore_def ack_unstamp_def)

lemma receipts_comp: "(\<And>y. receipts_evolve y (f y)) \<Longrightarrow> (\<And>y. receipts_evolve y (g y)) \<Longrightarrow> receipts_evolve x ((f \<circ> g) x)"
  unfolding comp_apply by (rule receipts_evolve_trans)

lemma receipts_attempt: "receipts_evolve x (attempt_batch sc d s ex now e x)"
  unfolding attempt_batch_def by (intro receipts_comp receipts_insert receipts_stages)

lemma receipts_reconcile: "receipts_evolve x (reconcile_batch sc s ex now x)"
  unfolding reconcile_batch_def by (intro receipts_comp receipts_insert receipts_stages)

lemma receipts_ack: "receipts_evolve x (ack_batch sc s ex now x)"
  unfolding ack_batch_def by (intro receipts_comp receipts_insert receipts_stages)

lemma receipts_delete: "receipts_evolve x (fst (deleteAgentConnectionMessage tenant mid agent request now x))"
proof -
  have "receipts_evolve x (release_receipts tenant mid agent request now x)"
    unfolding release_receipts_def by (rule receipts_update) (auto simp: receipt_step_def terminal_def)
  then have "receipts_evolve x (release_receipts tenant mid agent request now x\<lparr>ib_messages := ms\<rparr>)" for ms
    by (rule receipts_evolve_trans) simp
  then show ?thesis by (auto simp: deleteAgentConnectionMessage_def Let_def)
qed

lemma ack_all_leases: "ib_leases (fst (foldl (\<lambda>st chunk. ack_chunk tenant agent now chunk st) st cs)) = ib_leases (fst st)"
  by (induction cs arbitrary: st) (auto simp: ack_chunk_def split: prod.splits)

lemmas outer_writers = claimUnleasedForPairSettlement_def claimReadEnvelopeForRecovery_def adminResetDispatchLease_def consume_doorbells_def

lemma apply_op_receipts: "receipts_evolve x (apply_op sha op x)"
  by (cases op) (auto simp: outer_writers reap_poisoned_def hand_out_def consume_def Let_def ack_all_def ack_all_leases receipts_attempt
    receipts_reconcile receipts_ack receipts_delete insert_message_def sosBusSend_def split: insert_outcome.splits if_splits)

section \<open>Well-formedness is kept\<close>

lemma no_opening_stages:
  assumes "\<forall>a \<in> set (ib_leases x). la_state a \<noteq> At_opening"
  shows "\<forall>a \<in> set (ib_leases (mark_acked sc ex now x)). la_state a \<noteq> At_opening"
    "\<forall>a \<in> set (ib_leases (mark_expired sc s ex now x)). la_state a \<noteq> At_opening"
    "\<forall>a \<in> set (ib_leases (ack_settle sc s ex now x)). la_state a \<noteq> At_opening"
    "st \<noteq> At_opening \<Longrightarrow> \<forall>a \<in> set (ib_leases (insert_attempt sc d st now r x)). la_state a \<noteq> At_opening"
    "\<forall>a \<in> set (ib_leases (ack_read sc s ex now x)). la_state a \<noteq> At_opening"
    "\<forall>a \<in> set (ib_leases (ack_restore sc s ex now x)). la_state a \<noteq> At_opening"
    "\<forall>a \<in> set (ib_leases (ack_unstamp sc s ex x)). la_state a \<noteq> At_opening"
  using assms
  by (auto simp: mark_acked_def mark_expired_def ack_settle_def insert_attempt_def terminal_def ack_read_def ack_restore_def ack_unstamp_def)

text \<open>The batch of an attempt leaves no receipt opening.\<close>

lemma attempt_no_opening:
  assumes "\<forall>a \<in> set (ib_leases x). la_state a \<noteq> At_opening"
  shows "\<forall>a \<in> set (ib_leases (attempt_batch sc d s ex now e x)). la_state a \<noteq> At_opening"
proof -
  define ours where "ours = (\<lambda>y :: inbox_db. \<forall>a \<in> set (ib_leases y). la_state a = At_opening \<longrightarrow> is_opening sc d a)"
  have "ours (insert_attempt sc d At_opening now None x)"
    using assms by (auto simp: ours_def insert_attempt_def is_opening_def)
  then have "ours (attempt_claim sc d s ex now e (attempt_reap sc d ex now (insert_attempt sc d At_opening now None x)))"
    by (simp add: ours_def attempt_claim_def attempt_reap_def)
  moreover have "ours (attempt_bind sc d s now e y)" if "ours y" for y
    using that by (auto simp: ours_def attempt_bind_def split: option.splits)
  moreover have "ours (attempt_rollback sc d s e (attempt_none sc d s now e y))" if "ours y" for y
    using that by (auto simp: ours_def attempt_none_def attempt_rollback_def)
  moreover have "\<forall>a \<in> set (ib_leases (attempt_cancel sc d now y)). la_state a \<noteq> At_opening" if "ours y" for y
    using that by (auto simp: ours_def attempt_cancel_def)
  ultimately show ?thesis unfolding attempt_batch_def comp_apply by (intro no_opening_stages) blast
qed

lemma apply_op_no_opening:
  assumes "inbox_wf x"
  shows "\<forall>a \<in> set (ib_leases (apply_op sha op x)). la_state a \<noteq> At_opening"
proof -
  from assms have n: "\<forall>a \<in> set (ib_leases x). la_state a \<noteq> At_opening" by (simp add: inbox_wf_def)
  have "\<forall>a \<in> set (ib_leases (reconcile_batch sc s ex now x)). la_state a \<noteq> At_opening" for sc s ex now
    unfolding reconcile_batch_def comp_apply by (intro no_opening_stages n) simp
  moreover have "\<forall>a \<in> set (ib_leases (ack_batch sc s ex now x)). la_state a \<noteq> At_opening" for sc s ex now
    unfolding ack_batch_def comp_apply by (intro no_opening_stages n) simp
  moreover have "\<forall>a \<in> set (ib_leases (fst (deleteAgentConnectionMessage tenant mid agent request now x))). la_state a \<noteq> At_opening"
    for tenant mid agent request now
    using n by (auto simp: deleteAgentConnectionMessage_def Let_def release_receipts_def terminal_def)
  ultimately show ?thesis
    using n attempt_no_opening [OF n]
    by (cases op) (auto simp: outer_writers reap_poisoned_def hand_out_def consume_def Let_def ack_all_def ack_all_leases insert_message_def
      sosBusSend_def split: insert_outcome.splits if_splits)
qed


lemma apply_op_wf:
  assumes wf: "inbox_wf x"
  shows "inbox_wf (apply_op sha op x)"
proof -
  obtain g keep new where g: "ib_messages (apply_op sha op x) = map g (filter keep (ib_messages x)) @ new"
    "\<forall>m \<in> set (ib_messages x). row_step (op_power op) (op_clock op) m (g m)"
    and new: "new = [] \<and> ib_next (apply_op sha op x) = ib_next x \<or>
      (\<exists>m. new = [m] \<and> fresh_row x m \<and> ib_next (apply_op sha op x) = ib_next x + 1)"
    using apply_op_evolves [OF wf, of op sha] unfolding op_evolves_def by blast
  have keys: "mg_seq (g m) = mg_seq m" "mg_id (g m) = mg_id m" "stamp_leased (g m)" if "m \<in> set (ib_messages x)" for m
    using g(2) that row_step_identity identity_fields(1,2) row_step_stamp wf unfolding inbox_wf_def by metis+
  have maps: "map mg_seq (map g (filter keep (ib_messages x))) = map mg_seq (filter keep (ib_messages x))"
    "map mg_id (map g (filter keep (ib_messages x))) = map mg_id (filter keep (ib_messages x))"
    by (simp_all add: keys)
  have old: "distinct (map mg_seq (filter keep (ib_messages x)))" "distinct (map mg_id (filter keep (ib_messages x)))"
    "\<forall>m \<in> set (ib_messages x). mg_seq m < ib_next x"
    using wf by (simp_all add: inbox_wf_def distinct_map_filter)
  have fresh: "mg_seq m = ib_next x" "mg_id m \<notin> mg_id ` set (ib_messages x)" "stamp_leased m" if "fresh_row x m" for m
    using that by (simp_all add: fresh_row_def stamp_leased_def)
  have away: "mg_seq (g m) \<noteq> ib_next x" "fresh_row x m' \<Longrightarrow> mg_id (g m) \<noteq> mg_id m'" if "m \<in> set (ib_messages x)" for m m'
    using keys(1,2) [OF that] old(3) fresh(2) [of m'] that by (auto simp: image_iff)
  have rows: "distinct (map mg_seq (ib_messages (apply_op sha op x)))" "distinct (map mg_id (ib_messages (apply_op sha op x)))"
    unfolding g(1) map_append maps distinct_append using new old(1,2) away fresh(1) by (auto simp: keys)
  have more: "\<forall>m \<in> set (ib_messages (apply_op sha op x)). mg_seq m < ib_next (apply_op sha op x)"
    "\<forall>m \<in> set (ib_messages (apply_op sha op x)). stamp_leased m"
    using new old(3) keys fresh unfolding g(1) by auto
  obtain h n where h: "ib_leases (apply_op sha op x) = map h (ib_leases x) @ n" "\<forall>a \<in> set (ib_leases x). receipt_step a (h a)"
    "distinct (map la_scope n)" "la_scope ` set n \<inter> la_scope ` set (ib_leases x) = {}"
    using apply_op_receipts [of x sha op] unfolding receipts_evolve_def by blast
  have "map la_scope (map h (ib_leases x)) = map la_scope (ib_leases x)" using h(2) by (simp add: receipt_scope)
  then have "distinct (map la_scope (ib_leases (apply_op sha op x)))"
    using wf h(3,4) unfolding h(1) map_append by (simp add: inbox_wf_def del: map_map) blast
  with rows more apply_op_no_opening [OF wf] show ?thesis by (simp add: inbox_wf_def)
qed

lemma run_ops_wf: "inbox_wf x \<Longrightarrow> inbox_wf (run_ops sha ops x)"
  by (induction ops arbitrary: x) (simp_all add: apply_op_wf)

text \<open>A property of the tables that every allowed operation keeps holds after every run of allowed operations.\<close>

locale stable =
  fixes sha :: "string \<Rightarrow> string" and allowed :: "inbox_op \<Rightarrow> bool" and I :: "inbox_db \<Rightarrow> bool"
  assumes step: "inbox_wf x \<Longrightarrow> I x \<Longrightarrow> allowed op \<Longrightarrow> I (apply_op sha op x)"
begin

lemma run: "inbox_wf x \<Longrightarrow> I x \<Longrightarrow> \<forall>op \<in> set ops. allowed op \<Longrightarrow> I (run_ops sha ops x)"
  by (induction ops arbitrary: x) (simp_all add: step apply_op_wf)

end

section \<open>A leased message is nobody else's\<close>

text \<open>The message of seq \<open>q\<close> is as \<open>m0\<close>, or it has been read, or it is gone.\<close>

definition kept_as :: "message_row \<Rightarrow> inbox_db \<Rightarrow> bool" where
  "kept_as m0 x \<longleftrightarrow> mg_seq m0 < ib_next x \<and> (\<forall>m \<in> set (ib_messages x). mg_seq m = mg_seq m0 \<longrightarrow> m = m0 \<or> mg_read m \<noteq> None)"

lemma kept_step:
  assumes wf: "inbox_wf x" and kept: "kept_as m0 x" and lease: "mg_read m0 = None" "mg_lease m0 = Some e" and before: "happens_before e op"
    and no: "\<not> is_override op"
  shows "kept_as m0 (apply_op sha op x)"
  unfolding kept_as_def
proof (intro conjI ballI impI)
  note ev = apply_op_evolves [OF wf, of op sha]
  show "mg_seq m0 < ib_next (apply_op sha op x)" using op_evolves_next [OF ev] kept by (simp add: kept_as_def)
  fix m' assume m': "m' \<in> set (ib_messages (apply_op sha op x))" "mg_seq m' = mg_seq m0"
  then have "\<not> fresh_row x m'" using kept by (auto simp: kept_as_def fresh_row_def)
  with op_evolves_row [OF ev m'(1)] obtain m where m: "m \<in> set (ib_messages x)" "row_step (op_power op) (op_clock op) m m'" by blast
  then have "mg_seq m = mg_seq m0" using m'(2) identity_fields(1) [OF row_step_identity [OF m(2)]] by simp
  then consider "m = m0" | "mg_read m \<noteq> None" using kept m(1) by (auto simp: kept_as_def)
  then show "m' = m0 \<or> mg_read m' \<noteq> None"
  proof cases
    case 1
    then show ?thesis using row_step_leased [OF m(2)] lease before no by (simp add: happens_before_def split: option.splits)
  next
    case 2
    then show ?thesis using row_step_read [OF m(2)] by simp
  qed
qed

interpretation held: stable sha "\<lambda>op. happens_before e op \<and> \<not> is_override op" "\<lambda>x. kept_as m0 x \<and> mg_read m0 = None \<and> mg_lease m0 = Some e" for sha e m0
  by unfold_locales (blast intro: kept_step)

lemma kept_start:
  assumes "inbox_wf x" "m0 \<in> set (ib_messages x)"
  shows "kept_as m0 x"
  using assms same_seq [of mg_seq "ib_messages x" _ m0] unfolding kept_as_def inbox_wf_def by blast


lemma hand_out_hands:
  assumes "q \<in> set (map mg_seq (snd (hand_out tenant agent now seat limit e x)))"
  obtains m where "m \<in> set (ib_messages x)" "mg_seq m = q" "leasable tenant agent now seat m" "bearerFencePredicate x tenant agent"
proof -
  have "q \<in> mg_seq ` set (oldest limit (\<lambda>m. leasable tenant agent now seat m \<and> bearerFencePredicate x tenant agent) x)"
    using assms by (auto simp: hand_out_def Let_def handed_out_def split: if_splits)
  then show ?thesis using that oldest_in by blast
qed

lemma consume_hands:
  assumes "q \<in> set (map mg_seq (snd (consume reader tenant agent seat limit now x)))"
  obtains m where "m \<in> set (ib_messages x)" "mg_seq m = q" "consumable tenant agent now seat m" "fence_admits reader x tenant agent"
proof -
  have "q \<in> mg_seq ` set (oldest limit (\<lambda>m. consumable tenant agent now seat m \<and> fence_admits reader x tenant agent) x)"
    using assms by (auto simp: consume_def Let_def split: if_splits)
  then show ?thesis using that oldest_in by blast
qed

lemma select_row:
  assumes "attemptResultSelect sc s ex x = Some (a, Some m)"
  shows "a \<in> set (ib_leases x)" "leased_in sc a" "m \<in> set (ib_messages x)" "holds_message sc s ex a m" "fence_open x sc"
proof -
  from assms have f: "fence_open x sc" "first_row (\<lambda>a. la_scope a = sc) (ib_leases x) = Some a"
    and st: "la_state a = At_leased" "first_row (holds_message sc s ex a) (ib_messages x) = Some m"
    by (auto simp: attemptResultSelect_def split: option.splits if_splits)
  from first_row_Some [OF f(2)] first_row_Some [OF st(2)] st(1) f(1)
  show "a \<in> set (ib_leases x)" "leased_in sc a" "m \<in> set (ib_messages x)" "holds_message sc s ex a m" "fence_open x sc"
    by (simp_all add: leased_in_def)
qed

lemma select_hands_row:
  assumes "q \<in> set (select_hands sc s ex x)"
  obtains a m where "a \<in> set (ib_leases x)" "leased_in sc a" "m \<in> set (ib_messages x)" "mg_seq m = q" "holds_message sc s ex a m" "fence_open x sc"
proof -
  from assms obtain a m where r: "attemptResultSelect sc s ex x = Some (a, Some m)" "mg_seq m = q"
    by (cases "attemptResultSelect sc s ex x") (auto simp: select_hands_def split: option.splits)
  from select_row [OF r(1)] r(2) that show ?thesis by blast
qed

fun op_stamp :: "(string \<Rightarrow> string) \<Rightarrow> inbox_op \<Rightarrow> string option" where
  "op_stamp sha (Op_attempt sc _ _ _) = Some (attemptStamp sha sc)"
| "op_stamp sha (Op_reconcile sc _ _) = Some (attemptStamp sha sc)"
| "op_stamp sha _ = None"

fun is_consume :: "inbox_op \<Rightarrow> bool" where
  "is_consume (Op_consume _ _ _ _ _ _) = True"
| "is_consume _ = False"

text \<open>Who may still be given a leased message: the same attempt again, or, where an attempt holds it and it is no task dispatch,
  a consuming read.\<close>

definition may_get_again :: "(string \<Rightarrow> string) \<Rightarrow> message_row \<Rightarrow> inbox_op \<Rightarrow> bool" where
  "may_get_again sha m op \<longleftrightarrow>
     mg_stamp m \<noteq> None \<and> (op_stamp sha op = mg_stamp m \<or> is_consume op \<and> mg_from m \<noteq> ''mupot-dispatch'')"

lemma held_again:
  assumes wf: "inbox_wf x" and kept: "kept_as m0 x" and lease: "mg_read m0 = None" "mg_lease m0 = Some e"
    and before: "happens_before e op" and no: "\<not> is_override op" and again: "mg_seq m0 \<in> set (op_hands sha op x)"
  shows "may_get_again sha m0 op"
proof -
  have is_m0: "m = m0" if "m \<in> set (ib_messages x)" "mg_seq m = mg_seq m0" "mg_read m = None" for m
    using kept that by (auto simp: kept_as_def)
  have by_attempt: "may_get_again sha m0 op" if "mg_seq m0 \<in> set (select_hands sc s ex (apply_op sha op x))" "op_stamp sha op = Some s" for sc s ex
  proof -
    from that(1) obtain a m where m: "m \<in> set (ib_messages (apply_op sha op x))" "mg_seq m = mg_seq m0" "holds_message sc s ex a m"
      by (rule select_hands_row) blast
    then have "m = m0" using kept_step [OF wf kept lease before no, of sha] by (auto simp: kept_as_def holds_message_def)
    with m(3) that(2) show ?thesis by (simp add: may_get_again_def holds_message_def)
  qed
  show ?thesis
  proof (cases op)
    case (Op_hand_out tenant agent now seat limit secs)
    from again obtain m where m: "m \<in> set (ib_messages x)" "mg_seq m = mg_seq m0" "leasable tenant agent now seat m"
      unfolding Op_hand_out op_hands.simps by (rule hand_out_hands) blast
    with is_m0 [OF m(1,2)] have "lease_over now m0" by (auto simp: leasable_def unread_of_def available_iff)
    with lease before show ?thesis by (simp add: Op_hand_out lease_over_def happens_before_def)
  next
    case (Op_consume reader tenant agent seat limit now)
    from again obtain m where m: "m \<in> set (ib_messages x)" "mg_seq m = mg_seq m0" "consumable tenant agent now seat m"
      unfolding Op_consume op_hands.simps by (rule consume_hands) blast
    with is_m0 [OF m(1,2)] have "leaseAvailableClause True now m0" by (auto simp: consumable_def unread_of_def)
    with lease before show ?thesis
      by (simp add: Op_consume leaseAvailableClause_def LEASE_LIVE_PREDICATE_def happens_before_def may_get_again_def)
  next
    case (Op_attempt sc secs ex now)
    show ?thesis by (rule by_attempt) (use again in \<open>simp_all add: Op_attempt\<close>)
  next
    case (Op_reconcile sc ex now)
    show ?thesis by (rule by_attempt) (use again in \<open>simp_all add: Op_reconcile\<close>)
  qed (use again in simp_all)
qed

fun is_lease :: "inbox_op \<Rightarrow> bool" where
  "is_lease (Op_hand_out _ _ _ _ _ _) = True"
| "is_lease (Op_attempt _ _ _ _) = True"
| "is_lease _ = False"

lemma leased_row:
  assumes wf: "inbox_wf x" and lease: "is_lease op" and hand: "mg_seq m \<in> set (op_hands sha op x)"
    and m: "m \<in> set (ib_messages (apply_op sha op x))"
  shows "mg_read m = None \<and> mg_lease m \<noteq> None \<and>
    (\<forall>tenant agent now seat limit secs. op = Op_hand_out tenant agent now seat limit secs \<longrightarrow>
       mg_lease m = Some (now + secs * 1000) \<and> mg_stamp m = None)"
proof (cases op)
  case (Op_hand_out tenant agent now seat limit secs)
  define P where "P = set (map mg_seq (oldest limit (\<lambda>m. leasable tenant agent now seat m \<and> bearerFencePredicate x tenant agent) x))"
  have q: "mg_seq m \<in> P"
    using hand by (auto simp: Op_hand_out hand_out_def Let_def handed_out_def P_def split: if_splits)
  from m obtain m1 where m1: "m1 \<in> set (ib_messages x)" "m = (if mg_seq m1 \<in> P then handed_out (now + secs * 1000) None m1 else m1)"
    by (auto simp: Op_hand_out hand_out_def Let_def P_def)
  with q have p: "mg_seq m1 \<in> P" by (auto simp: handed_out_def split: if_splits)
  have "leasable tenant agent now seat m1"
    using picked_row [OF _ m1(1)] p wf unfolding P_def inbox_wf_def by blast
  with m1(2) p show ?thesis by (auto simp: Op_hand_out handed_out_def leasable_def unread_of_def)
next
  case (Op_attempt sc secs ex now)
  from hand obtain a m1 where m1: "m1 \<in> set (ib_messages (apply_op sha op x))" "mg_seq m1 = mg_seq m"
    "holds_message sc (attemptStamp sha sc) ex a m1"
    unfolding Op_attempt op_hands.simps by (rule select_hands_row) (simp add: Op_attempt)
  then have "m1 = m" using same_seq [of mg_seq "ib_messages (apply_op sha op x)" m1 m] m apply_op_wf [OF wf, of sha op] by (simp add: inbox_wf_def)
  with m1(3) show ?thesis by (auto simp: Op_attempt holds_message_def)
qed (use lease in simp_all)

text \<open>C9: A leased message is nobody else's. After a lease, plain or under an attempt, has handed out a message, the message is unread and
  leased until some instant; whatever operations follow with clocks before that instant, in any order and by anyone, short of an
  operator's reset that overrides the live lease, none of them gives the message out again, unless an attempt holds it and it is
  the same attempt that asks again, or a consuming read of a message that is no task dispatch. Under a plain lease there is no
  exception.\<close>
theorem lease_is_exclusive:
  assumes "inbox_wf x" and "is_lease op" and "m \<in> set (ib_messages (apply_op sha op x))" and "mg_seq m \<in> set (op_hands sha op x)"
  shows "\<exists>e. mg_read m = None \<and> mg_lease m = Some e \<and>
    (\<forall>ops op'. (\<forall>o' \<in> set (ops @ [op']). happens_before e o' \<and> \<not> is_override o') \<longrightarrow>
       mg_seq m \<in> set (op_hands sha op' (run_ops sha ops (apply_op sha op x))) \<longrightarrow> may_get_again sha m op') \<and>
    (\<forall>tenant agent now seat limit secs op'. op = Op_hand_out tenant agent now seat limit secs \<longrightarrow>
       e = now + secs * 1000 \<and> \<not> may_get_again sha m op')"
proof -
  from leased_row [OF assms(1,2,4,3)] obtain e where e: "mg_read m = None" "mg_lease m = Some e"
    and plain: "\<And>tenant agent now seat limit secs. op = Op_hand_out tenant agent now seat limit secs \<Longrightarrow>
      mg_lease m = Some (now + secs * 1000) \<and> mg_stamp m = None" by blast
  have wf: "inbox_wf (apply_op sha op x)" by (rule apply_op_wf [OF assms(1)])
  have "may_get_again sha m op'" if "\<forall>o' \<in> set (ops @ [op']). happens_before e o' \<and> \<not> is_override o'"
    "mg_seq m \<in> set (op_hands sha op' (run_ops sha ops (apply_op sha op x)))" for ops op'
    by (rule held_again [OF run_ops_wf [OF wf] _ e]) (use that held.run [OF wf, of m e] kept_start [OF wf assms(3)] e in simp_all)
  moreover have "e = now + secs * 1000 \<and> \<not> may_get_again sha m op'" if "op = Op_hand_out tenant agent now seat limit secs"
    for tenant agent now seat limit secs op'
    using plain [OF that] e(2) by (simp add: may_get_again_def)
  ultimately show ?thesis using e by blast
qed


section \<open>The number of deliveries\<close>

definition within_attempts :: "inbox_db \<Rightarrow> bool" where
  "within_attempts x \<longleftrightarrow> (\<forall>m \<in> set (ib_messages x). mg_attempts m \<le> MAX_DELIVERY_ATTEMPTS)"

text \<open>A lease whose two statements nothing separates, and a run in which every plain lease is of this kind.\<close>

definition lease_call :: "string \<Rightarrow> string \<Rightarrow> int \<Rightarrow> string option \<Rightarrow> nat \<Rightarrow> int \<Rightarrow> inbox_op list" where
  "lease_call tenant agent now seat limit secs = [Op_reap tenant agent now seat, Op_hand_out tenant agent now seat limit secs]"

inductive whole :: "inbox_op list \<Rightarrow> bool" where
  Start: "whole []"
| Lease: "whole ops \<Longrightarrow> whole (ops @ lease_call tenant agent now seat limit secs)"
| Other: "whole ops \<Longrightarrow> \<not> is_plain op \<Longrightarrow> whole (ops @ [op])"

lemma row_step_within:
  assumes "row_step b c m m'" "b \<noteq> Uncounted" "mg_attempts m \<le> MAX_DELIVERY_ATTEMPTS"
  shows "mg_attempts m' \<le> MAX_DELIVERY_ATTEMPTS"
  using assms(1) by cases (use assms(2,3) in \<open>auto simp: dead_lettered_def handed_out_def reset_lease_def MAX_DELIVERY_ATTEMPTS_def\<close>)

lemma within_step:
  assumes "inbox_wf x" "within_attempts x" "\<not> is_plain op"
  shows "within_attempts (apply_op sha op x)"
  unfolding within_attempts_def
proof
  fix m' assume "m' \<in> set (ib_messages (apply_op sha op x))"
  from op_evolves_row [OF apply_op_evolves [OF assms(1)] this] show "mg_attempts m' \<le> MAX_DELIVERY_ATTEMPTS"
    using row_step_within [of "op_power op"] assms(2,3) by (auto simp: fresh_row_def within_attempts_def)
qed

lemma reaped_row:
  assumes "m \<in> set (ib_messages (reap_poisoned tenant agent now seat x))" "leasable tenant agent now seat m" "bearerFencePredicate x tenant agent"
  shows "m \<in> set (ib_messages x) \<and> mg_attempts m < MAX_DELIVERY_ATTEMPTS"
proof -
  define p where "p = (\<lambda>m. leasable tenant agent now seat m \<and> MAX_DELIVERY_ATTEMPTS \<le> mg_attempts m \<and> bearerFencePredicate x tenant agent)"
  from assms(1) obtain m0 where m0: "m0 \<in> set (ib_messages x)" "m = (if p m0 then dead_lettered now m0 else m0)"
    by (auto simp: reap_poisoned_def p_def)
  have "\<not> p m0"
  proof
    assume "p m0"
    with m0(2) have "mg_dead m = Some now" by (simp add: dead_lettered_def)
    with assms(2) show False by (simp add: leasable_def)
  qed
  with m0 have "m = m0" by simp
  with \<open>\<not> p m0\<close> m0(1) assms(2,3) show ?thesis by (simp add: p_def not_le)
qed

lemma reap_fence [simp]: "bearerFencePredicate (reap_poisoned tenant agent now seat x) t a = bearerFencePredicate x t a"
  by (rule fence_cong) (simp add: reap_poisoned_def)

lemma within_lease:
  assumes wf: "inbox_wf x" and within: "within_attempts x"
  shows "within_attempts (run_ops sha (lease_call tenant agent now seat limit secs) x)"
proof -
  define x1 where "x1 = reap_poisoned tenant agent now seat x"
  have x1: "within_attempts x1" "inbox_wf x1"
    using within_step [OF wf within, of "Op_reap tenant agent now seat" sha] apply_op_wf [OF wf, of sha "Op_reap tenant agent now seat"]
    by (simp_all add: x1_def)
  have "mg_attempts m \<le> MAX_DELIVERY_ATTEMPTS"
    if m: "m \<in> set (ib_messages (fst (hand_out tenant agent now seat limit (now + secs * 1000) x1)))" for m
  proof -
    from m obtain m1 where m1: "m1 \<in> set (ib_messages x1)"
      "m = (if mg_seq m1 \<in> set (map mg_seq (oldest limit (\<lambda>m. leasable tenant agent now seat m \<and> bearerFencePredicate x1 tenant agent) x1))
            then handed_out (now + secs * 1000) None m1 else m1)"
      by (auto simp: hand_out_def Let_def)
    show ?thesis
    proof (cases "mg_seq m1 \<in> set (map mg_seq (oldest limit (\<lambda>m. leasable tenant agent now seat m \<and> bearerFencePredicate x1 tenant agent) x1))")
      case True
      from picked_row [OF _ m1(1) True] x1(2) have "leasable tenant agent now seat m1 \<and> bearerFencePredicate x1 tenant agent"
        by (simp add: inbox_wf_def)
      then have "mg_attempts m1 < MAX_DELIVERY_ATTEMPTS" using reaped_row m1(1) unfolding x1_def by simp
      with m1(2) True show ?thesis by (simp add: handed_out_def)
    next
      case False
      with m1 x1(1) show ?thesis by (simp add: within_attempts_def)
    qed
  qed
  then show ?thesis by (simp add: lease_call_def within_attempts_def x1_def)
qed

lemma row_step_dead: "row_step b c m m' \<Longrightarrow> mg_dead m \<noteq> None \<Longrightarrow> mg_dead m' \<noteq> None \<and> (stamp_leased m \<longrightarrow> mg_stamp m' = None)"
  by (erule row_step.cases) (auto simp: stamp_leased_def)

lemma dead_not_leased:
  assumes wf: "inbox_wf x" and m: "m \<in> set (ib_messages x)" "mg_dead m \<noteq> None" and op: "is_lease op"
  shows "mg_seq m \<notin> set (op_hands sha op x)"
proof
  assume hand: "mg_seq m \<in> set (op_hands sha op x)"
  have seqs: "distinct (map mg_seq (ib_messages x))" using wf by (simp add: inbox_wf_def)
  show False
  proof (cases op)
    case (Op_hand_out tenant agent now seat limit secs)
    from hand obtain m1 where "m1 \<in> set (ib_messages x)" "mg_seq m1 = mg_seq m" "leasable tenant agent now seat m1"
      unfolding Op_hand_out op_hands.simps by (rule hand_out_hands) blast
    with same_seq [OF seqs, of m1 m] m show False by (simp add: leasable_def)
  next
    case (Op_attempt sc secs ex now)
    from hand obtain a m1 where m1: "m1 \<in> set (ib_messages (apply_op sha op x))" "mg_seq m1 = mg_seq m"
      "holds_message sc (attemptStamp sha sc) ex a m1"
      unfolding Op_attempt op_hands.simps by (rule select_hands_row) (simp add: Op_attempt)
    have "\<not> fresh_row x m1" using m1(2) m(1) wf by (auto simp: fresh_row_def inbox_wf_def)
    with op_evolves_row [OF apply_op_evolves [OF wf] m1(1)] obtain m0 where
      m0: "m0 \<in> set (ib_messages x)" "row_step (op_power op) (op_clock op) m0 m1" by blast
    then have "m0 = m" using same_seq [OF seqs, of m0 m] m m1(2) identity_fields(1) [OF row_step_identity [OF m0(2)]] by simp
    then have "mg_stamp m1 = None" using row_step_dead [OF m0(2)] m wf by (simp add: inbox_wf_def)
    with m1(3) show False by (simp add: holds_message_def)
  qed (use op in simp_all)
qed

text \<open>A delivery of the message \<open>q\<close>: a lease hands it out while nobody holds it. A message that is given once more to the attempt that
  holds it is no new delivery. \<open>deliveries\<close> counts them along a run.\<close>

definition delivers :: "(string \<Rightarrow> string) \<Rightarrow> int \<Rightarrow> inbox_op \<Rightarrow> inbox_db \<Rightarrow> bool" where
  "delivers sha q op x \<longleftrightarrow>
     is_lease op \<and> q \<in> set (op_hands sha op x) \<and>
     exists_row (\<lambda>m. mg_seq m = q \<and> (case op_clock op of Some now \<Rightarrow> lease_over now m | None \<Rightarrow> True)) (ib_messages x)"

fun deliveries :: "(string \<Rightarrow> string) \<Rightarrow> int \<Rightarrow> inbox_op list \<Rightarrow> inbox_db \<Rightarrow> nat" where
  "deliveries sha q [] x = 0"
| "deliveries sha q (op # ops) x = of_bool (delivers sha q op x) + deliveries sha q ops (apply_op sha op x)"

lemma deliveries_append:
  "deliveries sha q (xs @ ys) x = deliveries sha q xs x + deliveries sha q ys (run_ops sha xs x)"
  by (induction xs arbitrary: x) simp_all

text \<open>The receipt of an attempt that holds a message after its batch holds it under a live lease.\<close>

lemma mark_expired_live:
  assumes "a \<in> set (ib_leases (mark_expired sc s ex now x))" "leased_in sc a" "fence_open x sc"
  shows "\<exists>m \<in> set (ib_messages x). holds_message sc s ex a m \<and> LEASE_LIVE_PREDICATE (mg_lease m) now"
proof (rule ccontr)
  define p where "p = (\<lambda>a. leased_in sc a \<and>
            \<not> exists_row (\<lambda>m. holds_message sc s ex a m \<and> LEASE_LIVE_PREDICATE (mg_lease m) now) (ib_messages x) \<and> fence_open x sc)"
  assume none: "\<not> ?thesis"
  obtain b where b: "b \<in> set (ib_leases x)" "a = (if p b then terminal At_expired now b else b)"
    using assms(1) by (auto simp: mark_expired_def p_def)
  have "\<not> p b"
  proof
    assume "p b"
    with b(2) have "la_state a = At_expired" by (simp add: terminal_def)
    with assms(2) show False by (simp add: leased_in_def)
  qed
  with b have "\<not> p a" by simp
  with none assms(2,3) show False by (simp add: p_def exists_row_iff)
qed

lemma mark_expired_messages [simp]:
  "ib_messages (mark_expired sc s ex now x) = ib_messages x" "ib_fences (mark_expired sc s ex now x) = ib_fences x"
  by (simp_all add: mark_expired_def)

lemma attempt_holds_live:
  assumes wf: "inbox_wf y" and y: "y = attempt_batch sc d s ex now e x" and q: "q \<in> set (select_hands sc s ex y)"
  shows "\<exists>m \<in> set (ib_messages y). mg_seq m = q \<and> mg_read m = None \<and> mg_stamp m = Some s \<and> LEASE_LIVE_PREDICATE (mg_lease m) now"
proof -
  from q obtain a m where a: "a \<in> set (ib_leases y)" "leased_in sc a" and m: "m \<in> set (ib_messages y)" "mg_seq m = q"
    "holds_message sc s ex a m" and op: "fence_open y sc"
    by (rule select_hands_row) blast
  define z where "z = (mark_acked sc ex now \<circ> attempt_cancel sc d now \<circ> attempt_rollback sc d s e \<circ> attempt_none sc d s now e \<circ>
      attempt_bind sc d s now e \<circ> attempt_claim sc d s ex now e \<circ> attempt_reap sc d ex now \<circ> insert_attempt sc d At_opening now None) x"
  have z: "y = mark_expired sc s ex now z" by (simp add: y z_def attempt_batch_def)
  have "fence_open z sc" using op fence_cong [of y z] by (simp add: z)
  with mark_expired_live a obtain m' where m': "m' \<in> set (ib_messages y)" "holds_message sc s ex a m'" "LEASE_LIVE_PREDICATE (mg_lease m') now"
    unfolding z by (metis mark_expired_messages(1))
  have "Some (mg_seq m') = Some (mg_seq m)" using m(3) m'(2) unfolding holds_message_def by metis
  then have "mg_seq m' = q" using m(2) by simp
  moreover have "mg_read m' = None" "mg_stamp m' = Some s" using m'(2) by (simp_all add: holds_message_def)
  ultimately show ?thesis using m'(1,3) by blast
qed

text \<open>A delivery counts one attempt, and no operation but a reset takes one back.\<close>

lemma row_step_counts:
  assumes "row_step b c m m'" "b \<noteq> Resetting" "b \<noteq> Overriding"
  shows "mg_attempts m \<le> mg_attempts m'"
  using assms(1) by cases (use assms(2,3) in \<open>auto simp: dead_lettered_def handed_out_def pristine_def\<close>)

lemma row_step_stamped:
  assumes "row_step b c m m'" "mg_read m' = None" "mg_stamp m' \<noteq> None" "mg_lease m' \<noteq> mg_lease m" "stamp_leased m"
  shows "mg_attempts m' = Suc (mg_attempts m)"
  using assms(1) by cases (use assms(2-5) in \<open>auto simp: dead_lettered_def handed_out_def pristine_def reset_lease_def stamp_leased_def\<close>)

lemma op_row:
  assumes wf: "inbox_wf x" and m: "m \<in> set (ib_messages x)" and m': "m' \<in> set (ib_messages (apply_op sha op x))" "mg_seq m' = mg_seq m"
  shows "row_step (op_power op) (op_clock op) m m'"
proof -
  have "\<not> fresh_row x m'" using m m'(2) wf by (auto simp: fresh_row_def inbox_wf_def)
  with op_evolves_row [OF apply_op_evolves [OF wf] m'(1)] obtain m0 where
    m0: "m0 \<in> set (ib_messages x)" "row_step (op_power op) (op_clock op) m0 m'" by blast
  then have "m0 = m"
    using same_seq [of mg_seq "ib_messages x" m0 m] m m'(2) wf identity_fields(1) [OF row_step_identity [OF m0(2)]] by (simp add: inbox_wf_def)
  with m0(2) show ?thesis by simp
qed

lemma delivers_counts:
  assumes wf: "inbox_wf x" and take: "delivers sha q op x" and m: "m \<in> set (ib_messages x)" "mg_seq m = q"
    and m': "m' \<in> set (ib_messages (apply_op sha op x))" "mg_seq m' = q"
  shows "mg_attempts m' = Suc (mg_attempts m)"
proof -
  have wf': "inbox_wf (apply_op sha op x)" by (rule apply_op_wf [OF wf])
  have only: "b = m" if "b \<in> set (ib_messages x)" "mg_seq b = q" for b
    using same_seq [of mg_seq "ib_messages x" b m] that m wf by (simp add: inbox_wf_def)
  have only': "b = m'" if "b \<in> set (ib_messages (apply_op sha op x))" "mg_seq b = q" for b
    using same_seq [of mg_seq "ib_messages (apply_op sha op x)" b m'] that m' wf' by (simp add: inbox_wf_def)
  from take have hand: "q \<in> set (op_hands sha op x)" and lease: "is_lease op" by (simp_all add: delivers_def)
  show ?thesis
  proof (cases op)
    case (Op_hand_out tenant agent now seat limit secs)
    define P where "P = set (map mg_seq (oldest limit (\<lambda>m. leasable tenant agent now seat m \<and> bearerFencePredicate x tenant agent) x))"
    have q: "q \<in> P" using hand by (auto simp: Op_hand_out hand_out_def Let_def handed_out_def P_def split: if_splits)
    from m' obtain b where b: "b \<in> set (ib_messages x)" "m' = (if mg_seq b \<in> P then handed_out (now + secs * 1000) None b else b)"
      by (auto simp: Op_hand_out hand_out_def Let_def P_def)
    then have "mg_seq b = q" using m'(2) by (auto simp: handed_out_def split: if_splits)
    with only b q show ?thesis by (auto simp: handed_out_def)
  next
    case (Op_attempt sc secs ex now)
    from take only have over: "lease_over now m" by (auto simp: delivers_def exists_row_iff Op_attempt)
    obtain b where b: "b \<in> set (ib_messages (apply_op sha op x))" "mg_seq b = q" "mg_read b = None" "mg_stamp b \<noteq> None"
        "LEASE_LIVE_PREDICATE (mg_lease b) now"
      using attempt_holds_live [of "apply_op sha op x" sc "attemptDigest sha secs (sc_seat sc)" "attemptStamp sha sc" ex now "now + secs * 1000" x q]
        wf' hand by (auto simp: Op_attempt)
    with only' have "b = m'" by blast
    with b over have "mg_lease m' \<noteq> mg_lease m" by (auto simp: lease_over_iff)
    moreover have "stamp_leased m" using wf m(1) by (simp add: inbox_wf_def)
    ultimately show ?thesis
      using row_step_stamped [OF op_row [OF wf m(1) m'(1)]] b \<open>b = m'\<close> m(2) m'(2) by simp
  qed (use lease in simp_all)
qed

text \<open>What an operation hands out is still in the table after it.\<close>

lemma lease_keeps:
  assumes "inbox_wf x" "delivers sha q op x"
  shows "\<exists>m' \<in> set (ib_messages (apply_op sha op x)). mg_seq m' = q"
proof -
  from assms(2) have hand: "q \<in> set (op_hands sha op x)" and lease: "is_lease op" by (simp_all add: delivers_def)
  show ?thesis
  proof (cases op)
    case (Op_hand_out tenant agent now seat limit secs)
    with hand show ?thesis by (auto simp: hand_out_def Let_def)
  next
    case (Op_attempt sc secs ex now)
    from hand show ?thesis unfolding Op_attempt op_hands.simps by (rule select_hands_row) (auto simp: Op_attempt)
  qed (use lease in simp_all)
qed

definition delivered :: "int \<Rightarrow> nat \<Rightarrow> inbox_db \<Rightarrow> bool" where
  "delivered q d x \<longleftrightarrow> d \<le> MAX_DELIVERY_ATTEMPTS \<and> (ib_next x \<le> q \<longrightarrow> d = 0) \<and> (\<forall>m \<in> set (ib_messages x). mg_seq m = q \<longrightarrow> d \<le> mg_attempts m)"

lemma delivered_step:
  assumes wf: "inbox_wf x" and d: "delivered q d x" and no: "\<not> is_reset op" and within: "within_attempts (apply_op sha op x)"
  shows "delivered q (d + of_bool (delivers sha q op x)) (apply_op sha op x)"
proof -
  note ev = apply_op_evolves [OF wf, of op sha]
  have power: "op_power op \<noteq> Resetting" "op_power op \<noteq> Overriding" using no by auto
  have old: "\<exists>m \<in> set (ib_messages x). mg_seq m = q" "q < ib_next x" if "delivers sha q op x"
    using that wf by (auto simp: delivers_def exists_row_iff inbox_wf_def)
  have rows: "d + of_bool (delivers sha q op x) \<le> mg_attempts m'"
    if m': "m' \<in> set (ib_messages (apply_op sha op x))" "mg_seq m' = q" for m'
  proof (cases "fresh_row x m'")
    case True
    then show ?thesis using d m'(2) old(2) by (auto simp: fresh_row_def delivered_def)
  next
    case False
    with op_evolves_row [OF ev m'(1)] obtain m where m: "m \<in> set (ib_messages x)" "row_step (op_power op) (op_clock op) m m'" by blast
    then have q: "mg_seq m = q" using m'(2) identity_fields(1) [OF row_step_identity [OF m(2)]] by simp
    show ?thesis
      using delivers_counts [OF wf _ m(1) q m'] row_step_counts [OF m(2) power] d m(1) q by (cases "delivers sha q op x") (auto simp: delivered_def)
  qed
  have next_q: "ib_next (apply_op sha op x) \<le> q \<Longrightarrow> \<not> delivers sha q op x \<and> d = 0"
    using op_evolves_next [OF ev] old(2) d by (auto simp: delivered_def)
  have "d + of_bool (delivers sha q op x) \<le> MAX_DELIVERY_ATTEMPTS"
  proof (cases "delivers sha q op x")
    case True
    with lease_keeps [OF wf] obtain m' where m': "m' \<in> set (ib_messages (apply_op sha op x))" "mg_seq m' = q" by blast
    with rows [OF m'] within show ?thesis by (auto simp: within_attempts_def)
  qed (use d in \<open>simp add: delivered_def\<close>)
  with rows next_q show ?thesis by (auto simp: delivered_def)
qed

lemma delivered_run:
  assumes "whole ops" and "\<forall>op \<in> set ops. \<not> is_reset op" and "inbox_wf x" and "within_attempts x" and "delivered q k x"
  shows "within_attempts (run_ops sha ops x) \<and> delivered q (k + deliveries sha q ops x) (run_ops sha ops x)"
  using assms(1,2)
proof induction
  case Start
  show ?case using assms by simp
next
  case (Lease ops tenant agent now seat limit secs)
  define z where "z = run_ops sha ops x"
  define z1 where "z1 = apply_op sha (Op_reap tenant agent now seat) z"
  have z: "inbox_wf z" "within_attempts z" "delivered q (k + deliveries sha q ops x) z"
    using Lease run_ops_wf [OF assms(3)] by (simp_all add: z_def)
  have z1: "inbox_wf z1" "within_attempts z1" unfolding z1_def
    by (rule apply_op_wf [OF z(1)], rule within_step [OF z(1,2)]) simp
  have z2: "within_attempts (apply_op sha (Op_hand_out tenant agent now seat limit secs) z1)"
    using within_lease [OF z(1,2), of sha tenant agent now seat limit secs] by (simp add: lease_call_def z1_def)
  have "delivered q (k + deliveries sha q ops x) z1"
    using delivered_step [OF z(1,3), of "Op_reap tenant agent now seat" sha] z z1 by (simp add: z1_def delivers_def)
  from delivered_step [OF z1(1) this _ z2]
  have d: "delivered q (k + deliveries sha q ops x + of_bool (delivers sha q (Op_hand_out tenant agent now seat limit secs) z1))
      (apply_op sha (Op_hand_out tenant agent now seat limit secs) z1)" by simp
  have run: "run_ops sha (ops @ lease_call tenant agent now seat limit secs) x = apply_op sha (Op_hand_out tenant agent now seat limit secs) z1"
    unfolding run_ops_simps lease_call_def z_def z1_def ..
  have count: "deliveries sha q (ops @ lease_call tenant agent now seat limit secs) x =
      deliveries sha q ops x + of_bool (delivers sha q (Op_hand_out tenant agent now seat limit secs) z1)"
    unfolding deliveries_append lease_call_def deliveries.simps z_def [symmetric] z1_def [symmetric]
    by (simp add: delivers_def [of sha q "Op_reap tenant agent now seat"])
  show ?case unfolding run count using d z2 by (simp only: add.assoc)
next
  case (Other ops op)
  define z where "z = run_ops sha ops x"
  have z: "inbox_wf z" "within_attempts z" "delivered q (k + deliveries sha q ops x) z" "\<not> is_reset op"
    using Other run_ops_wf [OF assms(3)] by (simp_all add: z_def)
  have w: "within_attempts (apply_op sha op z)" using within_step z Other by blast
  from delivered_step [OF z(1,3,4) w] z(1) w show ?case
    by (simp add: deliveries_append z_def [symmetric] add.assoc)
qed

text \<open>C10: A message is delivered at most five times. Along any run whose plain leases are not torn apart and in which no operator resets
  a lease, whatever else happens between them, the leases hand out a message while nobody holds it at most five times, the
  deliveries counted before the run included; and a message that was parked as a dead letter is handed out by no lease, torn or not.\<close>
theorem deliveries_bounded:
  assumes "whole ops" and "\<forall>op \<in> set ops. \<not> is_reset op" and "inbox_wf x" and "within_attempts x"
  shows "deliveries sha q ops x \<le> 5 \<and>
    (\<forall>m \<in> set (ib_messages x). mg_seq m = q \<longrightarrow> mg_attempts m + deliveries sha q ops x \<le> 5) \<and>
    (\<forall>m \<in> set (ib_messages (run_ops sha ops x)). mg_dead m \<noteq> None \<longrightarrow>
       (\<forall>op. is_lease op \<longrightarrow> mg_seq m \<notin> set (op_hands sha op (run_ops sha ops x))))"
proof (intro conjI ballI impI)
  have "delivered q 0 x" by (simp add: delivered_def)
  from delivered_run [OF assms this, of sha] show "deliveries sha q ops x \<le> 5" by (simp add: delivered_def MAX_DELIVERY_ATTEMPTS_def)
next
  fix m assume m: "m \<in> set (ib_messages x)" "mg_seq m = q"
  have "b = m" if "b \<in> set (ib_messages x)" "mg_seq b = q" for b
    using same_seq [of mg_seq "ib_messages x" b m] that m assms(3) by (simp add: inbox_wf_def)
  moreover have "mg_seq m < ib_next x" "mg_attempts m \<le> MAX_DELIVERY_ATTEMPTS"
    using assms(3,4) m(1) by (simp_all add: inbox_wf_def within_attempts_def)
  ultimately have "delivered q (mg_attempts m) x" unfolding delivered_def using m(2) by fastforce
  from delivered_run [OF assms this, of sha] show "mg_attempts m + deliveries sha q ops x \<le> 5"
    by (simp add: delivered_def MAX_DELIVERY_ATTEMPTS_def)
next
  fix m assume m: "m \<in> set (ib_messages (run_ops sha ops x))" "mg_dead m \<noteq> None"
  show "\<forall>op. is_lease op \<longrightarrow> mg_seq m \<notin> set (op_hands sha op (run_ops sha ops x))"
    using dead_not_leased [OF run_ops_wf [OF assms(3)] m] by blast
qed


section \<open>The fence\<close>

definition quiet :: inbox_race where
  "quiet p x = x"

lemma update_messages_none: "(\<And>m. m \<in> set (ib_messages x) \<Longrightarrow> \<not> p m) \<Longrightarrow> update_messages p f x = x"
  by (simp add: update_messages_def map_idI)

lemma update_leases_none: "(\<And>a. a \<in> set (ib_leases x) \<Longrightarrow> \<not> p a) \<Longrightarrow> update_leases p f x = x"
  by (simp add: update_leases_def map_idI)

lemma oldest_none: "(\<And>m. \<not> p m) \<Longrightarrow> oldest n p x = []"
  by (simp add: oldest_def)

lemma no_opening: "inbox_wf x \<Longrightarrow> a \<in> set (ib_leases x) \<Longrightarrow> \<not> is_opening sc d a"
  by (auto simp: inbox_wf_def is_opening_def)

lemma no_attemptOpening: "inbox_wf x \<Longrightarrow> \<not> attemptOpening sc d x"
  by (auto simp: attemptOpening_def exists_row_iff no_opening)

text \<open>A batch that inserts no receipt of its own only ends the receipt that is there.\<close>

lemma attempt_batch_again:
  assumes wf: "inbox_wf x" and again: "insert_attempt sc d At_opening now None x = x"
  shows "attempt_batch sc d s ex now e x = mark_expired sc s ex now (mark_acked sc ex now x)"
proof -
  have "attempt_reap sc d ex now x = x" "attempt_claim sc d s ex now e x = x" "attempt_rollback sc d s e x = x"
    using no_attemptOpening [OF wf] by (simp_all add: attempt_reap_def attempt_claim_def attempt_rollback_def update_messages_none)
  moreover have "attempt_bind sc d s now e x = x" "attempt_none sc d s now e x = x" "attempt_cancel sc d now x = x"
    using no_opening [OF wf]
    by (simp_all add: attempt_bind_def attempt_none_def attempt_cancel_def update_leases_none split: option.splits)
  ultimately show ?thesis by (simp add: attempt_batch_def again)
qed

lemma marks_closed:
  assumes "\<not> fence_open x sc"
  shows "mark_acked sc ex now x = x" "mark_expired sc s ex now x = x" "insert_attempt sc d st now r x = x"
  using assms by (simp_all add: mark_acked_def mark_expired_def insert_attempt_def update_leases_none)

lemma select_closed: "\<not> fence_open x sc \<Longrightarrow> attemptResultSelect sc s ex x = None"
  by (simp add: attemptResultSelect_def)

lemma no_receipt_quiet: "\<not> fence_open x sc \<Longrightarrow> no_receipt quiet sc x = (x, Inl Consumer_fenced)"
  by (simp add: no_receipt_def quiet_def blocks_iff)

lemma attempt_closed:
  assumes "inbox_wf x" "\<not> fence_open x sc"
  shows "leaseAgentInboxWithAttempt sha quiet sc secs ex now x = (x, Inl Consumer_fenced)"
  using assms by (simp add: leaseAgentInboxWithAttempt_def Let_def attempt_batch_again marks_closed select_closed no_receipt_quiet)

lemma plain_closed:
  assumes "\<not> bearerFencePredicate x tenant agent"
  shows "leasePlain sha quiet tenant agent limit secs now seat x = (x, Inl Consumer_fenced)"
  using assms
  by (simp add: leasePlain_def Let_def reap_poisoned_def hand_out_def oldest_none update_messages_none quiet_def blocks_iff)

lemma lease_closed:
  assumes wf: "inbox_wf x" and closed: "\<not> bearerFencePredicate x tenant (li_agent i)"
  shows "\<exists>r. leaseAgentInbox sha quiet tenant i now x = (x, Inl r)"
  unfolding leaseAgentInbox_def Let_def
  by (auto simp: plain_closed [OF closed] attempt_closed [OF wf] closed split: option.split)

lemma reconcile_closed:
  assumes "\<not> bearerFencePredicate x tenant agent"
  shows "\<exists>r. reconcileAgentInboxLeaseAttempt sha quiet tenant agent seat attempt ex now x = (x, Inl r)"
  using assms
  by (auto simp: reconcileAgentInboxLeaseAttempt_def Let_def reconcile_batch_def marks_closed select_closed no_receipt_quiet attempt_scope_of_def
    split: option.split)

lemma ack_attempt_closed:
  assumes "inbox_wf x" "\<not> bearerFencePredicate x tenant agent"
  shows "\<exists>r. ackAgentInboxLeaseAttempt sha quiet tenant agent seat attempt ex now x = (x, Inl r)"
  using assms
  by (auto simp: ackAgentInboxLeaseAttempt_def Let_def ack_closed no_receipt_quiet attempt_scope_of_def split: option.split)

lemma ack_all_closed:
  assumes "\<not> bearerFencePredicate x tenant agent"
  shows "foldl (\<lambda>st chunk. ack_chunk tenant agent now chunk st) (x, acked) cs = (x, acked)"
  by (induction cs) (simp_all add: ack_chunk_def ack_moves_def assms update_messages_none)

lemma ack_closed_messages:
  assumes "\<not> bearerFencePredicate x tenant agent"
  shows "\<exists>r. ackAgentMessages quiet tenant agent input now x = (x, Inl r)"
  using assms by (auto simp: ackAgentMessages_def ack_all_def ack_all_closed quiet_def blocks_iff)

definition shown :: "'e + inbox_result \<Rightarrow> message_view list" where
  "shown r = (case r of Inl _ \<Rightarrow> [] | Inr a \<Rightarrow> ir_messages a)"

lemma read_closed:
  assumes "\<not> bearerFencePredicate x tenant (ri_agent i)"
  shows "fst (readAgentInboxForReader sha quiet tenant i Bearer now x) = x \<and>
    shown (snd (readAgentInboxForReader sha quiet tenant i Bearer now x)) = []"
proof -
  have "peek_page Bearer tenant i n x = []" for n using assms by (simp add: peek_page_def fence_admits_def oldest_none)
  moreover have "consume Bearer tenant (ri_agent i) seat n now x = (x, [])" for n seat
    using assms by (simp add: consume_def Let_def fence_admits_def oldest_none update_messages_none)
  ultimately show ?thesis
    by (auto simp: readAgentInboxForReader_def Let_def shown_def annotateMessages_def quiet_def split: option.split)
qed

lemma dead_letters_closed:
  assumes "\<not> bearerFencePredicate x tenant agent"
  shows "\<exists>r. listDeadLetteredMessages sha quiet tenant agent limit x = (x, Inl r)"
proof -
  have "oldest n (dead_unread tenant agent x) x = []" for n using assms by (simp add: dead_unread_def oldest_none)
  with assms show ?thesis by (auto simp: listDeadLetteredMessages_def Let_def quiet_def blocks_iff split: option.split)
qed

text \<open>C14: A fenced inbox is sealed against bearer tokens. While the fence of an agent gives its inbox to the signed consumer, none of
  the six bearer operations changes a single table or returns a message: leasing, reconciling and acknowledging an attempt,
  acknowledging ids and listing dead letters refuse, and a read, consuming or not, shows nothing.\<close>
theorem fenced_inbox_sealed:
  assumes "inbox_wf x" and "bearerFenceBlocks x tenant agent"
  shows "(\<forall>i now. li_agent i = agent \<longrightarrow> (\<exists>r. leaseAgentInbox sha quiet tenant i now x = (x, Inl r))) \<and>
    (\<forall>seat attempt ex now. \<exists>r. reconcileAgentInboxLeaseAttempt sha quiet tenant agent seat attempt ex now x = (x, Inl r)) \<and>
    (\<forall>seat attempt ex now. \<exists>r. ackAgentInboxLeaseAttempt sha quiet tenant agent seat attempt ex now x = (x, Inl r)) \<and>
    (\<forall>ids now. \<exists>r. ackAgentMessages quiet tenant agent ids now x = (x, Inl r)) \<and>
    (\<forall>limit. \<exists>r. listDeadLetteredMessages sha quiet tenant agent limit x = (x, Inl r)) \<and>
    (\<forall>i now. ri_agent i = agent \<longrightarrow> fst (readAgentInboxForReader sha quiet tenant i Bearer now x) = x \<and>
       shown (snd (readAgentInboxForReader sha quiet tenant i Bearer now x)) = [])"
proof -
  have closed: "\<not> bearerFencePredicate x tenant agent" using assms(2) by (simp add: blocks_iff)
  then have lease: "li_agent i = agent \<Longrightarrow> \<exists>r. leaseAgentInbox sha quiet tenant i now x = (x, Inl r)" for i now
    using lease_closed [OF assms(1)] by blast
  from closed have read: "ri_agent i = agent \<Longrightarrow> fst (readAgentInboxForReader sha quiet tenant i Bearer now x) = x \<and>
      shown (snd (readAgentInboxForReader sha quiet tenant i Bearer now x)) = []" for i now
    using read_closed [of x tenant i sha now] by simp
  show ?thesis
    by (intro conjI allI impI lease reconcile_closed [OF closed] ack_attempt_closed [OF assms(1) closed] ack_closed_messages [OF closed]
      dead_letters_closed [OF closed]) (simp_all add: read)
qed


section \<open>Acknowledging an attempt\<close>

lemma terminal_stays:
  assumes "a \<in> set (ib_leases x)" "la_state a \<notin> {At_opening, At_leased}" "receipts_evolve x x'"
  shows "a \<in> set (ib_leases x')"
  using assms unfolding receipts_evolve_def receipt_step_def by force

interpretation settled: stable sha "\<lambda>_. True" "\<lambda>x. a \<in> set (ib_leases x) \<and> la_state a \<notin> {At_opening, At_leased}" for sha a
  by unfold_locales (blast intro: terminal_stays apply_op_receipts)

lemma first_row_only_key:
  assumes "distinct (map k xs)" "a \<in> set xs" "k a = c" "p a"
  shows "first_row (\<lambda>b. k b = c \<and> p b) xs = Some a"
proof -
  have "first_row (\<lambda>b. k b = c \<and> p b) xs \<noteq> None" using assms(2-4) by (auto simp: first_row_None)
  then obtain b where b: "first_row (\<lambda>b. k b = c \<and> p b) xs = Some b" by auto
  from first_row_Some [OF this] same_seq [OF assms(1), of b a] assms(2,3) b show ?thesis by simp
qed

definition read_at :: "int \<Rightarrow> int \<Rightarrow> inbox_db \<Rightarrow> bool" where
  "read_at q t x \<longleftrightarrow> q < ib_next x \<and> (\<forall>m \<in> set (ib_messages x). mg_seq m = q \<longrightarrow> mg_read m = Some t)"

lemma read_step:
  assumes wf: "inbox_wf x" and r: "read_at q t x"
  shows "read_at q t (apply_op sha op x)"
  unfolding read_at_def
proof (intro conjI ballI impI)
  note ev = apply_op_evolves [OF wf, of op sha]
  show "q < ib_next (apply_op sha op x)" using op_evolves_next [OF ev] r by (simp add: read_at_def)
  fix m' assume m': "m' \<in> set (ib_messages (apply_op sha op x))" "mg_seq m' = q"
  then have "\<not> fresh_row x m'" using r by (auto simp: read_at_def fresh_row_def)
  with op_evolves_row [OF ev m'(1)] obtain m where m: "m \<in> set (ib_messages x)" "row_step (op_power op) (op_clock op) m m'" by blast
  then have "mg_read m = Some t" using r m'(2) identity_fields(1) [OF row_step_identity [OF m(2)]] by (simp add: read_at_def)
  with row_step_read [OF m(2)] show "mg_read m' = Some t" by simp
qed

lemma read_start:
  assumes "inbox_wf x" "m \<in> set (ib_messages x)" "mg_read m = Some t" "mg_seq m = q"
  shows "read_at q t x"
  unfolding read_at_def
proof (intro conjI ballI impI)
  show "q < ib_next x" using assms by (auto simp: inbox_wf_def)
  fix m' assume "m' \<in> set (ib_messages x)" "mg_seq m' = q"
  then have "m' = m" using same_seq [of mg_seq "ib_messages x" m' m] assms by (simp add: inbox_wf_def)
  then show "mg_read m' = Some t" using assms(3) by simp
qed

interpretation read: stable sha "\<lambda>_. True" "read_at q t" for sha q t
  by unfold_locales (rule read_step)

lemma ack_frame:
  "ib_fences (ack_batch sc s ex now x) = ib_fences x"
  "ib_leases (ack_batch sc s ex now x) =
     ib_leases (mark_expired sc s ex now (ack_settle sc s ex now (ack_read sc s ex now
       (insert_attempt sc CANCELLED_ATTEMPT_DIGEST At_cancelled now (Some now) x))))"
  by (simp_all add: ack_batch_def ack_unstamp_def ack_restore_def mark_expired_def ack_settle_def ack_read_def)

lemma ack_batch_wf: "inbox_wf x \<Longrightarrow> inbox_wf (ack_batch sc (attemptStamp sha sc) ex now x)"
  using apply_op_wf [of x sha "Op_ack_attempt sc ex now"] by simp

lemma ack_hit_unique:
  assumes wf: "inbox_wf x" and m: "m \<in> set (ib_messages x)" "ack_hit sc s ex now x m"
    and m': "m' \<in> set (ib_messages x)" "ack_hit sc s ex now x m'"
  shows "m' = m"
proof -
  from m(2) obtain a where a: "a \<in> set (ib_leases x)" "la_scope a = sc" "Some (mg_id m) = la_message a"
    by (auto simp: ack_hit_def exists_row_iff leased_in_def holds_message_def)
  from m'(2) obtain b where b: "b \<in> set (ib_leases x)" "la_scope b = sc" "Some (mg_id m') = la_message b"
    by (auto simp: ack_hit_def exists_row_iff leased_in_def holds_message_def)
  have "b = a" using same_seq [of la_scope "ib_leases x" b a] a b wf by (simp add: inbox_wf_def)
  with a(3) b(3) have "mg_id m' = mg_id m" by (metis option.inject)
  with same_seq [of mg_id "ib_messages x" m' m] m(1) m'(1) wf show ?thesis by (simp add: inbox_wf_def)
qed

text \<open>The answer of an acknowledgement whose receipt is acknowledged after its batch.\<close>

lemma ack_answer:
  assumes wf: "inbox_wf x" and sc: "sc = attempt_scope_of tenant agent seat attempt" and input: "attempt_refusal tenant agent attempt = None"
    and op: "fence_open x sc"
    and a: "a \<in> set (ib_leases (ack_batch sc (attemptStamp sha sc) ex now x))" "la_scope a = sc" "la_state a = At_acked"
  shows "snd (ackAgentInboxLeaseAttempt sha race tenant agent seat attempt ex now x) =
    Inr \<lparr>aa_scope = sc, aa_state = At_acked, aa_consumed = True\<rparr>"
proof -
  define y where "y = ack_batch sc (attemptStamp sha sc) ex now x"
  have "distinct (map la_scope (ib_leases y))" using ack_batch_wf [OF wf] unfolding y_def inbox_wf_def by blast
  from first_row_only_key [OF this a(1) [folded y_def] a(2), of "\<lambda>b. la_state b \<in> {At_empty, At_cancelled, At_expired, At_acked}"] a(3)
  have f: "first_row (\<lambda>b. la_scope b = sc \<and> la_state b \<in> {At_empty, At_cancelled, At_expired, At_acked}) (ib_leases y) = Some a" by simp
  have "fence_open y sc" using op fence_cong [of y x] by (simp add: y_def ack_frame)
  with f show ?thesis
    using a(2,3) by (simp add: ackAgentInboxLeaseAttempt_def Let_def input sc [symmetric] y_def [symmetric])
qed

text \<open>C11: An attempt is acknowledged once. Acknowledging an attempt that still holds its message answers that the message was
  consumed, marks exactly that message read at this instant and leaves every other message as it was, apart from dropping the
  stamp of messages already read. Whatever operations follow, a repeated acknowledgement under an open fence gives the same
  answer, and the message stays read since the first one.\<close>
theorem attempt_acked_once:
  assumes "inbox_wf x" and "sc = attempt_scope_of tenant agent seat attempt" and "attempt_refusal tenant agent attempt = None"
    and "m \<in> set (ib_messages x)" and "ack_hit sc (attemptStamp sha sc) ex now x m"
    and "y = fst (ackAgentInboxLeaseAttempt sha quiet tenant agent seat attempt ex now x)"
    and "answer = Inr \<lparr>aa_scope = sc, aa_state = At_acked, aa_consumed = True\<rparr>"
  shows "snd (ackAgentInboxLeaseAttempt sha quiet tenant agent seat attempt ex now x) = answer \<and>
    acked_row now m \<in> set (ib_messages y) \<and>
    (\<forall>m' \<in> set (ib_messages y). mg_seq m' \<noteq> mg_seq m \<longrightarrow>
       (\<exists>m0 \<in> set (ib_messages x). m' = m0 \<or> mg_read m0 \<noteq> None \<and> m' = m0\<lparr>mg_stamp := None\<rparr>)) \<and>
    (\<forall>ops now' race. fence_open (run_ops sha ops y) sc \<longrightarrow>
       snd (ackAgentInboxLeaseAttempt sha race tenant agent seat attempt ex now' (run_ops sha ops y)) = answer \<and>
       (\<forall>m' \<in> set (ib_messages (run_ops sha ops y)). mg_seq m' = mg_seq m \<longrightarrow> mg_read m' = Some now))"
proof -
  define z where "z = ack_batch sc (attemptStamp sha sc) ex now x"
  have wf: "inbox_wf z" unfolding z_def by (rule ack_batch_wf [OF assms(1)])
  have op: "fence_open x sc" using assms(5) by (simp add: ack_hit_def)
  obtain g where g: "ib_messages z = map g (ib_messages x)"
    "\<And>m. m \<in> set (ib_messages x) \<Longrightarrow> ack_effect sc (attemptStamp sha sc) ex now x m (g m)"
    using ack_open [OF assms(1) op, of "attemptStamp sha sc" ex now] unfolding z_def by blast
  have gm: "acked_row now m \<in> set (ib_messages z)"
    using g(2) [OF assms(4)] assms(4,5) unfolding g(1) by (auto simp: ack_effect_def intro!: image_eqI [of _ _ m])
  from ack_open_rows [OF assms(1) op assms(4,5) refl] obtain a where a: "a \<in> set (ib_leases z)" "la_scope a = sc" "la_state a = At_acked"
    unfolding z_def ack_frame exists_row_iff by blast
  have first: "snd (ackAgentInboxLeaseAttempt sha quiet tenant agent seat attempt ex now x) = answer"
    unfolding assms(7) by (rule ack_answer [OF assms(1-3) op a [unfolded z_def]])
  have y: "y = z"
    by (simp add: assms(6) ackAgentInboxLeaseAttempt_def Let_def assms(3) assms(2) [symmetric] z_def [symmetric] no_receipt_def quiet_def
      split: option.split)
  have others: "\<exists>m0 \<in> set (ib_messages x). m' = m0 \<or> mg_read m0 \<noteq> None \<and> m' = m0\<lparr>mg_stamp := None\<rparr>"
    if "m' \<in> set (ib_messages z)" "mg_seq m' \<noteq> mg_seq m" for m'
  proof -
    from that(1) obtain m0 where m0: "m0 \<in> set (ib_messages x)" "m' = g m0" unfolding g(1) by auto
    have "\<not> ack_hit sc (attemptStamp sha sc) ex now x m0"
    proof
      assume hit: "ack_hit sc (attemptStamp sha sc) ex now x m0"
      then have "m0 = m" by (rule ack_hit_unique [OF assms(1,4,5) m0(1)])
      moreover have "g m0 = acked_row now m0" using g(2) [OF m0(1)] hit unfolding ack_effect_def by (simp only: if_True)
      ultimately have "mg_seq m' = mg_seq m" unfolding m0(2) by (simp add: acked_row_def)
      with that(2) show False by blast
    qed
    with g(2) [OF m0(1)] have "g m0 = m0 \<or> mg_read m0 \<noteq> None \<and> g m0 = m0\<lparr>mg_stamp := None\<rparr>" by (simp only: ack_effect_def if_False)
    then show ?thesis using m0(1) unfolding m0(2) by blast
  qed
  have seq: "read_at (mg_seq m) now z"
    by (rule read_start [OF wf gm]) (simp_all add: acked_row_def)
  have later: "snd (ackAgentInboxLeaseAttempt sha race tenant agent seat attempt ex now' (run_ops sha ops z)) = answer"
    if "fence_open (run_ops sha ops z) sc" for ops now' race
  proof -
    have "a \<in> set (ib_leases (run_ops sha ops z))" using settled.run [OF wf] a by simp
    then have "a \<in> set (ib_leases (ack_batch sc (attemptStamp sha sc) ex now' (run_ops sha ops z)))"
      by (rule terminal_stays) (use a receipts_ack in simp_all)
    from ack_answer [OF run_ops_wf [OF wf] assms(2,3) that this a(2,3)] show ?thesis unfolding assms(7) .
  qed
  show ?thesis unfolding y using first gm others later read.run [OF wf seq] by (auto simp: read_at_def)
qed


section \<open>Repeating an attempt\<close>

text \<open>An operation that neither names the attempt nor deletes a loopback message, and is no operator's reset that overrides a live lease.\<close>

fun leaves_alone :: "attempt_scope \<Rightarrow> inbox_op \<Rightarrow> bool" where
  "leaves_alone sc (Op_attempt sc' _ _ _) = (sc' \<noteq> sc)"
| "leaves_alone sc (Op_reconcile sc' _ _) = (sc' \<noteq> sc)"
| "leaves_alone sc (Op_ack_attempt sc' _ _) = (sc' \<noteq> sc)"
| "leaves_alone sc (Op_delete _ _ _ _ _) = False"
| "leaves_alone sc (Op_reset _ _ override _ _ _) = (\<not> override)"
| "leaves_alone sc _ = True"

lemma in_update_leases: "a \<in> set (ib_leases x) \<Longrightarrow> \<not> p a \<Longrightarrow> a \<in> set (ib_leases (update_leases p f x))"
  by (force simp: image_iff)

lemma other_stages:
  assumes "a \<in> set (ib_leases x)" "la_scope a \<noteq> sc"
  shows "a \<in> set (ib_leases (mark_acked sc ex now x))" "a \<in> set (ib_leases (mark_expired sc s ex now x))"
    "a \<in> set (ib_leases (ack_settle sc s ex now x))" "a \<in> set (ib_leases (attempt_none sc d s now e x))"
    "a \<in> set (ib_leases (attempt_cancel sc d now x))" "a \<in> set (ib_leases (attempt_bind sc d s now e x))"
    "a \<in> set (ib_leases (insert_attempt sc d st now r x))" "a \<in> set (ib_leases (attempt_reap sc d ex now x))"
    "a \<in> set (ib_leases (attempt_claim sc d s ex now e x))" "a \<in> set (ib_leases (attempt_rollback sc d s e x))"
    "a \<in> set (ib_leases (ack_read sc s ex now x))" "a \<in> set (ib_leases (ack_restore sc s ex now x))"
    "a \<in> set (ib_leases (ack_unstamp sc s ex x))"
  unfolding mark_acked_def mark_expired_def ack_settle_def attempt_none_def attempt_cancel_def attempt_bind_def
  using assms
  by (auto intro!: in_update_leases split: option.split)
    (auto simp: leased_in_def is_opening_def insert_attempt_def attempt_reap_def attempt_claim_def attempt_rollback_def ack_read_def
      ack_restore_def ack_unstamp_def)

lemma receipt_left_alone:
  assumes "a \<in> set (ib_leases x)" "leaves_alone (la_scope a) op"
  shows "a \<in> set (ib_leases (apply_op sha op x))"
proof (cases op)
  case (Op_attempt sc secs ex now)
  then show ?thesis using assms by (simp add: attempt_batch_def other_stages)
next
  case (Op_reconcile sc ex now)
  then show ?thesis using assms by (simp add: reconcile_batch_def other_stages)
next
  case (Op_ack_attempt sc ex now)
  then show ?thesis using assms by (simp add: ack_batch_def other_stages)
qed (use assms in \<open>auto simp: outer_writers reap_poisoned_def hand_out_def consume_def Let_def ack_all_def ack_all_leases insert_message_def
  sosBusSend_def split: insert_outcome.splits if_splits\<close>)

lemma leaves_alone_override: "leaves_alone sc op \<Longrightarrow> \<not> is_override op"
  by (cases op) simp_all

interpretation receipt: stable sha "leaves_alone sc" "\<lambda>x. a \<in> set (ib_leases x) \<and> la_scope a = sc" for sha sc a
  by unfold_locales (blast intro: receipt_left_alone)

text \<open>An attempt that holds its message and asks again changes nothing.\<close>

lemma attempt_again:
  assumes wf: "inbox_wf x" and a: "a \<in> set (ib_leases x)" "leased_in sc a"
    and m: "m \<in> set (ib_messages x)" "holds_message sc s ex a m" and live: "LEASE_LIVE_PREDICATE (mg_lease m) now" and op: "fence_open x sc"
  shows "attempt_batch sc d s ex now e x = x" "attemptResultSelect sc s ex x = Some (a, Some m)"
proof -
  have only_a: "b = a" if "b \<in> set (ib_leases x)" "la_scope b = sc" for b
    using same_seq [of la_scope "ib_leases x" b a] that a wf by (simp add: inbox_wf_def leased_in_def)
  have only_m: "m' = m" if "m' \<in> set (ib_messages x)" "Some (mg_id m') = la_message a" for m'
  proof -
    have "mg_id m' = mg_id m" using that(2) m(2) unfolding holds_message_def by (metis option.inject)
    then show ?thesis using same_seq [of mg_id "ib_messages x" m' m] that(1) m(1) wf by (simp add: inbox_wf_def)
  qed
  have "insert_attempt sc d At_opening now None x = x" using a by (auto simp: insert_attempt_def exists_row_iff leased_in_def)
  moreover have acked: "mark_acked sc ex now x = x"
    unfolding mark_acked_def
  proof (rule update_leases_none)
    fix b assume b: "b \<in> set (ib_leases x)"
    show "\<not> (leased_in sc b \<and> exists_row (\<lambda>m. Some (mg_id m) = la_message b \<and> to_scope sc m \<and> exact_seat ex (sc_seat sc) m \<and>
        mg_read m \<noteq> None) (ib_messages x) \<and> fence_open x sc)"
      using only_a [OF b] only_m m(2) by (auto simp: exists_row_iff leased_in_def holds_message_def)
  qed
  moreover have "mark_expired sc s ex now x = x"
    unfolding mark_expired_def
    by (rule update_leases_none) (use only_a m live in \<open>auto simp: exists_row_iff leased_in_def\<close>)
  ultimately show "attempt_batch sc d s ex now e x = x" using attempt_batch_again [OF wf] by simp
  have "distinct (map la_scope (ib_leases x))" using wf by (simp add: inbox_wf_def)
  from first_row_only_key [OF this a(1), of sc "\<lambda>_. True"] a(2) have fa: "first_row (\<lambda>b. la_scope b = sc) (ib_leases x) = Some a"
    by (simp add: leased_in_def)
  have "first_row (holds_message sc s ex a) (ib_messages x) = Some m"
  proof -
    obtain m' where m': "first_row (holds_message sc s ex a) (ib_messages x) = Some m'"
      using m first_row_None [of "holds_message sc s ex a" "ib_messages x"] by (cases "first_row (holds_message sc s ex a) (ib_messages x)") auto
    from first_row_Some [OF this] only_m m' show ?thesis by (simp add: holds_message_def)
  qed
  with fa a(2) op show "attemptResultSelect sc s ex x = Some (a, Some m)" by (simp add: attemptResultSelect_def leased_in_def)
qed

text \<open>C12: A lease attempt can be repeated. When an attempt was answered with a message, the message is unread and leased. Let any operations
  follow before the lease ends that do not name the attempt, short of the deletion of a loopback message and of an operator's reset
  that overrides the live lease. If the fence is open at the repeat and nobody has read the message, the same request is answered
  with the same result and changes no table: a lost answer costs neither a delivery nor the message.\<close>
theorem attempt_lease_repeats:
  assumes "inbox_wf x" and "leaseAgentInboxWithAttempt sha quiet sc secs ex now x = (y, Inr r)" and "ar_state r = At_leased"
  shows "\<exists>m e. m \<in> set (ib_messages y) \<and> mg_read m = None \<and> mg_lease m = Some e \<and>
    r = \<lparr>ar_scope = sc, ar_state = At_leased, ar_lease = Some e, ar_messages = annotateMessages sha [m]\<rparr> \<and>
    (\<forall>ops now' race. (\<forall>op \<in> set ops. happens_before e op \<and> leaves_alone sc op) \<longrightarrow> now' < e \<longrightarrow>
       fence_open (run_ops sha ops y) sc \<longrightarrow> (\<exists>m' \<in> set (ib_messages (run_ops sha ops y)). mg_seq m' = mg_seq m \<and> mg_read m' = None) \<longrightarrow>
       leaseAgentInboxWithAttempt sha race sc secs ex now' (run_ops sha ops y) = (run_ops sha ops y, Inr r))"
proof -
  define s where "s = attemptStamp sha sc"
  define d where "d = attemptDigest sha secs (sc_seat sc)"
  have y: "y = attempt_batch sc d s ex now (now + secs * 1000) x"
    using assms(2) by (auto simp: leaseAgentInboxWithAttempt_def Let_def no_receipt_def quiet_def s_def d_def split: option.splits)
  have wf: "inbox_wf y" using apply_op_wf [OF assms(1), of sha "Op_attempt sc secs ex now"] by (simp add: y s_def d_def)
  from assms(2,3) obtain a m where sel: "attemptResultSelect sc s ex y = Some (a, Some m)" and dig: "la_digest a = d" "la_state a = At_leased"
    and r: "r = \<lparr>ar_scope = la_scope a, ar_state = At_leased, ar_lease = la_lease a, ar_messages = annotateMessages sha [m]\<rparr>"
    unfolding leaseAgentInboxWithAttempt_def Let_def s_def [symmetric] d_def [symmetric] y [symmetric]
    by (auto simp: materializeAttempt_def no_receipt_def Let_def split: option.splits if_splits)
  note a = select_row(1,2) [OF sel] and m = select_row(3,4) [OF sel]
  from m(2) obtain e where e: "mg_read m = None" "mg_lease m = Some e" "la_lease a = Some e" by (auto simp: holds_message_def)
  have "leaseAgentInboxWithAttempt sha race sc secs ex now' z = (z, Inr r)"
    if ops: "\<forall>op \<in> set ops. happens_before e op \<and> leaves_alone sc op" and now': "now' < e" and z: "z = run_ops sha ops y"
      and op: "fence_open z sc" and unread: "\<exists>m' \<in> set (ib_messages z). mg_seq m' = mg_seq m \<and> mg_read m' = None" for ops now' race z
  proof -
    have wz: "inbox_wf z" unfolding z by (rule run_ops_wf [OF wf])
    have az: "a \<in> set (ib_leases z)" unfolding z using receipt.run [OF wf, of a sc] a ops by (simp add: leased_in_def)
    have "kept_as m z" unfolding z using held.run [OF wf, of m e] kept_start [OF wf m(1)] e(1,2) ops leaves_alone_override by blast
    with unread have mz: "m \<in> set (ib_messages z)" by (auto simp: kept_as_def)
    have live: "LEASE_LIVE_PREDICATE (mg_lease m) now'" using e(2) now' by (simp add: LEASE_LIVE_PREDICATE_def)
    show ?thesis
      using attempt_again [OF wz az a(2) mz m(2) live op] a(2) dig
      by (simp add: leaseAgentInboxWithAttempt_def Let_def s_def [symmetric] d_def [symmetric] materializeAttempt_def r leased_in_def)
  qed
  with m(1) e r a(2) show ?thesis by (intro exI [of _ m] exI [of _ e]) (simp add: leased_in_def)
qed


section \<open>Sending once\<close>

fun is_delete :: "inbox_op \<Rightarrow> bool" where
  "is_delete (Op_delete _ _ _ _ _) = True"
| "is_delete _ = False"

fun is_send :: "inbox_op \<Rightarrow> bool" where
  "is_send (Op_send _ _ _ _ _ _) = True"
| "is_send (Op_bus _ _ _ _ _) = True"
| "is_send _ = False"

lemma op_rows_map:
  assumes "inbox_wf x" "\<not> is_delete op" "\<not> is_send op"
  shows "rows_map (op_power op) (op_clock op) x (apply_op sha op x)"
  using assms(2,3)
  by (cases op) (simp_all add: op_power_def reap_rows hand_out_rows [OF assms(1)] attempt_rows [OF assms(1)] ack_rows [OF assms(1)] ack_all_rows
    consume_rows [OF assms(1)] settle_rows recover_rows reset_rows doorbell_rows rows_map_id reconcile_messages)

definition sent_with :: "string \<Rightarrow> string \<Rightarrow> string \<Rightarrow> message_row \<Rightarrow> bool" where
  "sent_with tenant from rid m \<longleftrightarrow> mg_tenant m = tenant \<and> mg_from m = from \<and> mg_request m = Some rid"

text \<open>The message \<open>m0\<close> is the one message its sender sent under this request id.\<close>

definition sole_message :: "string \<Rightarrow> string \<Rightarrow> string \<Rightarrow> message_row \<Rightarrow> inbox_db \<Rightarrow> bool" where
  "sole_message tenant from rid m0 x \<longleftrightarrow>
     (\<exists>m \<in> set (ib_messages x). identity m = identity m0) \<and> sent_with tenant from rid m0 \<and>
     (\<forall>m \<in> set (ib_messages x). sent_with tenant from rid m \<longrightarrow> identity m = identity m0)"

lemma sent_with_identity: "identity m' = identity m \<Longrightarrow> sent_with tenant from rid m' \<longleftrightarrow> sent_with tenant from rid m"
  using identity_fields [of m' m] by (simp add: sent_with_def)

lemma sole_present:
  assumes "sole_message tenant from rid m0 x"
  shows "\<exists>m \<in> set (ib_messages x). sent_with tenant from rid m"
proof -
  from assms obtain m where "m \<in> set (ib_messages x)" "identity m = identity m0" "sent_with tenant from rid m0"
    by (auto simp: sole_message_def)
  then show ?thesis using sent_with_identity [of m m0] by blast
qed

lemma sole_map:
  assumes "rows_map b c x x'" "sole_message tenant from rid m0 x"
  shows "sole_message tenant from rid m0 x'"
proof -
  from assms(1) obtain g where g: "ib_messages x' = map g (ib_messages x)" "\<And>m. m \<in> set (ib_messages x) \<Longrightarrow> identity (g m) = identity m"
    using row_step_identity unfolding rows_map_def by blast
  then show ?thesis using assms(2) sent_with_identity [OF g(2)] by (auto simp: sole_message_def)
qed

lemma sole_duplicate:
  assumes "sole_message tenant from rid m0 x" "sn_from j = from" "sn_request j = Some rid"
  obtains m where "duplicate_of x tenant j = Some m" "identity m = identity m0"
proof -
  have d: "duplicate_of x tenant j = first_row (sent_with tenant from rid) (ib_messages x)"
    by (simp add: duplicate_of_def findBySenderRequestId_def assms(2,3) sent_with_def [abs_def])
  from sole_present [OF assms(1)] have "first_row (sent_with tenant from rid) (ib_messages x) \<noteq> None"
    unfolding first_row_None by blast
  then obtain m where m: "first_row (sent_with tenant from rid) (ib_messages x) = Some m" by blast
  with first_row_Some [OF m] assms(1) that d show ?thesis by (auto simp: sole_message_def)
qed

lemma sole_step:
  assumes wf: "inbox_wf x" and sole: "sole_message tenant from rid m0 x" and "\<not> is_delete op"
  shows "sole_message tenant from rid m0 (apply_op sha op x)"
proof (cases op)
  case (Op_send e t i mid now cap)
  show ?thesis
  proof (cases "insert_message sha e t i mid now cap x")
    case (Insert_landed x')
    note landed = insert_landed [OF this]
    have "\<not> sent_with tenant from rid (sent_row sha t i mid now (ib_next x))"
    proof
      assume "sent_with tenant from rid (sent_row sha t i mid now (ib_next x))"
      then have key: "t = tenant" "sn_from i = from" "sn_request i = Some rid" by (simp_all add: sent_with_def sent_row_def)
      with landed(3) have "first_row (sent_with tenant from rid) (ib_messages x) = None"
        by (simp add: duplicate_of_def findBySenderRequestId_def sent_with_def [abs_def])
      then show False using sole_present [OF sole] unfolding first_row_None by blast
    qed
    with sole landed(1) Op_send Insert_landed show ?thesis by (auto simp: sole_message_def)
  qed (use sole Op_send in simp_all)
next
  case (Op_bus t target body mid now)
  show ?thesis
  proof (cases "sosBusSend sha t target body mid now x")
    case (Some x')
    with sole bus_lands(1) [OF Some] Op_bus show ?thesis by (auto simp: sole_message_def sent_with_def bus_row_def Let_def)
  qed (use sole Op_bus in simp_all)
next
  case Op_delete
  with assms(3) show ?thesis by simp
qed (use sole_map [OF op_rows_map [OF wf, of op sha] sole] in simp_all)

interpretation sole: stable sha "\<lambda>op. \<not> is_delete op" "sole_message tenant from rid m0" for sha tenant "from" rid m0
  by unfold_locales (rule sole_step)

definition same_content :: "send_input \<Rightarrow> send_input \<Rightarrow> bool" where
  "same_content i j \<longleftrightarrow>
     sn_to i = sn_to j \<and> kind_of i = kind_of j \<and> sn_body i = sn_body j \<and> sn_reply_to i = sn_reply_to j \<and>
     sn_project i = sn_project j \<and> sn_seat i = sn_seat j"

text \<open>C13: A message is sent once. A send that landed put exactly its message into the recipient's inbox, under the next sequence
  number, unread and never delivered, and kept the inbox within its cap; whatever happens to the message and the inbox
  afterwards, short of deleting messages, every later send by the same sender under the same request id that passes the checks
  writes nothing: it is answered with the first message as a duplicate when its content is the same, and as a conflict when not.\<close>
theorem send_lands_once:
  assumes "inbox_wf x" and "sendAgentMessage sha quiet e tenant i mid now cap x = (y, Inr r)" and "\<not> sr_duplicate r"
    and "sn_request i = Some rid"
  shows "r = \<lparr>sr_id = mid, sr_seq = ib_next x, sr_duplicate = False\<rparr> \<and>
    ib_messages y = ib_messages x @ [sent_row sha tenant i mid now (ib_next x)] \<and> agentUnreadTotal tenant (sn_to i) y \<le> cap \<and>
    (\<forall>ops e' j mid' now' cap' race. (\<forall>op \<in> set ops. \<not> is_delete op) \<longrightarrow>
       sn_from j = sn_from i \<longrightarrow> sn_request j = Some rid \<longrightarrow> send_checks tenant j = None \<longrightarrow> send_context e' j = None \<longrightarrow>
       sendAgentMessage sha race e' tenant j mid' now' cap' (run_ops sha ops y) =
         (run_ops sha ops y, if same_content i j then Inr \<lparr>sr_id = mid, sr_seq = ib_next x, sr_duplicate = True\<rparr>
           else Inl Send_request_id_conflict))"
proof -
  define m0 where "m0 = sent_row sha tenant i mid now (ib_next x)"
  have landed: "insert_message sha e tenant i mid now cap x = Insert_landed y" and r: "r = \<lparr>sr_id = mid, sr_seq = ib_next x, sr_duplicate = False\<rparr>"
    using assms(2,3)
    by (auto simp: sendAgentMessage_def Let_def quiet_def idempotentOrConflict_def split: option.splits insert_outcome.splits if_splits)
  note y = insert_landed [OF landed]
  have wf: "inbox_wf y" using apply_op_wf [OF assms(1), of sha "Op_send e tenant i mid now cap"] landed by simp
  have key: "sent_with tenant (sn_from i) rid m0" by (simp add: m0_def sent_with_def sent_row_def assms(4))
  have none: "\<not> sent_with tenant (sn_from i) rid m" if "m \<in> set (ib_messages x)" for m
    using y(3) that by (auto simp: duplicate_of_def findBySenderRequestId_def assms(4) first_row_None sent_with_def)
  have sole: "sole_message tenant (sn_from i) rid m0 y"
    using none key by (auto simp: sole_message_def y(1) m0_def [symmetric])
  have "agentUnreadTotal tenant (sn_to i) y \<le> cap"
    using y(4) by (simp add: agentUnreadTotal_def count_messages_def y(1) sent_row_def unread_of_def)
  moreover have "sendAgentMessage sha race e' tenant j mid' now' cap' z =
      (z, if same_content i j then Inr \<lparr>sr_id = mid, sr_seq = ib_next x, sr_duplicate = True\<rparr> else Inl Send_request_id_conflict)"
    if ops: "\<forall>op \<in> set ops. \<not> is_delete op" and j: "sn_from j = sn_from i" "sn_request j = Some rid" "send_checks tenant j = None"
      "send_context e' j = None" and z: "z = run_ops sha ops y" for ops e' j mid' now' cap' race z
  proof -
    have "sole_message tenant (sn_from i) rid m0 z" unfolding z by (rule sole.run [OF wf sole ops])
    then obtain m where m: "duplicate_of z tenant j = Some m" "identity m = identity m0" by (rule sole_duplicate [OF _ j(1,2)])
    have "idempotentOrConflict m j =
        (if same_content i j then Inr \<lparr>sr_id = mid, sr_seq = ib_next x, sr_duplicate = True\<rparr> else Inl Send_request_id_conflict)"
      using identity_fields [OF m(2)] by (auto simp: idempotentOrConflict_def same_content_def m0_def sent_row_def)
    then show ?thesis by (simp add: sendAgentMessage_def j(3,4) m(1))
  qed
  ultimately show ?thesis using r y(1) by simp
qed


section \<open>What a lease hands out\<close>

lemma filter_map_keep:
  "(\<And>m. m \<in> set xs \<Longrightarrow> P (f m) \<longleftrightarrow> Q m) \<Longrightarrow> (\<And>m. m \<in> set xs \<Longrightarrow> Q m \<Longrightarrow> f m = m) \<Longrightarrow> filter P (map f xs) = filter Q xs"
  by (induction xs) auto

lemma length_filter_map: "(\<And>m. m \<in> set xs \<Longrightarrow> P (f m) \<longleftrightarrow> Q m) \<Longrightarrow> length (filter P (map f xs)) = length (filter Q xs)"
  by (induction xs) auto

lemma length_filter_either:
  "(\<And>m. m \<in> set xs \<Longrightarrow> \<not> (A m \<and> B m)) \<Longrightarrow> length (filter (\<lambda>m. A m \<or> B m) xs) = length (filter A xs) + length (filter B xs)"
  by (induction xs) auto

lemma sort_key_map_same: "(\<And>m. k (f m) = k m) \<Longrightarrow> sort_key k (map f xs) = map f (sort_key k xs)"
proof (induction xs)
  case (Cons m xs)
  have "insort_key k (f m) (map f ys) = map f (insort_key k m ys)" for ys
    by (induction ys) (simp_all add: Cons.prems)
  with Cons show ?case by simp
qed simp

text \<open>The rows picked by their seq, in order, are the oldest rows they were picked from.\<close>

lemma picked_sorted:
  assumes "distinct (map k xs)"
  shows "sort_key k (filter (\<lambda>m. k m \<in> set (map k (take n (sort_key k (filter p xs))))) xs) = take n (sort_key k (filter p xs))"
proof (rule map_sorted_distinct_set_unique [where f = k])
  define ps where "ps = take n (sort_key k (filter p xs))"
  have sub: "set ps \<subseteq> set xs" unfolding ps_def using set_take_subset [of n "sort_key k (filter p xs)"] by auto
  show set_eq: "set (sort_key k (filter (\<lambda>m. k m \<in> set (map k ps)) xs)) = set ps"
    using sub assms by (auto simp: distinct_map dest: inj_onD)
  show "inj_on k (set (sort_key k (filter (\<lambda>m. k m \<in> set (map k ps)) xs)) \<union> set ps)"
    unfolding set_eq using sub assms by (auto simp: distinct_map intro: inj_on_subset)
  have "distinct (map k (sort_key k (filter p xs)))"
    using assms by (metis distinct_map distinct_map_filter distinct_sort set_sort)
  then show "distinct (map k ps)" unfolding ps_def by (simp add: take_map [symmetric] distinct_take del: sort_key_simps)
  show "sorted (map k ps)" unfolding ps_def by (simp add: take_map [symmetric] sorted_wrt_take)
  show "sorted (map k (sort_key k (filter (\<lambda>m. k m \<in> set (map k ps)) xs)))" by simp
  show "distinct (map k (sort_key k (filter (\<lambda>m. k m \<in> set (map k ps)) xs)))"
    using assms by (metis distinct_map distinct_map_filter distinct_sort set_sort)
qed

text \<open>The messages a lease may take, and those it parks.\<close>

definition available :: "string \<Rightarrow> string \<Rightarrow> int \<Rightarrow> string option \<Rightarrow> inbox_db \<Rightarrow> message_row list" where
  "available tenant agent now seat x =
     filter (\<lambda>m. leasable tenant agent now seat m \<and> mg_attempts m < MAX_DELIVERY_ATTEMPTS) (ib_messages x)"

definition poisoned :: "string \<Rightarrow> string \<Rightarrow> int \<Rightarrow> string option \<Rightarrow> inbox_db \<Rightarrow> message_row list" where
  "poisoned tenant agent now seat x =
     filter (\<lambda>m. leasable tenant agent now seat m \<and> MAX_DELIVERY_ATTEMPTS \<le> mg_attempts m) (ib_messages x)"

lemma reap_filters:
  assumes "bearerFencePredicate x tenant agent"
  shows "filter (leasable tenant agent now seat) (ib_messages (reap_poisoned tenant agent now seat x)) = available tenant agent now seat x"
    "length (filter (\<lambda>m. unread_of tenant agent m \<and> seat_sees seat m \<and> mg_dead m \<noteq> None) (ib_messages (reap_poisoned tenant agent now seat x))) =
     length (filter (\<lambda>m. unread_of tenant agent m \<and> seat_sees seat m \<and> mg_dead m \<noteq> None) (ib_messages x)) +
     length (poisoned tenant agent now seat x)"
proof -
  define p where "p = (\<lambda>m. leasable tenant agent now seat m \<and> MAX_DELIVERY_ATTEMPTS \<le> mg_attempts m)"
  have rows: "ib_messages (reap_poisoned tenant agent now seat x) = map (\<lambda>m. if p m then dead_lettered now m else m) (ib_messages x)"
    using assms by (simp add: reap_poisoned_def p_def cong: if_cong)
  have dead: "\<not> leasable tenant agent now seat (dead_lettered now m)" "unread_of tenant agent (dead_lettered now m) = unread_of tenant agent m"
    "seat_sees seat (dead_lettered now m) = seat_sees seat m" "mg_dead (dead_lettered now m) = Some now" for m
    by (simp_all add: leasable_def dead_lettered_def unread_of_def seat_sees_def)
  show "filter (leasable tenant agent now seat) (ib_messages (reap_poisoned tenant agent now seat x)) = available tenant agent now seat x"
    unfolding rows available_def by (rule filter_map_keep) (auto simp: p_def dead)
  let ?D = "\<lambda>m. unread_of tenant agent m \<and> seat_sees seat m \<and> mg_dead m \<noteq> None"
  have "length (filter ?D (map (\<lambda>m. if p m then dead_lettered now m else m) (ib_messages x))) =
      length (filter (\<lambda>m. ?D m \<or> p m) (ib_messages x))"
    by (rule length_filter_map) (auto simp: dead p_def leasable_def)
  also have "\<dots> = length (filter ?D (ib_messages x)) + length (filter p (ib_messages x))"
    by (rule length_filter_either) (auto simp: p_def leasable_def)
  finally show "length (filter ?D (ib_messages (reap_poisoned tenant agent now seat x))) =
      length (filter ?D (ib_messages x)) + length (poisoned tenant agent now seat x)"
    unfolding rows poisoned_def p_def .
qed


text \<open>C15: A lease hands out the oldest messages and counts the rest. An undisturbed lease under an open fence answers with the
  oldest messages that are unread, live, unleased, visible to the seat and delivered less than five times, up to its limit and
  in their order, each stamped with one more delivery; \<open>remaining\<close> is the number of such messages left, \<open>complete\<close> says that none is,
  and \<open>dead_lettered\<close> counts the messages parked before and those this lease parked, so a poisoned message never holds up the others.\<close>
theorem lease_hands_out_oldest:
  assumes "inbox_wf x" and "bearerFencePredicate x tenant agent" and "1 \<le> secs"
    and "picked = take limit (sort_key mg_seq (available tenant agent now seat x))"
    and "parked = filter (\<lambda>m. unread_of tenant agent m \<and> seat_sees seat m \<and> mg_dead m \<noteq> None) (ib_messages x)"
  shows "snd (leasePlain sha quiet tenant agent limit secs now seat x) =
    Inr \<lparr>lr_messages = annotateMessages sha (map (handed_out (now + secs * 1000) None) picked),
      lr_remaining = length (available tenant agent now seat x) - limit,
      lr_complete = (length (available tenant agent now seat x) \<le> limit),
      lr_dead = length parked + length (poisoned tenant agent now seat x), lr_seconds = secs\<rparr>"
proof -
  define x1 where "x1 = reap_poisoned tenant agent now seat x"
  define e where "e = now + secs * 1000"
  define S where "S = set (map mg_seq picked)"
  define h where "h = (\<lambda>m. if mg_seq m \<in> S then handed_out e None m else m)"
  have wf: "inbox_wf x1" using apply_op_wf [OF assms(1), of undefined "Op_reap tenant agent now seat"] by (simp add: x1_def)
  have seqs: "distinct (map mg_seq (ib_messages x1))" using wf by (simp add: inbox_wf_def)
  have op: "bearerFencePredicate x1 tenant agent" using assms(2) by (simp add: x1_def)
  have avail: "filter (leasable tenant agent now seat) (ib_messages x1) = available tenant agent now seat x"
    unfolding x1_def by (rule reap_filters [OF assms(2)])
  have old: "oldest limit (\<lambda>m. leasable tenant agent now seat m \<and> bearerFencePredicate x1 tenant agent) x1 = picked"
    by (simp add: oldest_def op avail assms(4))
  have S_row: "leasable tenant agent now seat m" if "m \<in> set (ib_messages x1)" "mg_seq m \<in> S" for m
    using picked_row [OF seqs that(1), of limit "\<lambda>m. leasable tenant agent now seat m \<and> bearerFencePredicate x1 tenant agent"] that(2)
    unfolding old S_def by simp
  have L: "sort_key mg_seq (filter (\<lambda>m. mg_seq m \<in> S) (ib_messages x1)) = picked"
    using picked_sorted [OF seqs, of limit "leasable tenant agent now seat"] unfolding avail assms(4) [symmetric] S_def .
  have hseq: "mg_seq (handed_out e None m) = mg_seq m" for m by (simp add: handed_out_def)
  have rows: "hand_out tenant agent now seat limit e x1 =
      (x1\<lparr>ib_messages := map h (ib_messages x1)\<rparr>, map (handed_out e None) picked)"
  proof -
    have "filter (\<lambda>m. mg_seq m \<in> S) (map h (ib_messages x1)) = map (handed_out e None) (filter (\<lambda>m. mg_seq m \<in> S) (ib_messages x1))"
      by (induction "ib_messages x1" rule: rev_induct) (auto simp: h_def hseq filter_map o_def cong: filter_cong)
    then show ?thesis
      unfolding hand_out_def Let_def old S_def [symmetric] update_messages_def h_def [symmetric] by (simp add: sort_key_map_same hseq L)
  qed
  have left: "length (filter (\<lambda>m. unread_of tenant agent m \<and> seat_sees seat m \<and> mg_dead m = None \<and> lease_over now m) (map h (ib_messages x1))) =
      length (available tenant agent now seat x) - limit"
  proof -
    have "length (filter (\<lambda>m. unread_of tenant agent m \<and> seat_sees seat m \<and> mg_dead m = None \<and> lease_over now m) (map h (ib_messages x1))) =
        length (filter (\<lambda>m. leasable tenant agent now seat m \<and> mg_seq m \<notin> S) (ib_messages x1))"
      using assms(3) by (intro length_filter_map) (auto simp: h_def handed_out_def lease_over_def e_def leasable_def available_iff unread_of_def)
    moreover have "length (filter (leasable tenant agent now seat) (ib_messages x1)) =
        length (filter (\<lambda>m. leasable tenant agent now seat m \<and> mg_seq m \<notin> S) (ib_messages x1)) + length (filter (\<lambda>m. mg_seq m \<in> S) (ib_messages x1))"
      using S_row by (subst length_filter_either [symmetric]) (auto intro!: arg_cong [of _ _ length] filter_cong)
    moreover have "length (filter (\<lambda>m. mg_seq m \<in> S) (ib_messages x1)) = length picked" using arg_cong [OF L, of length] by simp
    ultimately show ?thesis unfolding avail assms(4) by simp
  qed
  have dead: "length (filter (\<lambda>m. unread_of tenant agent m \<and> seat_sees seat m \<and> mg_dead m \<noteq> None) (map h (ib_messages x1))) =
      length parked + length (poisoned tenant agent now seat x)"
    unfolding assms(5) reap_filters(2) [OF assms(2), symmetric] x1_def [symmetric]
    by (rule length_filter_map) (use S_row in \<open>auto simp: h_def handed_out_def leasable_def unread_of_def seat_sees_def\<close>)
  have "bearerFencePredicate (x1\<lparr>ib_messages := ms\<rparr>) tenant agent" for ms using op fence_cong [of "x1\<lparr>ib_messages := ms\<rparr>" x1] by simp
  with left dead show ?thesis
    by (simp add: leasePlain_def Let_def quiet_def x1_def [symmetric] e_def [symmetric] rows blocks_iff count_messages_def
        del: length_0_conv filter_map map_map)
qed


section \<open>A sample inbox\<close>

definition sample_message :: "int \<Rightarrow> string \<Rightarrow> nat \<Rightarrow> message_row" where
  "sample_message q mid n =
     \<lparr>mg_seq = q, mg_id = mid, mg_tenant = ''t'', mg_to = ''a'', mg_from = ''b'', mg_member = ''u'', mg_kind = ''request'', mg_body = ''hi'',
      mg_request = Some mid, mg_reply_to = None, mg_created = 1, mg_read = None, mg_project = None, mg_attempts = n, mg_lease = None,
      mg_dead = None, mg_dead_reason = None, mg_seat = None, mg_length = Some 2, mg_checksum = None, mg_stamp = None\<rparr>"

definition sample_inbox :: inbox_db where
  "sample_inbox =
     \<lparr>ib_messages = [sample_message 1 ''m1'' 5, sample_message 2 ''m2'' 0, sample_message 3 ''m3'' 4], ib_leases = [], ib_fences = [],
      ib_handled = [], ib_next = 4\<rparr>"

definition sample_attempt :: string where
  "sample_attempt = ''attempt-00000001''"

abbreviation sample_scope :: attempt_scope where
  "sample_scope \<equiv> attempt_scope_of ''t'' ''a'' None sample_attempt"

definition sample_send :: send_input where
  "sample_send = \<lparr>sn_from = ''b'', sn_member = ''u'', sn_to = ''a'', sn_body = ''hello'', sn_kind = None, sn_request = Some ''r9'',
     sn_reply_to = None, sn_project = None, sn_seat = None\<rparr>"

definition sample_env :: send_env where
  "sample_env = \<lparr>se_access = (\<lambda>_. None), se_seat_live = (\<lambda>_. True), se_routine_mismatch = False, se_fences = (\<lambda>_. True),
     se_dispatch_fenced = (\<lambda>_. False), se_diagnosis = (\<lambda>_. None)\<rparr>"

definition plain_sha :: "string \<Rightarrow> string" where
  "plain_sha s = s"

lemma sample_inbox_wf: "inbox_wf sample_inbox" "within_attempts sample_inbox"
  by code_simp+

text \<open>The inbox once the poisoned first message is parked, and the second message in the hands of a lease.\<close>

definition sample_reaped :: inbox_db where
  "sample_reaped = apply_op plain_sha (Op_reap ''t'' ''a'' 100 None) sample_inbox"

abbreviation sample_lease :: inbox_op where
  "sample_lease \<equiv> Op_hand_out ''t'' ''a'' 100 None 1 60"

definition sample_leased :: message_row where
  "sample_leased = handed_out 60100 None (sample_message 2 ''m2'' 0)"

lemma lease_is_exclusive_witness:
  "2 \<notin> set (op_hands plain_sha (Op_consume Bearer ''t'' ''a'' None 20 60099)
     (run_ops plain_sha [Op_reap ''t'' ''a'' 200 None, Op_hand_out ''t'' ''a'' 200 None 5 60] (apply_op plain_sha sample_lease sample_reaped)))"
proof -
  have wf: "inbox_wf sample_reaped" unfolding sample_reaped_def by (rule apply_op_wf [OF sample_inbox_wf(1)])
  have m: "sample_leased \<in> set (ib_messages (apply_op plain_sha sample_lease sample_reaped))" by code_simp
  have hand: "mg_seq sample_leased \<in> set (op_hands plain_sha sample_lease sample_reaped)" by code_simp
  obtain e where e: "\<forall>ops op'. (\<forall>o' \<in> set (ops @ [op']). happens_before e o' \<and> \<not> is_override o') \<longrightarrow>
       mg_seq sample_leased \<in> set (op_hands plain_sha op' (run_ops plain_sha ops (apply_op plain_sha sample_lease sample_reaped))) \<longrightarrow>
       may_get_again plain_sha sample_leased op'"
    and plain: "e = 100 + 60 * 1000" "\<not> may_get_again plain_sha sample_leased (Op_consume Bearer ''t'' ''a'' None 20 60099)"
    using lease_is_exclusive [OF wf _ m hand] by auto
  have seq: "mg_seq sample_leased = 2" by code_simp
  have before: "\<forall>o' \<in> set ([Op_reap ''t'' ''a'' 200 None, Op_hand_out ''t'' ''a'' 200 None 5 60] @
      [Op_consume Bearer ''t'' ''a'' None 20 60099]). happens_before e o' \<and> \<not> is_override o'"
    by (simp add: happens_before_def plain(1))
  show ?thesis using e [THEN spec, THEN spec, THEN mp, OF before] plain(2) seq by simp
qed

text \<open>Six leases that each find the lease of the one before expired deliver the second message five times; then it is parked. Between two
  leases the pair settlement of another message and a recovery claim change nothing for it.\<close>

definition six_leases :: "inbox_op list" where
  "six_leases = lease_call ''t'' ''a'' 100 None 1 60 @ lease_call ''t'' ''a'' 70000 None 1 60 @ [Op_settle ''t'' ''m3'' ''a'' True 70000] @
     lease_call ''t'' ''a'' 140000 None 1 60 @ lease_call ''t'' ''a'' 210000 None 1 60 @ lease_call ''t'' ''a'' 280000 None 1 60 @
     lease_call ''t'' ''a'' 350000 None 1 60"

lemma five_deliveries: "deliveries plain_sha 2 six_leases sample_inbox = 5"
  by code_simp

lemma deliveries_bounded_witness:
  "deliveries plain_sha 2 six_leases sample_inbox \<le> 5 \<and>
   2 \<notin> set (op_hands plain_sha (Op_hand_out ''t'' ''a'' 420000 None 5 60) (run_ops plain_sha six_leases sample_inbox))"
proof -
  have "whole ((((((([] @ lease_call ''t'' ''a'' 100 None 1 60) @ lease_call ''t'' ''a'' 70000 None 1 60) @ [Op_settle ''t'' ''m3'' ''a'' True 70000]) @
      lease_call ''t'' ''a'' 140000 None 1 60) @ lease_call ''t'' ''a'' 210000 None 1 60) @ lease_call ''t'' ''a'' 280000 None 1 60) @
      lease_call ''t'' ''a'' 350000 None 1 60)"
    by (intro whole.intros) simp
  then have run: "whole six_leases" by (simp add: six_leases_def)
  have no: "\<forall>op \<in> set six_leases. \<not> is_reset op" by (simp add: six_leases_def lease_call_def)
  have parked: "exists_row (\<lambda>m. mg_seq m = 2 \<and> mg_dead m \<noteq> None) (ib_messages (run_ops plain_sha six_leases sample_inbox))" by code_simp
  then obtain m where m: "m \<in> set (ib_messages (run_ops plain_sha six_leases sample_inbox))" "mg_dead m \<noteq> None" "mg_seq m = 2"
    by (auto simp: exists_row_iff)
  from deliveries_bounded [OF run no sample_inbox_wf, of plain_sha 2] m show ?thesis
    by (metis is_lease.simps(1))
qed

text \<open>An operator's reset takes deliveries back, so the bound holds between resets only; one that overrides a live lease ends its exclusion.\<close>

lemma reset_delivers_again:
  "2 \<in> set (op_hands plain_sha (Op_hand_out ''t'' ''a'' 300 None 5 60)
     (apply_op plain_sha (Op_reset ''t'' ''m2'' True False False 200) (apply_op plain_sha sample_lease sample_reaped)))"
  by code_simp

definition sample_fenced :: inbox_db where
  "sample_fenced = write_fence ''t'' ''a'' Signed_only (Some ''key'') 0 sample_inbox"

lemma fenced_inbox_sealed_witness: "\<exists>r. ackAgentMessages quiet ''t'' ''a'' [''m2''] 100 sample_fenced = (sample_fenced, Inl r)"
proof -
  have "inbox_wf sample_fenced" "bearerFenceBlocks sample_fenced ''t'' ''a''" by code_simp+
  from fenced_inbox_sealed [OF this, of plain_sha] show ?thesis by blast
qed

lemma lease_hands_out_oldest_witness:
  "snd (leasePlain plain_sha quiet ''t'' ''a'' 1 60 100 None sample_inbox) =
     Inr \<lparr>lr_messages = annotateMessages plain_sha [sample_leased], lr_remaining = 1, lr_complete = False, lr_dead = 1, lr_seconds = 60\<rparr>"
proof -
  have op: "bearerFencePredicate sample_inbox ''t'' ''a''" by code_simp
  have av: "available ''t'' ''a'' 100 None sample_inbox = [sample_message 2 ''m2'' 0, sample_message 3 ''m3'' 4]"
    "length (poisoned ''t'' ''a'' 100 None sample_inbox) = 1"
    "filter (\<lambda>m. unread_of ''t'' ''a'' m \<and> seat_sees None m \<and> mg_dead m \<noteq> None) (ib_messages sample_inbox) = []"
    by code_simp+
  have "[sample_message 2 ''m2'' 0] = take 1 (sort_key mg_seq (available ''t'' ''a'' 100 None sample_inbox))"
    unfolding av by code_simp
  from lease_hands_out_oldest [OF sample_inbox_wf(1) op _ this av(3) [symmetric], of 60 plain_sha] show ?thesis
    by (simp add: av sample_leased_def)
qed

text \<open>The same message under an attempt.\<close>

definition sample_held_row :: "string \<Rightarrow> message_row" where
  "sample_held_row stamp = handed_out 60100 (Some stamp) (sample_message 2 ''m2'' 0)"

definition sample_receipt :: "string \<Rightarrow> lease_attempt" where
  "sample_receipt digest =
     \<lparr>la_scope = sample_scope, la_digest = digest, la_state = At_leased, la_message = Some ''m2'', la_terminal = None, la_seq = Some 2,
      la_delivery = Some 1, la_lease = Some 60100, la_created = 100, la_resolved = Some 100\<rparr>"

definition held_inbox :: "string \<Rightarrow> string \<Rightarrow> inbox_db" where
  "held_inbox digest stamp =
     sample_inbox\<lparr>ib_messages := [dead_lettered 100 (sample_message 1 ''m1'' 5), sample_held_row stamp, sample_message 3 ''m3'' 4],
       ib_leases := [sample_receipt digest]\<rparr>"

lemma sample_batch: "attempt_batch sample_scope d s False 100 60100 sample_inbox = held_inbox d s"
  by (simp add: attempt_batch_def attempt_stages insert_attempt_def attempt_bind_def sample_inbox_def held_inbox_def sample_message_def
    update_messages_def update_leases_def exists_row_def attemptOpening_def is_opening_def unread_of_def attempt_scope_of_def
    lease_over_def MAX_DELIVERY_ATTEMPTS_def seat_key_sees_def seat_sees_def oldest_def attempt_claimable_def handed_out_def dead_lettered_def
    claimed_by_def to_scope_def bearerFencePredicate_def fence_of_def first_row_def leased_in_def holds_message_def exact_seat_def
    LEASE_LIVE_PREDICATE_def sample_held_row_def sample_receipt_def)


abbreviation sample_stamp :: string where
  "sample_stamp \<equiv> attemptStamp plain_sha sample_scope"

abbreviation sample_held :: inbox_db where
  "sample_held \<equiv> held_inbox (attemptDigest plain_sha 60 []) sample_stamp"

definition sample_answer :: attempt_result where
  "sample_answer = \<lparr>ar_scope = sample_scope, ar_state = At_leased, ar_lease = Some 60100,
     ar_messages = annotateMessages plain_sha [sample_held_row sample_stamp]\<rparr>"

lemma sample_held_facts:
  "inbox_wf (held_inbox d s)" "sample_held_row s \<in> set (ib_messages (held_inbox d s))" "bearerFencePredicate (held_inbox d s) t a"
  "sample_receipt d \<in> set (ib_leases (held_inbox d s))" "leased_in sample_scope (sample_receipt d)"
  "holds_message sample_scope s False (sample_receipt d) (sample_held_row s)"
  by (simp_all add: inbox_wf_def held_inbox_def sample_inbox_def stamp_leased_def sample_held_row_def sample_message_def handed_out_def
    dead_lettered_def sample_receipt_def bearerFencePredicate_def fence_of_def first_row_def leased_in_def holds_message_def to_scope_def
    exact_seat_def attempt_scope_of_def)

lemma sample_hit: "ack_hit sample_scope s False 200 (held_inbox d s) (sample_held_row s)"
  unfolding ack_hit_def exists_row_iff
  by (intro conjI bexI [of _ "sample_receipt d"] sample_held_facts)
    (simp_all add: sample_held_row_def handed_out_def sample_message_def LEASE_LIVE_PREDICATE_def seat_key_sees_def seat_sees_def)

lemma sample_attempt: "attempt_refusal ''t'' ''a'' sample_attempt = None" "sc_seat sample_scope = []"
  by code_simp+

lemma sample_attempt_leases: "leaseAgentInboxWithAttempt plain_sha quiet sample_scope 60 False 100 sample_inbox = (sample_held, Inr sample_answer)"
  by (simp add: leaseAgentInboxWithAttempt_def Let_def sample_batch sample_attempt(2) attemptResultSelect_def sample_held_facts(3))
    (simp add: held_inbox_def sample_receipt_def first_row_def holds_message_def dead_lettered_def sample_held_row_def handed_out_def
      sample_message_def to_scope_def attempt_scope_of_def exact_seat_def materializeAttempt_def sample_answer_def)

lemma attempt_acked_once_witness:
  "snd (ackAgentInboxLeaseAttempt plain_sha quiet ''t'' ''a'' None sample_attempt False 200 sample_held) =
     Inr \<lparr>aa_scope = sample_scope, aa_state = At_acked, aa_consumed = True\<rparr>"
  using attempt_acked_once [OF sample_held_facts(1) refl sample_attempt(1) sample_held_facts(2) sample_hit refl refl] by blast

lemma attempt_lease_repeats_witness:
  "leaseAgentInboxWithAttempt plain_sha quiet sample_scope 60 False 300 (apply_op plain_sha (Op_hand_out ''t'' ''a'' 200 None 1 60) sample_held) =
     (apply_op plain_sha (Op_hand_out ''t'' ''a'' 200 None 1 60) sample_held, Inr sample_answer)"
proof -
  define ops where "ops = [Op_hand_out ''t'' ''a'' 200 None 1 60]"
  have st: "ar_state sample_answer = At_leased" by (simp add: sample_answer_def)
  obtain m e where m: "mg_lease m = Some e"
      "sample_answer = \<lparr>ar_scope = sample_scope, ar_state = At_leased, ar_lease = Some e, ar_messages = annotateMessages plain_sha [m]\<rparr>"
    and again: "\<And>ops now' race. \<forall>op \<in> set ops. happens_before e op \<and> leaves_alone sample_scope op \<Longrightarrow> now' < e \<Longrightarrow>
       fence_open (run_ops plain_sha ops sample_held) sample_scope \<Longrightarrow>
       \<exists>m' \<in> set (ib_messages (run_ops plain_sha ops sample_held)). mg_seq m' = mg_seq m \<and> mg_read m' = None \<Longrightarrow>
       leaseAgentInboxWithAttempt plain_sha race sample_scope 60 False now' (run_ops plain_sha ops sample_held) =
         (run_ops plain_sha ops sample_held, Inr sample_answer)"
    using attempt_lease_repeats [OF sample_inbox_wf(1) sample_attempt_leases st] by blast
  have e: "e = 60100" using m(2) by (simp add: sample_answer_def)
  have "annotateMessage plain_sha (sample_held_row sample_stamp) = annotateMessage plain_sha m"
    using m(2) by (simp add: sample_answer_def annotateMessages_def)
  from arg_cong [OF this, of "\<lambda>v. mg_seq (vm_row v)"] have q: "mg_seq m = 2"
    by (simp add: annotateMessage_def Let_def sample_held_row_def handed_out_def sample_message_def)
  have rows: "ib_messages (run_ops plain_sha ops (held_inbox d s)) =
      [dead_lettered 100 (sample_message 1 ''m1'' 5), sample_held_row s, handed_out 60200 None (sample_message 3 ''m3'' 4)]" for d s
    by (simp add: ops_def hand_out_def Let_def oldest_def update_messages_def held_inbox_def leasable_def unread_of_def dead_lettered_def
      sample_message_def sample_held_row_def handed_out_def available_iff lease_over_def seat_sees_def sample_inbox_def
      bearerFencePredicate_def fence_of_def first_row_def)
  have "ib_fences (run_ops plain_sha ops (held_inbox d s)) = ib_fences (held_inbox d s)" for d s
    by (simp add: ops_def hand_out_def Let_def)
  then have op: "fence_open (run_ops plain_sha ops sample_held) sample_scope"
    using fence_cong sample_held_facts(3) by blast
  have row: "\<exists>m' \<in> set (ib_messages (run_ops plain_sha ops sample_held)). mg_seq m' = mg_seq m \<and> mg_read m' = None"
    unfolding rows q by (simp add: sample_held_row_def handed_out_def sample_message_def)
  have "\<forall>op \<in> set ops. happens_before e op \<and> leaves_alone sample_scope op" by (simp add: ops_def e happens_before_def)
  from again [OF this _ op row, of 300 quiet] show ?thesis by (simp add: e ops_def)
qed

definition sample_sent :: inbox_db where
  "sample_sent = sample_inbox\<lparr>ib_messages := ib_messages sample_inbox @ [sent_row plain_sha ''t'' sample_send ''m4'' 50 4], ib_next := 5\<rparr>"

lemma send_lands_once_witness:
  "sendAgentMessage plain_sha quiet sample_env ''t'' sample_send ''m5'' 70 10 (apply_op plain_sha (Op_ack ''t'' ''a'' 60 [[''m4'']]) sample_sent) =
     (apply_op plain_sha (Op_ack ''t'' ''a'' 60 [[''m4'']]) sample_sent, Inr \<lparr>sr_id = ''m4'', sr_seq = 4, sr_duplicate = True\<rparr>)"
proof -
  have sent: "sendAgentMessage plain_sha quiet sample_env ''t'' sample_send ''m4'' 50 10 sample_inbox =
      (sample_sent, Inr \<lparr>sr_id = ''m4'', sr_seq = 4, sr_duplicate = False\<rparr>)" by code_simp
  have checks: "send_checks ''t'' sample_send = None" "send_context sample_env sample_send = None" "sn_request sample_send = Some ''r9''"
    "ib_next sample_inbox = 4" by code_simp+
  from send_lands_once [OF sample_inbox_wf(1) sent _ checks(3)] checks
  have "\<forall>ops e' j mid' now' cap' race. (\<forall>op \<in> set ops. \<not> is_delete op) \<longrightarrow> sn_from j = sn_from sample_send \<longrightarrow> sn_request j = Some ''r9'' \<longrightarrow>
       send_checks ''t'' j = None \<longrightarrow> send_context e' j = None \<longrightarrow>
       sendAgentMessage plain_sha race e' ''t'' j mid' now' cap' (run_ops plain_sha ops sample_sent) =
         (run_ops plain_sha ops sample_sent, if same_content sample_send j then Inr \<lparr>sr_id = ''m4'', sr_seq = 4, sr_duplicate = True\<rparr>
           else Inl Send_request_id_conflict)" by simp
  from this [THEN spec, of "[Op_ack ''t'' ''a'' 60 [[''m4'']]]", THEN spec, of sample_env, THEN spec, of sample_send, THEN spec, of "''m5''",
      THEN spec, of 70, THEN spec, of 10, THEN spec, of quiet] checks
  show ?thesis by (simp add: same_content_def)
qed

text \<open>Nothing guards the second statement of a plain lease against a message that reached its limit after the first one: between them
  the fence may open, and then a poisoned message is delivered a sixth time.\<close>

lemma torn_lease_delivers_again:
  "1 \<in> set (op_hands plain_sha sample_lease (run_ops plain_sha
     [Op_reap ''t'' ''a'' 100 None, Op_fence ''t'' ''a'' Bearer_only None 1] sample_fenced))"
  by code_simp

end
