(* ===== verification/Meter_Bounds.thy ===== *)
theory Meter_Bounds
  imports Execution_Meter
begin

text \<open>
  What the meter guarantees while executions overlap. \<open>meter_step\<close> is one statement of one execution of an agent, or
  anything the meter does for other agents; at most \<open>k\<close> executions are under way. The windows of an agent are told
  apart, and summed over a week, by comparing keys as text, so the first section is about the order of written dates.
\<close>

section \<open>The order of written dates\<close>

lemma digit_less: "a < b \<Longrightarrow> b < 10 \<Longrightarrow> (char_of (48 + a :: nat) :: char) < char_of (48 + b :: nat)"
  by (simp add: less_char_def)

lemma pad2_digits: "n < 100 \<Longrightarrow> pad2 n = [char_of (48 + n div 10), char_of (48 + n mod 10)]"
proof -
  assume "n < 100"
  have zero: "CHR ''0'' = char_of (48 :: nat)" by code_simp
  show ?thesis using \<open>n < 100\<close> by (simp add: pad2_def zero digits_of.simps [of n] digits_of.simps [of "n div 10"])
qed

lemma pad2_less: "a < b \<Longrightarrow> b < 100 \<Longrightarrow> pad2 a @ s < pad2 b @ t"
proof -
  assume "a < b" "b < 100"
  then consider "a div 10 < b div 10" | "a div 10 = b div 10" "a mod 10 < b mod 10"
    by (metis div_le_mono div_mult_mod_eq le_neq_implies_less less_imp_le nat_add_left_cancel_less)
  then show ?thesis using \<open>a < b\<close> \<open>b < 100\<close> by cases (simp_all add: pad2_digits digit_less)
qed

lemma year_digits: "1000 \<le> y \<Longrightarrow> y < 10000 \<Longrightarrow> digits_of y = pad2 (y div 100) @ pad2 (y mod 100)"
proof -
  assume y: "1000 \<le> y" "y < 10000"
  have "y mod 100 div 10 = y div 10 mod 10" "y mod 100 mod 10 = y mod 10" "y div 100 mod 10 = y div 10 div 10 mod 10"
    using mod_mult2_eq [of y 10 10] by (simp_all add: div_mult2_eq [symmetric] mod_mod_cancel)
  moreover have "y div 1000 < 10" "y div 100 < 100" "\<not> y div 100 < 10" "\<not> y div 10 < 10" "\<not> y < 10" using y by simp_all
  ultimately show ?thesis using y
    by (simp add: pad2_digits digits_of.simps [of y] digits_of.simps [of "y div 10"] digits_of.simps [of "y div 100"]
      digits_of.simps [of "y div 1000"] div_mult2_eq [symmetric])
qed

definition proper_day :: "nat \<Rightarrow> bool" where
  "proper_day day \<longleftrightarrow> fst (date_of day) < 10000"

fun proper_date :: "nat \<times> nat \<times> nat \<Rightarrow> bool" where
  "proper_date (y, m, d) \<longleftrightarrow> 1970 \<le> y \<and> 1 \<le> m \<and> m \<le> 12 \<and> 1 \<le> d \<and> d \<le> 31"

lemma next_date_proper: "proper_date x \<Longrightarrow> proper_date (next_date x)"
  by (cases x) (auto simp: month_days_def split: if_splits)

lemma date_of_proper: "proper_date (date_of day)"
  unfolding date_of_def by (induction day) (simp_all add: next_date_proper)

lemma date_of_Suc: "date_of (Suc day) = next_date (date_of day)"
  by (simp add: date_of_def)

lemma proper_day_le: "proper_day b \<Longrightarrow> a \<le> b \<Longrightarrow> proper_day a"
proof -
  have "fst x \<le> fst (next_date x)" for x by (cases x) auto
  then have "fst (date_of a) \<le> fst (date_of b)" if "a \<le> b" for a b
    using that lift_Suc_mono_le [of "\<lambda>n. fst (date_of n)"] by (simp add: date_of_Suc)
  then show "proper_day b \<Longrightarrow> a \<le> b \<Longrightarrow> proper_day a" unfolding proper_day_def using le_less_trans by blast
qed

lemma same_prefix_less: "(xs @ ys :: string) < xs @ zs \<longleftrightarrow> ys < zs"
  by (induction xs) simp_all

lemma iso_next: "proper_date x \<Longrightarrow> fst (next_date x) < 10000 \<Longrightarrow> iso_text x < iso_text (next_date x)"
proof (cases x)
  case (fields y m d)
  assume x: "proper_date x" "fst (next_date x) < 10000"
  consider "d < month_days y m" | "\<not> d < month_days y m" "m < 12" | "\<not> d < month_days y m" "\<not> m < 12" by blast
  then show ?thesis
  proof cases
    case 1
    with x fields show ?thesis using pad2_less [of d "d + 1" "[]" "[]"] by (simp add: same_prefix_less)
  next
    case 2
    with x fields show ?thesis by (simp add: same_prefix_less pad2_less)
  next
    case 3
    from 3 x fields have y: "1000 \<le> y" "y + 1 < 10000" by simp_all
    then consider "y div 100 < (y + 1) div 100" | "y div 100 = (y + 1) div 100" "y mod 100 < (y + 1) mod 100"
      by (metis div_le_mono div_mult_mod_eq le_neq_implies_less less_add_one less_imp_le nat_add_left_cancel_less)
    then show ?thesis using y 3 fields by cases (simp_all add: year_digits same_prefix_less pad2_less)
  qed
qed

lemma iso_less: "a < b \<Longrightarrow> proper_day b \<Longrightarrow> isoDateUtc a < isoDateUtc b"
proof (induction b)
  case (Suc b)
  have step: "isoDateUtc b < isoDateUtc (Suc b)"
    using Suc.prems(2) date_of_proper [of b] by (simp add: isoDateUtc_def date_of_Suc proper_day_def iso_next)
  show ?case
  proof (cases "a = b")
    case False
    with Suc.prems have "isoDateUtc a < isoDateUtc b" by (intro Suc.IH) (auto intro: proper_day_le)
    from less_trans [OF this step] show ?thesis .
  qed (use step in simp)
qed simp

lemma iso_le_iff: "proper_day a \<Longrightarrow> proper_day b \<Longrightarrow> isoDateUtc a \<le> isoDateUtc b \<longleftrightarrow> a \<le> b"
  by (metis iso_less leD leI order_le_less)

lemma iso_inject: "proper_day a \<Longrightarrow> proper_day b \<Longrightarrow> isoDateUtc a = isoDateUtc b \<longleftrightarrow> a = b"
  by (metis iso_less less_irrefl nat_neq_iff)

section \<open>Windows and the trailing week\<close>

definition plain_name :: "string \<Rightarrow> bool" where
  "plain_name s \<longleftrightarrow> CHR '':'' \<notin> set s"

text \<open>A meter table: one row per window, the window of an agent on a day before the year 10000, with no negative cost.\<close>

definition window_of :: "string \<Rightarrow> bool" where
  "window_of key \<longleftrightarrow> (\<exists>tenant agent day. key = window_key tenant agent day \<and> plain_name tenant \<and> plain_name agent \<and> proper_day day)"

definition meter_wf :: "meter_row list \<Rightarrow> bool" where
  "meter_wf rows \<longleftrightarrow> distinct (map mr_key rows) \<and> (\<forall>r \<in> set rows. window_of (mr_key r) \<and> 0 \<le> mr_cost r)"

lemma split_at_colon:
  "plain_name s \<Longrightarrow> plain_name t \<Longrightarrow> s @ '':'' @ u = t @ '':'' @ v \<longleftrightarrow> s = t \<and> u = v"
proof (induction s arbitrary: t)
  case Nil
  then show ?case by (cases t) (auto simp: plain_name_def)
next
  case (Cons c s)
  then show ?case by (cases t) (auto simp: plain_name_def)
qed

lemma window_prefix_inject:
  assumes "plain_name tenant" "plain_name agent" "plain_name tenant'" "plain_name agent'"
  shows "window_prefix tenant agent @ u = window_prefix tenant' agent' @ v \<longleftrightarrow> tenant = tenant' \<and> agent = agent' \<and> u = v"
  using split_at_colon [OF assms(1,3), of "agent @ '':'' @ u" "agent' @ '':'' @ v"] split_at_colon [OF assms(2,4), of u v]
  by (simp add: window_prefix_def)

lemma window_key_inject:
  assumes "plain_name tenant" "plain_name agent" "plain_name tenant'" "plain_name agent'" "proper_day day" "proper_day day'"
  shows "window_key tenant agent day = window_key tenant' agent' day' \<longleftrightarrow> tenant = tenant' \<and> agent = agent' \<and> day = day'"
  unfolding window_key_def window_prefix_inject [OF assms(1-4)] by (simp add: iso_inject assms(5,6))

text \<open>A text between two that share a prefix shares it too.\<close>

lemma between_prefix:
  fixes k :: string
  assumes "p @ a \<le> k" "k \<le> p @ b"
  shows "\<exists>s. k = p @ s \<and> a \<le> s \<and> s \<le> b"
  using assms
proof (induction p arbitrary: k)
  case (Cons c p)
  from Cons.prems obtain k' where "k = c # k'" "p @ a \<le> k'" "k' \<le> p @ b" by (cases k) auto
  with Cons.IH [of k'] show ?case by auto
qed simp

lemma same_prefix_le: "(xs @ ys :: string) \<le> xs @ zs \<longleftrightarrow> ys \<le> zs"
  by (induction xs) simp_all

lemma week_range:
  assumes "plain_name tenant" "plain_name agent" "window_of key" "proper_day lo" "proper_day hi"
  shows "window_key tenant agent lo \<le> key \<and> key \<le> window_key tenant agent hi \<longleftrightarrow>
    (\<exists>day \<in> {lo..hi}. key = window_key tenant agent day)"
proof
  assume range: "window_key tenant agent lo \<le> key \<and> key \<le> window_key tenant agent hi"
  then obtain s where s: "key = window_prefix tenant agent @ s" "isoDateUtc lo \<le> s" "s \<le> isoDateUtc hi"
    unfolding window_key_def using between_prefix by blast
  from assms(3) obtain tenant' agent' day where k: "key = window_key tenant' agent' day" "plain_name tenant'" "plain_name agent'" "proper_day day"
    unfolding window_of_def by blast
  from k(1) s(1) have "tenant' = tenant \<and> agent' = agent \<and> isoDateUtc day = s"
    unfolding window_key_def using window_prefix_inject [OF k(2,3) assms(1,2)] by metis
  then have "key = window_key tenant agent day" "lo \<le> day" "day \<le> hi"
    using k s(2,3) iso_le_iff assms(4,5) by auto
  then show "\<exists>day \<in> {lo..hi}. key = window_key tenant agent day" by auto
next
  assume "\<exists>day \<in> {lo..hi}. key = window_key tenant agent day"
  then obtain day where day: "lo \<le> day" "day \<le> hi" "key = window_key tenant agent day" by auto
  with assms(5) have "proper_day day" by (blast intro: proper_day_le)
  with day assms(4,5) show "window_key tenant agent lo \<le> key \<and> key \<le> window_key tenant agent hi"
    by (simp add: window_key_def same_prefix_le iso_le_iff)
qed

definition cost_on :: "meter_row list \<Rightarrow> string \<Rightarrow> int" where
  "cost_on rows key = snd (snd (counters (window_row rows key)))"

definition count_on :: "meter_row list \<Rightarrow> string \<Rightarrow> int" where
  "count_on rows key = fst (counters (window_row rows key))"

lemma on_Nil [simp]: "cost_on [] key = 0" "count_on [] key = 0"
  by (simp_all add: cost_on_def count_on_def window_row_def first_row_def counters_def)

lemma on_Cons:
  "cost_on (r # rows) key = (if mr_key r = key then mr_cost r else cost_on rows key)"
  "count_on (r # rows) key = (if mr_key r = key then mr_count r else count_on rows key)"
  by (simp_all add: cost_on_def count_on_def window_row_def first_row_def counters_def)

lemma on_absent: "key \<notin> mr_key ` set rows \<Longrightarrow> cost_on rows key = 0 \<and> count_on rows key = 0"
  by (induction rows) (auto simp: on_Cons)

lemma sum_by_key:
  assumes "distinct (map mr_key rows)" "finite days" "inj_on k days"
  shows "sum_list (map mr_cost (filter (\<lambda>r. \<exists>day \<in> days. mr_key r = k day) rows)) = (\<Sum>day \<in> days. cost_on rows (k day))"
  using assms(1)
proof (induction rows)
  case (Cons r rows)
  show ?case
  proof (cases "\<exists>day \<in> days. mr_key r = k day")
    case True
    then obtain day where day: "day \<in> days" "mr_key r = k day" by blast
    have other: "(\<Sum>d \<in> days - {day}. cost_on (r # rows) (k d)) = (\<Sum>d \<in> days - {day}. cost_on rows (k d))"
      using day inj_onD [OF assms(3), of _ day] by (intro sum.cong) (auto simp: on_Cons)
    have "cost_on rows (k day) = 0" using Cons.prems day(2) on_absent [of "k day" rows] by simp
    then have "(\<Sum>d \<in> days. cost_on (r # rows) (k d)) = mr_cost r + (\<Sum>d \<in> days. cost_on rows (k d))"
      using day(2) by (simp add: sum.remove [OF assms(2) day(1)] other) (simp add: on_Cons)
    with True Cons show ?thesis by simp
  next
    case False
    then have "cost_on (r # rows) (k d) = cost_on rows (k d)" if "d \<in> days" for d using that by (auto simp: on_Cons)
    with False Cons show ?thesis by (simp cong: sum.cong)
  qed
qed simp

text \<open>C17: The weekly dollar cap sums the right rows. The lexical range over the keys of the meter selects the windows of this
  agent on today and the six days before, and no row of another agent or tenant, also across the ends of months and years.\<close>
theorem week_cost_exact:
  assumes "meter_wf rows" and "plain_name tenant" and "plain_name agent" and "proper_day (day_at now)"
  shows "sumWeekCostMicroUsd tenant agent now rows =
    (\<Sum>day = day_at now - 6..day_at now. cost_on rows (window_key tenant agent day))"
proof -
  have lo: "proper_day (day_at now - 6)" using assms(4) by (rule proper_day_le) simp
  have "inj_on (window_key tenant agent) {day_at now - 6..day_at now}"
    by (rule inj_onI) (use window_key_inject [OF assms(2,3,2,3)] proper_day_le [OF assms(4)] in auto)
  from sum_by_key [OF _ _ this, of rows] show ?thesis using assms(1) week_range [OF assms(2,3) _ lo assms(4)]
    by (simp add: sumWeekCostMicroUsd_def Let_def meter_wf_def cong: filter_cong)
qed

section \<open>Overlapping executions\<close>

text \<open>An execution that has read its window, one that passed every check, and one that has reserved and calls the model.\<close>

datatype run_stage = Looked string int | Judged string | Calling

record meter_world =
  mw_now :: nat
  mw_rows :: "meter_row list"
  mw_runs :: "run_stage list"

definition today_key :: "authorized_execution \<Rightarrow> meter_world \<Rightarrow> string" where
  "today_key ax w = buildWindowKey (ax_tenant ax) (ax_subject ax) (mw_now w)"

definition judged_cost :: "authorized_execution \<Rightarrow> nat \<Rightarrow> meter_row list \<Rightarrow> int \<Rightarrow> int" where
  "judged_cost ax now rows spent =
     (if isEnforceableCap (Some (ax_maxCost ax)) \<and> ax_window ax = Per_week
      then sumWeekCostMicroUsd (ax_tenant ax) (ax_subject ax) now rows else spent)"

text \<open>One statement of one execution, the clock, a failure, or what the meter does for another agent.\<close>

inductive meter_step :: "authorized_execution \<Rightarrow> nat \<Rightarrow> meter_world \<Rightarrow> meter_world \<Rightarrow> bool" for ax k where
  tick: "mw_now w \<le> t \<Longrightarrow> proper_day (day_at t) \<Longrightarrow> meter_step ax k w (w\<lparr>mw_now := t\<rparr>)"
| look: "length (mw_runs w) < k \<Longrightarrow> counters (window_row (mw_rows w) (today_key ax w)) = (n, toks, spent) \<Longrightarrow>
    quota_block ax n toks = None \<Longrightarrow> meter_step ax k w (w\<lparr>mw_runs := Looked (today_key ax w) spent # mw_runs w\<rparr>)"
| judge: "Looked key spent \<in> set (mw_runs w) \<Longrightarrow> \<not> cost_blocked ax (judged_cost ax (mw_now w) (mw_rows w) spent) \<Longrightarrow>
    meter_step ax k w (w\<lparr>mw_runs := Judged key # remove1 (Looked key spent) (mw_runs w)\<rparr>)"
| reserve: "Judged key \<in> set (mw_runs w) \<Longrightarrow>
    meter_step ax k w (w\<lparr>mw_rows := reserve_slot key t (mw_rows w), mw_runs := Calling # remove1 (Judged key) (mw_runs w)\<rparr>)"
| spend: "Calling \<in> set (mw_runs w) \<Longrightarrow> spent \<le> ax_estimate ax \<Longrightarrow>
    meter_step ax k w (w\<lparr>mw_rows := recordTokens (ax_tenant ax) (ax_subject ax) toks spent usage (mw_now w) (mw_rows w),
      mw_runs := remove1 Calling (mw_runs w)\<rparr>)"
| leave: "run \<in> set (mw_runs w) \<Longrightarrow> meter_step ax k w (w\<lparr>mw_runs := remove1 run (mw_runs w)\<rparr>)"
| other_reserve: "agent \<noteq> ax_subject ax \<Longrightarrow> plain_name agent \<Longrightarrow> t \<le> mw_now w \<Longrightarrow>
    meter_step ax k w (w\<lparr>mw_rows := reserve_slot (buildWindowKey (ax_tenant ax) agent t) t (mw_rows w)\<rparr>)"
| other_spend: "agent \<noteq> ax_subject ax \<Longrightarrow> plain_name agent \<Longrightarrow> t \<le> mw_now w \<Longrightarrow>
    meter_step ax k w (w\<lparr>mw_rows := recordTokens (ax_tenant ax) agent toks spent usage t (mw_rows w)\<rparr>)"

abbreviation meter_steps :: "authorized_execution \<Rightarrow> nat \<Rightarrow> meter_world \<Rightarrow> meter_world \<Rightarrow> bool" where
  "meter_steps ax k \<equiv> (meter_step ax k)\<^sup>*\<^sup>*"

text \<open>\<open>checkAndReserve\<close> is a run of these steps, provided that what others do in between is.\<close>

lemma check_is_steps:
  assumes "checkAndReserve race env ax now later rows = (rows', Inr (Meter_ok pass))"
    and "length runs < k" and "now \<le> later" and "proper_day (day_at later)"
    and others: "\<And>point w. meter_steps ax k w (w\<lparr>mw_rows := race point (mw_rows w)\<rparr>)"
  shows "meter_steps ax k \<lparr>mw_now = now, mw_rows = rows, mw_runs = runs\<rparr> \<lparr>mw_now = later, mw_rows = rows', mw_runs = Calling # runs\<rparr>"
proof -
  define key where "key = buildWindowKey (ax_tenant ax) (ax_subject ax) now"
  define weekly where "weekly = (isEnforceableCap (Some (ax_maxCost ax)) \<and> ax_window ax = Per_week)"
  obtain n toks spent where c: "counters (window_row rows key) = (n, toks, spent)" by (metis prod_cases3)
  define rows1 where "rows1 = (if weekly then race At_week rows else rows)"
  define rows2 where "rows2 = race At_reserve rows1"
  have tenant: "me_tenant env = ax_tenant ax" using assms(1) by (auto simp: checkAndReserve_def split: if_splits)
  note unfolded = assms(1) [unfolded checkAndReserve_def tenant Let_def, folded key_def, unfolded c, folded weekly_def]
  have quota: "quota_block ax n toks = None" using unfolded by (auto split: option.splits)
  have judged: "\<not> cost_blocked ax (judged_cost ax later rows1 spent)" and rows': "rows' = race At_read_back (reserve_slot key now rows2)"
    using unfolded quota by (simp_all add: weekly_def [symmetric] judged_cost_def rows1_def rows2_def split: if_splits)
  have runs [simp]: "\<lparr>mw_now = t, mw_rows = r, mw_runs = x\<rparr>\<lparr>mw_rows := r'\<rparr> = \<lparr>mw_now = t, mw_rows = r', mw_runs = x\<rparr>" for t r x r' by simp
  let ?w = "\<lambda>t r x. \<lparr>mw_now = t, mw_rows = r, mw_runs = x\<rparr>"
  have "meter_step ax k (?w now rows runs) (?w now rows (Looked key spent # runs))"
    using look [of "?w now rows runs" k ax n toks spent] c assms(2) quota by (simp add: today_key_def key_def)
  moreover have "meter_steps ax k (?w now rows (Looked key spent # runs)) (?w now rows1 (Looked key spent # runs))"
    using others [of "?w now rows (Looked key spent # runs)" At_week] by (simp add: rows1_def)
  moreover have "meter_step ax k (?w now rows1 (Looked key spent # runs)) (?w later rows1 (Looked key spent # runs))"
    using tick [of "?w now rows1 (Looked key spent # runs)" later ax k] assms(3,4) by simp
  moreover have "meter_step ax k (?w later rows1 (Looked key spent # runs)) (?w later rows1 (Judged key # runs))"
    using meter_step.judge [of key spent "?w later rows1 (Looked key spent # runs)" ax k] judged by simp
  moreover have "meter_steps ax k (?w later rows1 (Judged key # runs)) (?w later rows2 (Judged key # runs))"
    using others [of "?w later rows1 (Judged key # runs)" At_reserve] by (simp add: rows2_def)
  moreover have "meter_step ax k (?w later rows2 (Judged key # runs)) (?w later (reserve_slot key now rows2) (Calling # runs))"
    using reserve [of key "?w later rows2 (Judged key # runs)" ax k now] by simp
  moreover have "meter_steps ax k (?w later (reserve_slot key now rows2) (Calling # runs)) (?w later rows' (Calling # runs))"
    using others [of "?w later (reserve_slot key now rows2) (Calling # runs)" At_read_back] by (simp add: rows')
  ultimately show ?thesis by (meson converse_rtranclp_into_rtranclp rtranclp_trans)
qed

section \<open>The bounds\<close>

definition window_days :: "authorized_execution \<Rightarrow> nat \<Rightarrow> nat set" where
  "window_days ax now = (case ax_window ax of Per_day \<Rightarrow> {day_at now} | Per_week \<Rightarrow> {day_at now - 6..day_at now})"

text \<open>What the cap of an agent limits: the cost of its window up to now.\<close>

definition spending :: "authorized_execution \<Rightarrow> nat \<Rightarrow> meter_row list \<Rightarrow> int" where
  "spending ax now rows = (\<Sum>day \<in> window_days ax now. cost_on rows (window_key (ax_tenant ax) (ax_subject ax) day))"

lemma window_row_map:
  assumes "\<And>r. mr_key (f r) = mr_key r"
  shows "window_row (map (\<lambda>r. if mr_key r = key then f r else r) rows) q = map_option (\<lambda>r. if q = key then f r else r) (window_row rows q)"
  unfolding window_row_def first_row_def by (induction rows) (auto simp: assms)

lemma window_row_snoc:
  "window_row (rows @ [r]) q = (case window_row rows q of Some p \<Rightarrow> Some p | None \<Rightarrow> if mr_key r = q then Some r else None)"
  unfolding window_row_def first_row_def by (induction rows) auto

lemma no_window_row: "exists_row (\<lambda>r. mr_key r = key) rows \<longleftrightarrow> window_row rows key \<noteq> None"
  by (simp add: window_row_def first_row_None exists_row_iff)

lemma on_reserve:
  "cost_on (reserve_slot key t rows) q = cost_on rows q"
  "count_on (reserve_slot key t rows) q = count_on rows q + (if q = key then 1 else 0)"
  by (auto simp: cost_on_def count_on_def reserve_slot_def no_window_row window_row_map window_row_snoc counters_def split: option.splits)

lemma on_spend:
  "cost_on (add_spend key tok cost cr cm out t rows) q = cost_on rows q + (if q = key then cost else 0)"
  "count_on (add_spend key tok cost cr cm out t rows) q = count_on rows q"
  by (auto simp: cost_on_def count_on_def add_spend_def no_window_row window_row_map window_row_snoc counters_def split: option.splits)

lemma on_record:
  "cost_on (recordTokens tenant agent toks spent usage t rows) q =
     cost_on rows q + (if q = buildWindowKey tenant agent t then max spent 0 else 0)"
  "count_on (recordTokens tenant agent toks spent usage t rows) q = count_on rows q"
  by (simp_all add: recordTokens_def Let_def on_spend)

lemma wf_reserve: "meter_wf rows \<Longrightarrow> window_of key \<Longrightarrow> meter_wf (reserve_slot key t rows)"
  by (auto simp: meter_wf_def reserve_slot_def exists_row_iff comp_def if_distrib [of mr_key] cong: if_cong)

lemma wf_spend: "meter_wf rows \<Longrightarrow> window_of key \<Longrightarrow> 0 \<le> cost \<Longrightarrow> meter_wf (add_spend key tok cost cr cm out t rows)"
  by (auto simp: meter_wf_def add_spend_def exists_row_iff comp_def if_distrib [of mr_key] cong: if_cong)

lemma wf_record: "meter_wf rows \<Longrightarrow> window_of (buildWindowKey tenant agent t) \<Longrightarrow> meter_wf (recordTokens tenant agent toks spent usage t rows)"
  by (simp add: recordTokens_def Let_def wf_spend)

lemma cost_nonneg: "meter_wf rows \<Longrightarrow> 0 \<le> cost_on rows key"
  by (cases "window_row rows key") (auto simp: cost_on_def counters_def window_row_def meter_wf_def dest: first_row_Some)

fun waits_for :: "string \<Rightarrow> run_stage \<Rightarrow> bool" where
  "waits_for key (Looked q spent) \<longleftrightarrow> q = key"
| "waits_for key (Judged q) \<longleftrightarrow> q = key"
| "waits_for key Calling \<longleftrightarrow> False"

text \<open>Executions whose estimate is still to be spent; a daily cap is decided by the first read.\<close>

fun admitted :: "authorized_execution \<Rightarrow> run_stage \<Rightarrow> bool" where
  "admitted ax (Looked q spent) \<longleftrightarrow> ax_window ax = Per_day \<and> \<not> cost_blocked ax spent"
| "admitted ax (Judged q) \<longleftrightarrow> True"
| "admitted ax Calling \<longleftrightarrow> True"

definition number :: "('a \<Rightarrow> bool) \<Rightarrow> 'a list \<Rightarrow> int" where
  "number p xs = int (length (filter p xs))"

lemma number_simps [simp]: "number p [] = 0" "number p (x # xs) = (if p x then 1 else 0) + number p xs"
  by (simp_all add: number_def)

lemma number_remove1: "x \<in> set xs \<Longrightarrow> number p (remove1 x xs) = number p xs - (if p x then 1 else 0)"
  by (induction xs) auto

lemma number_bounds: "0 \<le> number p xs" "number p xs \<le> int (length xs)"
  by (simp_all add: number_def)

text \<open>The window an execution has read is one of its agent, no later than today.\<close>

definition known :: "authorized_execution \<Rightarrow> nat \<Rightarrow> run_stage \<Rightarrow> bool" where
  "known ax now run \<longleftrightarrow>
     (\<forall>key. waits_for key run \<longrightarrow> (\<exists>day \<le> day_at now. key = window_key (ax_tenant ax) (ax_subject ax) day))"

definition meter_ground :: "authorized_execution \<Rightarrow> nat \<Rightarrow> meter_world \<Rightarrow> bool" where
  "meter_ground ax k w \<longleftrightarrow>
     meter_wf (mw_rows w) \<and> proper_day (day_at (mw_now w)) \<and> length (mw_runs w) \<le> k \<and> list_all (known ax (mw_now w)) (mw_runs w) \<and>
     (\<forall>day > day_at (mw_now w). proper_day day \<longrightarrow> cost_on (mw_rows w) (window_key (ax_tenant ax) (ax_subject ax) day) = 0)"

definition slots_bounded :: "authorized_execution \<Rightarrow> nat \<Rightarrow> meter_world \<Rightarrow> bool" where
  "slots_bounded ax k w \<longleftrightarrow> (\<forall>day. let key = window_key (ax_tenant ax) (ax_subject ax) day in
     count_on (mw_rows w) key + number (waits_for key) (mw_runs w) \<le> ax_maxDispatch ax + int k - 1)"

definition money_bounded :: "authorized_execution \<Rightarrow> nat \<Rightarrow> meter_world \<Rightarrow> bool" where
  "money_bounded ax k w \<longleftrightarrow>
     spending ax (mw_now w) (mw_rows w) + number (admitted ax) (mw_runs w) * ax_estimate ax \<le> ax_maxCost ax + (int k - 1) * ax_estimate ax"

lemma other_window:
  assumes "plain_name (ax_tenant ax)" "plain_name (ax_subject ax)" "plain_name agent" "agent \<noteq> ax_subject ax"
  shows "window_key (ax_tenant ax) (ax_subject ax) day \<noteq> window_key (ax_tenant ax) agent day'"
  using window_prefix_inject [OF assms(1,2,1,3)] assms(4) unfolding window_key_def by metis

lemma own_window:
  "plain_name (ax_tenant ax) \<Longrightarrow> plain_name (ax_subject ax) \<Longrightarrow> proper_day a \<Longrightarrow> proper_day b \<Longrightarrow>
   window_key (ax_tenant ax) (ax_subject ax) a = window_key (ax_tenant ax) (ax_subject ax) b \<longleftrightarrow> a = b"
  by (simp add: window_key_inject)

lemma window_days_simps [simp]: "finite (window_days ax now)" "day_at now \<in> window_days ax now"
  by (simp_all add: window_days_def split: cost_window.split)

lemma window_days_le: "day \<in> window_days ax now \<Longrightarrow> day \<le> day_at now"
  by (auto simp: window_days_def split: cost_window.splits)

lemma judged_spending:
  assumes "meter_wf rows" "plain_name (ax_tenant ax)" "plain_name (ax_subject ax)" "proper_day (day_at now)" "0 < ax_maxCost ax"
    and "ax_window ax = Per_week"
  shows "judged_cost ax now rows spent = spending ax now rows"
  using week_cost_exact [OF assms(1-4)] assms(5,6) by (simp add: judged_cost_def spending_def window_days_def isEnforceableCap_def)

lemma spending_later:
  assumes "meter_wf rows" "now \<le> t" "proper_day (day_at t)"
    and none: "\<And>day. day_at now < day \<Longrightarrow> proper_day day \<Longrightarrow> cost_on rows (window_key (ax_tenant ax) (ax_subject ax) day) = 0"
  shows "spending ax t rows \<le> spending ax now rows"
proof -
  let ?c = "\<lambda>day. cost_on rows (window_key (ax_tenant ax) (ax_subject ax) day)"
  have "?c day = 0" if "day \<in> window_days ax t - window_days ax now" for day
  proof (rule none)
    have le: "day_at now \<le> day_at t" using assms(2) by (simp add: day_at_def div_le_mono)
    show "day_at now < day" using that le by (auto simp: window_days_def split: cost_window.splits)
    show "proper_day day" using that window_days_le assms(3) proper_day_le by blast
  qed
  then have "spending ax t rows = (\<Sum>day \<in> window_days ax t \<inter> window_days ax now. ?c day)"
    unfolding spending_def by (intro sum.mono_neutral_right) auto
  also have "\<dots> \<le> spending ax now rows"
    unfolding spending_def by (intro sum_mono2) (auto intro: cost_nonneg [OF assms(1)])
  finally show ?thesis .
qed

lemma spending_plus:
  assumes "plain_name (ax_tenant ax)" "plain_name (ax_subject ax)" "proper_day (day_at now)"
    and "\<And>key. cost_on rows' key = cost_on rows key + (if key = buildWindowKey (ax_tenant ax) (ax_subject ax) now then c else 0)"
  shows "spending ax now rows' = spending ax now rows + c"
proof -
  have "cost_on rows' (window_key (ax_tenant ax) (ax_subject ax) day) =
      cost_on rows (window_key (ax_tenant ax) (ax_subject ax) day) + (if day = day_at now then c else 0)"
    if "day \<in> window_days ax now" for day
    using own_window [OF assms(1,2), of day "day_at now"] window_days_le [OF that] assms(3) proper_day_le [OF assms(3)]
    by (simp add: assms(4) buildWindowKey_def)
  then show ?thesis by (simp add: spending_def sum.distrib cong: sum.cong)
qed

lemma spending_same:
  "(\<And>day. cost_on rows' (window_key (ax_tenant ax) (ax_subject ax) day) = cost_on rows (window_key (ax_tenant ax) (ax_subject ax) day)) \<Longrightarrow>
   spending ax now rows' = spending ax now rows"
  by (simp add: spending_def)

lemma own_key_window_of: "plain_name tenant \<Longrightarrow> plain_name agent \<Longrightarrow> proper_day day \<Longrightarrow> window_of (window_key tenant agent day)"
  unfolding window_of_def by blast

lemma known_simps [simp]: "known ax now Calling" "known ax now (Looked q c) = known ax now (Judged q)"
  by (simp_all add: known_def)

lemma day_at_mono: "now \<le> t \<Longrightarrow> day_at now \<le> day_at t"
  by (simp add: day_at_def div_le_mono)

lemma known_later:
  assumes "known ax now run" "now \<le> t"
  shows "known ax t run"
  unfolding known_def
proof (intro allI impI)
  fix key
  assume "waits_for key run"
  with assms(1) obtain day where day: "day \<le> day_at now" "key = window_key (ax_tenant ax) (ax_subject ax) day"
    unfolding known_def by blast
  have "day \<le> day_at t" using day(1) day_at_mono [OF assms(2)] by (rule le_trans)
  with day(2) show "\<exists>day \<le> day_at t. key = window_key (ax_tenant ax) (ax_subject ax) day" by blast
qed

lemma known_key: "known ax now run \<Longrightarrow> waits_for key run \<Longrightarrow>
  \<exists>day \<le> day_at now. key = window_key (ax_tenant ax) (ax_subject ax) day"
  unfolding known_def by blast

lemma list_all_remove1: "list_all p xs \<Longrightarrow> list_all p (remove1 x xs)"
  by (induction xs) auto

lemma length_replaced: "x \<in> set xs \<Longrightarrow> length xs \<le> k \<Longrightarrow> Suc (length (remove1 x xs)) \<le> k"
  using length_pos_if_in_set [of x xs] by (simp add: length_remove1)

lemma meter_groundI:
  assumes "meter_wf (mw_rows w)" "proper_day (day_at (mw_now w))" "length (mw_runs w) \<le> k" "list_all (known ax (mw_now w)) (mw_runs w)"
    and "\<And>day. day_at (mw_now w) < day \<Longrightarrow> proper_day day \<Longrightarrow> cost_on (mw_rows w) (window_key (ax_tenant ax) (ax_subject ax) day) = 0"
  shows "meter_ground ax k w"
  using assms by (simp add: meter_ground_def)

lemma meter_groundD:
  assumes "meter_ground ax k w"
  shows "meter_wf (mw_rows w)" "proper_day (day_at (mw_now w))" "length (mw_runs w) \<le> k" "list_all (known ax (mw_now w)) (mw_runs w)"
    and "\<And>day. day_at (mw_now w) < day \<Longrightarrow> proper_day day \<Longrightarrow> cost_on (mw_rows w) (window_key (ax_tenant ax) (ax_subject ax) day) = 0"
  using assms by (simp_all add: meter_ground_def)

lemma ground_step:
  assumes "meter_step ax k w w'" and g: "meter_ground ax k w" and names: "plain_name (ax_tenant ax)" "plain_name (ax_subject ax)"
  shows "meter_ground ax k w'"
  using assms(1)
proof cases
  case (tick t)
  show ?thesis
  proof (rule meter_groundI)
    show "list_all (known ax (mw_now w')) (mw_runs w')"
      using meter_groundD(4) [OF g] tick known_later by (auto simp: list_all_iff)
    show "cost_on (mw_rows w') (window_key (ax_tenant ax) (ax_subject ax) day) = 0" if "day_at (mw_now w') < day" "proper_day day" for day
      using meter_groundD(5) [OF g _ that(2)] that(1) tick(1) day_at_mono [OF tick(2)] by simp
  qed (use meter_groundD(1-3) [OF g] tick in simp_all)
next
  case (look n toks spent)
  have "known ax (mw_now w) (Looked (today_key ax w) spent)" by (auto simp: known_def today_key_def buildWindowKey_def)
  with look(1,2) meter_groundD [OF g] show ?thesis by (simp add: meter_ground_def)
next
  case (judge key spent)
  have "known ax (mw_now w) (Judged key)"
    using meter_groundD(4) [OF g] judge(2) by (auto simp: list_all_iff)
  with judge(1) meter_groundD [OF g] list_all_remove1 length_replaced [OF judge(2) meter_groundD(3) [OF g]] show ?thesis
    by (simp add: meter_ground_def)
next
  case (reserve key t)
  have "known ax (mw_now w) (Judged key)" using meter_groundD(4) [OF g] reserve(2) by (auto simp: list_all_iff)
  from known_key [OF this, of key] obtain day where day: "day \<le> day_at (mw_now w)" "key = window_key (ax_tenant ax) (ax_subject ax) day"
    by auto
  have "window_of key" unfolding day(2)
    by (rule own_key_window_of [OF names proper_day_le [OF meter_groundD(2) [OF g] day(1)]])
  with reserve(1) meter_groundD [OF g] list_all_remove1 length_replaced [OF reserve(2) meter_groundD(3) [OF g]] show ?thesis
    by (simp add: meter_ground_def wf_reserve on_reserve)
next
  case (spend spent toks usage)
  have key: "window_of (buildWindowKey (ax_tenant ax) (ax_subject ax) (mw_now w))"
    unfolding buildWindowKey_def by (rule own_key_window_of [OF names meter_groundD(2) [OF g]])
  have "window_key (ax_tenant ax) (ax_subject ax) day \<noteq> buildWindowKey (ax_tenant ax) (ax_subject ax) (mw_now w)"
    if "day_at (mw_now w) < day" "proper_day day" for day
    using that own_window [OF names that(2) meter_groundD(2) [OF g]] by (simp add: buildWindowKey_def)
  with key spend(1) meter_groundD [OF g] list_all_remove1 length_replaced [OF spend(2) meter_groundD(3) [OF g]] show ?thesis
    by (simp add: meter_ground_def wf_record on_record)
next
  case (leave run)
  with meter_groundD [OF g] list_all_remove1 length_replaced [OF leave(2) meter_groundD(3) [OF g]] show ?thesis
    by (simp add: meter_ground_def)
next
  case (other_reserve agent t)
  have "window_of (buildWindowKey (ax_tenant ax) agent t)" unfolding buildWindowKey_def
    by (rule own_key_window_of [OF names(1) other_reserve(3) proper_day_le [OF meter_groundD(2) [OF g] day_at_mono [OF other_reserve(4)]]])
  with other_reserve(1) meter_groundD [OF g] show ?thesis by (simp add: meter_ground_def wf_reserve on_reserve)
next
  case (other_spend agent t toks spent usage)
  have "window_of (buildWindowKey (ax_tenant ax) agent t)" unfolding buildWindowKey_def
    by (rule own_key_window_of [OF names(1) other_spend(3) proper_day_le [OF meter_groundD(2) [OF g] day_at_mono [OF other_spend(4)]]])
  with other_spend(1) meter_groundD [OF g] other_window [OF names other_spend(3,2)] show ?thesis
    by (simp add: meter_ground_def wf_record on_record buildWindowKey_def)
qed

lemma slots_step:
  assumes "meter_step ax k w w'" and g: "slots_bounded ax k w" and names: "plain_name (ax_tenant ax)" "plain_name (ax_subject ax)"
  shows "slots_bounded ax k w'"
  using assms(1)
proof cases
  case (look n toks spent)
  have n: "n = count_on (mw_rows w) (today_key ax w)" "n < ax_maxDispatch ax"
    using look(3,4) by (simp_all add: count_on_def quota_block_def split: if_splits)
  have "count_on (mw_rows w) (today_key ax w) + (1 + number p (mw_runs w)) \<le> ax_maxDispatch ax + int k - 1" for p
    using n number_bounds(2) [of p "mw_runs w"] look(2) by linarith
  with g look(1) show ?thesis unfolding slots_bounded_def Let_def by (auto simp: eq_commute [of "today_key ax w"])
next
  case (reserve key t)
  with g show ?thesis by (simp add: slots_bounded_def Let_def number_remove1 on_reserve)
next
  case (other_reserve agent t)
  with g other_window [OF names other_reserve(3,2)] show ?thesis
    by (simp add: slots_bounded_def on_reserve buildWindowKey_def Let_def)
next
  case (leave run)
  have "number p (remove1 run (mw_runs w)) \<le> number p (mw_runs w)" for p using leave(2) by (simp add: number_remove1)
  then have "c + number p (mw_runs w) < z \<Longrightarrow> c + number p (remove1 run (mw_runs w)) < z" for c p z
    by (meson add_left_mono le_less_trans)
  with g leave(1) show ?thesis by (simp add: slots_bounded_def Let_def)
qed (use g in \<open>simp_all add: slots_bounded_def Let_def number_remove1 on_record\<close>)

lemma money_step:
  assumes "meter_step ax k w w'" and m: "money_bounded ax k w" and g: "meter_ground ax k w"
    and names: "plain_name (ax_tenant ax)" "plain_name (ax_subject ax)" and e: "0 \<le> ax_estimate ax" and cap: "0 < ax_maxCost ax"
  shows "money_bounded ax k w'"
  using assms(1)
proof cases
  case (tick t)
  have "spending ax t (mw_rows w) \<le> spending ax (mw_now w) (mw_rows w)"
    by (rule spending_later [OF meter_groundD(1) [OF g] tick(2,3) meter_groundD(5) [OF g]])
  with m tick(1) show ?thesis by (simp add: money_bounded_def)
next
  case (look n toks spent)
  show ?thesis
  proof (cases "admitted ax (Looked (today_key ax w) spent)")
    case True
    have "spent = cost_on (mw_rows w) (today_key ax w)" using look(3) by (simp add: cost_on_def)
    with True have "spending ax (mw_now w) (mw_rows w) + ax_estimate ax \<le> ax_maxCost ax"
      using cap by (simp add: cost_blocked_def isEnforceableCap_def spending_def window_days_def today_key_def buildWindowKey_def)
    moreover have "number (admitted ax) (mw_runs w) * ax_estimate ax \<le> (int k - 1) * ax_estimate ax"
      using number_bounds(2) [of "admitted ax" "mw_runs w"] look(2) by (intro mult_right_mono e) linarith
    ultimately show ?thesis using True look(1) by (simp add: money_bounded_def distrib_right)
  next
    case False
    then have "number (admitted ax) (mw_runs w') = number (admitted ax) (mw_runs w)" using look(1) by auto
    with m look(1) show ?thesis by (simp add: money_bounded_def)
  qed
next
  case (judge key spent)
  let ?rest = "remove1 (Looked key spent) (mw_runs w)"
  show ?thesis
  proof (cases "admitted ax (Looked key spent)")
    case True
    with m judge(1,2) show ?thesis by (simp add: money_bounded_def number_remove1)
  next
    case False
    have "ax_window ax = Per_week"
      using False judge(3) by (cases "ax_window ax") (auto simp: judged_cost_def)
    with judge(3) have "spending ax (mw_now w) (mw_rows w) + ax_estimate ax \<le> ax_maxCost ax"
      using judged_spending [OF meter_groundD(1) [OF g] names meter_groundD(2) [OF g] cap] cap
      by (simp add: cost_blocked_def isEnforceableCap_def)
    moreover have "number (admitted ax) ?rest * ax_estimate ax \<le> (int k - 1) * ax_estimate ax"
      using number_bounds(2) [of "admitted ax" ?rest] length_replaced [OF judge(2) meter_groundD(3) [OF g]]
      by (intro mult_right_mono e) linarith
    ultimately show ?thesis using judge(1) by (simp add: money_bounded_def distrib_right)
  qed
next
  case (reserve key t)
  with m show ?thesis by (simp add: money_bounded_def number_remove1 spending_def on_reserve)
next
  case (spend spent toks usage)
  have "spending ax (mw_now w) (recordTokens (ax_tenant ax) (ax_subject ax) toks spent usage (mw_now w) (mw_rows w)) =
      spending ax (mw_now w) (mw_rows w) + max spent 0"
    by (rule spending_plus [OF names meter_groundD(2) [OF g] on_record(1)])
  with m spend e show ?thesis by (simp add: money_bounded_def number_remove1 left_diff_distrib)
next
  case (leave run)
  have "number (admitted ax) (remove1 run (mw_runs w)) * ax_estimate ax \<le> number (admitted ax) (mw_runs w) * ax_estimate ax"
    using leave(2) by (intro mult_right_mono e) (simp add: number_remove1)
  with m leave(1) show ?thesis by (simp add: money_bounded_def)
next
  case (other_reserve agent t)
  with m show ?thesis by (simp add: money_bounded_def spending_def on_reserve)
next
  case (other_spend agent t toks spent usage)
  have "spending ax now (recordTokens (ax_tenant ax) agent toks spent usage t (mw_rows w)) = spending ax now (mw_rows w)" for now
    using other_window [OF names other_spend(3,2)] by (intro spending_same) (simp add: on_record buildWindowKey_def)
  with m other_spend(1) show ?thesis by (simp add: money_bounded_def)
qed

text \<open>An agent that nothing has been metered for yet.\<close>

definition unmetered :: "authorized_execution \<Rightarrow> meter_world \<Rightarrow> bool" where
  "unmetered ax w \<longleftrightarrow> meter_wf (mw_rows w) \<and> proper_day (day_at (mw_now w)) \<and> mw_runs w = [] \<and>
     (\<forall>day. window_row (mw_rows w) (window_key (ax_tenant ax) (ax_subject ax) day) = None)"

text \<open>C16: The meter holds up to the number of overlapping executions. With at most \<open>k\<close> executions of an agent under way at any
  time, however their statements interleave with each other and with those of other agents, and across midnights, no day counts
  more than \<open>k - 1\<close> dispatches over the daily cap; and if no execution records more than its estimate, what the agent spends in its
  window exceeds the dollar cap by at most \<open>k - 1\<close> estimates. One execution at a time never exceeds either cap.\<close>
theorem meter_bounds:
  assumes "meter_steps ax k w0 w" and "unmetered ax w0" and "1 \<le> k"
    and "plain_name (ax_tenant ax)" and "plain_name (ax_subject ax)" and "0 \<le> ax_maxDispatch ax" and "0 \<le> ax_estimate ax"
  shows "(\<forall>day. count_on (mw_rows w) (window_key (ax_tenant ax) (ax_subject ax) day) \<le> ax_maxDispatch ax + (int k - 1)) \<and>
    (0 < ax_maxCost ax \<longrightarrow> spending ax (mw_now w) (mw_rows w) \<le> ax_maxCost ax + (int k - 1) * ax_estimate ax)"
proof -
  have none: "cost_on (mw_rows w0) (window_key (ax_tenant ax) (ax_subject ax) day) = 0"
    "count_on (mw_rows w0) (window_key (ax_tenant ax) (ax_subject ax) day) = 0" for day
    using assms(2) by (simp_all add: unmetered_def cost_on_def count_on_def counters_def)
  have "meter_ground ax k w \<and> slots_bounded ax k w \<and> (0 < ax_maxCost ax \<longrightarrow> money_bounded ax k w)"
    using assms(1)
  proof induction
    case base
    have "0 \<le> (int k - 1) * ax_estimate ax" using assms(3,7) by simp
    with none assms(2,3,6) show ?case
      by (simp add: meter_ground_def slots_bounded_def money_bounded_def unmetered_def spending_def Let_def)
  next
    case (step w w')
    with ground_step slots_step money_step assms(4,5,7) show ?case by blast
  qed
  then have bounded: "slots_bounded ax k w" "0 < ax_maxCost ax \<Longrightarrow> money_bounded ax k w" by simp_all
  show ?thesis
  proof (intro conjI allI impI)
    fix day
    let ?key = "window_key (ax_tenant ax) (ax_subject ax) day"
    from bounded(1) have "count_on (mw_rows w) ?key + number (waits_for ?key) (mw_runs w) \<le> ax_maxDispatch ax + int k - 1"
      unfolding slots_bounded_def Let_def by blast
    with number_bounds(1) [of "waits_for ?key" "mw_runs w"]
    show "count_on (mw_rows w) ?key \<le> ax_maxDispatch ax + (int k - 1)" by linarith
  next
    assume "0 < ax_maxCost ax"
    from bounded(2) [OF this] mult_nonneg_nonneg [OF number_bounds(1) [of "admitted ax" "mw_runs w"] assms(7)]
    show "spending ax (mw_now w) (mw_rows w) \<le> ax_maxCost ax + (int k - 1) * ax_estimate ax"
      unfolding money_bounded_def by linarith
  qed
qed

section \<open>The bounds are reached\<close>

abbreviation sample_metered :: authorized_execution where
  "sample_metered \<equiv> \<lparr>ax_tenant = ''t'', ax_subject = ''a'', ax_squad = ''s'', ax_project = None, ax_maxDispatch = 1, ax_maxTokens = 100,
     ax_maxCost = 10, ax_window = Per_day, ax_estimate = 10\<rparr>"

abbreviation sample_meter :: "meter_row list \<Rightarrow> run_stage list \<Rightarrow> meter_world" where
  "sample_meter rows runs \<equiv> \<lparr>mw_now = 600000000, mw_rows = rows, mw_runs = runs\<rparr>"

abbreviation sample_window :: string where
  "sample_window \<equiv> ''t:a:1970-01-07''"

abbreviation sample_row :: "int \<Rightarrow> int \<Rightarrow> meter_row" where
  "sample_row n spent \<equiv> \<lparr>mr_key = sample_window, mr_count = n, mr_tokens = 0, mr_cost = spent, mr_cache_read = 0, mr_cache_miss = 0,
     mr_output = 0, mr_start = 600000000\<rparr>"

lemma sample_date: "date_of 6 = (1970, 1, 7)"
proof -
  have "date_of (Suc (Suc (Suc (Suc (Suc (Suc 0)))))) = (1970, 1, 7)"
    unfolding date_of_Suc by (simp add: date_of_def month_days_def)
  then show ?thesis by (simp add: eval_nat_numeral)
qed

lemma sample_day: "day_at 600000000 = 6" "proper_day 6" "window_key ''t'' ''a'' 6 = sample_window"
  by (simp_all add: day_at_def DAY_MS_def proper_day_def sample_date window_key_def window_prefix_def isoDateUtc_def pad2_def digits_of.simps char_of_def bit_0)

text \<open>Two executions look at the meter together: both pass, and both caps are exceeded by the other one.\<close>

lemma sample_overlap: "meter_steps sample_metered 2 (sample_meter [] []) (sample_meter [sample_row 2 20] [])"
proof -
  have key: "today_key sample_metered (sample_meter rows runs) = sample_window"
    "buildWindowKey ''t'' ''a'' 600000000 = sample_window" for rows runs
    by (simp_all add: today_key_def buildWindowKey_def sample_day)
  let ?L = "Looked sample_window 0" and ?J = "Judged sample_window"
  have look: "meter_step sample_metered 2 (sample_meter [] runs) (sample_meter [] (?L # runs))" if "length runs < 2" for runs
    using meter_step.look [of "sample_meter [] runs" 2 sample_metered 0 0 0] that
    by (simp add: key window_row_def first_row_def counters_def quota_block_def)
  have judge: "meter_step sample_metered 2 (sample_meter [] runs) (sample_meter [] (?J # remove1 ?L runs))" if "?L \<in> set runs" for runs
    using meter_step.judge [of sample_window 0 "sample_meter [] runs" sample_metered 2] that
    by (simp add: cost_blocked_def judged_cost_def)
  have reserve: "meter_step sample_metered 2 (sample_meter rows runs) (sample_meter (reserve_slot sample_window 600000000 rows) (Calling # remove1 ?J runs))"
    if "?J \<in> set runs" for rows runs
    using meter_step.reserve [of sample_window "sample_meter rows runs" sample_metered 2 600000000] that by simp
  have spend: "meter_step sample_metered 2 (sample_meter [sample_row 2 n] (Calling # runs)) (sample_meter [sample_row 2 (n + 10)] runs)" for n runs
    using meter_step.spend [of "sample_meter [sample_row 2 n] (Calling # runs)" 10 sample_metered 2 0 None]
    by (simp add: recordTokens_def positive_def add_spend_def key exists_row_def)
  have "reserve_slot sample_window 600000000 [] = [sample_row 1 0]" "reserve_slot sample_window 600000000 [sample_row 1 0] = [sample_row 2 0]"
    by (simp_all add: reserve_slot_def exists_row_def)
  with look [of "[]"] look [of "[?L]"] judge [of "[?L, ?L]"] judge [of "[?J, ?L]"] reserve [of "[?J, ?J]" "[]"]
    reserve [of "[Calling, ?J]" "[sample_row 1 0]"] spend [of 0 "[Calling]"] spend [of 10 "[]"]
  show ?thesis by simp
qed

lemma sample_unmetered: "unmetered sample_metered (sample_meter [] [])"
  by (simp add: unmetered_def meter_wf_def sample_day window_row_def first_row_def)

lemma meter_bounds_witness:
  "(\<forall>day. count_on [sample_row 2 20] (window_key ''t'' ''a'' day) \<le> 2) \<and> count_on [sample_row 2 20] (window_key ''t'' ''a'' 6) = 2 \<and>
   spending sample_metered 600000000 [sample_row 2 20] \<le> 20 \<and> spending sample_metered 600000000 [sample_row 2 20] = 20"
proof -
  have "plain_name ''t'' \<and> plain_name ''a''" by code_simp
  moreover have "count_on [sample_row 2 20] (window_key ''t'' ''a'' 6) = 2" "spending sample_metered 600000000 [sample_row 2 20] = 20"
    by (simp_all add: spending_def window_days_def sample_day on_Cons)
  ultimately show ?thesis using meter_bounds [OF sample_overlap sample_unmetered] by simp
qed

lemma week_cost_exact_witness:
  "sumWeekCostMicroUsd ''t'' ''a'' 600000000 [sample_row 2 20] = 20 \<and> plain_name ''t'' \<and> plain_name ''a''"
proof -
  have names: "plain_name ''t''" "plain_name ''a''" by code_simp+
  have "window_of sample_window" using own_key_window_of [OF names sample_day(2)] by (simp add: sample_day)
  then have wf: "meter_wf [sample_row 2 20]" by (simp add: meter_wf_def)
  have "cost_on [sample_row 2 20] (window_key ''t'' ''a'' day) = (if day = 6 then 20 else 0)" if "day \<in> {0..6}" for day
    using that own_window [of sample_metered 6 day] names sample_day(2) proper_day_le [OF sample_day(2), of day] by (simp add: on_Cons sample_day)
  then show ?thesis using week_cost_exact [OF wf names, of 600000000] names by (simp add: sample_day)
qed

section \<open>What an execution records\<close>

text \<open>The estimate is priced by one table and the recorded cost by another. An execution on \<open>claude-opus-4\<close> that uses no more than its
  2048 output tokens records two and a half times its estimate, so the hypothesis of the bound on money fails for it and even a single
  execution exceeds the cap.\<close>

lemma estimate_below_cost:
  "cycleCostMicroUsd (Some ''claude-opus-4'') = 61440"
  "recordedCostMicroUsd (Some ''claude-opus-4'') (Some \<lparr>us_input = 0, us_output = 2048, us_cacheRead = None, us_cacheWrite = None\<rparr>) = 153600"
  by code_simp+

abbreviation sample_env :: meter_env where
  "sample_env \<equiv> \<lparr>me_tenant = ''t'', me_maxDispatch = None, me_maxTokens = None\<rparr>"

abbreviation ten_cents :: authorized_execution where
  "ten_cents \<equiv> \<lparr>ax_tenant = ''t'', ax_subject = ''a'', ax_squad = ''s'', ax_project = None, ax_maxDispatch = 200, ax_maxTokens = 200000,
     ax_maxCost = 100000, ax_window = Per_day, ax_estimate = 61440\<rparr>"

lemma cap_exceeded_alone:
  "buildAuthorizedExecution sample_env \<lparr>ma_id = ''a'', ma_squad = ''s'', ma_cap_cents = Some 10, ma_window = ''day''\<rparr> None
     (Some (cycleCostMicroUsd (Some ''claude-opus-4''))) = Inr ten_cents"
  "checkAndReserve (\<lambda>_. id) sample_env ten_cents 600000000 600000000 [] =
     ([sample_row 1 0], Inr (Meter_ok \<lparr>mk_windowKey = sample_window, mk_count = 1, mk_tokens = 0\<rparr>))"
  "cost_on (recordTokens ''t'' ''a'' 2048 153600 None 600000000 [sample_row 1 0]) sample_window = 153600"
  by (simp_all add: buildAuthorizedExecution_def buildAuthorizedMeterExecution_def estimate_below_cost or_else_def isEnforceableCap_def
    MICRO_USD_PER_CENT_def parseCap_def checkAndReserve_def Let_def buildWindowKey_def sample_day window_row_def first_row_def counters_def
    quota_block_def cost_blocked_def reserve_slot_def exists_row_def on_record on_Cons)

text \<open>The wait a refusal asks for is rounded down, so it ends up to a second before the window it waits for.\<close>

lemma retry_too_early: "day_at (1500 + 1000 * secondsUntilNextUtcMidnight 1500) = day_at 1500"
  by (simp add: secondsUntilNextUtcMidnight_def day_at_def DAY_MS_def)

text \<open>Models that the table does not list by name are priced no lower than any listed model of their family.\<close>

lemma unlisted_at_ceiling:
  assumes "find (\<lambda>(family, rate). prefix family m) FAMILY_CEILING_USD_PER_M = Some (family, rate)"
    and "map_of MODEL_RATE_USD_PER_M m = None" and "m \<noteq> []"
    and "(listed, cheap) \<in> set MODEL_RATE_USD_PER_M" and "prefix family listed"
  shows "cheap \<le> rateUsdPerMillion (Some m)"
proof -
  have "rateUsdPerMillion (Some m) = rate" using assms(1-3) by (simp add: rateUsdPerMillion_def)
  moreover have "(family, rate) \<in> set FAMILY_CEILING_USD_PER_M" using assms(1) by (auto simp: find_Some_iff in_set_conv_nth)
  moreover have "list_all (\<lambda>(family, rate). list_all (\<lambda>(listed, cheap). prefix family listed \<longrightarrow> cheap \<le> rate) MODEL_RATE_USD_PER_M) FAMILY_CEILING_USD_PER_M"
    by code_simp
  ultimately show ?thesis using assms(4,5) by (auto simp: list_all_iff)
qed

end
