(* ===== verification/Spec2Isabelle.thy ===== *)
theory Spec2Isabelle
  imports Visibility Task_Safety Flight_Dispatch Flight_Feed Approval_Expiry Stall_Watchdog Task_Execution Inbox_Safety Meter_Bounds
begin

text \<open>
  \<^bold>\<open>mupot: authority, tasks, messages and flights.\<close> mupot is a multi-tenant workspace for humans and agents,
  a Cloudflare worker over a SQLite database (D1). Members and agents hold capabilities on an
  organisation, its departments and squads; squads own tasks; a task may have a gate, a lane
  whose holder gives the verdict; a flight is one budgeted execution of a contract over some
  tasks; agents write to each other through durable inboxes. This development models the core that decides: who may act, how a
  task may move, how a message reaches its reader, and how a flight departs, lands and is reported. File names below are relative to \<^verbatim>\<open>src/src/\<close>.

  \<^bold>\<open>Conventions.\<close> A table is the list of its rows and a statement is one function on the tables;
  a query is \<open>first_row\<close>, \<open>filter\<close> or \<open>exists_row\<close>, and SQL conditions on nullable columns use the
  three-valued logic of \<open>Prelude\<close>. Strings are lists of code units below U+0100, JSON is the datatype
  \<open>json\<close>, instants and money are integers, the readiness gate's doubles are real numbers. A thrown error
  is the left side of a sum or a constructor of an error datatype. Code that awaits several
  statements holds no transaction: where the state may change in between, the definition
  takes one snapshot per statement (\<open>createFlight\<close>, \<open>dispatchFlight\<close>) or a function for what
  others do meanwhile. Fresh ids, times, trigger verdicts, the event bus and whether a later statement
  throws are arguments. No fuel is used: every recursion is structural or has a termination
  proof.

  \<^bold>\<open>Theories, in the order of their imports.\<close>
  \<^item> \<open>Prelude\<close>: lemma collections, JavaScript strings, JSON and its printing, SQL conditions,
    selections by key, chunks of bound parameters (\<^verbatim>\<open>lib/d1-in-list.ts\<close>).
  \<^item> \<open>Auth_Types\<close>: \<^verbatim>\<open>types.ts\<close> and \<^verbatim>\<open>auth/attached-ceiling.ts\<close>. \<open>Capability\<close>:
    \<^verbatim>\<open>auth/capability.ts\<close>. Home squads are isolated from every inherited grant, the middleware
    is decided on every branch, the bulk loaders and ceilings equal the single ones, and the SQL
    fragments mirror the checks, with the one case in which they do not.
  \<^item> \<open>Visibility\<close>: \<^verbatim>\<open>projects/readable-squads.ts\<close> and \<^verbatim>\<open>tasks/visibility.ts\<close>. The
    pagination terminates and is complete, and listing and point read agree.
  \<^item> \<open>Gates\<close>: \<^verbatim>\<open>gates/{lanes,principal,grants,own-lane,dyad}.ts\<close>. The last operation decides a
    grant, owner resolution agrees with the liveness check, a dyad default is an independent peer.
  \<^item> \<open>Security_Bar\<close>: \<^verbatim>\<open>policy/{registry,bar,admin}.ts\<close>. A level is lowered only in two acts over
    any reachable history, a relaxation is explicit and audited, a raise takes effect at once.
  \<^item> \<open>Task_Rules\<close>, \<open>Task_Update\<close>, \<open>Task_Patch\<close>, \<open>Task_Safety\<close>: \<^verbatim>\<open>tasks/service.ts\<close>,
    \<^verbatim>\<open>tasks/assignee.ts\<close>, \<^verbatim>\<open>tasks/ranking.ts\<close> and the \<open>PATCH /:id\<close> handler of
    \<^verbatim>\<open>tasks/index.ts\<close>. Over any sequence of requests an agent cannot close its own task, statuses
    move along the allowed edges, archived rows and assignees in review are frozen, and every
    change needs member authority. The ranking sorts by status, priority, age and id, an order stated apart from its tables, and does not
    depend on the order of reading; the comparator is the locale \<open>comparator\<close>, interpreted on \<open>rank_le\<close>.
  \<^item> \<open>Attach_Live\<close>: when an attached session is live, \<^verbatim>\<open>members/attach-live-sql.ts\<close>,
    \<^verbatim>\<open>members/attach-designated.ts\<close>, \<open>findLiveAttachment\<close> and \<^verbatim>\<open>auth/attached-gate.ts\<close>. The request's read
    and the chain inside the verdict's write are equivalent under the schema's keys.
  \<^item> \<open>Verdict_Independence\<close>: \<^verbatim>\<open>tasks/verdict-independence.ts\<close>, who is a party to a task and who acts
    for one; the batched read equals the single one. \<open>Verdict_Write\<close>: \<^verbatim>\<open>tasks/verdict-binding.ts\<close> and the
    verdict's write in \<^verbatim>\<open>tasks/service.ts\<close>: it is atomic, the decider is independent at the tables of
    the write, an owner's verdict carries a review. \<open>Verdict_Gate\<close>: the shared pre-check and the
    route in \<^verbatim>\<open>tasks/index.ts\<close>: pre-check and write agree, an override is always on record.
  \<^item> \<open>Execution_Brakes\<close>: \<^verbatim>\<open>agents/execution-brake-sql.ts\<close>, \<^verbatim>\<open>agents/execution-brakes.ts\<close>,
    \<^verbatim>\<open>agents/execution-release-policy.ts\<close> and the three tools of \<^verbatim>\<open>mcp/execution-pause.ts\<close>: pauses, the
    counter of refused attempts, the hold and its one hand-over, its release. Only a human on an
    ordinary bearer releases, and a release makes the task executable again.
  \<^item> \<open>Execution_Meter\<close>: \<^verbatim>\<open>agents/meter.ts\<close>, \<^verbatim>\<open>agents/cost.ts\<close> and \<^verbatim>\<open>economy/prices.ts\<close>, what a model call costs and whether an
    agent may make one. \<open>Meter_Bounds\<close>: \<open>meter_step\<close> is one statement of one of at most \<open>k\<close> overlapping executions, and
    \<open>checkAndReserve\<close> is a run of such steps; dispatches and spending exceed their caps by at most \<open>k - 1\<close> dispatches and
    estimates, and the weekly sum by text range selects the right windows.
  \<^item> \<open>Task_Execution\<close>: \<^verbatim>\<open>agents/execute.ts\<close>, \<^verbatim>\<open>agents/content-intent.ts\<close>: an agent claims a task,
    does it and lands it. Refused attempts are bounded by the ceiling, a held task is not run,
    and a run that does its work ends in \<open>review\<close> under a gate, with a submission or, for a publishing request, a proposal. What every step of a run keeps is the
    locale \<open>kept\<close>, interpreted on the counter and on the hold.
  \<^item> \<open>Agent_Inbox\<close>: \<^verbatim>\<open>agents/messages.ts\<close> with \<^verbatim>\<open>agents/reply-expectation.ts\<close>, \<^verbatim>\<open>agents/system-senders.ts\<close> and the
    write of the fence in \<^verbatim>\<open>mcp/index.ts\<close>: one definition per statement, composed into the nine operations on an
    inbox; and the statements of other files that write inbox rows, the two claims and the operator's lease reset of
    \<^verbatim>\<open>tasks/runtime-receipts.ts\<close>, the stale doorbells of \<^verbatim>\<open>agents/assignment-wake.ts\<close>, the audit row of \<^verbatim>\<open>channels/index.ts\<close>
    and the marks of \<^verbatim>\<open>members/attached-handled.ts\<close>. \<open>Inbox_Safety\<close>: \<open>inbox_op\<close> is one atomic step by anyone (a statement, or
    a batch) through any of these, and \<open>run_ops\<close> any sequence of them. \<open>inbox_wf\<close>, the keys of the tables, is invariant. The locale \<open>stable\<close> states a fact that every
    step keeps, and is interpreted on a held message, a settled receipt, a read message, the receipt of an attempt and
    the one message under a request id. From it: a leased message is nobody else's, deliveries are bounded, an attempt
    may be repeated and is acknowledged once, a message is sent once, a fenced inbox is sealed.
  \<^item> \<open>Approval_Expiry\<close>: \<^verbatim>\<open>gates/approval-expiry.ts\<close>. \<open>ask_step\<close> is one verdict, expiry, notice or cap
    reset by anyone; every ask has at most one answer over any run of them. An undisturbed sweep does
    what its dry run reports and its remainder is true. \<open>Stall_Watchdog\<close>:
    \<^verbatim>\<open>gates/stall-watchdog.ts\<close>, whose re-wakes are bounded over any history of overlapping claims.
  \<^item> \<open>Flight_Meta\<close>: \<^verbatim>\<open>flight/meta.ts\<close>, \<^verbatim>\<open>flight/meta-sql.ts\<close>. The parser of contracts has a
    normal form and bounds, equals its SQL mirror, and references are valid exactly when they
    resolve. The mirror leaves out what the parser lets through and SQLite does not: revisions of \<open>10\<^sup>21\<close> and more, and NUL characters.
  \<^item> \<open>Flight_Clearance\<close>: \<^verbatim>\<open>flight/clearance.ts\<close>, \<^verbatim>\<open>flight/cancelled.ts\<close>, the live reads of
    \<^verbatim>\<open>flight/service.ts\<close>. The locale \<open>live_read\<close> states what clearance needs of a read of the
    live flights; it is interpreted on the scoped and on the full read, and clearance decides
    collisions exactly. The SQL outcome filter is the displayed outcome.
  \<^item> \<open>Flight_Service\<close>, \<open>Flight_Safety\<close>: the flight record of \<^verbatim>\<open>flight/service.ts\<close>. \<open>flight_step\<close>
    is one operation by any caller; the life cycle is an invariant of every run, creation is atomic,
    a governed landing is sound, comparing the claimed cost alone with the budget, and the reads that explain a refusal agree with the statement
    that refused.
  \<^item> \<open>Harness_Capacity\<close>: \<^verbatim>\<open>harness/capacity.ts\<close>, a refinement of a dictionary of newest
    observations.
  \<^item> \<open>Flight_Dispatch\<close>: \<^verbatim>\<open>flight/preflight.ts\<close>, \<^verbatim>\<open>flight/rebooking.ts\<close>,
    \<^verbatim>\<open>flight/dispatch.ts\<close>. The gate fails closed, a retry finds its original, a dispatch is answered
    by both gates, and its verdict reaches the booked row unless another request took it out of preflight first.
  \<^item> \<open>Flight_Feed\<close>: the outbox and the listings of \<^verbatim>\<open>flight/service.ts\<close>. A flush settles exactly
    its batch, and the outcome feed loses nothing behind its cursor within its cap.

  \<^bold>\<open>How the parts interact.\<close> The task handler asks the capability core for authority, the bar for
  relaxations, the gates for lanes and owners; the governed landing reads tasks and their
  verdicts as the task service writes them; the verdict's write asks the gates, the attached session
  and the independence rule again inside its statement; the expiry sweep competes with it for the
  same rows; dispatch composes clearance, creation and the capacity
  advisories; the feed and the outbox read what landing wrote. An inbox is shared by its agent's plain readers, the clients that
  lease under an attempt, and the signed consumer; the fence and the lease of a row keep them apart. An execution asks the meter
  before it calls the model and records what the call cost.

  \<^bold>\<open>Bounds.\<close> The limits are the code's own: 90 bound parameters per chunk, 2000 live flights per
  clearance read, 1000 rows per tie group, 100 receipts per flush, 500 rows per page, 14 days for
  an ask, 50 to 200 asks per sweep, 50 stalled reviews per watchdog run. Three refused
  attempts hold a task. A message is delivered five times, a lease lasts one second to an hour, an acknowledgement names 100
  messages at most, an inbox holds 1000 unread ones (an argument of the insert). \<open>inbox_race\<close> is what others do between the statements of an inbox operation,
  \<open>quiet\<close> that they do nothing; \<open>whole\<close> says of a run that no request comes between the two statements of a plain lease,
  without which the bound on deliveries does not hold; an operator's reset (\<open>is_reset\<close>) starts the count again and one that overrides a
  live lease (\<open>is_override\<close>) ends it, so the properties that count deliveries or rest on a lease speak of runs without them. The bound on money is under the hypothesis that an
  execution records no more than its estimate, which the two price tables do not guarantee (\<open>cap_exceeded_alone\<close>); windows are
  those of days before the year 10000. Between the database accesses of one execution
  \<open>xw_race\<close> is anything others do; a theorem that needs more says what it needs of it:
  \<open>counter_grows\<close> (nobody sets the counter back), \<open>hold_kept\<close> (nobody releases), or no interference at
  all for the run that lands.

  \<^bold>\<open>Not modelled.\<close> Rendering (dashboard, board), HTTP and MCP argument plumbing, cryptography and
  sessions, third-party adapters, model calls, host-side daemons, generated schema and migrations. In
  the handlers that are modelled, the evidence check of \<^verbatim>\<open>tasks/evidence.ts\<close>, the execution hold
  as the task handler consults it, the department kernel and the model of an execution and, in a run, the answer of the meter, the time-boxed elevation of
  \<^verbatim>\<open>auth/elevation.ts\<close> and the verdicts of the schema's triggers are arguments, so the theorems hold
  whatever they answer. Dispatch reads clearance outside a transaction, as its documentation says, so
  no theorem claims that two concurrent dispatches exclude each other.

  What the claims and the reset of runtime receipts ask of tasks, dispatches and receipts is an argument of each. Of a send, the access to its project, the live token of its seat and the optional fences inside the insert are
  arguments; resolving a recipient's name, the signed transport's own verification and proof messages are left out, and no database call fails.

  After a written verdict the bus event, the receipt chain and the nudge of a workflow are left out:
  they change none of the tables the verdict reads.

  \<^bold>\<open>Plan.\<close> Next are the flight watchdog, task creation, the task evidence check, the rest of runtime
  receipts (of which only the writes to inbox rows are here), and then the flight spine and routines above them.
\<close>

end
